(* ===== verification/Prelude.thy ===== *)
theory Prelude
  imports Main "HOL-Library.Word" "HOL-Library.AList" "HOL-Library.Multiset"
begin

text \<open>
  The vocabulary every other theory uses.

  \<^item> Machine types: the Rust integer types as words of their width.
  \<^item> Effects: an async method of the program is a function from the state it owns to an
    outcome and the new state. The four outcomes are a normal result, an error that the
    question-mark operator propagates, a panic, and running out of the fuel that a loop of the
    model was given (the loop had not returned yet). The state survives every outcome, because
    the program keeps what it changed before an error.
  \<^item> \<open>step_rel\<close>: the interface of a reflexive and transitive relation between the state
    before and after a computation, with the rules that lift it over the monad. Invariants,
    frame conditions and monotonicity facts of the components are instances of it.
  \<^item> \<open>hash_map\<close>: the interface of \<open>std::collections::HashMap\<close>, and its
    implementation by association lists.
\<close>

unbundle bit_operations_syntax

section \<open>Machine types\<close>

type_synonym byte = "8 word"
type_synonym bytes = "8 word list"
type_synonym i32 = "32 word"
type_synonym u32 = "32 word"
type_synonym i64 = "64 word"
type_synonym u64 = "64 word"

section \<open>Outcomes and stateful computations\<close>

datatype error =
    NotAnError                \<comment> \<open>\<open>AppError::NotAnError\<close>: a deliberate end of the connection\<close>
  | Error string              \<comment> \<open>an \<open>anyhow!\<close> error, by the fixed part of its message\<close>
  | IoError                   \<comment> \<open>\<open>std::io::Error\<close>\<close>
  | DecodeError               \<comment> \<open>\<open>prost::DecodeError\<close>\<close>
  | Utf8Error                 \<comment> \<open>\<open>std::str::Utf8Error\<close>\<close>

datatype 'a outcome = Done 'a | Fail error | Panic string | NoFuel

type_synonym ('s, 'a) io = "'s \<Rightarrow> 'a outcome \<times> 's"

definition ret :: "'a \<Rightarrow> ('s, 'a) io" where
  "ret a s = (Done a, s)"

definition fail :: "error \<Rightarrow> ('s, 'a) io" where
  "fail e s = (Fail e, s)"

definition panic :: "string \<Rightarrow> ('s, 'a) io" where
  "panic p s = (Panic p, s)"

definition no_fuel :: "('s, 'a) io" where
  "no_fuel s = (NoFuel, s)"

definition bind :: "('s, 'a) io \<Rightarrow> ('a \<Rightarrow> ('s, 'b) io) \<Rightarrow> ('s, 'b) io" where
  "bind m f s = (case m s of
     (Done a, t) \<Rightarrow> f a t
   | (Fail e, t) \<Rightarrow> (Fail e, t)
   | (Panic p, t) \<Rightarrow> (Panic p, t)
   | (NoFuel, t) \<Rightarrow> (NoFuel, t))"

text \<open>Sequencing of a computation without a result.\<close>

definition andthen :: "('s, unit) io \<Rightarrow> ('s, 'b) io \<Rightarrow> ('s, 'b) io" where
  "andthen m k = bind m (\<lambda>_. k)"

definition get :: "('s \<Rightarrow> 'a) \<Rightarrow> ('s, 'a) io" where
  "get f s = (Done (f s), s)"

definition modify :: "('s \<Rightarrow> 's) \<Rightarrow> ('s, unit) io" where
  "modify f s = (Done (), f s)"

text \<open>\<open>opt.ok_or_else(..)?\<close>, \<open>opt.unwrap()\<close> and \<open>if c { return Err(..) }\<close>.\<close>

definition ok_or :: "error \<Rightarrow> 'a option \<Rightarrow> ('s, 'a) io" where
  "ok_or e x = (case x of None \<Rightarrow> fail e | Some a \<Rightarrow> ret a)"

definition unwrap :: "string \<Rightarrow> 'a option \<Rightarrow> ('s, 'a) io" where
  "unwrap p x = (case x of None \<Rightarrow> panic p | Some a \<Rightarrow> ret a)"

definition fail_if :: "bool \<Rightarrow> error \<Rightarrow> ('s, unit) io" where
  "fail_if c e = (if c then fail e else ret ())"

text \<open>A pure fallible function used inside a stateful one.\<close>

definition lift_outcome :: "'a outcome \<Rightarrow> ('s, 'a) io" where
  "lift_outcome r s = (r, s)"

text \<open>The same for pure fallible functions.\<close>

definition obind :: "'a outcome \<Rightarrow> ('a \<Rightarrow> 'b outcome) \<Rightarrow> 'b outcome" where
  "obind r f = (case r of Done a \<Rightarrow> f a | Fail e \<Rightarrow> Fail e | Panic p \<Rightarrow> Panic p | NoFuel \<Rightarrow> NoFuel)"

definition o_or :: "error \<Rightarrow> 'a option \<Rightarrow> 'a outcome" where
  "o_or e x = (case x of None \<Rightarrow> Fail e | Some a \<Rightarrow> Done a)"

definition o_unwrap :: "string \<Rightarrow> 'a option \<Rightarrow> 'a outcome" where
  "o_unwrap p x = (case x of None \<Rightarrow> Panic p | Some a \<Rightarrow> Done a)"

lemma obind_simps [simp]:
  "obind (Done a) f = f a" "obind (Fail e) f = Fail e"
  "obind (Panic p) f = Panic p" "obind NoFuel f = NoFuel"
  by (simp_all add: obind_def)

lemma o_or_simps [simp]: "o_or e None = Fail e" "o_or e (Some a) = Done a"
  and o_unwrap_simps [simp]: "o_unwrap p None = Panic p" "o_unwrap p (Some a) = Done a"
  by (simp_all add: o_or_def o_unwrap_def)

lemma obind_eq_Done: "obind r f = Done b \<longleftrightarrow> (\<exists>a. r = Done a \<and> f a = Done b)"
  by (cases r) simp_all

lemma o_or_eq_Done: "o_or e x = Done a \<longleftrightarrow> x = Some a"
  and o_unwrap_eq_Done: "o_unwrap p x = Done a \<longleftrightarrow> x = Some a"
  by (cases x; simp)+

fun for_each :: "'a list \<Rightarrow> ('a \<Rightarrow> ('s, unit) io) \<Rightarrow> ('s, unit) io" where
  "for_each [] f = ret ()"
| "for_each (x # xs) f = bind (f x) (\<lambda>_. for_each xs f)"

subsection \<open>Execution by rewriting\<close>

named_theorems exec \<open>equations that run a computation on a given state\<close>

lemma ret_exec [exec]: "ret a s = (Done a, s)"
  by (simp add: ret_def)

lemma fail_exec [exec]: "fail e s = (Fail e, s)"
  by (simp add: fail_def)

lemma panic_exec [exec]: "panic p s = (Panic p, s)"
  by (simp add: panic_def)

lemma no_fuel_exec [exec]: "no_fuel s = (NoFuel, s)"
  by (simp add: no_fuel_def)

lemma get_exec [exec]: "get f s = (Done (f s), s)"
  by (simp add: get_def)

lemma modify_exec [exec]: "modify f s = (Done (), f s)"
  by (simp add: modify_def)

lemma lift_outcome_exec [exec]: "lift_outcome r s = (r, s)"
  by (simp add: lift_outcome_def)

lemma ok_or_None [exec]: "ok_or e None s = (Fail e, s)"
  and ok_or_Some [exec]: "ok_or e (Some a) s = (Done a, s)"
  by (simp_all add: ok_or_def exec)

lemma unwrap_None [exec]: "unwrap p None s = (Panic p, s)"
  and unwrap_Some [exec]: "unwrap p (Some a) s = (Done a, s)"
  by (simp_all add: unwrap_def exec)

lemma fail_if_exec [exec]: "fail_if c e s = (if c then (Fail e, s) else (Done (), s))"
  by (simp add: fail_if_def exec)

lemma bind_Done [exec]: "m s = (Done a, t) \<Longrightarrow> bind m f s = f a t"
  and bind_Fail [exec]: "m s = (Fail e, t) \<Longrightarrow> bind m f s = (Fail e, t)"
  and bind_Panic [exec]: "m s = (Panic p, t) \<Longrightarrow> bind m f s = (Panic p, t)"
  and bind_NoFuel [exec]: "m s = (NoFuel, t) \<Longrightarrow> bind m f s = (NoFuel, t)"
  by (simp_all add: bind_def)

lemma andthen_Done [exec]: "m s = (Done (), t) \<Longrightarrow> andthen m k s = k t"
  and andthen_Fail [exec]: "m s = (Fail e, t) \<Longrightarrow> andthen m k s = (Fail e, t)"
  and andthen_Panic [exec]: "m s = (Panic p, t) \<Longrightarrow> andthen m k s = (Panic p, t)"
  and andthen_NoFuel [exec]: "m s = (NoFuel, t) \<Longrightarrow> andthen m k s = (NoFuel, t)"
  by (simp_all add: andthen_def exec)

lemma bind_get [exec]: "bind (get g) f s = f (g s) s"
  and bind_ret [exec]: "bind (ret a) f s = f a s"
  and andthen_modify [exec]: "andthen (modify h) k s = k (h s)"
  and andthen_ret [exec]: "andthen (ret ()) k s = k s"
  by (simp_all add: andthen_def bind_def exec)

lemma bind_ok_or [exec]:
  "bind (ok_or e x) f s = (case x of None \<Rightarrow> (Fail e, s) | Some a \<Rightarrow> f a s)"
  and bind_unwrap [exec]:
  "bind (unwrap p x) f s = (case x of None \<Rightarrow> (Panic p, s) | Some a \<Rightarrow> f a s)"
  by (simp_all add: bind_def ok_or_def unwrap_def exec split: option.split)

lemma bind_get_ok_or [exec]:
  "bind (bind (get g) (ok_or e)) f s = (case g s of None \<Rightarrow> (Fail e, s) | Some a \<Rightarrow> f a s)"
  and bind_get_unwrap [exec]:
  "bind (bind (get g) (unwrap p)) f s = (case g s of None \<Rightarrow> (Panic p, s) | Some a \<Rightarrow> f a s)"
  by (simp_all add: bind_def get_def ok_or_def unwrap_def exec split: option.split)

lemma andthen_fail_if [exec]:
  "andthen (fail_if c e) k s = (if c then (Fail e, s) else k s)"
  by (simp add: andthen_def bind_def fail_if_exec)

text \<open>Inversion: a sequence that returned ran both parts.\<close>

lemma bind_eq_Done:
  "bind m f s = (Done b, u) \<longleftrightarrow> (\<exists>a t. m s = (Done a, t) \<and> f a t = (Done b, u))"
  by (auto simp: bind_def split: prod.splits outcome.splits)

lemma andthen_eq_Done:
  "andthen m k s = (Done b, u) \<longleftrightarrow> (\<exists>t. m s = (Done (), t) \<and> k t = (Done b, u))"
  by (auto simp: andthen_def bind_eq_Done)

lemma fail_if_eq_Done: "fail_if c e s = (Done b, t) \<longleftrightarrow> \<not> c \<and> t = s"
  by (auto simp: fail_if_exec)

lemma ok_or_eq_Done: "ok_or e x s = (Done a, t) \<longleftrightarrow> x = Some a \<and> t = s"
  by (cases x) (auto simp: exec)

lemma unwrap_eq_Done: "unwrap p x s = (Done a, t) \<longleftrightarrow> x = Some a \<and> t = s"
  by (cases x) (auto simp: exec)

lemmas eq_Done = bind_eq_Done andthen_eq_Done fail_if_eq_Done ok_or_eq_Done unwrap_eq_Done

text \<open>The monad laws, so that a call can be re-associated to match a lemma about its prefix.\<close>

lemma bind_ret_right: "bind m ret = m"
  by (rule ext) (auto simp: bind_def ret_def split: prod.splits outcome.splits)

lemma bind_assoc: "bind (bind m f) g = bind m (\<lambda>x. bind (f x) g)"
  by (rule ext) (auto simp: bind_def split: prod.splits outcome.splits)

lemma for_each_append:
  "for_each (xs @ ys) f = bind (for_each xs f) (\<lambda>_. for_each ys f)"
  by (induction xs) (auto simp: bind_assoc bind_def ret_def split: prod.splits outcome.splits)

section \<open>Relations between the state before and after\<close>

named_theorems within_rules \<open>rules that show a computation stays within a relation\<close>

definition within :: "('s \<Rightarrow> 's \<Rightarrow> bool) \<Rightarrow> ('s, 'a) io \<Rightarrow> bool" where
  "within R m \<longleftrightarrow> (\<forall>s. R s (snd (m s)))"

lemma withinD: "within R m \<Longrightarrow> m s = (r, t) \<Longrightarrow> R s t"
  by (metis within_def snd_conv)

lemma withinI: "(\<And>s r t. m s = (r, t) \<Longrightarrow> R s t) \<Longrightarrow> within R m"
  by (metis within_def surjective_pairing)

lemma within_mono: "within R m \<Longrightarrow> (\<And>s t. R s t \<Longrightarrow> S s t) \<Longrightarrow> within S m"
  by (simp add: within_def)

locale step_rel =
  fixes R :: "'s \<Rightarrow> 's \<Rightarrow> bool"
  assumes refl: "R s s"
    and trans: "R s t \<Longrightarrow> R t u \<Longrightarrow> R s u"
begin

lemma within_ret [within_rules]: "within R (ret a)"
  and within_fail [within_rules]: "within R (fail e)"
  and within_panic [within_rules]: "within R (panic p)"
  and within_no_fuel [within_rules]: "within R no_fuel"
  and within_get [within_rules]: "within R (get f)"
  and within_lift [within_rules]: "within R (lift_outcome r)"
  by (simp_all add: within_def exec refl)

lemma within_ok_or [within_rules]: "within R (ok_or e x)"
  and within_unwrap [within_rules]: "within R (unwrap p x)"
  and within_fail_if [within_rules]: "within R (fail_if c e)"
  by (auto simp: within_def ok_or_def unwrap_def exec refl split: option.split)

lemma within_bind [within_rules]:
  "within R m \<Longrightarrow> (\<And>a. within R (f a)) \<Longrightarrow> within R (bind m f)"
  unfolding within_def bind_def
  by (auto split: prod.split outcome.split intro: trans dest: spec) (metis trans snd_conv)+

lemma within_andthen [within_rules]:
  "within R m \<Longrightarrow> within R k \<Longrightarrow> within R (andthen m k)"
  unfolding andthen_def by (rule within_bind)

lemma within_if [within_rules]:
  "(c \<Longrightarrow> within R m) \<Longrightarrow> (\<not> c \<Longrightarrow> within R k) \<Longrightarrow> within R (if c then m else k)"
  by simp

lemma within_option [within_rules]:
  "(x = None \<Longrightarrow> within R m) \<Longrightarrow> (\<And>a. x = Some a \<Longrightarrow> within R (f a))
     \<Longrightarrow> within R (case x of None \<Rightarrow> m | Some a \<Rightarrow> f a)"
  by (cases x) auto

lemma within_list [within_rules]:
  "(xs = [] \<Longrightarrow> within R m) \<Longrightarrow> (\<And>y ys. xs = y # ys \<Longrightarrow> within R (f y ys))
     \<Longrightarrow> within R (case xs of [] \<Rightarrow> m | y # ys \<Rightarrow> f y ys)"
  by (cases xs) auto

lemma within_for_each [within_rules]:
  "(\<And>x. x \<in> set xs \<Longrightarrow> within R (f x)) \<Longrightarrow> within R (for_each xs f)"
  by (induction xs) (auto intro!: within_rules)

lemma within_modify: "(\<And>s. R s (f s)) \<Longrightarrow> within R (modify f)"
  by (simp add: within_def exec)

lemma within_bind_get:
  "(\<And>s. R s (snd (g (f s) s))) \<Longrightarrow> within R (bind (get f) g)"
  by (simp add: within_def exec)

end

text \<open>
  Keeping an invariant, leaving a part of the state unchanged and only appending to a log are
  such relations.
\<close>

definition keeps_rel :: "('s \<Rightarrow> bool) \<Rightarrow> 's \<Rightarrow> 's \<Rightarrow> bool" where
  "keeps_rel I s t \<longleftrightarrow> (I s \<longrightarrow> I t)"

definition same_rel :: "('s \<Rightarrow> 'a) \<Rightarrow> 's \<Rightarrow> 's \<Rightarrow> bool" where
  "same_rel f s t \<longleftrightarrow> f t = f s"

definition grows :: "('s \<Rightarrow> 'a list) \<Rightarrow> 's \<Rightarrow> 's \<Rightarrow> bool" where
  "grows f s t \<longleftrightarrow> (\<exists>xs. f t = f s @ xs)"

interpretation grows: step_rel "grows f"
  by unfold_locales (auto simp: grows_def)

interpretation keeps: step_rel "keeps_rel I"
  by unfold_locales (auto simp: keeps_rel_def)

interpretation same: step_rel "same_rel f"
  by unfold_locales (auto simp: same_rel_def)

text \<open>
  One step of a relation that need not be transitive, before and after computations that
  stutter: the shape of a handler that makes at most one move of a state machine.
\<close>

locale one_step = step_rel P for P :: "'s \<Rightarrow> 's \<Rightarrow> bool" +
  fixes R :: "'s \<Rightarrow> 's \<Rightarrow> bool"
  assumes stutter: "P s t \<Longrightarrow> R s t"
    and before: "P s t \<Longrightarrow> R t u \<Longrightarrow> R s u"
    and after: "R s t \<Longrightarrow> P t u \<Longrightarrow> R s u"
begin

lemma still: "within P m \<Longrightarrow> within R m"
  by (simp add: within_def stutter)

lemma pre_bind: "within P m \<Longrightarrow> (\<And>a. within R (g a)) \<Longrightarrow> within R (bind m g)"
  unfolding within_def bind_def
  by (auto split: prod.split outcome.split intro: stutter before) (metis before stutter snd_conv)+

lemma post_bind: "within R m \<Longrightarrow> (\<And>a. within P (g a)) \<Longrightarrow> within R (bind m g)"
  unfolding within_def bind_def
  by (auto split: prod.split outcome.split intro: after) (metis after snd_conv)+

lemma pre_andthen: "within P m \<Longrightarrow> within R k \<Longrightarrow> within R (andthen m k)"
  and post_andthen: "within R m \<Longrightarrow> within P k \<Longrightarrow> within R (andthen m k)"
  unfolding andthen_def by (simp_all add: pre_bind post_bind)

lemma if_move: "(c \<Longrightarrow> within R m) \<Longrightarrow> (\<not> c \<Longrightarrow> within R k) \<Longrightarrow> within R (if c then m else k)"
  by simp

lemma option_move:
  "(x = None \<Longrightarrow> within R m) \<Longrightarrow> (\<And>a. x = Some a \<Longrightarrow> within R (f a))
     \<Longrightarrow> within R (case x of None \<Rightarrow> m | Some a \<Rightarrow> f a)"
  by (cases x) auto

lemma move_get: "(\<And>s. R s (snd (g (f s) s))) \<Longrightarrow> within R (bind (get f) g)"
  by (simp add: within_def exec)

end

section \<open>Computations that return\<close>

named_theorems returns_rules \<open>rules that show a computation never runs out of fuel\<close>

definition returns :: "('s, 'a) io \<Rightarrow> bool" where
  "returns m \<longleftrightarrow> (\<forall>s. fst (m s) \<noteq> NoFuel)"

lemma returnsD: "returns m \<Longrightarrow> fst (m s) \<noteq> NoFuel"
  by (simp add: returns_def)

lemma returns_basic [returns_rules]:
  "returns (ret a)" "returns (fail e)" "returns (panic p)" "returns (get f)" "returns (modify g)"
  "returns (ok_or e x)" "returns (unwrap p x)" "returns (fail_if c e)"
  by (auto simp: returns_def exec ok_or_def unwrap_def split: option.split)

lemma returns_bind [returns_rules]: "returns m \<Longrightarrow> (\<And>a. returns (f a)) \<Longrightarrow> returns (bind m f)"
  unfolding returns_def bind_def by (auto split: prod.split outcome.split) (metis fst_conv)+

lemma returns_andthen [returns_rules]: "returns m \<Longrightarrow> returns k \<Longrightarrow> returns (andthen m k)"
  unfolding andthen_def by (rule returns_bind)

lemma returns_if [returns_rules]:
  "(c \<Longrightarrow> returns m) \<Longrightarrow> (\<not> c \<Longrightarrow> returns k) \<Longrightarrow> returns (if c then m else k)"
  by simp

lemma returns_option [returns_rules]:
  "(x = None \<Longrightarrow> returns m) \<Longrightarrow> (\<And>a. x = Some a \<Longrightarrow> returns (f a))
     \<Longrightarrow> returns (case x of None \<Rightarrow> m | Some a \<Rightarrow> f a)"
  by (cases x) auto

section \<open>Hash maps\<close>

text \<open>
  The operations of \<open>HashMap\<close> that the program calls, with what its documentation promises.
  The order in which the keys come is not promised.
\<close>

locale hash_map =
  fixes empty :: "'m"
    and lookup :: "'m \<Rightarrow> 'k \<Rightarrow> 'v option"
    and insert :: "'k \<Rightarrow> 'v \<Rightarrow> 'm \<Rightarrow> 'm"
    and remove :: "'k \<Rightarrow> 'm \<Rightarrow> 'm"
    and is_empty :: "'m \<Rightarrow> bool"
    and keys :: "'m \<Rightarrow> 'k list"
    and wf :: "'m \<Rightarrow> bool"
  assumes lookup_empty: "lookup empty k = None"
    and lookup_insert: "lookup (insert k v m) k' = (if k' = k then Some v else lookup m k')"
    and lookup_remove: "lookup (remove k m) k' = (if k' = k then None else lookup m k')"
    and is_empty: "is_empty m \<longleftrightarrow> (\<forall>k. lookup m k = None)"
    and set_keys: "set (keys m) = {k. lookup m k \<noteq> None}"
    and wf_empty: "wf empty"
    and wf_insert: "wf m \<Longrightarrow> wf (insert k v m)"
    and wf_remove: "wf m \<Longrightarrow> wf (remove k m)"
    and distinct_keys: "wf m \<Longrightarrow> distinct (keys m)"
begin

lemma is_empty_empty: "is_empty empty"
  by (simp add: is_empty lookup_empty)

lemma not_empty_lookup: "lookup m k = Some v \<Longrightarrow> \<not> is_empty m"
  using is_empty by fastforce

lemma is_empty_remove_last: "keys m = [k] \<Longrightarrow> is_empty (remove k m)"
  using set_keys [of m] by (auto simp: is_empty lookup_remove)

lemma lookup_inserts:
  "distinct (map g xs) \<Longrightarrow> lookup (foldl (\<lambda>m x. insert (g x) (v x) m) m xs) k =
     (case map_of (map (\<lambda>x. (g x, v x)) xs) k of None \<Rightarrow> lookup m k | Some a \<Rightarrow> Some a)"
proof (induction xs arbitrary: m)
  case (Cons x xs)
  then have "map_of (map (\<lambda>x. (g x, v x)) xs) (g x) = None"
    by (simp add: map_of_eq_None_iff image_image)
  with Cons show ?case by (simp add: lookup_insert split: option.split)
qed simp

lemma wf_inserts: "wf m \<Longrightarrow> wf (foldl (\<lambda>m x. insert (g x) (v x) m) m xs)"
  by (induction xs arbitrary: m) (simp_all add: wf_insert)

lemma is_empty_remove_iff: "is_empty (remove k m) \<longleftrightarrow> set (keys m) \<subseteq> {k}"
  by (auto simp: is_empty lookup_remove set_keys split: if_splits)

end

type_synonym ('k, 'v) hashmap = "('k \<times> 'v) list"

definition hm_lookup :: "('k, 'v) hashmap \<Rightarrow> 'k \<Rightarrow> 'v option" where
  "hm_lookup m k = map_of m k"

definition hm_insert :: "'k \<Rightarrow> 'v \<Rightarrow> ('k, 'v) hashmap \<Rightarrow> ('k, 'v) hashmap" where
  "hm_insert k v m = AList.update k v m"

definition hm_remove :: "'k \<Rightarrow> ('k, 'v) hashmap \<Rightarrow> ('k, 'v) hashmap" where
  "hm_remove k m = AList.delete k m"

definition hm_is_empty :: "('k, 'v) hashmap \<Rightarrow> bool" where
  "hm_is_empty m \<longleftrightarrow> m = []"

definition hm_keys :: "('k, 'v) hashmap \<Rightarrow> 'k list" where
  "hm_keys m = map fst m"

definition hm_wf :: "('k, 'v) hashmap \<Rightarrow> bool" where
  "hm_wf m \<longleftrightarrow> distinct (map fst m)"

lemma hm_lookup_insert: "hm_lookup (hm_insert k v m) k' = (if k' = k then Some v else hm_lookup m k')"
  by (auto simp: hm_lookup_def hm_insert_def update_conv')

lemma hm_lookup_remove: "hm_lookup (hm_remove k m) k' = (if k' = k then None else hm_lookup m k')"
  by (auto simp: hm_lookup_def hm_remove_def delete_conv')

lemma hm_lookup_None_iff: "hm_lookup m k = None \<longleftrightarrow> k \<notin> set (hm_keys m)"
  by (auto simp: hm_lookup_def hm_keys_def map_of_eq_None_iff)

interpretation hm: hash_map "[]" hm_lookup hm_insert hm_remove hm_is_empty hm_keys hm_wf
proof unfold_locales
  show "hm_is_empty m \<longleftrightarrow> (\<forall>k. hm_lookup m k = None)" for m :: "('a, 'b) hashmap"
    by (cases m) (auto simp: hm_is_empty_def hm_lookup_None_iff hm_keys_def)
  show "set (hm_keys m) = {k. hm_lookup m k \<noteq> None}" for m :: "('a, 'b) hashmap"
    by (auto simp: hm_lookup_None_iff)
  show "hm_wf (hm_insert k v m)" if "hm_wf m" for k v and m :: "('a, 'b) hashmap"
    using that by (simp add: hm_wf_def hm_insert_def distinct_update)
  show "hm_wf (hm_remove k m)" if "hm_wf m" for k and m :: "('a, 'b) hashmap"
    using that by (simp add: hm_wf_def hm_remove_def distinct_delete)
  show "hm_lookup [] k = None" for k :: 'a
    by (simp add: hm_lookup_def)
  show "distinct (hm_keys m)" if "hm_wf m" for m :: "('a, 'b) hashmap"
    using that by (simp add: hm_wf_def hm_keys_def)
qed (simp_all add: hm_lookup_insert hm_lookup_remove hm_wf_def)

lemmas hm_simps [simp] =
  hm.lookup_empty hm_lookup_insert hm_lookup_remove hm.is_empty_empty hm.wf_empty
  hm.wf_insert hm.wf_remove

lemma hm_insert_insert [simp]: "hm_insert k v (hm_insert k w m) = hm_insert k v m"
  unfolding hm_insert_def by (induction m) auto

text \<open>\<open>if let Some(v) = map.get_mut(&k)\<close> with an assignment to the value.\<close>

definition hm_adjust :: "'k \<Rightarrow> ('v \<Rightarrow> 'v) \<Rightarrow> ('k, 'v) hashmap \<Rightarrow> ('k, 'v) hashmap" where
  "hm_adjust k f m = (case hm_lookup m k of None \<Rightarrow> m | Some v \<Rightarrow> hm_insert k (f v) m)"

lemma hm_lookup_adjust [simp]:
  "hm_lookup (hm_adjust k f m) k' = (if k' = k then map_option f (hm_lookup m k) else hm_lookup m k')"
  by (simp add: hm_adjust_def split: option.split)

lemma hm_wf_adjust [simp]: "hm_wf m \<Longrightarrow> hm_wf (hm_adjust k f m)"
  by (simp add: hm_adjust_def split: option.split)

end
