(* ===== verification/Std.thy ===== *)
theory Std
  imports Prelude
begin

text \<open>
  The parts of Rust's standard library that the program relies on and that a property depends
  on: strings as UTF-8 bytes, decimal formatting, big-endian integers, slices, and the Unix
  behaviour of \<open>Path\<close> and \<open>PathBuf\<close>. A Rust \<open>String\<close> is a HOL
  \<open>string\<close>, whose characters are the bytes of its UTF-8 encoding.
\<close>

section \<open>Strings and bytes\<close>

definition as_bytes :: "string \<Rightarrow> bytes" where
  "as_bytes s = map (\<lambda>c. word_of_nat (of_char c)) s"

definition chars :: "bytes \<Rightarrow> string" where
  "chars bs = map (\<lambda>b. char_of (unat b)) bs"

lemma length_as_bytes [simp]: "length (as_bytes s) = length s"
  by (simp add: as_bytes_def)

lemma length_chars [simp]: "length (chars bs) = length bs"
  by (simp add: chars_def)

lemma of_char_less_256: "(of_char c :: nat) < 256"
  by (cases c) (simp add: of_char_def horner_sum_simps split: if_splits)

lemma chars_as_bytes [simp]: "chars (as_bytes s) = s"
proof (induction s)
  case Nil
  then show ?case by (simp add: chars_def as_bytes_def)
next
  case (Cons c s)
  have "unat (word_of_nat (of_char c) :: byte) = of_char c"
    using of_char_less_256 [of c] by (simp add: unat_of_nat take_bit_eq_mod)
  with Cons show ?case by (simp add: chars_def as_bytes_def)
qed

lemma as_bytes_chars [simp]: "as_bytes (chars bs) = bs"
proof (induction bs)
  case Nil
  then show ?case by (simp add: chars_def as_bytes_def)
next
  case (Cons b bs)
  have "unat b < 256" using unsigned_less [of b] by simp
  then have "word_of_nat (of_char (char_of (unat b) :: char)) = b"
    by (simp add: of_char_of)
  with Cons show ?case by (simp add: chars_def as_bytes_def)
qed

lemma chars_inj: "chars a = chars b \<longleftrightarrow> a = b"
  by (metis as_bytes_chars)

lemma as_bytes_inj: "as_bytes a = as_bytes b \<longleftrightarrow> a = b"
  by (metis chars_as_bytes)

text \<open>
  UTF-8 validation, as \<open>std::str::from_utf8\<close> does it: \<open>utf8_width\<close> is the
  length of the well-formed sequence at the head, if there is one.
\<close>

definition utf8_cont :: "byte \<Rightarrow> bool" where
  "utf8_cont b \<longleftrightarrow> 0x80 \<le> b \<and> b \<le> 0xBF"

definition utf8_second3 :: "byte \<Rightarrow> byte \<Rightarrow> bool" where
  "utf8_second3 b0 b1 \<longleftrightarrow>
     (if b0 = 0xE0 then 0xA0 \<le> b1 \<and> b1 \<le> 0xBF
      else if b0 = 0xED then 0x80 \<le> b1 \<and> b1 \<le> 0x9F
      else utf8_cont b1)"

definition utf8_second4 :: "byte \<Rightarrow> byte \<Rightarrow> bool" where
  "utf8_second4 b0 b1 \<longleftrightarrow>
     (if b0 = 0xF0 then 0x90 \<le> b1 \<and> b1 \<le> 0xBF
      else if b0 = 0xF4 then 0x80 \<le> b1 \<and> b1 \<le> 0x8F
      else utf8_cont b1)"

fun utf8_width :: "bytes \<Rightarrow> nat option" where
  "utf8_width [] = None"
| "utf8_width (b0 # r) =
     (if b0 < 0x80 then Some 1
      else if 0xC2 \<le> b0 \<and> b0 \<le> 0xDF then
        (case r of b1 # _ \<Rightarrow> if utf8_cont b1 then Some 2 else None | _ \<Rightarrow> None)
      else if 0xE0 \<le> b0 \<and> b0 \<le> 0xEF then
        (case r of b1 # b2 # _ \<Rightarrow> if utf8_second3 b0 b1 \<and> utf8_cont b2 then Some 3 else None
         | _ \<Rightarrow> None)
      else if 0xF0 \<le> b0 \<and> b0 \<le> 0xF4 then
        (case r of b1 # b2 # b3 # _ \<Rightarrow>
           if utf8_second4 b0 b1 \<and> utf8_cont b2 \<and> utf8_cont b3 then Some 4 else None
         | _ \<Rightarrow> None)
      else None)"

lemma utf8_width_pos: "utf8_width bs = Some n \<Longrightarrow> 0 < n \<and> n \<le> length bs"
  by (cases bs) (auto split: if_splits list.splits)

lemma utf8_width_Nil: "utf8_width bs = Some n \<Longrightarrow> bs \<noteq> []"
  by auto

function utf8_valid :: "bytes \<Rightarrow> bool" where
  "utf8_valid bs =
     (if bs = [] then True
      else case utf8_width bs of None \<Rightarrow> False | Some n \<Rightarrow> utf8_valid (drop n bs))"
  by pat_completeness auto
termination
  by (relation "measure length") (auto dest: utf8_width_pos)

declare utf8_valid.simps [simp del]

lemma utf8_valid_Nil [simp]: "utf8_valid []"
  by (simp add: utf8_valid.simps)

lemma utf8_valid_ascii: "b < 0x80 \<Longrightarrow> utf8_valid (b # bs) = utf8_valid bs"
  by (simp add: utf8_valid.simps [of "b # bs"])

lemma utf8_valid_all_ascii: "(\<And>b. b \<in> set bs \<Longrightarrow> b < 0x80) \<Longrightarrow> utf8_valid bs"
  by (induction bs) (auto simp: utf8_valid_ascii)

definition from_utf8 :: "bytes \<Rightarrow> string option" where
  "from_utf8 bs = (if utf8_valid bs then Some (chars bs) else None)"

lemma from_utf8_as_bytes: "utf8_valid (as_bytes s) \<Longrightarrow> from_utf8 (as_bytes s) = Some s"
  by (simp add: from_utf8_def)

text \<open>
  \<open>String::from_utf8_lossy\<close>: every maximal ill-formed part becomes U+FFFD. \<open>utf8_bad\<close>
  is the length of the ill-formed part at the head.
\<close>

fun utf8_bad :: "bytes \<Rightarrow> nat" where
  "utf8_bad (b0 # b1 # b2 # _) =
     (if 0xF0 \<le> b0 \<and> b0 \<le> 0xF4 \<and> utf8_second4 b0 b1 then (if utf8_cont b2 then 3 else 2)
      else if 0xE0 \<le> b0 \<and> b0 \<le> 0xEF \<and> utf8_second3 b0 b1 then 2 else 1)"
| "utf8_bad [b0, b1] =
     (if 0xF0 \<le> b0 \<and> b0 \<le> 0xF4 \<and> utf8_second4 b0 b1 then 2
      else if 0xE0 \<le> b0 \<and> b0 \<le> 0xEF \<and> utf8_second3 b0 b1 then 2 else 1)"
| "utf8_bad _ = 1"

lemma utf8_bad_pos: "0 < utf8_bad bs"
  by (induction bs rule: utf8_bad.induct) auto

function utf8_lossy :: "bytes \<Rightarrow> bytes" where
  "utf8_lossy bs =
     (if bs = [] then []
      else case utf8_width bs of
        None \<Rightarrow> [0xEF, 0xBF, 0xBD] @ utf8_lossy (drop (utf8_bad bs) bs)
      | Some n \<Rightarrow> take n bs @ utf8_lossy (drop n bs))"
  by pat_completeness auto
termination
  by (relation "measure length") (auto dest: utf8_width_pos simp: utf8_bad_pos)

declare utf8_lossy.simps [simp del]

lemma utf8_lossy_valid: "utf8_valid bs \<Longrightarrow> utf8_lossy bs = bs"
proof (induction bs rule: utf8_valid.induct)
  case (1 bs)
  show ?case
  proof (cases "bs = []")
    case True
    then show ?thesis by (simp add: utf8_lossy.simps)
  next
    case False
    with "1.prems" obtain n where n: "utf8_width bs = Some n" "utf8_valid (drop n bs)"
      by (auto simp: utf8_valid.simps [of bs] split: option.splits)
    with "1.IH" [OF False n(1)] show ?thesis
      by (simp add: utf8_lossy.simps [of bs] False)
  qed
qed

definition from_utf8_lossy :: "bytes \<Rightarrow> string" where
  "from_utf8_lossy bs = chars (utf8_lossy bs)"

section \<open>Decimal formatting\<close>

definition digit :: "nat \<Rightarrow> char" where
  "digit d = char_of (48 + d)"

fun dec :: "nat \<Rightarrow> string" where
  "dec n = (if n < 10 then [digit n] else dec (n div 10) @ [digit (n mod 10)])"

declare dec.simps [simp del]

definition dec_int :: "int \<Rightarrow> string" where
  "dec_int i = (if i < 0 then CHR ''-'' # dec (nat (- i)) else dec (nat i))"

text \<open>\<open>format!("{:0w$}", n)\<close> for a number that is not negative.\<close>

definition dec_pad :: "nat \<Rightarrow> nat \<Rightarrow> string" where
  "dec_pad w n = (let d = dec n in replicate (w - length d) CHR ''0'' @ d)"

definition is_digit :: "char \<Rightarrow> bool" where
  "is_digit c \<longleftrightarrow> 48 \<le> (of_char c :: nat) \<and> (of_char c :: nat) \<le> 57"

definition undigit :: "char \<Rightarrow> nat" where
  "undigit c = of_char c - 48"

definition undec :: "string \<Rightarrow> nat" where
  "undec s = foldl (\<lambda>a c. 10 * a + undigit c) 0 s"

lemma of_char_digit: "d < 10 \<Longrightarrow> (of_char (digit d) :: nat) = 48 + d"
  by (simp add: digit_def of_char_of)

lemma undigit_digit: "d < 10 \<Longrightarrow> undigit (digit d) = d"
  by (simp add: undigit_def of_char_digit)

lemma is_digit_digit: "d < 10 \<Longrightarrow> is_digit (digit d)"
  by (simp add: is_digit_def of_char_digit)

lemma is_digit_0: "is_digit CHR ''0''" and undigit_0: "undigit CHR ''0'' = 0"
  by (simp_all add: is_digit_def undigit_def of_char_def horner_sum_simps)

lemma dec_small: "n < 10 \<Longrightarrow> dec n = [digit n]"
  and dec_step: "\<not> n < 10 \<Longrightarrow> dec n = dec (n div 10) @ [digit (n mod 10)]"
  by (simp_all add: dec.simps [of n])

lemma dec_digits: "c \<in> set (dec n) \<Longrightarrow> is_digit c"
proof (induction n rule: dec.induct)
  case (1 n)
  then show ?case
    by (cases "n < 10") (auto simp: dec_small dec_step is_digit_digit)
qed

lemma undec_dec: "undec (dec n) = n"
proof (induction n rule: dec.induct)
  case (1 n)
  show ?case
  proof (cases "n < 10")
    case True
    then show ?thesis by (simp add: dec_small undec_def undigit_digit)
  next
    case False
    with 1 show ?thesis by (simp add: dec_step undec_def undigit_digit)
  qed
qed

lemma dec_inj: "dec m = dec n \<longleftrightarrow> m = n"
  by (metis undec_dec)

lemma length_dec_pos: "0 < length (dec n)"
  by (cases "n < 10") (simp_all add: dec_small dec_step)

lemma length_dec_le: "n < 10 ^ k \<Longrightarrow> 0 < k \<Longrightarrow> length (dec n) \<le> k"
proof (induction k arbitrary: n)
  case 0
  then show ?case by simp
next
  case (Suc k)
  show ?case
  proof (cases "n < 10")
    case True
    then show ?thesis by (simp add: dec_small)
  next
    case False
    with Suc.prems have "k \<noteq> 0" by (cases k) auto
    with Suc False have "length (dec (n div 10)) \<le> k"
      by (auto simp: less_mult_imp_div_less mult.commute)
    with False show ?thesis by (simp add: dec_step)
  qed
qed

lemma undec_replicate_0: "undec (replicate k CHR ''0'' @ s) = undec s"
  by (induction k) (simp_all add: undec_def undigit_0)

section \<open>Big-endian integers\<close>

text \<open>\<open>u32::to_be_bytes\<close> and \<open>u32::from_be_bytes\<close>.\<close>

definition to_be32 :: "u32 \<Rightarrow> bytes" where
  "to_be32 w = [ucast (drop_bit 24 w), ucast (drop_bit 16 w), ucast (drop_bit 8 w), ucast w]"

definition from_be32 :: "bytes \<Rightarrow> u32" where
  "from_be32 bs = foldl (\<lambda>a b. push_bit 8 a OR ucast b) 0 bs"

lemma length_to_be32 [simp]: "length (to_be32 w) = 4"
  by (simp add: to_be32_def)

lemma from_be32_to_be32 [simp]: "from_be32 (to_be32 w) = w"
proof (rule bit_word_eqI)
  fix n
  assume "n < LENGTH(32)"
  then consider "n < 8" | "8 \<le> n" "n < 16" | "16 \<le> n" "n < 24" | "24 \<le> n" "n < 32"
    by fastforce
  then show "bit (from_be32 (to_be32 w)) n \<longleftrightarrow> bit w n"
    by cases (auto simp: from_be32_def to_be32_def bit_simps)
qed

section \<open>Slices\<close>

text \<open>\<open>&xs[a..b]\<close>, which panics out of range.\<close>

definition slice :: "nat \<Rightarrow> nat \<Rightarrow> 'a list \<Rightarrow> 'a list option" where
  "slice a b xs = (if a \<le> b \<and> b \<le> length xs then Some (take (b - a) (drop a xs)) else None)"

text \<open>\<open>xs[i]\<close>, which panics out of range.\<close>

definition index :: "'a list \<Rightarrow> nat \<Rightarrow> 'a option" where
  "index xs i = (if i < length xs then Some (xs ! i) else None)"

lemma slice_append: "length p = a \<Longrightarrow> length m = n \<Longrightarrow> slice a (a + n) (p @ m @ q) = Some m"
  by (simp add: slice_def)

text \<open>\<open>str::trim\<close>: the encodings of the characters with the property \<open>White_Space\<close>.\<close>

definition white_space :: "bytes list" where
  "white_space = [[9], [10], [11], [12], [13], [32], [0xC2, 0x85], [0xC2, 0xA0],
     [0xE1, 0x9A, 0x80], [0xE2, 0x80, 0x80], [0xE2, 0x80, 0x81], [0xE2, 0x80, 0x82],
     [0xE2, 0x80, 0x83], [0xE2, 0x80, 0x84], [0xE2, 0x80, 0x85], [0xE2, 0x80, 0x86],
     [0xE2, 0x80, 0x87], [0xE2, 0x80, 0x88], [0xE2, 0x80, 0x89], [0xE2, 0x80, 0x8A],
     [0xE2, 0x80, 0xA8], [0xE2, 0x80, 0xA9], [0xE2, 0x80, 0xAF], [0xE2, 0x81, 0x9F],
     [0xE3, 0x80, 0x80]]"

definition starts_with :: "'a list \<Rightarrow> 'a list \<Rightarrow> bool" where
  "starts_with p s \<longleftrightarrow> take (length p) s = p"

fun trim_front :: "nat \<Rightarrow> bytes list \<Rightarrow> bytes \<Rightarrow> bytes" where
  "trim_front 0 ws s = s"
| "trim_front (Suc k) ws s =
     (case find (\<lambda>w. starts_with w s) ws of
        None \<Rightarrow> s
      | Some w \<Rightarrow> trim_front k ws (drop (length w) s))"

definition trim :: "string \<Rightarrow> string" where
  "trim s = (let b = as_bytes s;
                 f = trim_front (length b) white_space b
             in chars (rev (trim_front (length f) (map rev white_space) (rev f))))"

end
