(* ===== verification/Wire.thy ===== *)
theory Wire
  imports Std
begin

text \<open>
  The protocol-buffer messages of \<open>crates/core/src/proto_src\<close>, as the structs that
  \<open>prost\<close> makes of them: an optional field is an option, a required field is plain, a
  repeated field is a list, and an enumeration field holds the raw number. Only the fields that
  the Rust code reads or sets are kept; all others are left at their default by the code. The
  accessor of a field gives the default when the field is absent, and for an enumeration also
  when the number is not a known one. Encoding and decoding are not defined here: they are
  functions of the environment (theory \<open>Externals\<close>).
\<close>

section \<open>Enumerations\<close>

definition enum_get :: "(i32 \<times> 'e) list \<Rightarrow> 'e \<Rightarrow> i32 option \<Rightarrow> 'e" where
  "enum_get table dflt x =
     (case x of None \<Rightarrow> dflt
      | Some n \<Rightarrow> (case map_of table n of None \<Rightarrow> dflt | Some e \<Rightarrow> e))"

definition enum_num :: "(i32 \<times> 'e) list \<Rightarrow> 'e \<Rightarrow> i32" where
  "enum_num table e = (case find (\<lambda>p. snd p = e) table of None \<Rightarrow> 0 | Some p \<Rightarrow> fst p)"

lemma enum_get_None [simp]: "enum_get table dflt None = dflt"
  by (simp add: enum_get_def)

text \<open>\<open>location.nearby.connections.V1Frame.FrameType\<close>\<close>

datatype frame_type =
    FrUnknown | FrConnectionRequest | FrConnectionResponse | FrPayloadTransfer
  | FrBandwidthUpgradeNegotiation | FrKeepAlive | FrDisconnection | FrPairedKeyEncryption

definition frame_type_table :: "(i32 \<times> frame_type) list" where
  "frame_type_table = [(0, FrUnknown), (1, FrConnectionRequest), (2, FrConnectionResponse),
     (3, FrPayloadTransfer), (4, FrBandwidthUpgradeNegotiation), (5, FrKeepAlive),
     (6, FrDisconnection), (7, FrPairedKeyEncryption)]"

text \<open>\<open>PayloadTransferFrame.PayloadHeader.PayloadType\<close> and \<open>PacketType\<close>\<close>

datatype payload_type = PtUnknown | PtBytes | PtFile | PtStream

definition payload_type_table :: "(i32 \<times> payload_type) list" where
  "payload_type_table = [(0, PtUnknown), (1, PtBytes), (2, PtFile), (3, PtStream)]"

datatype packet_type = PkUnknown | PkData | PkControl

definition packet_type_table :: "(i32 \<times> packet_type) list" where
  "packet_type_table = [(0, PkUnknown), (1, PkData), (2, PkControl)]"

text \<open>\<open>ConnectionResponseFrame.ResponseStatus\<close>, \<open>ConnectionRequestFrame.Medium\<close>, \<open>OsInfo.OsType\<close>\<close>

datatype response_status = RsUnknown | RsAccept | RsReject

definition response_status_table :: "(i32 \<times> response_status) list" where
  "response_status_table = [(0, RsUnknown), (1, RsAccept), (2, RsReject)]"

definition medium_wifi_lan :: i32 where "medium_wifi_lan = 5"

datatype os_type = OsUnknown | OsAndroid | OsChromeOs | OsWindows | OsApple | OsLinux

definition os_type_table :: "(i32 \<times> os_type) list" where
  "os_type_table = [(0, OsUnknown), (1, OsAndroid), (2, OsChromeOs), (3, OsWindows),
     (4, OsApple), (100, OsLinux)]"

text \<open>\<open>securegcm.Ukey2Message.Type\<close>, \<open>Ukey2Alert.AlertType\<close>, \<open>Ukey2HandshakeCipher\<close>\<close>

datatype ukey2_type = UkUnknown | UkAlert | UkClientInit | UkServerInit | UkClientFinish

definition ukey2_type_table :: "(i32 \<times> ukey2_type) list" where
  "ukey2_type_table = [(0, UkUnknown), (1, UkAlert), (2, UkClientInit), (3, UkServerInit),
     (4, UkClientFinish)]"

datatype alert_type =
    BadMessage | BadMessageType | IncorrectMessage | BadMessageData | BadVersion | BadRandom
  | BadHandshakeCipher | BadNextProtocol | BadPublicKey | InternalError

definition alert_type_table :: "(i32 \<times> alert_type) list" where
  "alert_type_table = [(1, BadMessage), (2, BadMessageType), (3, IncorrectMessage),
     (4, BadMessageData), (100, BadVersion), (101, BadRandom), (102, BadHandshakeCipher),
     (103, BadNextProtocol), (104, BadPublicKey), (200, InternalError)]"

datatype handshake_cipher = HcReserved | HcP256Sha512 | HcCurve25519Sha512

definition handshake_cipher_table :: "(i32 \<times> handshake_cipher) list" where
  "handshake_cipher_table = [(0, HcReserved), (100, HcP256Sha512), (200, HcCurve25519Sha512)]"

definition gcm_type_device_to_device :: i32 where "gcm_type_device_to_device = 13"

text \<open>\<open>securemessage.SigScheme\<close>, \<open>EncScheme\<close>, \<open>PublicKeyType\<close>\<close>

definition sig_scheme_hmac_sha256 :: i32 where "sig_scheme_hmac_sha256 = 1"
definition enc_scheme_aes_256_cbc :: i32 where "enc_scheme_aes_256_cbc = 2"
definition public_key_type_ec_p256 :: i32 where "public_key_type_ec_p256 = 1"

text \<open>\<open>sharing.nearby.V1Frame.FrameType\<close>, \<open>ConnectionResponseFrame.Status\<close> and the metadata types\<close>

datatype sharing_type =
    ShUnknown | ShIntroduction | ShResponse | ShPairedKeyEncryption | ShPairedKeyResult
  | ShCertificateInfo | ShCancel

definition sharing_type_table :: "(i32 \<times> sharing_type) list" where
  "sharing_type_table = [(0, ShUnknown), (1, ShIntroduction), (2, ShResponse),
     (3, ShPairedKeyEncryption), (4, ShPairedKeyResult), (5, ShCertificateInfo), (6, ShCancel)]"

datatype consent_status =
    CsUnknown | CsAccept | CsReject | CsNotEnoughSpace | CsUnsupportedAttachmentType | CsTimedOut

definition consent_status_table :: "(i32 \<times> consent_status) list" where
  "consent_status_table = [(0, CsUnknown), (1, CsAccept), (2, CsReject), (3, CsNotEnoughSpace),
     (4, CsUnsupportedAttachmentType), (5, CsTimedOut)]"

definition paired_key_unable :: i32 where "paired_key_unable = 3"

datatype text_type = TtUnknown | TtText | TtUrl | TtAddress | TtPhoneNumber

definition text_type_table :: "(i32 \<times> text_type) list" where
  "text_type_table = [(0, TtUnknown), (1, TtText), (2, TtUrl), (3, TtAddress),
     (4, TtPhoneNumber)]"

datatype file_type = FtUnknown | FtImage | FtVideo | FtApp | FtAudio

definition file_type_table :: "(i32 \<times> file_type) list" where
  "file_type_table = [(0, FtUnknown), (1, FtImage), (2, FtVideo), (3, FtApp), (4, FtAudio)]"

lemmas enum_tables =
  frame_type_table_def payload_type_table_def packet_type_table_def response_status_table_def
  os_type_table_def ukey2_type_table_def alert_type_table_def handshake_cipher_table_def
  sharing_type_table_def consent_status_table_def text_type_table_def file_type_table_def

lemma enum_roundtrip:
  "enum_get frame_type_table FrUnknown (Some (enum_num frame_type_table ft)) = ft"
  "enum_get payload_type_table PtUnknown (Some (enum_num payload_type_table pt)) = pt"
  "enum_get response_status_table RsUnknown (Some (enum_num response_status_table rs)) = rs"
  "enum_get ukey2_type_table UkUnknown (Some (enum_num ukey2_type_table uk)) = uk"
  "enum_get handshake_cipher_table HcReserved (Some (enum_num handshake_cipher_table hc)) = hc"
  "enum_get sharing_type_table ShUnknown (Some (enum_num sharing_type_table st)) = st"
  "enum_get consent_status_table CsUnknown (Some (enum_num consent_status_table cs)) = cs"
  "enum_get text_type_table TtUnknown (Some (enum_num text_type_table tt)) = tt"
proof -
  note defs = enum_get_def enum_num_def enum_tables
  show "enum_get frame_type_table FrUnknown (Some (enum_num frame_type_table ft)) = ft"
    by (cases ft) (simp_all add: defs)
  show "enum_get payload_type_table PtUnknown (Some (enum_num payload_type_table pt)) = pt"
    by (cases pt) (simp_all add: defs)
  show "enum_get response_status_table RsUnknown (Some (enum_num response_status_table rs)) = rs"
    by (cases rs) (simp_all add: defs)
  show "enum_get ukey2_type_table UkUnknown (Some (enum_num ukey2_type_table uk)) = uk"
    by (cases uk) (simp_all add: defs)
  show "enum_get handshake_cipher_table HcReserved (Some (enum_num handshake_cipher_table hc)) = hc"
    by (cases hc) (simp_all add: defs)
  show "enum_get sharing_type_table ShUnknown (Some (enum_num sharing_type_table st)) = st"
    by (cases st) (simp_all add: defs)
  show "enum_get consent_status_table CsUnknown (Some (enum_num consent_status_table cs)) = cs"
    by (cases cs) (simp_all add: defs)
  show "enum_get text_type_table TtUnknown (Some (enum_num text_type_table tt)) = tt"
    by (cases tt) (simp_all add: defs)
qed

section \<open>Nearby connections: \<open>offline_wire_formats.proto\<close>\<close>

record connection_request_frame =
  cr_endpoint_id :: "string option"
  cr_endpoint_name :: "bytes option"
  cr_mediums :: "i32 list"
  cr_endpoint_info :: "bytes option"

record connection_response_frame =
  cresp_response :: "i32 option"
  cresp_os_info :: "i32 option option"   \<comment> \<open>\<open>OsInfo\<close> has the one field \<open>type\<close>\<close>

record payload_header =
  ph_id :: "i64 option"
  ph_type :: "i32 option"
  ph_total_size :: "i64 option"
  ph_is_sensitive :: "bool option"
  ph_file_name :: "string option"

record payload_chunk =
  pc_flags :: "i32 option"
  pc_offset :: "i64 option"
  pc_body :: "bytes option"

record payload_transfer_frame =
  pt_packet_type :: "i32 option"
  pt_payload_header :: "payload_header option"
  pt_payload_chunk :: "payload_chunk option"

record v1_frame =
  v1_type :: "i32 option"
  v1_connection_request :: "connection_request_frame option"
  v1_connection_response :: "connection_response_frame option"
  v1_payload_transfer :: "payload_transfer_frame option"
  v1_keep_alive :: "bool option option"   \<comment> \<open>\<open>KeepAliveFrame\<close> has the one field \<open>ack\<close>\<close>
  v1_disconnection :: "unit option"       \<comment> \<open>\<open>DisconnectionFrame\<close>, always at its default\<close>

record offline_frame =
  of_version :: "i32 option"
  of_v1 :: "v1_frame option"

definition v1_default :: v1_frame where
  "v1_default = \<lparr>v1_type = None, v1_connection_request = None, v1_connection_response = None,
     v1_payload_transfer = None, v1_keep_alive = None, v1_disconnection = None\<rparr>"

definition offline_v1 :: "v1_frame \<Rightarrow> offline_frame" where
  "offline_v1 v = \<lparr>of_version = Some 1, of_v1 = Some v\<rparr>"

definition v1_frame_type :: "v1_frame \<Rightarrow> frame_type" where
  "v1_frame_type v = enum_get frame_type_table FrUnknown (v1_type v)"

definition header_type :: "payload_header \<Rightarrow> payload_type" where
  "header_type h = enum_get payload_type_table PtUnknown (ph_type h)"

definition header_id :: "payload_header \<Rightarrow> i64" where
  "header_id h = (case ph_id h of None \<Rightarrow> 0 | Some i \<Rightarrow> i)"

definition header_total_size :: "payload_header \<Rightarrow> i64" where
  "header_total_size h = (case ph_total_size h of None \<Rightarrow> 0 | Some i \<Rightarrow> i)"

definition chunk_flags :: "payload_chunk \<Rightarrow> i32" where
  "chunk_flags c = (case pc_flags c of None \<Rightarrow> 0 | Some i \<Rightarrow> i)"

definition chunk_offset :: "payload_chunk \<Rightarrow> i64" where
  "chunk_offset c = (case pc_offset c of None \<Rightarrow> 0 | Some i \<Rightarrow> i)"

definition chunk_body :: "payload_chunk \<Rightarrow> bytes" where
  "chunk_body c = (case pc_body c of None \<Rightarrow> [] | Some b \<Rightarrow> b)"

definition response_of :: "connection_response_frame \<Rightarrow> response_status" where
  "response_of r = enum_get response_status_table RsUnknown (cresp_response r)"

section \<open>Sharing: \<open>wire_format.proto\<close>\<close>

record file_metadata =
  fm_name :: "string option"
  fm_type :: "i32 option"
  fm_payload_id :: "i64 option"
  fm_size :: "i64 option"
  fm_mime_type :: "string option"

record text_metadata =
  txm_title :: "string option"
  txm_type :: "i32 option"
  txm_payload_id :: "i64 option"

record wifi_metadata =
  wm_ssid :: "string option"
  wm_payload_id :: "i64 option"

record introduction_frame =
  in_files :: "file_metadata list"
  in_texts :: "text_metadata list"
  in_wifis :: "wifi_metadata list"

record paired_key_encryption_frame =
  pke_signed_data :: "bytes option"
  pke_secret_id_hash :: "bytes option"

record sharing_v1 =
  sv_type :: "i32 option"
  sv_introduction :: "introduction_frame option"
  sv_connection_response :: "i32 option option"   \<comment> \<open>\<open>ConnectionResponseFrame\<close> has the one field \<open>status\<close>\<close>
  sv_paired_key_encryption :: "paired_key_encryption_frame option"
  sv_paired_key_result :: "i32 option option"     \<comment> \<open>\<open>PairedKeyResultFrame\<close> has the one field \<open>status\<close>\<close>

record sharing_frame =
  sf_version :: "i32 option"
  sf_v1 :: "sharing_v1 option"

definition sv_default :: sharing_v1 where
  "sv_default = \<lparr>sv_type = None, sv_introduction = None, sv_connection_response = None,
     sv_paired_key_encryption = None, sv_paired_key_result = None\<rparr>"

definition sharing_v1_frame :: "sharing_v1 \<Rightarrow> sharing_frame" where
  "sharing_v1_frame v = \<lparr>sf_version = Some 1, sf_v1 = Some v\<rparr>"

definition sv_frame_type :: "sharing_v1 \<Rightarrow> sharing_type" where
  "sv_frame_type v = enum_get sharing_type_table ShUnknown (sv_type v)"

definition consent_of :: "i32 option \<Rightarrow> consent_status" where
  "consent_of s = enum_get consent_status_table CsUnknown s"

definition file_name_of :: "file_metadata \<Rightarrow> string" where
  "file_name_of f = (case fm_name f of None \<Rightarrow> [] | Some n \<Rightarrow> n)"

definition file_payload_id :: "file_metadata \<Rightarrow> i64" where
  "file_payload_id f = (case fm_payload_id f of None \<Rightarrow> 0 | Some i \<Rightarrow> i)"

definition file_size :: "file_metadata \<Rightarrow> i64" where
  "file_size f = (case fm_size f of None \<Rightarrow> 0 | Some i \<Rightarrow> i)"

definition text_kind :: "text_metadata \<Rightarrow> text_type" where
  "text_kind t = enum_get text_type_table TtUnknown (txm_type t)"

definition text_payload_id :: "text_metadata \<Rightarrow> i64" where
  "text_payload_id t = (case txm_payload_id t of None \<Rightarrow> 0 | Some i \<Rightarrow> i)"

definition wifi_ssid :: "wifi_metadata \<Rightarrow> string" where
  "wifi_ssid w = (case wm_ssid w of None \<Rightarrow> [] | Some n \<Rightarrow> n)"

definition wifi_payload_id :: "wifi_metadata \<Rightarrow> i64" where
  "wifi_payload_id w = (case wm_payload_id w of None \<Rightarrow> 0 | Some i \<Rightarrow> i)"

section \<open>Key exchange: \<open>ukey.proto\<close>, \<open>securemessage.proto\<close>, \<open>device_to_device_messages.proto\<close>\<close>

record ukey2_message =
  um_type :: "i32 option"
  um_data :: "bytes option"

record ukey2_alert =
  al_type :: "i32 option"
  al_error_message :: "string option"

record cipher_commitment =
  cc_cipher :: "i32 option"
  cc_commitment :: "bytes option"

record ukey2_client_init =
  ci_version :: "i32 option"
  ci_random :: "bytes option"
  ci_commitments :: "cipher_commitment list"
  ci_next_protocol :: "string option"

record ukey2_server_init =
  si_version :: "i32 option"
  si_random :: "bytes option"
  si_cipher :: "i32 option"
  si_public_key :: "bytes option"

record ec_p256_public_key =
  ec_x :: bytes
  ec_y :: bytes

record generic_public_key =
  gp_type :: i32
  gp_ec_p256 :: "ec_p256_public_key option"

record msg_header =
  hd_signature_scheme :: i32
  hd_encryption_scheme :: i32
  hd_iv :: "bytes option"
  hd_public_metadata :: "bytes option"

record header_and_body =
  hb_header :: msg_header
  hb_body :: bytes

record secure_message =
  sm_header_and_body :: bytes
  sm_signature :: bytes

record d2d_message =
  d2d_message_bytes :: "bytes option"
  d2d_sequence :: "i32 option"

record gcm_metadata =
  gm_type :: i32
  gm_version :: "i32 option"

definition bytes_or_empty :: "bytes option \<Rightarrow> bytes" where
  "bytes_or_empty b = (case b of None \<Rightarrow> [] | Some x \<Rightarrow> x)"

definition i32_or_zero :: "i32 option \<Rightarrow> i32" where
  "i32_or_zero b = (case b of None \<Rightarrow> 0 | Some x \<Rightarrow> x)"

definition string_or_empty :: "string option \<Rightarrow> string" where
  "string_or_empty b = (case b of None \<Rightarrow> [] | Some x \<Rightarrow> x)"

definition ukey2_kind :: "ukey2_message \<Rightarrow> ukey2_type" where
  "ukey2_kind m = enum_get ukey2_type_table UkUnknown (um_type m)"

definition commitment_cipher :: "cipher_commitment \<Rightarrow> handshake_cipher" where
  "commitment_cipher c = enum_get handshake_cipher_table HcReserved (cc_cipher c)"

definition server_cipher :: "ukey2_server_init \<Rightarrow> handshake_cipher" where
  "server_cipher m = enum_get handshake_cipher_table HcReserved (si_cipher m)"

lemmas accessor_defs =
  v1_frame_type_def header_type_def header_id_def header_total_size_def chunk_flags_def
  chunk_offset_def chunk_body_def response_of_def sv_frame_type_def consent_of_def
  file_name_of_def file_payload_id_def file_size_def text_kind_def text_payload_id_def
  wifi_ssid_def wifi_payload_id_def bytes_or_empty_def i32_or_zero_def string_or_empty_def
  ukey2_kind_def commitment_cipher_def server_cipher_def

end
