(* ===== verification/Paths.thy ===== *)
theory Paths
  imports Std
begin

text \<open>
  \<open>std::path\<close> on Unix, as far as the program uses it: \<open>PathBuf::push\<close>,
  \<open>PathBuf::pop\<close>, \<open>Path::file_name\<close> and \<open>Path::extension\<close>. A path is
  its string. \<open>Path::components\<close> skips empty and \<open>.\<close> components, except a
  leading \<open>.\<close>, so the last component of a path is the last segment that is neither.
\<close>

type_synonym path = string

text \<open>\<open>PathBuf::into_os_string\<close> and \<open>OsString::into_string\<close>: only a path that is UTF-8 is a string.\<close>

definition path_into_string :: "path \<Rightarrow> string option" where
  "path_into_string p = from_utf8 (as_bytes p)"

lemma path_into_string_eq: "path_into_string p = (if utf8_valid (as_bytes p) then Some p else None)"
  by (simp add: path_into_string_def from_utf8_def)

fun split_on :: "char \<Rightarrow> string \<Rightarrow> string list" where
  "split_on c [] = [[]]"
| "split_on c (x # xs) =
     (if x = c then [] # split_on c xs
      else case split_on c xs of [] \<Rightarrow> [[x]] | s # ss \<Rightarrow> (x # s) # ss)"

fun join_with :: "char \<Rightarrow> string list \<Rightarrow> string" where
  "join_with c [] = []"
| "join_with c [s] = s"
| "join_with c (s # t # ts) = s @ c # join_with c (t # ts)"

lemma split_on_not_Nil [simp]: "split_on c s \<noteq> []"
  by (induction s) (auto split: list.splits)

lemma split_on_Cons_other: "x \<noteq> c \<Longrightarrow> split_on c (x # xs) = (x # hd (split_on c xs)) # tl (split_on c xs)"
  by (cases "split_on c xs") auto

lemma join_split [simp]: "join_with c (split_on c s) = s"
proof (induction s)
  case Nil
  then show ?case by simp
next
  case (Cons x s)
  obtain t ts where "split_on c s = t # ts"
    by (cases "split_on c s") auto
  with Cons show ?case by (cases ts) auto
qed

lemma split_on_no_sep: "c \<notin> set s \<Longrightarrow> split_on c s = [s]"
  by (induction s) auto

lemma split_on_append_sep: "split_on c (a @ c # b) = split_on c a @ split_on c b"
proof (induction a)
  case Nil
  then show ?case by simp
next
  case (Cons x a)
  then show ?case by (cases "split_on c a") auto
qed

definition is_absolute :: "path \<Rightarrow> bool" where
  "is_absolute p \<longleftrightarrow> (case p of [] \<Rightarrow> False | c # _ \<Rightarrow> c = CHR ''/'')"

definition path_push :: "path \<Rightarrow> path \<Rightarrow> path" where
  "path_push p q =
     (if is_absolute q then q
      else if p \<noteq> [] \<and> last p \<noteq> CHR ''/'' then p @ ''/'' @ q
      else p @ q)"

text \<open>The part before the body of a path: the root, or a leading \<open>.\<close> component.\<close>

definition include_cur_dir :: "path \<Rightarrow> bool" where
  "include_cur_dir p \<longleftrightarrow>
     (case p of c # [] \<Rightarrow> c = CHR ''.''
      | c # d # _ \<Rightarrow> c = CHR ''.'' \<and> d = CHR ''/''
      | [] \<Rightarrow> False)"

definition before_body :: "path \<Rightarrow> nat" where
  "before_body p = (if is_absolute p \<or> include_cur_dir p then 1 else 0)"

definition skipped :: "string \<Rightarrow> bool" where
  "skipped seg \<longleftrightarrow> seg = [] \<or> seg = ''.''"

definition drop_skipped :: "string list \<Rightarrow> string list" where
  "drop_skipped segs = rev (dropWhile skipped (rev segs))"

text \<open>The segments of the body, without the skipped ones at the end.\<close>

definition body_segments :: "path \<Rightarrow> string list" where
  "body_segments p = drop_skipped (split_on CHR ''/'' (drop (before_body p) p))"

definition path_parent :: "path \<Rightarrow> path option" where
  "path_parent p =
     (case body_segments p of
        [] \<Rightarrow> (if include_cur_dir p \<and> \<not> is_absolute p then Some [] else None)
      | segs \<Rightarrow> Some (take (before_body p) p @
                  join_with CHR ''/'' (drop_skipped (butlast segs))))"

text \<open>\<open>PathBuf::pop\<close> truncates to the parent and does nothing when there is none.\<close>

definition path_pop :: "path \<Rightarrow> path" where
  "path_pop p = (case path_parent p of None \<Rightarrow> p | Some q \<Rightarrow> q)"

definition path_file_name :: "path \<Rightarrow> string option" where
  "path_file_name p =
     (case body_segments p of
        [] \<Rightarrow> None
      | segs \<Rightarrow> (if last segs = ''..'' then None else Some (last segs)))"

definition path_extension :: "path \<Rightarrow> string option" where
  "path_extension p =
     (case path_file_name p of
        None \<Rightarrow> None
      | Some f \<Rightarrow>
          (case rev (split_on CHR ''.'' f) of
             after # before # rest \<Rightarrow>
               if before = [] \<and> rest = [] then None else Some after
           | _ \<Rightarrow> None))"

section \<open>Facts about plain file names\<close>

text \<open>A plain name: one ordinary component.\<close>

definition plain_name :: "string \<Rightarrow> bool" where
  "plain_name n \<longleftrightarrow> CHR ''/'' \<notin> set n \<and> \<not> skipped n \<and> n \<noteq> ''..''"

lemma plain_name_not_absolute: "plain_name n \<Longrightarrow> \<not> is_absolute n"
  by (cases n) (auto simp: plain_name_def is_absolute_def)

lemma push_absolute: "is_absolute q \<Longrightarrow> path_push p q = q"
  by (simp add: path_push_def)

text \<open>A directory in the form the program uses: not empty, with no separator at its end.\<close>

definition plain_dir :: "path \<Rightarrow> bool" where
  "plain_dir d \<longleftrightarrow> d \<noteq> [] \<and> last d \<noteq> CHR ''/'' \<and> body_segments d \<noteq> []
     \<and> body_segments d = split_on CHR ''/'' (drop (before_body d) d)"

lemma push_plain: "d \<noteq> [] \<Longrightarrow> last d \<noteq> CHR ''/'' \<Longrightarrow> \<not> is_absolute n \<Longrightarrow> path_push d n = d @ ''/'' @ n"
  by (simp add: path_push_def)

lemma push_plain_inj:
  "d \<noteq> [] \<Longrightarrow> last d \<noteq> CHR ''/'' \<Longrightarrow> \<not> is_absolute m \<Longrightarrow> \<not> is_absolute n
     \<Longrightarrow> path_push d m = path_push d n \<longleftrightarrow> m = n"
  by (simp add: push_plain)

lemma include_cur_dir_append:
  "drop 1 d \<noteq> [] \<Longrightarrow> include_cur_dir (d @ x) = include_cur_dir d"
  by (cases d; cases "tl d") (simp_all add: include_cur_dir_def)

lemma is_absolute_append: "d \<noteq> [] \<Longrightarrow> is_absolute (d @ x) = is_absolute d"
  by (cases d) (simp_all add: is_absolute_def)

lemma include_cur_dir_single: "include_cur_dir [c] \<longleftrightarrow> c = CHR ''.''"
  by (simp add: include_cur_dir_def)

lemma before_body_append:
  assumes d: "drop (before_body d) d \<noteq> []"
  shows "before_body (d @ ''/'' @ n) = before_body d"
proof (cases "drop 1 d = []")
  case True
  with d obtain c where c: "d = [c]" "before_body d = 0"
    by (cases d) (auto simp: before_body_def split: if_splits)
  then have "c \<noteq> CHR ''.''" and "\<not> is_absolute d"
    by (auto simp: before_body_def include_cur_dir_single split: if_splits)
  with c show ?thesis
    by (simp add: before_body_def include_cur_dir_def is_absolute_def)
next
  case False
  then have "d \<noteq> []" by auto
  show ?thesis
    unfolding before_body_def include_cur_dir_append [OF False] is_absolute_append [OF \<open>d \<noteq> []\<close>]
    by (rule HOL.refl)
qed

lemma plain_dir_body: "plain_dir d \<Longrightarrow> drop (before_body d) d \<noteq> []"
proof
  assume p: "plain_dir d" and e: "drop (before_body d) d = []"
  then have "body_segments d = drop_skipped [[]]"
    by (simp add: body_segments_def)
  then have "body_segments d = []"
    by (simp add: drop_skipped_def skipped_def)
  with p show False by (simp add: plain_dir_def)
qed

lemma body_segments_push_plain:
  assumes d: "plain_dir d" and n: "plain_name n"
  shows "body_segments (path_push d n) = body_segments d @ [n]"
proof -
  let ?k = "before_body d"
  have k: "before_body (d @ ''/'' @ n) = ?k"
    using plain_dir_body [OF d] by (rule before_body_append)
  have len: "?k \<le> length d"
    using d by (cases d) (auto simp: before_body_def plain_dir_def)
  have drop: "drop ?k (d @ ''/'' @ n) = drop ?k d @ CHR ''/'' # n"
    using len by simp
  have "split_on CHR ''/'' (drop ?k d @ CHR ''/'' # n) = split_on CHR ''/'' (drop ?k d) @ [n]"
    using n by (simp only: split_on_append_sep) (simp add: split_on_no_sep plain_name_def)
  moreover have "drop_skipped (segs @ [n]) = segs @ [n]" for segs
    using n by (simp add: drop_skipped_def plain_name_def)
  moreover have "path_push d n = d @ ''/'' @ n"
    using d n by (simp add: push_plain plain_dir_def plain_name_not_absolute)
  ultimately show ?thesis
    using d k drop by (simp add: body_segments_def plain_dir_def)
qed

lemma file_name_push_plain:
  assumes "plain_dir d" and "plain_name n"
  shows "path_file_name (path_push d n) = Some n"
  using assms(2) body_segments_push_plain [OF assms]
  by (cases "body_segments d") (auto simp: path_file_name_def plain_name_def)

lemma pop_push_plain:
  assumes d: "plain_dir d" and n: "plain_name n"
  shows "path_pop (path_push d n) = d"
proof -
  have k: "before_body (path_push d n) = before_body d"
    using d n plain_dir_body [OF d] before_body_append [of d n]
    by (simp add: push_plain plain_dir_def plain_name_not_absolute)
  have segs: "drop_skipped (body_segments d) = body_segments d"
    by (simp add: body_segments_def drop_skipped_def dropWhile_idem)
  have len: "before_body d \<le> length d"
    using d by (cases d) (auto simp: before_body_def plain_dir_def)
  have "path_parent (path_push d n) = Some (take (before_body d) (path_push d n)
          @ join_with CHR ''/'' (body_segments d))"
    using body_segments_push_plain [OF d n] k segs
    by (cases "body_segments d") (auto simp: path_parent_def)
  also have "take (before_body d) (path_push d n) = take (before_body d) d"
    using d n len by (simp add: push_plain plain_dir_def plain_name_not_absolute)
  also have "join_with CHR ''/'' (body_segments d) = drop (before_body d) d"
    using d by (simp add: plain_dir_def)
  finally show ?thesis by (simp add: path_pop_def)
qed

end
