(* ===== verification/Types.thy ===== *)
theory Types
  imports Wire Paths
begin

text \<open>
  The data types the components share: devices (\<open>utils.rs\<close>), the connection states and
  the inner state of a connection (\<open>hdl/mod.rs\<close>), the transfer metadata
  (\<open>hdl/info.rs\<close>) and the messages between the library and the front end
  (\<open>channel.rs\<close>).
\<close>

section \<open>Devices\<close>

datatype device_type = DevUnknown | DevPhone | DevTablet | DevLaptop

text \<open>\<open>device_type as u8\<close>\<close>

definition device_num :: "device_type \<Rightarrow> byte" where
  "device_num d = (case d of DevUnknown \<Rightarrow> 0 | DevPhone \<Rightarrow> 1 | DevTablet \<Rightarrow> 2 | DevLaptop \<Rightarrow> 3)"

definition from_raw_value :: "byte \<Rightarrow> device_type" where
  "from_raw_value v =
     (if v = 0 then DevUnknown else if v = 1 then DevPhone else if v = 2 then DevTablet
      else if v = 3 then DevLaptop else DevUnknown)"

lemma from_raw_value_device_num [simp]: "from_raw_value (device_num d) = d"
  by (cases d) (simp_all add: from_raw_value_def device_num_def)

record remote_device_info =
  rdi_name :: string
  rdi_type :: device_type

section \<open>Connection states\<close>

datatype conn_state =
    Initial
  | ReceivedConnectionRequest
  | SentUkeyServerInit
  | SentUkeyClientInit
  | SentUkeyClientFinish
  | SentPairedKeyEncryption
  | ReceivedUkeyClientFinish
  | SentConnectionResponse
  | SentPairedKeyResult
  | SentIntroduction
  | ReceivedPairedKeyResult
  | WaitingForUserConsent
  | ReceivingFiles
  | SendingFiles
  | Disconnected
  | Rejected
  | Cancelled
  | Finished

datatype text_payload_info = TpUrl i64 | TpText i64 | TpWifi i64 string

datatype text_payload_type = TptUrl | TptText | TptWifi

fun get_i64_value :: "text_payload_info \<Rightarrow> i64" where
  "get_i64_value (TpUrl v) = v"
| "get_i64_value (TpText v) = v"
| "get_i64_value (TpWifi v _) = v"

section \<open>Transfers\<close>

text \<open>An open file: the path it was opened by and the cursor.\<close>

record file_handle =
  fh_path :: path
  fh_pos :: nat

record internal_file_info =
  ifi_payload_id :: i64
  ifi_file_url :: path
  ifi_bytes_transferred :: i64
  ifi_total_size :: i64
  ifi_file :: "file_handle option"

record transfer_metadata =
  tm_id :: string
  tm_source :: "remote_device_info option"
  tm_pin_code :: "string option"
  tm_destination :: "string option"
  tm_files :: "string list option"
  tm_text_type :: "text_payload_type option"
  tm_text_description :: "string option"
  tm_text_payload :: "string option"
  tm_total_bytes :: u64
  tm_ack_bytes :: u64

definition tm_default :: transfer_metadata where
  "tm_default = \<lparr>tm_id = [], tm_source = None, tm_pin_code = None, tm_destination = None,
     tm_files = None, tm_text_type = None, tm_text_description = None, tm_text_payload = None,
     tm_total_bytes = 0, tm_ack_bytes = 0\<rparr>"

record inner_state =
  is_id :: string
  is_server_seq :: i32
  is_client_seq :: i32
  is_encryption_done :: bool
  is_state :: conn_state
  is_remote_device_info :: "remote_device_info option"
  is_pin_code :: "string option"
  is_transfer_metadata :: "transfer_metadata option"
  is_transferred_files :: "(i64, internal_file_info) hashmap"
  is_cipher_commitment :: "cipher_commitment option"
  is_private_key :: "bytes option"
  is_public_key :: "bytes option"
  is_server_init_data :: "bytes option"
  is_client_init_msg_data :: "bytes option"
  is_ukey_client_finish_msg_data :: "bytes option"
  is_decrypt_key :: "bytes option"
  is_recv_hmac_key :: "bytes option"
  is_encrypt_key :: "bytes option"
  is_send_hmac_key :: "bytes option"
  is_text_payload :: "text_payload_info option"
  is_payload_buffers :: "(i64, bytes) hashmap"
  is_last_notified_bytes :: u64
  is_transfer_start :: "nat option"

definition is_default :: inner_state where
  "is_default = \<lparr>is_id = [], is_server_seq = 0, is_client_seq = 0, is_encryption_done = False,
     is_state = Initial, is_remote_device_info = None, is_pin_code = None,
     is_transfer_metadata = None, is_transferred_files = [], is_cipher_commitment = None,
     is_private_key = None, is_public_key = None, is_server_init_data = None,
     is_client_init_msg_data = None, is_ukey_client_finish_msg_data = None,
     is_decrypt_key = None, is_recv_hmac_key = None, is_encrypt_key = None,
     is_send_hmac_key = None, is_text_payload = None, is_payload_buffers = [],
     is_last_notified_bytes = 0, is_transfer_start = None\<rparr>"

section \<open>Channel messages\<close>

datatype channel_direction = FrontToLib | LibToFront

datatype channel_action = AcceptTransfer | RejectTransfer | CancelTransfer

datatype transfer_type = Inbound | Outbound

record channel_message =
  cm_id :: string
  cm_direction :: channel_direction
  cm_action :: "channel_action option"
  cm_rtype :: "transfer_type option"
  cm_state :: "conn_state option"
  cm_meta :: "transfer_metadata option"

definition cm_default :: channel_message where
  "cm_default = \<lparr>cm_id = [], cm_direction = FrontToLib, cm_action = None, cm_rtype = None,
     cm_state = None, cm_meta = None\<rparr>"

text \<open>What \<open>broadcast::Receiver::recv\<close> returns.\<close>

datatype recv_result = RecvOk channel_message | RecvLagged nat | RecvClosed

end
