(* ===== verification/Externals.thy ===== *)
theory Externals
  imports Types
begin

text \<open>
  What the program calls and does not define: the generated protocol-buffer codec, the
  cryptographic crates, base64, random numbers and the operating system. Each is a function in
  the environment record \<open>env\<close>, so every theorem holds for every such function; what the
  program relies on is a named predicate below. A source of choice (randomness, failing or short
  reads and writes, the order of hash map keys) is a function of the situation it is used in, so
  that all its behaviours are covered by varying the environment.
\<close>

section \<open>The environment\<close>

record codec =
  enc_offline :: "offline_frame \<Rightarrow> bytes"
  dec_offline :: "bytes \<Rightarrow> offline_frame option"
  enc_ukey2 :: "ukey2_message \<Rightarrow> bytes"
  dec_ukey2 :: "bytes \<Rightarrow> ukey2_message option"
  enc_client_init :: "ukey2_client_init \<Rightarrow> bytes"
  dec_client_init :: "bytes \<Rightarrow> ukey2_client_init option"
  enc_server_init :: "ukey2_server_init \<Rightarrow> bytes"
  dec_server_init :: "bytes \<Rightarrow> ukey2_server_init option"
  enc_client_finished :: "bytes option \<Rightarrow> bytes"   \<comment> \<open>\<open>Ukey2ClientFinished { public_key }\<close>\<close>
  dec_client_finished :: "bytes \<Rightarrow> bytes option option"
  enc_alert :: "ukey2_alert \<Rightarrow> bytes"
  enc_public_key :: "generic_public_key \<Rightarrow> bytes"
  dec_public_key :: "bytes \<Rightarrow> generic_public_key option"
  enc_secure :: "secure_message \<Rightarrow> bytes"
  dec_secure :: "bytes \<Rightarrow> secure_message option"
  enc_header_body :: "header_and_body \<Rightarrow> bytes"
  dec_header_body :: "bytes \<Rightarrow> header_and_body option"
  enc_d2d :: "d2d_message \<Rightarrow> bytes"
  dec_d2d :: "bytes \<Rightarrow> d2d_message option"
  enc_sharing :: "sharing_frame \<Rightarrow> bytes"
  dec_sharing :: "bytes \<Rightarrow> sharing_frame option"
  enc_gcm :: "gcm_metadata \<Rightarrow> bytes"

record crypto = codec +
  sha256 :: "bytes \<Rightarrow> bytes"
  sha512 :: "bytes \<Rightarrow> bytes"
  hkdf_expand :: "bytes \<Rightarrow> bytes \<Rightarrow> bytes \<Rightarrow> nat \<Rightarrow> bytes option"  \<comment> \<open>salt, input, info, length\<close>
  hmac_accepts :: "bytes \<Rightarrow> bool"                 \<comment> \<open>\<open>new_from_slice\<close> is Ok\<close>
  hmac_tag :: "bytes \<Rightarrow> bytes \<Rightarrow> bytes"           \<comment> \<open>key, message\<close>
  aes_cbc_encrypt :: "bytes \<Rightarrow> bytes \<Rightarrow> bytes \<Rightarrow> bytes"         \<comment> \<open>key, iv, plain; with PKCS7\<close>
  aes_cbc_decrypt :: "bytes \<Rightarrow> bytes \<Rightarrow> bytes \<Rightarrow> bytes option"  \<comment> \<open>None: bad padding or length\<close>
  gen_secret :: "nat \<Rightarrow> bytes"
  public_of :: "bytes \<Rightarrow> bytes"
  point_x :: "bytes \<Rightarrow> bytes"
  point_y :: "bytes \<Rightarrow> bytes"
  point_of_bytes :: "bytes \<Rightarrow> bytes option"        \<comment> \<open>\<open>EncodedPoint::from_bytes\<close>\<close>
  key_of_point :: "bytes \<Rightarrow> bytes option"          \<comment> \<open>\<open>PublicKey::from_encoded_point\<close>\<close>
  diffie_hellman :: "bytes \<Rightarrow> bytes \<Rightarrow> bytes"      \<comment> \<open>secret key, peer public key\<close>
  biguint_of_be :: "bytes \<Rightarrow> nat"                  \<comment> \<open>\<open>BigUint::from_bytes_be\<close>\<close>
  bigint_of_biguint :: "nat \<Rightarrow> int option"         \<comment> \<open>\<open>to_bigint\<close>\<close>
  signed_be_of_bigint :: "int \<Rightarrow> bytes"            \<comment> \<open>\<open>to_signed_bytes_be\<close>\<close>
  hex_decode :: "string \<Rightarrow> bytes option"
  base64_encode :: "bytes \<Rightarrow> string"               \<comment> \<open>\<open>URL_SAFE_NO_PAD\<close>\<close>
  base64_decode :: "string \<Rightarrow> bytes option"

text \<open>
  The arguments of an operating-system function name the situation: \<open>os_rand k n\<close> is what
  the \<open>k\<close>-th draw of \<open>n\<close> random bytes gives, \<open>os_write_fault k\<close> says whether the
  \<open>k\<close>-th write to the socket fails and after how many bytes, and so on.
\<close>

record env = crypto +
  os_rand :: "nat \<Rightarrow> nat \<Rightarrow> bytes"
  os_rand_i64 :: "nat \<Rightarrow> i64"
  os_write_fault :: "nat \<Rightarrow> nat option"
  os_key_order :: "i64 list \<Rightarrow> i64 list"
  os_hostname :: string
  os_target :: os_type
  os_create_error :: "path \<Rightarrow> bool"
  os_disk_fault :: "path \<Rightarrow> nat \<Rightarrow> nat option"     \<comment> \<open>path, cursor\<close>
  os_open_error :: "path \<Rightarrow> bool"
  os_metadata_error :: "path \<Rightarrow> bool"
  os_read_error :: "path \<Rightarrow> nat \<Rightarrow> bool"            \<comment> \<open>path, cursor\<close>
  os_read_limit :: "path \<Rightarrow> nat \<Rightarrow> nat"             \<comment> \<open>how many bytes a read likes to give\<close>
  os_mime :: "path \<Rightarrow> string"
  os_now :: "nat \<Rightarrow> nat"
  os_user_dirs :: "(path option \<times> path) option"   \<comment> \<open>download directory, home directory\<close>

section \<open>Documented behaviour\<close>

text \<open>\<open>prost\<close>: a message that was encoded decodes to itself.\<close>

definition codec_ok :: "env \<Rightarrow> bool" where
  "codec_ok X \<longleftrightarrow>
     (\<forall>m. dec_offline X (enc_offline X m) = Some m) \<and>
     (\<forall>m. dec_ukey2 X (enc_ukey2 X m) = Some m) \<and>
     (\<forall>m. dec_client_init X (enc_client_init X m) = Some m) \<and>
     (\<forall>m. dec_server_init X (enc_server_init X m) = Some m) \<and>
     (\<forall>m. dec_client_finished X (enc_client_finished X m) = Some m) \<and>
     (\<forall>m. dec_public_key X (enc_public_key X m) = Some m) \<and>
     (\<forall>m. dec_secure X (enc_secure X m) = Some m) \<and>
     (\<forall>m. dec_header_body X (enc_header_body X m) = Some m) \<and>
     (\<forall>m. dec_d2d X (enc_d2d X m) = Some m) \<and>
     (\<forall>m. dec_sharing X (enc_sharing X m) = Some m)"

text \<open>
  \<open>cbc\<close> with PKCS7: the ciphertext is the plaintext padded to the next multiple of the
  block size, and decryption with the same key and IV gives the plaintext.
\<close>

definition aes_length_ok :: "env \<Rightarrow> bool" where
  "aes_length_ok X \<longleftrightarrow>
     (\<forall>k iv pt. length (aes_cbc_encrypt X k iv pt) = (length pt div 16 + 1) * 16)"

definition aes_ok :: "env \<Rightarrow> bool" where
  "aes_ok X \<longleftrightarrow> aes_length_ok X \<and>
     (\<forall>k iv pt. aes_cbc_decrypt X k iv (aes_cbc_encrypt X k iv pt) = Some pt)"

text \<open>\<open>rand\<close>: a draw of \<open>n\<close> bytes has \<open>n\<close> bytes.\<close>

definition rand_ok :: "env \<Rightarrow> bool" where
  "rand_ok X \<longleftrightarrow> (\<forall>k n. length (os_rand X k n) = n)"

text \<open>The keys of a hash map come in some order.\<close>

definition key_order_ok :: "env \<Rightarrow> bool" where
  "key_order_ok X \<longleftrightarrow> (\<forall>ks. mset (os_key_order X ks) = mset ks)"

definition base64_ok :: "env \<Rightarrow> bool" where
  "base64_ok X \<longleftrightarrow> (\<forall>b. base64_decode X (base64_encode X b) = Some b)"

lemma codec_okD:
  assumes "codec_ok X"
  shows "dec_offline X (enc_offline X m1) = Some m1"
    and "dec_ukey2 X (enc_ukey2 X m2) = Some m2"
    and "dec_client_init X (enc_client_init X m3) = Some m3"
    and "dec_server_init X (enc_server_init X m4) = Some m4"
    and "dec_client_finished X (enc_client_finished X m5) = Some m5"
    and "dec_public_key X (enc_public_key X m6) = Some m6"
    and "dec_secure X (enc_secure X m7) = Some m7"
    and "dec_header_body X (enc_header_body X m8) = Some m8"
    and "dec_d2d X (enc_d2d X m9) = Some m9"
    and "dec_sharing X (enc_sharing X m10) = Some m10"
  using assms by (simp_all add: codec_ok_def)

end
