(* ===== verification/Utils.thy ===== *)
theory Utils
  imports Externals "HOL-Library.Signed_Division"
begin

text \<open>
  \<open>crates/core/src/utils.rs\<close>, without the endpoint information (theory
  \<open>Endpoint\<close>): the PIN code, the encoding of curve coordinates, key derivation, the
  download directory and the operating-system type.
\<close>

section \<open>The PIN code\<close>

text \<open>
  \<open>to_four_digit_string\<close> computes on \<open>i32\<close>. The wrap-around of every operation is
  written out; \<open>smod\<close> is Rust's remainder, which has the sign of the dividend.
\<close>

definition wrap_i32 :: "int \<Rightarrow> int" where
  "wrap_i32 x = (x + 2 ^ 31) mod 2 ^ 32 - 2 ^ 31"

definition k_hash_modulo :: int where "k_hash_modulo = 9973"
definition k_hash_base_multiplier :: int where "k_hash_base_multiplier = 31"

definition pin_step :: "int \<times> int \<Rightarrow> byte \<Rightarrow> int \<times> int" where
  "pin_step hm b =
     (let byte = sint b;
          hash = wrap_i32 (fst hm + wrap_i32 (byte * snd hm)) smod k_hash_modulo;
          multiplier = wrap_i32 (snd hm * k_hash_base_multiplier) smod k_hash_modulo
      in (hash, multiplier))"

definition pin_hash :: "bytes \<Rightarrow> int" where
  "pin_hash bs = fst (foldl pin_step (0, 1) bs)"

definition to_four_digit_string :: "bytes \<Rightarrow> string" where
  "to_four_digit_string bs = dec_pad 4 (nat \<bar>pin_hash bs\<bar>)"

text \<open>The value that is computed, without a modulus.\<close>

fun pin_sum :: "bytes \<Rightarrow> int" where
  "pin_sum [] = 0"
| "pin_sum (b # bs) = sint b + 31 * pin_sum bs"

lemma wrap_i32_id: "- (2 ^ 31) \<le> x \<Longrightarrow> x < 2 ^ 31 \<Longrightarrow> wrap_i32 x = x"
  by (simp add: wrap_i32_def)

lemma smod_bounds: "0 < (m::int) \<Longrightarrow> - m < x smod m \<and> x smod m < m"
  using smod_int_range [of m x] by simp

lemma smod_nonneg: "0 \<le> (x::int) \<Longrightarrow> 0 < m \<Longrightarrow> x smod m = x mod m"
  by (cases "x = 0") (simp_all add: smod_int_alt_def)

lemma smod_cong: "(x smod m) mod m = (x::int) mod m"
  by (simp add: minus_mult_sdiv_eq_smod [of x m, symmetric] flip: mod_diff_right_eq)

text \<open>The running values of the loop: no operation leaves the range of \<open>i32\<close>.\<close>

definition pin_inv :: "int \<times> int \<Rightarrow> bool" where
  "pin_inv hm \<longleftrightarrow> \<bar>fst hm\<bar> < k_hash_modulo \<and> 0 \<le> snd hm \<and> snd hm < k_hash_modulo"

definition pin_step_exact :: "int \<times> int \<Rightarrow> byte \<Rightarrow> int \<times> int" where
  "pin_step_exact hm b =
     ((fst hm + sint b * snd hm) smod k_hash_modulo,
      (snd hm * k_hash_base_multiplier) smod k_hash_modulo)"

lemma sint_byte: "- 128 \<le> sint (b :: byte)" "sint (b :: byte) < 128"
  using sint_greater_eq [of b] sint_less [of b] by simp_all

lemma pin_product_bounds:
  assumes "0 \<le> m" and "m < 9973"
  shows "\<bar>sint (b :: byte) * m\<bar> \<le> 128 * 9973"
proof -
  have "\<bar>sint b\<bar> * \<bar>m\<bar> \<le> 128 * 9973"
    using sint_byte [of b] assms by (intro mult_mono) auto
  then show ?thesis by (simp add: abs_mult)
qed

lemma pin_step_no_overflow:
  assumes "pin_inv hm"
  shows "pin_step hm b = pin_step_exact hm b"
proof -
  have p: "\<bar>sint b * snd hm\<bar> \<le> 128 * 9973"
    using assms by (intro pin_product_bounds) (auto simp: pin_inv_def k_hash_modulo_def)
  have "wrap_i32 (sint b * snd hm) = sint b * snd hm"
    using p by (intro wrap_i32_id) auto
  moreover have "wrap_i32 (fst hm + sint b * snd hm) = fst hm + sint b * snd hm"
    using p assms by (intro wrap_i32_id) (auto simp: pin_inv_def k_hash_modulo_def)
  moreover have "wrap_i32 (snd hm * k_hash_base_multiplier) = snd hm * k_hash_base_multiplier"
    using assms by (intro wrap_i32_id)
      (auto simp: pin_inv_def k_hash_modulo_def k_hash_base_multiplier_def)
  ultimately show ?thesis
    by (simp add: pin_step_def pin_step_exact_def Let_def)
qed

lemma pin_step_inv: "pin_inv hm \<Longrightarrow> pin_inv (pin_step hm b)"
  using smod_bounds [of k_hash_modulo "fst hm + sint b * snd hm"]
    smod_bounds [of k_hash_modulo "snd hm * k_hash_base_multiplier"]
    smod_nonneg [of "snd hm * k_hash_base_multiplier" k_hash_modulo]
  by (auto simp: pin_step_no_overflow pin_step_exact_def pin_inv_def k_hash_modulo_def
      k_hash_base_multiplier_def)

lemma pin_fold_exact:
  "pin_inv hm \<Longrightarrow> foldl pin_step hm bs = foldl pin_step_exact hm bs"
proof (induction bs arbitrary: hm)
  case (Cons b bs)
  from Cons.IH [OF pin_step_inv [OF Cons.prems]] show ?case
    by (simp add: pin_step_no_overflow [OF Cons.prems])
qed simp

lemma pin_fold_inv: "pin_inv hm \<Longrightarrow> pin_inv (foldl pin_step hm bs)"
proof (induction bs arbitrary: hm)
  case (Cons b bs)
  from Cons.IH [OF pin_step_inv [OF Cons.prems]] show ?case by simp
qed simp

lemma pin_inv_start: "pin_inv (0, 1)"
  by (simp add: pin_inv_def k_hash_modulo_def)

lemma mod_affine: "(a mod m + (b mod m) * c) mod m = (a + b * c) mod (m::int)"
  by (metis mod_add_eq mod_mult_left_eq mod_mod_trivial)

lemma pin_fold_cong:
  "pin_inv hm \<Longrightarrow>
     fst (foldl pin_step hm bs) mod k_hash_modulo = (fst hm + snd hm * pin_sum bs) mod k_hash_modulo"
proof (induction bs arbitrary: hm)
  case Nil
  then show ?case by simp
next
  case (Cons b bs)
  let ?M = k_hash_modulo
  let ?n = "pin_step hm b"
  have n: "?n = pin_step_exact hm b"
    using Cons.prems by (rule pin_step_no_overflow)
  have "fst (foldl pin_step hm (b # bs)) mod ?M = (fst ?n + snd ?n * pin_sum bs) mod ?M"
    using Cons.IH [OF pin_step_inv [OF Cons.prems]] by simp
  also have "\<dots> = (fst ?n mod ?M + (snd ?n mod ?M) * pin_sum bs) mod ?M"
    by (simp only: mod_affine)
  also have "\<dots> = ((fst hm + sint b * snd hm) mod ?M
                 + ((snd hm * k_hash_base_multiplier) mod ?M) * pin_sum bs) mod ?M"
    by (simp only: n pin_step_exact_def fst_conv snd_conv smod_cong)
  also have "\<dots> = (fst hm + sint b * snd hm + snd hm * k_hash_base_multiplier * pin_sum bs) mod ?M"
    by (simp only: mod_affine)
  finally show ?case
    by (simp add: k_hash_base_multiplier_def algebra_simps)
qed

text \<open>
  C33. The PIN code: four digits for every input; no step of the loop overflows the 32-bit
  arithmetic of the code; and the number shown is the absolute value of a representative of the
  polynomial hash modulo 9973 that the protocol defines.
\<close>

theorem four_digit_pin:
  "length (to_four_digit_string bs) = 4 \<and> list_all is_digit (to_four_digit_string bs)
   \<and> foldl pin_step (0, 1) bs = foldl pin_step_exact (0, 1) bs
   \<and> undec (to_four_digit_string bs) = nat \<bar>pin_hash bs\<bar>
   \<and> pin_hash bs mod 9973 = pin_sum bs mod 9973"
proof (intro conjI)
  have inv: "pin_inv (foldl pin_step (0, 1) bs)"
    by (intro pin_fold_inv pin_inv_start)
  then have "nat \<bar>pin_hash bs\<bar> < 10 ^ 4"
    by (auto simp: pin_inv_def pin_hash_def k_hash_modulo_def)
  then have "length (dec (nat \<bar>pin_hash bs\<bar>)) \<le> 4"
    by (intro length_dec_le) auto
  then show "length (to_four_digit_string bs) = 4"
    by (simp add: to_four_digit_string_def dec_pad_def Let_def)
  show "list_all is_digit (to_four_digit_string bs)"
    by (auto simp: to_four_digit_string_def dec_pad_def Let_def list_all_iff is_digit_0 dest: dec_digits)
  show "foldl pin_step (0, 1) bs = foldl pin_step_exact (0, 1) bs"
    using pin_fold_exact [OF pin_inv_start] .
  show "undec (to_four_digit_string bs) = nat \<bar>pin_hash bs\<bar>"
    by (simp add: to_four_digit_string_def dec_pad_def Let_def undec_replicate_0 undec_dec)
  show "pin_hash bs mod 9973 = pin_sum bs mod 9973"
    using pin_fold_cong [OF pin_inv_start, of bs] by (simp add: pin_hash_def k_hash_modulo_def)
qed

section \<open>Coordinates of public keys\<close>

text \<open>The value of a big-endian byte string.\<close>

definition be_nat :: "bytes \<Rightarrow> nat" where
  "be_nat bs = foldl (\<lambda>a b. 256 * a + unat b) 0 bs"

text \<open>
  \<open>num-bigint\<close>: \<open>to_signed_bytes_be\<close> is the two's-complement representation in
  big-endian order, with no redundant leading byte.
\<close>

definition signed_be_of :: "int \<Rightarrow> bytes \<Rightarrow> bool" where
  "signed_be_of i r \<longleftrightarrow> r \<noteq> [] \<and> hd r < 0x80 \<and> int (be_nat r) = i
     \<and> (1 < length r \<longrightarrow> hd r = 0 \<longrightarrow> 0x80 \<le> r ! 1)"

definition bigint_ok :: "env \<Rightarrow> bool" where
  "bigint_ok X \<longleftrightarrow> (\<forall>b. biguint_of_be X b = be_nat b)
     \<and> (\<forall>n. bigint_of_biguint X n = Some (int n))
     \<and> (\<forall>i. 0 \<le> i \<longrightarrow> signed_be_of i (signed_be_of_bigint X i))"

definition encode_point :: "env \<Rightarrow> bytes \<Rightarrow> bytes outcome" where
  "encode_point X u =
     (case bigint_of_biguint X (biguint_of_be X u) of
        None \<Rightarrow> Fail (Error ''Failed to convert to bigint'')
      | Some big_int \<Rightarrow> Done (signed_be_of_bigint X big_int))"

text \<open>
  The reading side, in \<open>finalize_key_exchange\<close>: no more than the last 32 bytes of a
  coordinate are used, and a shorter coordinate is used as it is.
\<close>

definition key_coordinate :: "bytes \<Rightarrow> bytes" where
  "key_coordinate x = (if 32 < length x then drop (length x - 32) x else x)"

lemma be_nat_Nil [simp]: "be_nat [] = 0"
  by (simp add: be_nat_def)

lemma be_nat_snoc: "be_nat (bs @ [b]) = 256 * be_nat bs + unat b"
  by (simp add: be_nat_def)

lemma be_nat_append: "be_nat (a @ b) = be_nat a * 256 ^ length b + be_nat b"
proof (induction b rule: rev_induct)
  case (snoc x b)
  have "be_nat (a @ b @ [x]) = 256 * be_nat (a @ b) + unat x"
    using be_nat_snoc [of "a @ b" x] by simp
  with snoc show ?case by (simp add: be_nat_snoc algebra_simps)
qed simp

lemma be_nat_single [simp]: "be_nat [b] = unat b"
  by (simp add: be_nat_def)

lemma be_nat_Cons: "be_nat (b # bs) = unat b * 256 ^ length bs + be_nat bs"
  using be_nat_append [of "[b]" bs] by simp

lemma unat_byte_less: "unat (b :: byte) < 256"
  using unsigned_less [of b] by simp

lemma be_nat_less: "be_nat bs < 256 ^ length bs"
proof (induction bs)
  case (Cons b bs)
  have "be_nat (b # bs) < unat b * 256 ^ length bs + 256 ^ length bs"
    using Cons by (simp add: be_nat_Cons)
  also have "\<dots> = (unat b + 1) * 256 ^ length bs"
    by (simp add: algebra_simps)
  also have "\<dots> \<le> 256 * 256 ^ length bs"
    using unat_byte_less [of b] by (intro mult_right_mono) auto
  finally show ?case by simp
qed simp

lemma be_nat_inj: "length a = length b \<Longrightarrow> be_nat a = be_nat b \<Longrightarrow> a = b"
proof (induction a arbitrary: b)
  case (Cons x a)
  then obtain y c where b: "b = y # c" and len: "length a = length c"
    by (cases b) auto
  have eq: "unat x * 256 ^ length c + be_nat a = unat y * 256 ^ length c + be_nat c"
    using Cons.prems b len by (simp add: be_nat_Cons)
  have "be_nat a < 256 ^ length c" "be_nat c < 256 ^ length c"
    using be_nat_less [of a] be_nat_less [of c] len by simp_all
  then have "unat x = (unat x * 256 ^ length c + be_nat a) div 256 ^ length c"
    and "unat y = (unat y * 256 ^ length c + be_nat c) div 256 ^ length c"
    by simp_all
  then have "unat x = unat y" by (simp add: eq)
  with eq Cons.IH [OF len] b show ?case by (simp add: unsigned_word_eqI)
qed simp

lemma signed_be_length:
  assumes r: "signed_be_of (int n) r"
  shows "n < 128 * 256 ^ k \<longleftrightarrow> length r \<le> Suc k"
proof
  obtain b bs where r': "r = b # bs"
    using r by (cases r) (auto simp: signed_be_of_def)
  have n: "n = unat b * 256 ^ length bs + be_nat bs"
  proof -
    have "be_nat r = n" using r by (simp add: signed_be_of_def)
    then show ?thesis by (simp add: r' be_nat_Cons)
  qed
  have b: "unat b < 128"
    using r by (simp add: r' signed_be_of_def word_less_nat_alt)
  show "n < 128 * 256 ^ k \<Longrightarrow> length r \<le> Suc k"
  proof (rule ccontr)
    assume less: "n < 128 * 256 ^ k" and long: "\<not> length r \<le> Suc k"
    then have k: "Suc k \<le> length bs" by (simp add: r')
    have pow: "(256::nat) ^ Suc k \<le> 256 ^ length bs"
      using k by (intro power_increasing) auto
    show False
    proof (cases "b = 0")
      case True
      then obtain c cs where bs: "bs = c # cs"
        using k by (cases bs) auto
      have "0x80 \<le> c"
        using r True by (simp add: r' bs signed_be_of_def)
      then have "128 \<le> unat c" by (simp add: word_le_nat_alt)
      then have "128 * 256 ^ length cs \<le> n"
        by (simp add: n bs be_nat_Cons True add_increasing2)
      moreover have "(256::nat) ^ k \<le> 256 ^ length cs"
        using k bs by (intro power_increasing) auto
      ultimately show False using less by simp
    next
      case False
      then have "1 \<le> unat b" by (simp add: unat_gt_0 Suc_le_eq)
      then have "256 ^ length bs \<le> n"
        by (simp add: n add_increasing2)
      with pow less show False by simp
    qed
  qed
  show "n < 128 * 256 ^ k" if "length r \<le> Suc k"
  proof -
    have "be_nat bs < 256 ^ length bs" by (rule be_nat_less)
    then have "n < (unat b + 1) * 256 ^ length bs"
      by (simp add: n)
    also have "\<dots> \<le> 128 * 256 ^ length bs"
      using b by (intro mult_right_mono) auto
    also have "\<dots> \<le> 128 * 256 ^ k"
      using that by (intro mult_left_mono power_increasing) (auto simp: r')
    finally show ?thesis .
  qed
qed

lemma point_coordinate_read:
  assumes X: "bigint_ok X" and x: "length x = 32"
  shows "\<exists>e. encode_point X x = Done e \<and> (key_coordinate e = x \<longleftrightarrow> 2 ^ 247 \<le> be_nat x)
    \<and> (be_nat x < 2 ^ 247 \<longrightarrow> length (key_coordinate e) < 32)"
proof -
  define e where "e = signed_be_of_bigint X (int (be_nat x))"
  have enc: "encode_point X x = Done e"
    using X by (simp add: encode_point_def bigint_ok_def e_def)
  have e: "signed_be_of (int (be_nat x)) e"
    using X by (simp add: bigint_ok_def e_def)
  have val: "be_nat e = be_nat x" using e by (simp add: signed_be_of_def)
  have short: "be_nat x < 2 ^ 247 \<longleftrightarrow> length e \<le> 31"
    using signed_be_length [OF e, of 30] by simp
  have "be_nat x < 256 ^ 32" using be_nat_less [of x] x by simp
  then have len: "length e \<le> 33"
    using signed_be_length [OF e, of 32] by simp
  have long: "key_coordinate e = x" if "\<not> length e \<le> 31"
  proof (cases "length e = 32")
    case True
    with x val show ?thesis by (simp add: key_coordinate_def be_nat_inj)
  next
    case False
    with that len have l: "length e = 33" by simp
    then obtain b bs where e': "e = b # bs" "length bs = 32" by (cases e) auto
    have "unat b * 256 ^ 32 < 256 ^ 32"
      using val e' \<open>be_nat x < 256 ^ 32\<close> by (simp add: be_nat_Cons)
    then have "unat b = 0" by simp
    with val e' x have "bs = x" by (intro be_nat_inj) (simp_all add: be_nat_Cons)
    with e' l show ?thesis by (simp add: key_coordinate_def)
  qed
  have "key_coordinate e = e" if "length e \<le> 31"
    using that by (simp add: key_coordinate_def)
  with enc short long x show ?thesis
    by (cases "length e \<le> 31") auto
qed

text \<open>
  Sending a coordinate with \<open>encode_point\<close> and reading it as
  \<open>finalize_key_exchange\<close> does gives the 32 bytes back exactly when the coordinate is at
  least \<open>2 ^ 247\<close>. Below that the minimal encoding has fewer than 32 bytes, and the
  reading side does not pad it.
\<close>

theorem point_coordinate_roundtrip:
  assumes X: "bigint_ok X" and x: "length x = 32"
  shows "\<exists>e. encode_point X x = Done e \<and> (key_coordinate e = x \<longleftrightarrow> 2 ^ 247 \<le> be_nat x)
    \<and> (be_nat x < 2 ^ 247 \<longrightarrow> length (key_coordinate e) < 32)"
  using assms by (rule point_coordinate_read)

section \<open>Keys, directories, operating system\<close>

definition hkdf_extract_expand :: "env \<Rightarrow> bytes \<Rightarrow> bytes \<Rightarrow> bytes \<Rightarrow> nat \<Rightarrow> bytes outcome" where
  "hkdf_extract_expand X salt input info output_len =
     (case hkdf_expand X salt input info output_len of
        None \<Rightarrow> Fail (Error ''HKDF expand failed'')
      | Some okm \<Rightarrow> Done okm)"

definition gen_random :: "env \<Rightarrow> nat \<Rightarrow> nat \<Rightarrow> bytes" where
  "gen_random X draw n = os_rand X draw n"

definition gen_ecdsa_keypair :: "env \<Rightarrow> nat \<Rightarrow> bytes \<times> bytes" where
  "gen_ecdsa_keypair X draw =
     (let secret_key = gen_secret X draw; public_key = public_of X secret_key
      in (secret_key, public_key))"

text \<open>\<open>CUSTOM_DOWNLOAD\<close> is a lock: None when it is poisoned.\<close>

definition get_download_dir :: "env \<Rightarrow> path option option \<Rightarrow> path" where
  "get_download_dir X cdown =
     (case cdown of
        Some (Some p) \<Rightarrow> p
      | _ \<Rightarrow>
          (case os_user_dirs X of
             Some (Some dd, home) \<Rightarrow> dd
           | Some (None, home) \<Rightarrow> home
           | None \<Rightarrow> ''/''))"

definition current_os_type :: "env \<Rightarrow> os_type" where
  "current_os_type X =
     (case os_target X of OsWindows \<Rightarrow> OsWindows | OsApple \<Rightarrow> OsApple | OsLinux \<Rightarrow> OsLinux
      | _ \<Rightarrow> OsUnknown)"

end
