(* ===== verification/Endpoint.thy ===== *)
theory Endpoint
  imports Utils
begin

text \<open>
  Endpoint information: what a device tells about itself in a connection request
  (\<open>RemoteDeviceInfo::serialize\<close> in \<open>utils.rs\<close>, read by
  \<open>process_connection_request\<close> in \<open>hdl/inbound.rs\<close>) and in its mDNS record
  (\<open>gen_mdns_endpoint_info\<close> and \<open>parse_mdns_endpoint_info\<close> in \<open>utils.rs\<close>). The
  locale \<open>endpoint_codec\<close> is the contract both pairs share.
\<close>

section \<open>The operations\<close>

definition serialize :: "env \<Rightarrow> nat \<Rightarrow> remote_device_info \<Rightarrow> bytes" where
  "serialize X draw rdi =
     (let head = push_bit 1 (device_num (rdi_type rdi)) AND 7;
          name_chars = as_bytes (rdi_name rdi);
          name_chars = (if length name_chars > 255 then take 255 name_chars else name_chars)
      in [head] @ os_rand X draw 16 @ [word_of_nat (length name_chars)] @ name_chars)"

definition process_connection_request :: "offline_frame \<Rightarrow> remote_device_info outcome" where
  "process_connection_request frame =
     obind (o_or (Error ''Missing required fields'') (of_v1 frame)) (\<lambda>v1.
     if v1_frame_type v1 \<noteq> FrConnectionRequest then Fail (Error ''Unexpected frame type'')
     else
     obind (o_or (Error ''Missing required fields'') (v1_connection_request v1)) (\<lambda>cr.
     obind (o_or (Error ''Missing endpoint info'') (cr_endpoint_info cr)) (\<lambda>endpoint_info.
     if length endpoint_info \<le> 17 then Fail (Error ''Endpoint info too short'')
     else
     obind (o_unwrap ''index out of bounds'' (index endpoint_info 17)) (\<lambda>len.
     let device_name_length = unat len in
     if length endpoint_info < device_name_length + 18
     then Fail (Error ''Endpoint info too short to contain the device name'')
     else
     obind (o_unwrap ''slice out of range''
              (slice 18 (18 + device_name_length) endpoint_info)) (\<lambda>name_bytes.
     obind (o_or (Error ''Device name is not valid UTF-8'') (from_utf8 name_bytes)) (\<lambda>device_name.
     obind (o_unwrap ''index out of bounds'' (index endpoint_info 0)) (\<lambda>b0.
     let raw_device_type = drop_bit 1 (b0 AND 7)
     in Done \<lparr>rdi_name = device_name, rdi_type = from_raw_value raw_device_type\<rparr>)))))))"

definition gen_mdns_name :: "env \<Rightarrow> bytes \<Rightarrow> string" where
  "gen_mdns_name X endpoint_id =
     base64_encode X ([0x23] @ endpoint_id @ [0xFC, 0x9F, 0x5E] @ [0x00, 0x00])"

definition gen_mdns_endpoint_info :: "env \<Rightarrow> nat \<Rightarrow> byte \<Rightarrow> string \<Rightarrow> string" where
  "gen_mdns_endpoint_info X draw device_type device_name =
     (let name = as_bytes device_name;
          record = [push_bit 1 device_type] @ os_rand X draw 16
                   @ [word_of_nat (length name)] @ name
      in base64_encode X record)"

definition parse_mdns_endpoint_info :: "env \<Rightarrow> string \<Rightarrow> (device_type \<times> string) outcome" where
  "parse_mdns_endpoint_info X encoded_str =
     obind (o_or (Error ''base64'') (base64_decode X encoded_str)) (\<lambda>decoded_bytes.
     if length decoded_bytes < 19 then Fail (Error ''Invalid data length'')
     else
     obind (o_unwrap ''index out of bounds'' (index decoded_bytes 0)) (\<lambda>b0.
     obind (o_unwrap ''index out of bounds'' (index decoded_bytes 17)) (\<lambda>len.
     let device_type = drop_bit 1 b0 AND 7;
         name_length = unat len in
     if 18 + name_length > length decoded_bytes then Fail (Error ''Invalid name length'')
     else
     obind (o_unwrap ''slice out of range''
              (slice 18 (18 + name_length) decoded_bytes)) (\<lambda>device_name_bytes.
     obind (o_or Utf8Error (from_utf8 device_name_bytes)) (\<lambda>device_name.
     Done (from_raw_value device_type, device_name))))))"

section \<open>The contract\<close>

locale endpoint_codec =
  fixes enc :: "'x \<Rightarrow> device_type \<Rightarrow> string \<Rightarrow> 'w"
    and parse :: "'x \<Rightarrow> 'w \<Rightarrow> (device_type \<times> string) outcome"
    and ok :: "'x \<Rightarrow> string \<Rightarrow> bool"
  assumes roundtrip: "ok x n \<Longrightarrow> parse x (enc x d n) = Done (d, n)"
    and no_panic: "parse x w \<noteq> Panic p"
begin

lemma enc_inj:
  "ok x n \<Longrightarrow> ok x m \<Longrightarrow> enc x d n = enc x e m \<longleftrightarrow> d = e \<and> n = m"
  by (metis roundtrip outcome.inject(1) prod.inject)

lemma parse_Done_or_Fail: "(\<exists>r. parse x w = Done r) \<or> (\<exists>e. parse x w = Fail e) \<or> parse x w = NoFuel"
  using no_panic [of x w] by (cases "parse x w") auto

end

section \<open>What the parsers compute on what the serialisers write\<close>

definition request_frame :: "bytes \<Rightarrow> offline_frame" where
  "request_frame info = offline_v1 (v1_default\<lparr>
     v1_type := Some (enum_num frame_type_table FrConnectionRequest),
     v1_connection_request := Some \<lparr>cr_endpoint_id = None, cr_endpoint_name = None,
       cr_mediums = [], cr_endpoint_info = Some info\<rparr>\<rparr>)"

lemma device_byte:
  "drop_bit 1 ((push_bit 1 (device_num d) AND 7) AND 7) = device_num d"
  "drop_bit 1 (push_bit 1 (device_num d)) AND 7 = device_num d"
  by (cases d; simp add: device_num_def)+

lemma info_layout:
  assumes "length r = 16"
  shows "index ([h] @ r @ [l] @ m) 17 = Some l"
    and "index ([h] @ r @ [l] @ m) 0 = Some h"
    and "length ([h] @ r @ [l] @ m) = 18 + length m"
    and "n \<le> length m \<Longrightarrow> slice 18 (18 + n) ([h] @ r @ [l] @ m) = Some (take n m)"
  using assms by (simp_all add: index_def nth_Cons' nth_append slice_def)

lemma unat_length_byte: "unat (word_of_nat n :: byte) = n mod 256"
  by (simp add: unat_of_nat take_bit_eq_mod)

lemma process_request_frame:
  assumes "length r = 16" and "length m = unat l" 
  shows "process_connection_request (request_frame ([h] @ r @ [l] @ m)) =
    (case from_utf8 m of
       None \<Rightarrow> Fail (Error ''Device name is not valid UTF-8'')
     | Some n \<Rightarrow> Done \<lparr>rdi_name = n, rdi_type = from_raw_value (drop_bit 1 (h AND 7))\<rparr>)"
proof -
  have type: "v1_frame_type (v1_default\<lparr>v1_type := Some (enum_num frame_type_table FrConnectionRequest),
      v1_connection_request := c\<rparr>) = FrConnectionRequest" for c
    using enum_roundtrip(1) [of FrConnectionRequest] by (simp add: v1_frame_type_def)
  show ?thesis
    using info_layout [OF assms(1), where h = h and l = l and m = m] assms(2)
    by (simp add: process_connection_request_def request_frame_def offline_v1_def type
        Let_def split: option.split del: append_Cons append_Nil)
qed

lemma connection_request_read:
  assumes "rand_ok X"
  shows "process_connection_request (request_frame (serialize X draw rdi)) =
    (case from_utf8 (take 255 (as_bytes (rdi_name rdi))) of
       None \<Rightarrow> Fail (Error ''Device name is not valid UTF-8'')
     | Some n \<Rightarrow> Done \<lparr>rdi_name = n, rdi_type = rdi_type rdi\<rparr>)"
proof -
  let ?m = "take 255 (as_bytes (rdi_name rdi))"
  have r: "length (os_rand X draw 16) = 16"
    using assms by (simp add: rand_ok_def)
  have m: "(if length (as_bytes (rdi_name rdi)) > 255 then ?m else as_bytes (rdi_name rdi)) = ?m"
    by simp
  have l: "length ?m = unat (word_of_nat (length ?m) :: byte)"
    by (simp only: unat_length_byte) simp
  show ?thesis
    unfolding serialize_def Let_def m
    by (subst process_request_frame [OF r l]) (simp only: device_byte(1) from_raw_value_device_num)
qed

text \<open>
  The receiver reads in a connection request exactly what the sender put there: the device
  type and the first 255 bytes of the device name. A name whose first 255 bytes are not valid
  UTF-8 (a multi-byte character was cut) is refused.
\<close>

theorem connection_request_roundtrip:
  assumes "rand_ok X"
  shows "process_connection_request (request_frame (serialize X draw rdi)) =
    (case from_utf8 (take 255 (as_bytes (rdi_name rdi))) of
       None \<Rightarrow> Fail (Error ''Device name is not valid UTF-8'')
     | Some n \<Rightarrow> Done \<lparr>rdi_name = n, rdi_type = rdi_type rdi\<rparr>)"
  using assms by (rule connection_request_read)

lemma parse_mdns_layout:
  assumes "base64_ok X" and "length r = 16" and "unat l \<le> length m"
  shows "parse_mdns_endpoint_info X (base64_encode X ([h] @ r @ [l] @ m)) =
    (if m = [] then Fail (Error ''Invalid data length'')
     else case from_utf8 (take (unat l) m) of
       None \<Rightarrow> Fail Utf8Error
     | Some n \<Rightarrow> Done (from_raw_value (drop_bit 1 h AND 7), n))"
proof -
  have dec: "base64_decode X (base64_encode X b) = Some b" for b
    using assms(1) by (simp add: base64_ok_def)
  show ?thesis
    using info_layout [OF assms(2), where h = h and l = l and m = m] assms(3)
    by (cases m) (simp_all add: parse_mdns_endpoint_info_def dec Let_def
        split: option.split del: append_Cons append_Nil)
qed

lemma mdns_info_read:
  assumes "base64_ok X" and "rand_ok X"
  shows "parse_mdns_endpoint_info X (gen_mdns_endpoint_info X draw (device_num d) name) =
    (if name = [] then Fail (Error ''Invalid data length'')
     else case from_utf8 (take (length name mod 256) (as_bytes name)) of
       None \<Rightarrow> Fail Utf8Error
     | Some n \<Rightarrow> Done (d, n))"
proof -
  have r: "length (os_rand X draw 16) = 16"
    using assms by (simp add: rand_ok_def)
  have l: "unat (word_of_nat (length (as_bytes name)) :: byte) \<le> length (as_bytes name)"
    by (simp only: unat_length_byte mod_less_eq_dividend)
  have e: "as_bytes name = [] \<longleftrightarrow> name = []"
    by (simp add: as_bytes_def)
  show ?thesis
    unfolding gen_mdns_endpoint_info_def Let_def parse_mdns_layout [OF assms(1) r l]
    by (simp only: device_byte(2) from_raw_value_device_num unat_length_byte e length_as_bytes)
qed

text \<open>
  The mDNS record: the length byte of \<open>gen_mdns_endpoint_info\<close> wraps at 256, so
  \<open>parse_mdns_endpoint_info\<close> reads back the device type and the first
  \<open>length name mod 256\<close> bytes of the name. An empty name is refused, because the parser
  wants at least 19 bytes.
\<close>

theorem mdns_info_roundtrip:
  assumes "base64_ok X" and "rand_ok X"
  shows "parse_mdns_endpoint_info X (gen_mdns_endpoint_info X draw (device_num d) name) =
    (if name = [] then Fail (Error ''Invalid data length'')
     else case from_utf8 (take (length name mod 256) (as_bytes name)) of
       None \<Rightarrow> Fail Utf8Error
     | Some n \<Rightarrow> Done (d, n))"
  using assms by (rule mdns_info_read)

section \<open>Both pairs meet the contract\<close>

lemma parse_mdns_no_panic: "parse_mdns_endpoint_info X w \<noteq> Panic p"
  by (auto simp: parse_mdns_endpoint_info_def obind_def o_or_def o_unwrap_def index_def
      slice_def Let_def split: option.splits if_splits)

lemma process_request_no_panic: "process_connection_request f \<noteq> Panic p"
  by (auto simp: process_connection_request_def obind_def o_or_def o_unwrap_def index_def
      slice_def Let_def split: option.splits if_splits)

definition mdns_name_ok :: "env \<times> nat \<Rightarrow> string \<Rightarrow> bool" where
  "mdns_name_ok x n \<longleftrightarrow> base64_ok (fst x) \<and> rand_ok (fst x) \<and> n \<noteq> [] \<and> length n < 256
     \<and> utf8_valid (as_bytes n)"

interpretation mdns: endpoint_codec
  "\<lambda>(X, k) d n. gen_mdns_endpoint_info X k (device_num d) n"
  "\<lambda>(X, k). parse_mdns_endpoint_info X" mdns_name_ok
proof unfold_locales
  fix x :: "env \<times> nat" and n d
  assume "mdns_name_ok x n"
  then show "(case x of (X, k) \<Rightarrow> parse_mdns_endpoint_info X)
      ((case x of (X, k) \<Rightarrow> \<lambda>d n. gen_mdns_endpoint_info X k (device_num d) n) d n) = Done (d, n)"
    by (cases x) (simp add: mdns_name_ok_def mdns_info_read from_utf8_as_bytes)
qed (simp add: parse_mdns_no_panic split: prod.split)

definition request_name_ok :: "env \<times> nat \<Rightarrow> string \<Rightarrow> bool" where
  "request_name_ok x n \<longleftrightarrow> rand_ok (fst x) \<and> length n < 256 \<and> utf8_valid (as_bytes n)"

definition parse_request_info :: "bytes \<Rightarrow> (device_type \<times> string) outcome" where
  "parse_request_info info = obind (process_connection_request (request_frame info))
     (\<lambda>r. Done (rdi_type r, rdi_name r))"

interpretation request_info: endpoint_codec
  "\<lambda>(X, k) d n. serialize X k \<lparr>rdi_name = n, rdi_type = d\<rparr>"
  "\<lambda>_. parse_request_info" request_name_ok
proof unfold_locales
  fix x :: "env \<times> nat" and n d
  assume "request_name_ok x n"
  then show "parse_request_info
      ((case x of (X, k) \<Rightarrow> \<lambda>d n. serialize X k \<lparr>rdi_name = n, rdi_type = d\<rparr>) d n) = Done (d, n)"
    by (cases x) (simp add: request_name_ok_def parse_request_info_def
        connection_request_read from_utf8_as_bytes)
next
  fix w p
  show "parse_request_info w \<noteq> Panic p"
    using process_request_no_panic [of "request_frame w"]
    by (cases "process_connection_request (request_frame w)") (auto simp: parse_request_info_def)
qed

end
