(* ===== verification/Request.thy ===== *)
theory Request
  imports Endpoint
begin

text \<open>
  What \<open>InboundRequest\<close> (\<open>hdl/inbound.rs\<close>) and \<open>OutboundRequest\<close>
  (\<open>hdl/outbound.rs\<close>) have in common: the socket, the channel, the inner state, the
  reusable buffers and the keys, and the methods that the two files define with the same text.
  The record also holds the parts of the world a connection acts on: the bytes the peer will
  send, the writes made to the socket, the messages sent into the channel, the file system, the
  number of random draws made so far and the custom download directory.
\<close>

section \<open>State\<close>

datatype fs_node = FileNode bytes | DirNode

record hmac_ctx =
  hc_key :: bytes
  hc_pending :: bytes

record request =
  rq_in :: bytes
  rq_out :: "bytes list"
  rq_chan :: "channel_message list"
  rq_fs :: "path \<Rightarrow> fs_node option"
  rq_draws :: nat
  rq_custom_download :: "path option option"
  rq_st :: inner_state
  rq_encode_buf :: bytes
  rq_frame_buf :: bytes
  rq_encrypt_key_aes :: "bytes option"
  rq_decrypt_key_aes :: "bytes option"
  rq_send_hmac :: "hmac_ctx option"
  rq_recv_hmac :: "hmac_ctx option"

type_synonym ('x, 'a) rio = "('x request_scheme, 'a) io"

section \<open>Primitive effects\<close>

definition upd_st :: "(inner_state \<Rightarrow> inner_state) \<Rightarrow> 'x request_scheme \<Rightarrow> 'x request_scheme" where
  "upd_st f r = r\<lparr>rq_st := f (rq_st r)\<rparr>"

definition draw :: "('x, nat) rio" where
  "draw r = (Done (rq_draws r), r\<lparr>rq_draws := Suc (rq_draws r)\<rparr>)"

text \<open>
  \<open>write_all\<close> on the socket: a failing write may have sent a part. \<open>stream_read_exact\<close>
  fails when the peer closes before all bytes came.
\<close>

definition write_all :: "env \<Rightarrow> bytes \<Rightarrow> ('x, unit) rio" where
  "write_all X d r =
     (case os_write_fault X (length (rq_out r)) of
        None \<Rightarrow> (Done (), r\<lparr>rq_out := rq_out r @ [d]\<rparr>)
      | Some n \<Rightarrow> (Fail IoError, r\<lparr>rq_out := rq_out r @ [take n d]\<rparr>))"

definition stream_read_exact :: "nat \<Rightarrow> ('x, bytes) rio" where
  "stream_read_exact n r =
     (if n \<le> length (rq_in r)
      then (Done (take n (rq_in r)), r\<lparr>rq_in := drop n (rq_in r)\<rparr>)
      else (Fail IoError, r\<lparr>rq_in := []\<rparr>))"

text \<open>
  \<open>update_state\<close>: change the inner state and, if asked to, tell the front end. The result
  of \<open>sender.send\<close> is ignored by the code.
\<close>

definition state_message :: "transfer_type \<Rightarrow> inner_state \<Rightarrow> channel_message" where
  "state_message role st = cm_default\<lparr>cm_id := is_id st, cm_direction := LibToFront,
     cm_rtype := Some role, cm_state := Some (is_state st), cm_meta := is_transfer_metadata st\<rparr>"

definition update_state ::
  "transfer_type \<Rightarrow> (inner_state \<Rightarrow> inner_state) \<Rightarrow> bool \<Rightarrow> ('x, unit) rio" where
  "update_state role f inform =
     andthen (modify (upd_st f))
     (if \<not> inform then ret ()
      else modify (\<lambda>r. r\<lparr>rq_chan := rq_chan r @ [state_message role (rq_st r)]\<rparr>))"

text \<open>HMAC: \<open>Mac::reset\<close>, \<open>update\<close>, \<open>finalize_reset\<close>.\<close>

definition hmac_reset :: "hmac_ctx \<Rightarrow> hmac_ctx" where
  "hmac_reset h = h\<lparr>hc_pending := []\<rparr>"

definition hmac_update :: "bytes \<Rightarrow> hmac_ctx \<Rightarrow> hmac_ctx" where
  "hmac_update d h = h\<lparr>hc_pending := hc_pending h @ d\<rparr>"

definition hmac_finalize_reset :: "env \<Rightarrow> hmac_ctx \<Rightarrow> bytes \<times> hmac_ctx" where
  "hmac_finalize_reset X h = (hmac_tag X (hc_key h) (hc_pending h), hmac_reset h)"

text \<open>
  \<open>encrypt_padded_mut::<Pkcs7>(buf, pt_len)\<close>: encrypts the first \<open>pt_len\<close> bytes in
  place and returns the ciphertext's length; fails when the padded text does not fit.
\<close>

definition encrypt_padded_mut :: "env \<Rightarrow> bytes \<Rightarrow> bytes \<Rightarrow> bytes \<Rightarrow> nat \<Rightarrow> (bytes \<times> nat) option" where
  "encrypt_padded_mut X key iv buf pt_len =
     (let ct = aes_cbc_encrypt X key iv (take pt_len buf) in
      if length ct \<le> length buf then Some (ct @ drop (length ct) buf, length ct) else None)"

section \<open>Sending\<close>

definition send_frame :: "env \<Rightarrow> bytes \<Rightarrow> ('x, unit) rio" where
  "send_frame X d =
     (let length_bytes = to_be32 (word_of_nat (length d)) in
      andthen (write_all X length_bytes)
      (write_all X d))"

definition gcm_metadata_encoded :: "env \<Rightarrow> bytes" where
  "gcm_metadata_encoded X = enc_gcm X \<lparr>gm_type = gcm_type_device_to_device, gm_version = Some 1\<rparr>"

definition message_header :: "env \<Rightarrow> bytes \<Rightarrow> msg_header" where
  "message_header X iv = \<lparr>hd_signature_scheme = sig_scheme_hmac_sha256,
     hd_encryption_scheme = enc_scheme_aes_256_cbc, hd_iv = Some iv,
     hd_public_metadata = Some (gcm_metadata_encoded X)\<rparr>"

definition encrypt_and_send :: "env \<Rightarrow> offline_frame \<Rightarrow> ('x, unit) rio" where
  "encrypt_and_send X frame =
     andthen (modify (upd_st (\<lambda>s. s\<lparr>is_server_seq := is_server_seq s + 1\<rparr>)))
     (andthen (modify (\<lambda>r. r\<lparr>rq_frame_buf := []\<rparr>))
     (andthen (modify (\<lambda>r. r\<lparr>rq_frame_buf := rq_frame_buf r @ enc_offline X frame\<rparr>))
     (bind (get (\<lambda>r. \<lparr>d2d_message_bytes = Some (rq_frame_buf r),
                      d2d_sequence = Some (is_server_seq (rq_st r))\<rparr>)) (\<lambda>d2d_msg.
     andthen (modify (\<lambda>r. r\<lparr>rq_frame_buf := []\<rparr>))
     (andthen (modify (\<lambda>r. r\<lparr>rq_encode_buf := []\<rparr>))
     (andthen (modify (\<lambda>r. r\<lparr>rq_encode_buf := rq_encode_buf r @ enc_d2d X d2d_msg\<rparr>))
     (andthen (modify (\<lambda>r. r\<lparr>rq_frame_buf := bytes_or_empty (d2d_message_bytes d2d_msg)\<rparr>))
     (bind draw (\<lambda>k.
      let iv = os_rand X k 16 in
      bind (get (\<lambda>r. length (rq_encode_buf r))) (\<lambda>pt_len.
      andthen (modify (\<lambda>r. r\<lparr>rq_encode_buf := rq_encode_buf r @ replicate 16 0\<rparr>))
      (bind (bind (get rq_encrypt_key_aes) (unwrap ''encrypt_key_aes'')) (\<lambda>key.
      bind (get rq_encode_buf) (\<lambda>buf.
      bind (ok_or (Error ''AES-CBC encrypt'') (encrypt_padded_mut X key iv buf pt_len))
        (\<lambda>(buf', ct_len).
      andthen (modify (\<lambda>r. r\<lparr>rq_encode_buf := take ct_len buf'\<rparr>))
      (andthen (modify (\<lambda>r. r\<lparr>rq_encode_buf := rq_frame_buf r, rq_frame_buf := rq_encode_buf r\<rparr>))
      (bind (get (\<lambda>r. \<lparr>hb_header = message_header X iv, hb_body = rq_frame_buf r\<rparr>)) (\<lambda>hb.
      andthen (modify (\<lambda>r. r\<lparr>rq_frame_buf := []\<rparr>))
      (andthen (modify (\<lambda>r. r\<lparr>rq_encode_buf := []\<rparr>))
      (andthen (modify (\<lambda>r. r\<lparr>rq_encode_buf := rq_encode_buf r @ enc_header_body X hb\<rparr>))
      (andthen (modify (\<lambda>r. r\<lparr>rq_frame_buf := hb_body hb\<rparr>))
      (bind (bind (get rq_send_hmac) (unwrap ''send_hmac'')) (\<lambda>hmac.
      bind (get rq_encode_buf) (\<lambda>buf.
      let (hmac_bytes, hmac') =
            hmac_finalize_reset X (hmac_update buf (hmac_reset hmac)) in
      andthen (modify (\<lambda>r. r\<lparr>rq_send_hmac := Some hmac'\<rparr>))
      (andthen (modify (\<lambda>r. r\<lparr>rq_encode_buf := []\<rparr>))
      (let smsg = \<lparr>sm_header_and_body = buf, sm_signature = hmac_bytes\<rparr> in
      andthen (modify (\<lambda>r. r\<lparr>rq_encode_buf := rq_encode_buf r @ enc_secure X smsg\<rparr>))
      (bind (get rq_encode_buf) (\<lambda>buf.
      andthen (modify (\<lambda>r. r\<lparr>rq_encode_buf := []\<rparr>))
      (andthen (send_frame X buf)
      (modify (\<lambda>r. r\<lparr>rq_encode_buf := buf\<rparr>))))))))))))))))))))))))))))))"

definition data_transfer :: "payload_header \<Rightarrow> payload_chunk \<Rightarrow> offline_frame" where
  "data_transfer header chunk = offline_v1 (v1_default\<lparr>
     v1_type := Some (enum_num frame_type_table FrPayloadTransfer),
     v1_payload_transfer := Some \<lparr>pt_packet_type = Some (enum_num packet_type_table PkData),
       pt_payload_header = Some header, pt_payload_chunk = Some chunk\<rparr>\<rparr>)"

definition bytes_header :: "i64 \<Rightarrow> nat \<Rightarrow> payload_header" where
  "bytes_header i body_size = \<lparr>ph_id = Some i,
     ph_type = Some (enum_num payload_type_table PtBytes),
     ph_total_size = Some (word_of_nat body_size), ph_is_sensitive = Some False,
     ph_file_name = None\<rparr>"

definition send_encrypted_frame :: "env \<Rightarrow> sharing_frame \<Rightarrow> ('x, unit) rio" where
  "send_encrypted_frame X frame =
     (let frame_data = enc_sharing X frame; body_size = length frame_data in
      bind draw (\<lambda>k.
      let header = bytes_header (os_rand_i64 X k) body_size in
      andthen (encrypt_and_send X (data_transfer header
        \<lparr>pc_flags = Some 0, pc_offset = Some 0, pc_body = Some frame_data\<rparr>))
      (encrypt_and_send X (data_transfer header
        \<lparr>pc_flags = Some 1, pc_offset = Some (word_of_nat body_size), pc_body = Some []\<rparr>))))"

text \<open>Plain when no key exchange was done, encrypted after it, by the flag \<open>encryption_done\<close>.\<close>

definition send_by_encryption :: "env \<Rightarrow> offline_frame \<Rightarrow> ('x, unit) rio" where
  "send_by_encryption X frame =
     bind (get (\<lambda>r. is_encryption_done (rq_st r))) (\<lambda>encryption_done.
     if encryption_done then encrypt_and_send X frame
     else send_frame X (enc_offline X frame))"

definition disconnection :: "env \<Rightarrow> ('x, unit) rio" where
  "disconnection X = send_by_encryption X (offline_v1 (v1_default\<lparr>
     v1_type := Some (enum_num frame_type_table FrDisconnection),
     v1_disconnection := Some ()\<rparr>))"

definition send_keepalive :: "env \<Rightarrow> bool \<Rightarrow> ('x, unit) rio" where
  "send_keepalive X ack = send_by_encryption X (offline_v1 (v1_default\<lparr>
     v1_type := Some (enum_num frame_type_table FrKeepAlive),
     v1_keep_alive := Some (Some ack)\<rparr>))"

text \<open>
  The code puts the number of the \<open>AlertType\<close> both into the alert and into the type field
  of the enclosing \<open>Ukey2Message\<close>.
\<close>

definition alert_message :: "env \<Rightarrow> alert_type \<Rightarrow> ukey2_message" where
  "alert_message X atype =
     (let alert = \<lparr>al_type = Some (enum_num alert_type_table atype), al_error_message = None\<rparr>
      in \<lparr>um_type = Some (enum_num alert_type_table atype), um_data = Some (enc_alert X alert)\<rparr>)"

definition send_ukey2_alert :: "env \<Rightarrow> alert_type \<Rightarrow> ('x, unit) rio" where
  "send_ukey2_alert X atype = send_frame X (enc_ukey2 X (alert_message X atype))"

section \<open>Receiving\<close>

text \<open>
  The start of \<open>_handle\<close>: the four bytes are the length of the message that follows, which
  must not exceed \<open>SANE_FRAME_LENGTH\<close>.
\<close>

definition sane_frame_length :: nat where
  "sane_frame_length = 5 * 1024 * 1024"

definition read_message :: "bytes \<Rightarrow> ('x, bytes) rio" where
  "read_message length_buf =
     (let msg_length = unat (from_be32 length_buf) in
      andthen (fail_if (msg_length > sane_frame_length) (Error ''value''))
      (stream_read_exact msg_length))"

definition get_client_seq_inc :: "('x, i32) rio" where
  "get_client_seq_inc =
     andthen (modify (upd_st (\<lambda>s. s\<lparr>is_client_seq := is_client_seq s + 1\<rparr>)))
     (get (\<lambda>r. is_client_seq (rq_st r)))"

text \<open>
  The first half of \<open>decrypt_and_process_secure_message\<close>: authenticate, decrypt, check the
  sequence number, decode the frame.
\<close>

definition open_secure_message :: "env \<Rightarrow> secure_message \<Rightarrow> ('x, offline_frame) rio" where
  "open_secure_message X smsg =
     bind (bind (get rq_recv_hmac) (unwrap ''recv_hmac'')) (\<lambda>hmac.
     let (tag, hmac') =
           hmac_finalize_reset X (hmac_update (sm_header_and_body smsg) (hmac_reset hmac)) in
     andthen (modify (\<lambda>r. r\<lparr>rq_recv_hmac := Some hmac'\<rparr>))
     (andthen (fail_if (tag \<noteq> sm_signature smsg) (Error ''hmac!=signature''))
     (bind (ok_or DecodeError (dec_header_body X (sm_header_and_body smsg))) (\<lambda>header_and_body.
     let iv = bytes_or_empty (hd_iv (hb_header header_and_body)) in
     andthen (fail_if (length iv \<noteq> 16) (Error ''Invalid IV length''))
     (bind (bind (get rq_decrypt_key_aes) (unwrap ''decrypt_key_aes'')) (\<lambda>key.
     bind (ok_or (Error ''AES-CBC decrypt'')
             (aes_cbc_decrypt X key iv (hb_body header_and_body))) (\<lambda>decrypted.
     bind (ok_or DecodeError (dec_d2d X decrypted)) (\<lambda>d2d_msg.
     bind get_client_seq_inc (\<lambda>seq.
     andthen (fail_if (i32_or_zero (d2d_sequence d2d_msg) \<noteq> seq)
               (Error ''Error d2d_msg.sequence_number invalid''))
     (ok_or DecodeError (dec_offline X (bytes_or_empty (d2d_message_bytes d2d_msg)))))))))))))"

section \<open>What the methods leave alone\<close>

text \<open>A dispatch stays within a relation if every branch does.\<close>

lemma within_text_type [within_rules]:
  "within R a \<Longrightarrow> within R b \<Longrightarrow> within R c \<Longrightarrow> within R d \<Longrightarrow> within R e \<Longrightarrow>
   within R (case k of TtUnknown \<Rightarrow> a | TtText \<Rightarrow> b | TtUrl \<Rightarrow> c | TtAddress \<Rightarrow> d | TtPhoneNumber \<Rightarrow> e)"
  by (cases k) simp_all

lemma within_payload_type [within_rules]:
  "within R a \<Longrightarrow> within R b \<Longrightarrow> within R c \<Longrightarrow> within R d \<Longrightarrow>
   within R (case k of PtUnknown \<Rightarrow> a | PtBytes \<Rightarrow> b | PtFile \<Rightarrow> c | PtStream \<Rightarrow> d)"
  by (cases k) simp_all

lemma within_frame_type [within_rules]:
  "within R a \<Longrightarrow> within R b \<Longrightarrow> within R c \<Longrightarrow> within R d \<Longrightarrow> within R e \<Longrightarrow> within R f \<Longrightarrow>
   within R g \<Longrightarrow> within R h \<Longrightarrow>
   within R (case k of FrUnknown \<Rightarrow> a | FrConnectionRequest \<Rightarrow> b | FrConnectionResponse \<Rightarrow> c
     | FrPayloadTransfer \<Rightarrow> d | FrBandwidthUpgradeNegotiation \<Rightarrow> e | FrKeepAlive \<Rightarrow> f
     | FrDisconnection \<Rightarrow> g | FrPairedKeyEncryption \<Rightarrow> h)"
  by (cases k) simp_all

lemma within_action [within_rules]:
  "within R a \<Longrightarrow> within R b \<Longrightarrow> within R c \<Longrightarrow>
   within R (case k of AcceptTransfer \<Rightarrow> a | RejectTransfer \<Rightarrow> b | CancelTransfer \<Rightarrow> c)"
  by (cases k) simp_all

lemma within_recv [within_rules]:
  "(\<And>m. within R (a m)) \<Longrightarrow> (\<And>n. within R (b n)) \<Longrightarrow> within R c \<Longrightarrow>
   within R (case k of RecvOk m \<Rightarrow> a m | RecvLagged n \<Rightarrow> b n | RecvClosed \<Rightarrow> c)"
  by (cases k) simp_all

text \<open>The writes made to the socket are a log: every method only appends to it.\<close>

lemma out_grows_modify [within_rules]:
  "(\<And>r. rq_out (f r) = rq_out r) \<Longrightarrow> within (grows rq_out) (modify f)"
  by (simp add: within_def grows_def exec)

lemma out_grows_basic [within_rules]:
  "within (grows rq_out) (write_all X d)" "within (grows rq_out) draw"
  by (auto simp: within_def grows_def exec upd_st_def write_all_def draw_def split: option.split)

lemma rq_out_upd_st [simp]: "rq_out (upd_st f r) = rq_out r"
  by (simp add: upd_st_def)

lemma send_frame_out [within_rules]: "within (grows rq_out) (send_frame X d)"
  unfolding send_frame_def Let_def by (intro within_rules)

lemma encrypt_and_send_out [within_rules]: "within (grows rq_out) (encrypt_and_send X f)"
  unfolding encrypt_and_send_def Let_def case_prod_beta by (intro within_rules allI impI) simp_all

text \<open>
  Sending leaves everything alone but the socket, the draws, the two buffers, the HMAC object
  and the server's sequence number. What a method may change is a relation between the states
  without these parts.
\<close>

definition core :: "'x request_scheme \<Rightarrow> 'x request_scheme" where
  "core r = r\<lparr>rq_out := [], rq_draws := 0, rq_encode_buf := [], rq_frame_buf := [],
     rq_send_hmac := None, rq_st := (rq_st r)\<lparr>is_server_seq := 0\<rparr>\<rparr>"

lemma core_modify [within_rules]:
  "(\<And>r. core (f r) = core r) \<Longrightarrow> within (same_rel core) (modify f)"
  by (simp add: within_def same_rel_def exec)

lemma core_basic [within_rules]:
  "within (same_rel core) (write_all X d)" "within (same_rel core) draw"
  by (auto simp: within_def same_rel_def exec write_all_def draw_def core_def split: option.split)

lemma send_frame_core [within_rules]: "within (same_rel core) (send_frame X d)"
  unfolding send_frame_def Let_def by (intro within_rules)

lemma encrypt_and_send_core [within_rules]: "within (same_rel core) (encrypt_and_send X f)"
  unfolding encrypt_and_send_def Let_def case_prod_beta
  by (intro within_rules allI impI) (simp_all add: core_def upd_st_def)

lemma senders_core [within_rules]:
  "within (same_rel core) (send_encrypted_frame X g)"
  "within (same_rel core) (send_by_encryption X f)"
  "within (same_rel core) (disconnection X)"
  "within (same_rel core) (send_keepalive X ack)"
  "within (same_rel core) (send_ukey2_alert X a)"
  unfolding send_encrypted_frame_def send_by_encryption_def disconnection_def send_keepalive_def
    send_ukey2_alert_def Let_def
  by (intro within_rules)+

lemma coreD:
  assumes "core t = core s"
  shows "rq_in t = rq_in s" "rq_chan t = rq_chan s" "rq_fs t = rq_fs s"
    "rq_custom_download t = rq_custom_download s"
    "rq_encrypt_key_aes t = rq_encrypt_key_aes s" "rq_decrypt_key_aes t = rq_decrypt_key_aes s"
    "rq_recv_hmac t = rq_recv_hmac s"
    "(rq_st t)\<lparr>is_server_seq := 0\<rparr> = (rq_st s)\<lparr>is_server_seq := 0\<rparr>"
  using assms [THEN arg_cong, of rq_in] assms [THEN arg_cong, of rq_chan]
    assms [THEN arg_cong, of rq_fs] assms [THEN arg_cong, of rq_custom_download]
    assms [THEN arg_cong, of rq_encrypt_key_aes] assms [THEN arg_cong, of rq_decrypt_key_aes]
    assms [THEN arg_cong, of rq_recv_hmac] assms [THEN arg_cong, of rq_st]
  by (simp_all add: core_def)

text \<open>The phase of the connection, and that sending does not change it.\<close>

definition conn :: "'x request_scheme \<Rightarrow> conn_state" where
  "conn r = is_state (rq_st r)"

lemma core_conn: "core t = core s \<Longrightarrow> conn t = conn s"
  using coreD(8) [THEN arg_cong, of t s is_state] by (simp add: conn_def)

lemma same_conn: "within (same_rel core) m \<Longrightarrow> within (same_rel conn) m"
  by (erule within_mono, unfold same_rel_def, erule core_conn)

lemma same_fs: "within (same_rel core) m \<Longrightarrow> within (same_rel rq_fs) m"
  by (erule within_mono, unfold same_rel_def, erule coreD(3))

lemma conn_modify [within_rules]:
  "(\<And>r. conn (f r) = conn r) \<Longrightarrow> within (same_rel conn) (modify f)"
  and fs_modify [within_rules]: "(\<And>r. rq_fs (f r) = rq_fs r) \<Longrightarrow> within (same_rel rq_fs) (modify f)"
  by (simp_all add: within_def same_rel_def exec)

lemma conn_upd_st [simp]: "conn (upd_st f r) = is_state (f (rq_st r))"
  and fs_upd_st [simp]: "rq_fs (upd_st f r) = rq_fs r"
  by (simp_all add: conn_def upd_st_def)

lemmas senders_conn [within_rules] =
  core_basic [THEN same_conn] send_frame_core [THEN same_conn]
  encrypt_and_send_core [THEN same_conn] senders_core [THEN same_conn]

lemmas senders_fs [within_rules] =
  core_basic [THEN same_fs] send_frame_core [THEN same_fs]
  encrypt_and_send_core [THEN same_fs] senders_core [THEN same_fs]

lemma stream_read_exact_same [within_rules]:
  "within (same_rel conn) (stream_read_exact n)" "within (same_rel rq_fs) (stream_read_exact n)"
  by (auto simp: within_def same_rel_def stream_read_exact_def conn_def)

lemma update_state_conn [within_rules]:
  "(\<And>e. is_state (f e) = is_state e) \<Longrightarrow> within (same_rel conn) (update_state role f inform)"
  by (auto simp: within_def same_rel_def update_state_def exec conn_def upd_st_def)

lemma update_state_fs [within_rules]: "within (same_rel rq_fs) (update_state role f inform)"
  by (auto simp: within_def same_rel_def update_state_def exec upd_st_def)

lemma open_secure_message_same [within_rules]:
  "within (same_rel conn) (open_secure_message X m)"
  "within (same_rel rq_fs) (open_secure_message X m)"
  unfolding open_secure_message_def get_client_seq_inc_def Let_def case_prod_beta
  by (intro within_rules; simp add: conn_def upd_st_def)+

lemma senders_return [returns_rules]:
  "returns (write_all X d)" "returns draw" "returns (send_frame X d)"
  "returns (encrypt_and_send X f)"
proof -
  show 1: "returns (write_all X d)" for X d
    by (simp add: returns_def write_all_def split: option.split)
  show 2: "returns draw" by (simp add: returns_def draw_def)
  show 3: "returns (send_frame X d)" for X d
    unfolding send_frame_def Let_def by (intro returns_rules 1)
  show "returns (encrypt_and_send X f)"
    unfolding encrypt_and_send_def Let_def case_prod_beta by (intro returns_rules 1 2 3)
qed

end
