(* ===== verification/SecureChannel.thy ===== *)
theory SecureChannel
  imports Request
begin

text \<open>
  The secure channel over the socket: \<open>encrypt_and_send\<close> on one side,
  \<open>decrypt_and_process_secure_message\<close> (its first half, \<open>open_secure_message\<close>) on the
  other. \<open>seal\<close> is the reference definition of one secure message; the code reaches it
  through two buffers that it clears, swaps and reuses, and a cached HMAC object.
\<close>

section \<open>One secure message\<close>

definition sealed_body :: "env \<Rightarrow> bytes \<Rightarrow> bytes \<Rightarrow> i32 \<Rightarrow> offline_frame \<Rightarrow> bytes" where
  "sealed_body X key iv seq frame = aes_cbc_encrypt X key iv
     (enc_d2d X \<lparr>d2d_message_bytes = Some (enc_offline X frame), d2d_sequence = Some seq\<rparr>)"

definition sealed_message ::
  "env \<Rightarrow> bytes \<Rightarrow> bytes \<Rightarrow> bytes \<Rightarrow> i32 \<Rightarrow> offline_frame \<Rightarrow> secure_message" where
  "sealed_message X key mac iv seq frame =
     (let hb = enc_header_body X
            \<lparr>hb_header = message_header X iv, hb_body = sealed_body X key iv seq frame\<rparr>
      in \<lparr>sm_header_and_body = hb, sm_signature = hmac_tag X mac hb\<rparr>)"

definition seal :: "env \<Rightarrow> bytes \<Rightarrow> bytes \<Rightarrow> bytes \<Rightarrow> i32 \<Rightarrow> offline_frame \<Rightarrow> bytes" where
  "seal X key mac iv seq frame = enc_secure X (sealed_message X key mac iv seq frame)"

text \<open>The state in which the finished message goes to \<open>send_frame\<close>.\<close>

definition sealing :: "env \<Rightarrow> bytes \<Rightarrow> offline_frame \<Rightarrow> 'x request_scheme \<Rightarrow> 'x request_scheme" where
  "sealing X key frame r = r\<lparr>
     rq_st := (rq_st r)\<lparr>is_server_seq := is_server_seq (rq_st r) + 1\<rparr>,
     rq_draws := Suc (rq_draws r),
     rq_frame_buf := sealed_body X key (os_rand X (rq_draws r) 16)
       (is_server_seq (rq_st r) + 1) frame,
     rq_send_hmac := map_option hmac_reset (rq_send_hmac r),
     rq_encode_buf := []\<rparr>"

lemma encrypt_padded_mut_fits:
  assumes "aes_length_ok X"
  shows "encrypt_padded_mut X key iv (pt @ replicate 16 0) (length pt) =
    Some (aes_cbc_encrypt X key iv pt
            @ drop (length (aes_cbc_encrypt X key iv pt)) (pt @ replicate 16 0),
          length (aes_cbc_encrypt X key iv pt))"
proof -
  have "length (aes_cbc_encrypt X key iv pt) = (length pt div 16 + 1) * 16"
    using assms by (simp add: aes_length_ok_def)
  also have "\<dots> \<le> length pt + 16" by (simp add: algebra_simps)
  finally show ?thesis by (simp add: encrypt_padded_mut_def Let_def)
qed

lemma seals:
  assumes "aes_length_ok X"
    and "rq_encrypt_key_aes r = Some key" and "rq_send_hmac r = Some h"
  shows "encrypt_and_send X frame r =
    (let m = seal X key (hc_key h) (os_rand X (rq_draws r) 16) (is_server_seq (rq_st r) + 1) frame
     in andthen (send_frame X m) (modify (\<lambda>r. r\<lparr>rq_encode_buf := m\<rparr>)) (sealing X key frame r))"
  using assms
  by (simp add: encrypt_and_send_def exec upd_st_def draw_def Let_def encrypt_padded_mut_fits
      hmac_finalize_reset_def hmac_update_def hmac_reset_def bytes_or_empty_def
      seal_def sealed_message_def sealed_body_def sealing_def)

text \<open>
  C26. Reusing the buffers and the HMAC object is transparent: whatever the two buffers and the
  pending input of the cached HMAC hold from earlier messages, \<open>encrypt_and_send\<close> sends the
  message \<open>seal\<close> describes, for the next server sequence number and a fresh IV, in one frame,
  and never fails or panics before the write when the keys are there.
\<close>

theorem encrypt_and_send_seals:
  assumes "aes_length_ok X"
    and "rq_encrypt_key_aes r = Some key" and "rq_send_hmac r = Some h"
  shows "encrypt_and_send X frame r =
    (let m = seal X key (hc_key h) (os_rand X (rq_draws r) 16) (is_server_seq (rq_st r) + 1) frame
     in andthen (send_frame X m) (modify (\<lambda>r. r\<lparr>rq_encode_buf := m\<rparr>)) (sealing X key frame r))"
  using assms by (rule seals)

section \<open>Opening\<close>

text \<open>The state after a message was authenticated, decrypted and counted.\<close>

definition opened :: "'x request_scheme \<Rightarrow> 'x request_scheme" where
  "opened r = r\<lparr>rq_recv_hmac := map_option hmac_reset (rq_recv_hmac r),
     rq_st := (rq_st r)\<lparr>is_client_seq := is_client_seq (rq_st r) + 1\<rparr>\<rparr>"

lemma hmac_finalize_eq:
  "hmac_finalize_reset X (hmac_update d (hmac_reset h)) = (hmac_tag X (hc_key h) d, hmac_reset h)"
  by (simp add: hmac_finalize_reset_def hmac_update_def hmac_reset_def)

lemma opens_sealed:
  assumes "codec_ok X" and "aes_ok X" and "length iv = 16"
    and "rq_decrypt_key_aes r = Some key" and "rq_recv_hmac r = Some h"
  shows "open_secure_message X (sealed_message X key (hc_key h) iv seq frame) r =
    (if seq = is_client_seq (rq_st r) + 1 then Done frame
     else Fail (Error ''Error d2d_msg.sequence_number invalid''), opened r)"
proof -
  have aes: "aes_cbc_decrypt X key iv (aes_cbc_encrypt X key iv pt) = Some pt" for pt
    using assms(2) by (simp add: aes_ok_def)
  show ?thesis
    using assms(3-5)
    by (simp add: open_secure_message_def exec hmac_finalize_eq Let_def sealed_message_def
        sealed_body_def codec_okD [OF assms(1)] message_header_def bytes_or_empty_def aes
        get_client_seq_inc_def upd_st_def i32_or_zero_def opened_def)
qed

text \<open>
  A message sealed with the peer's keys is opened to the frame that was sealed if its number
  is the next one, and is refused otherwise: a replayed, skipped or reordered message never
  reaches the handlers. Either way the expected number advances.
\<close>

theorem open_sealed_message:
  assumes "codec_ok X" and "aes_ok X" and "length iv = 16"
    and "rq_decrypt_key_aes r = Some key" and "rq_recv_hmac r = Some h"
  shows "open_secure_message X (sealed_message X key (hc_key h) iv seq frame) r =
    (if seq = is_client_seq (rq_st r) + 1 then Done frame
     else Fail (Error ''Error d2d_msg.sequence_number invalid''), opened r)"
  using assms by (rule opens_sealed)

text \<open>
  C20. Authenticity of what is accepted: a frame comes out of \<open>open_secure_message\<close> only when
  the signature is the HMAC of the received header and body under the receiving key, the IV of the
  header has 16 bytes, the body decrypts with it under the receiving key to a device-to-device
  message, that message carries the next sequence number, and the frame is its payload.
\<close>

theorem open_authentic:
  assumes "open_secure_message X m r = (Done frame, r')"
  shows "\<exists>h hb key plain d.
    rq_recv_hmac r = Some h \<and> sm_signature m = hmac_tag X (hc_key h) (sm_header_and_body m) \<and>
    dec_header_body X (sm_header_and_body m) = Some hb \<and>
    length (bytes_or_empty (hd_iv (hb_header hb))) = 16 \<and>
    rq_decrypt_key_aes r = Some key \<and>
    aes_cbc_decrypt X key (bytes_or_empty (hd_iv (hb_header hb))) (hb_body hb) = Some plain \<and>
    dec_d2d X plain = Some d \<and>
    i32_or_zero (d2d_sequence d) = is_client_seq (rq_st r) + 1 \<and>
    dec_offline X (bytes_or_empty (d2d_message_bytes d)) = Some frame \<and>
    r' = opened r"
  using assms
  by (auto simp: open_secure_message_def eq_Done get_exec modify_exec hmac_finalize_eq Let_def
      get_client_seq_inc_def upd_st_def opened_def)

section \<open>A whole conversation\<close>

text \<open>
  The interface of a framed, ordered channel: one end sends a frame by some writes, the other
  end reads it from the bytes that came. \<open>linked s r\<close> says that the two ends agree on what
  was sent and read so far.
\<close>

fun receive_n :: "nat \<Rightarrow> ('r, 'f) io \<Rightarrow> ('r, 'f list) io" where
  "receive_n 0 recv = ret []"
| "receive_n (Suc n) recv = bind recv (\<lambda>f. bind (receive_n n recv) (\<lambda>fs. ret (f # fs)))"

locale framed_channel =
  fixes send :: "'f \<Rightarrow> ('s, unit) io"
    and recv :: "('r, 'f) io"
    and written :: "'s \<Rightarrow> bytes list"
    and unread :: "'r \<Rightarrow> bytes"
    and acceptable :: "bytes \<Rightarrow> bool"
    and linked :: "'s \<Rightarrow> 'r \<Rightarrow> bool"
  assumes send_appends: "within (grows written) (send f)"
    and delivers: "linked s r \<Longrightarrow> send f s = (Done (), s') \<Longrightarrow> written s' = written s @ ws
      \<Longrightarrow> list_all acceptable ws \<Longrightarrow> unread r = concat ws @ rest
      \<Longrightarrow> \<exists>r'. recv r = (Done f, r') \<and> unread r' = rest \<and> linked s' r'"
begin

lemma delivers_all:
  "linked s r \<Longrightarrow> for_each fs send s = (Done (), s') \<Longrightarrow> written s' = written s @ ws
     \<Longrightarrow> list_all acceptable ws \<Longrightarrow> unread r = concat ws @ rest
     \<Longrightarrow> \<exists>r'. receive_n (length fs) recv r = (Done fs, r') \<and> unread r' = rest \<and> linked s' r'"
proof (induction fs arbitrary: s r ws)
  case Nil
  then show ?case by (simp add: exec)
next
  case (Cons f fs)
  from Cons.prems(2) obtain s1 where
    1: "send f s = (Done (), s1)" and 2: "for_each fs send s1 = (Done (), s')"
    by (auto simp: eq_Done)
  obtain ws1 where w1: "written s1 = written s @ ws1"
    using withinD [OF send_appends 1] by (auto simp: grows_def)
  obtain ws2 where w2: "written s' = written s1 @ ws2"
    using withinD [OF grows.within_for_each [of fs written send, OF send_appends] 2]
    by (auto simp: grows_def)
  from w1 w2 Cons.prems(3) have ws: "ws = ws1 @ ws2" by simp
  obtain r1 where r1: "recv r = (Done f, r1)" "unread r1 = concat ws2 @ rest" "linked s1 r1"
    using delivers [OF Cons.prems(1) 1 w1, of "concat ws2 @ rest"] Cons.prems(4,5) ws by auto
  obtain r2 where "receive_n (length fs) recv r1 = (Done fs, r2)" "unread r2 = rest" "linked s' r2"
    using Cons.IH [OF r1(3) 2 w2 _ r1(2)] Cons.prems(4) ws by auto
  with r1(1) show ?case by (simp add: exec)
qed

end

text \<open>
  The receiving half of the program's channel: the frame's length and bytes, the secure message,
  its contents. Two requests are linked when each key of the sender is the receiver's
  counterpart and the receiver expects the sender's next number.
\<close>

definition receive_secure :: "env \<Rightarrow> ('x, offline_frame) rio" where
  "receive_secure X =
     bind (stream_read_exact 4) (\<lambda>length_buf.
     bind (read_message length_buf) (\<lambda>data.
     bind (ok_or DecodeError (dec_secure X data)) (open_secure_message X)))"

definition linked :: "'x request_scheme \<Rightarrow> 'y request_scheme \<Rightarrow> bool" where
  "linked s r \<longleftrightarrow> rq_encrypt_key_aes s \<noteq> None \<and> rq_send_hmac s \<noteq> None
     \<and> rq_decrypt_key_aes r = rq_encrypt_key_aes s
     \<and> map_option hc_key (rq_recv_hmac r) = map_option hc_key (rq_send_hmac s)
     \<and> is_client_seq (rq_st r) = is_server_seq (rq_st s)"

definition fits_frame :: "bytes \<Rightarrow> bool" where
  "fits_frame w \<longleftrightarrow> length w \<le> sane_frame_length"

lemma send_frame_Done:
  "send_frame X d r = (Done (), r') \<Longrightarrow>
     r' = r\<lparr>rq_out := rq_out r @ [to_be32 (word_of_nat (length d)), d]\<rparr>"
  by (auto simp: send_frame_def Let_def eq_Done write_all_def split: option.splits)

lemma read_message_frame:
  assumes "length d \<le> sane_frame_length"
    and "rq_in r = to_be32 (word_of_nat (length d)) @ d @ rest"
  shows "stream_read_exact 4 r = (Done (to_be32 (word_of_nat (length d))), r\<lparr>rq_in := d @ rest\<rparr>)"
    and "read_message (to_be32 (word_of_nat (length d))) (r\<lparr>rq_in := d @ rest\<rparr>)
      = (Done d, r\<lparr>rq_in := rest\<rparr>)"
proof -
  have "unat (word_of_nat (length d) :: u32) = length d"
    using assms(1) by (simp add: sane_frame_length_def unat_of_nat take_bit_nat_eq_self_iff)
  then show "read_message (to_be32 (word_of_nat (length d))) (r\<lparr>rq_in := d @ rest\<rparr>)
      = (Done d, r\<lparr>rq_in := rest\<rparr>)"
    using assms(1) by (simp add: read_message_def Let_def exec stream_read_exact_def)
qed (use assms in \<open>simp add: stream_read_exact_def\<close>)

definition channel_env :: "env \<Rightarrow> bool" where
  "channel_env X \<longleftrightarrow> codec_ok X \<and> aes_ok X \<and> rand_ok X"

lemma channel_delivers_one:
  assumes X: "channel_env X"
    and l: "linked s r" and s: "encrypt_and_send X f s = (Done (), s')"
    and w: "rq_out s' = rq_out s @ ws" "list_all fits_frame ws"
    and r: "rq_in r = concat ws @ rest"
  shows "\<exists>r'. receive_secure X r = (Done f, r') \<and> rq_in r' = rest \<and> linked s' r'"
proof -
  from X have "codec_ok X" "aes_ok X" "rand_ok X" by (simp_all add: channel_env_def)
  from l obtain key h h' where k: "rq_encrypt_key_aes s = Some key" "rq_send_hmac s = Some h"
    "rq_decrypt_key_aes r = Some key" "rq_recv_hmac r = Some h'" "hc_key h' = hc_key h"
    "is_client_seq (rq_st r) = is_server_seq (rq_st s)"
    by (auto simp: linked_def)
  define iv where "iv = os_rand X (rq_draws s) 16"
  have iv: "length iv = 16" using \<open>rand_ok X\<close> by (simp add: iv_def rand_ok_def)
  define q where "q = is_server_seq (rq_st s) + 1"
  define m where "m = seal X key (hc_key h) iv q f"
  have "andthen (send_frame X m) (modify (\<lambda>r. r\<lparr>rq_encode_buf := m\<rparr>)) (sealing X key f s)
      = (Done (), s')"
    using s seals [of X s key h f] \<open>aes_ok X\<close> k by (simp add: aes_ok_def Let_def m_def iv_def q_def)
  then obtain t where t: "send_frame X m (sealing X key f s) = (Done (), t)" "s' = t\<lparr>rq_encode_buf := m\<rparr>"
    by (auto simp: eq_Done exec)
  from send_frame_Done [OF t(1)] have t': "t = (sealing X key f s)\<lparr>rq_out := rq_out s @ [to_be32 (word_of_nat (length m)), m]\<rparr>"
    by (simp add: sealing_def)
  with t w have ws: "ws = [to_be32 (word_of_nat (length m)), m]" by simp
  have m: "length m \<le> sane_frame_length" using w(2) ws by (simp add: fits_frame_def)
  have i: "rq_in r = to_be32 (word_of_nat (length m)) @ m @ rest" using r ws by simp
  let ?r = "r\<lparr>rq_in := rest\<rparr>"
  have "open_secure_message X (sealed_message X key (hc_key h) iv q f) ?r = (Done f, opened ?r)"
    using opens_sealed [of X iv ?r key h' q f] \<open>codec_ok X\<close> \<open>aes_ok X\<close> iv k by (simp add: q_def)
  then have "receive_secure X r = (Done f, opened ?r)"
    using read_message_frame [OF m i] codec_okD(7) [OF \<open>codec_ok X\<close>]
    by (simp add: receive_secure_def exec m_def seal_def)
  moreover have "linked s' (opened ?r)"
    using k t t' by (auto simp: linked_def opened_def sealing_def hmac_reset_def)
  ultimately show ?thesis by (simp add: opened_def)
qed

interpretation secure: framed_channel "encrypt_and_send X" "receive_secure X" rq_out rq_in
  fits_frame "\<lambda>s r. channel_env X \<and> linked s r" for X
  by unfold_locales (auto intro: encrypt_and_send_out channel_delivers_one)

text \<open>
  C6. The channel delivers: if frames are sent with \<open>encrypt_and_send\<close> one after another and
  no send failed, and the bytes written reach a request with the counterpart keys and number,
  then that request receives exactly these frames in this order, consumes exactly these bytes,
  and both are in step again.
\<close>

theorem channel_delivers:
  assumes "channel_env X" and "linked s r"
    and "for_each frames (encrypt_and_send X) s = (Done (), s')"
    and "rq_out s' = rq_out s @ ws" and "list_all fits_frame ws"
    and "rq_in r = concat ws @ rest"
  shows "\<exists>r'. receive_n (length frames) (receive_secure X) r = (Done frames, r')
    \<and> rq_in r' = rest \<and> linked s' r'"
  using secure.delivers_all [of X s r frames s' ws rest] assms by auto

end
