(* ===== verification/KeyExchange.thy ===== *)
theory KeyExchange
  imports SecureChannel
begin

text \<open>
  The UKEY2 handshake of \<open>hdl/inbound.rs\<close> (the server) and \<open>hdl/outbound.rs\<close> (the
  client): the messages each side builds, the checks on the messages it gets, and the derivation
  of the keys of the secure channel.
\<close>

section \<open>Derivation of the keys\<close>

text \<open>
  The peer's public key: coordinates as they came, at most their last 32 bytes. A key without
  coordinates and bytes that are no encoded point are errors; a point that is not on the curve is
  a panic, because the code unwraps the result.
\<close>

definition peer_point :: "env \<Rightarrow> generic_public_key \<Rightarrow> bytes outcome" where
  "peer_point X raw_peer_key =
     obind (o_or (Error ''Missing required fields'') (gp_ec_p256 raw_peer_key)) (\<lambda>peer_p256_key.
     let point = [0x04] @ key_coordinate (ec_x peer_p256_key) @ key_coordinate (ec_y peer_p256_key) in
     obind (o_or (Error ''EncodedPoint::from_bytes'') (point_of_bytes X point)) (\<lambda>encoded_point.
     o_unwrap ''from_encoded_point'' (key_of_point X encoded_point)))"

record session_keys =
  sk_auth_string :: bytes
  sk_client_key :: bytes
  sk_client_hmac_key :: bytes
  sk_server_key :: bytes
  sk_server_hmac_key :: bytes

definition salt_hex :: string where
  "salt_hex = ''82AA55A0D397F88346CA1CEE8D3909B95F13FA7DEB1D4AB38376B8256DA85510''"

definition key_salt_hex :: string where
  "key_salt_hex = ''BF9D2A53C63616D75DB0A7165B91C1EF73E537F2427405FA23610A4BE657642E''"

definition derive_keys :: "env \<Rightarrow> bytes \<Rightarrow> bytes \<Rightarrow> session_keys outcome" where
  "derive_keys X derived_secret ukey_info =
     obind (hkdf_extract_expand X (as_bytes ''UKEY2 v1 auth'') derived_secret ukey_info 32) (\<lambda>auth_string.
     obind (hkdf_extract_expand X (as_bytes ''UKEY2 v1 next'') derived_secret ukey_info 32) (\<lambda>next_secret.
     obind (o_or (Error ''Failed to decode salt_hex'') (hex_decode X salt_hex)) (\<lambda>salt.
     obind (hkdf_extract_expand X salt next_secret (as_bytes ''client'') 32) (\<lambda>d2d_client.
     obind (hkdf_extract_expand X salt next_secret (as_bytes ''server'') 32) (\<lambda>d2d_server.
     obind (o_or (Error ''Failed to decode key_salt_hex'') (hex_decode X key_salt_hex)) (\<lambda>key_salt.
     obind (hkdf_extract_expand X key_salt d2d_client (as_bytes ''ENC:2'') 32) (\<lambda>client_key.
     obind (hkdf_extract_expand X key_salt d2d_client (as_bytes ''SIG:1'') 32) (\<lambda>client_hmac_key.
     obind (hkdf_extract_expand X key_salt d2d_server (as_bytes ''ENC:2'') 32) (\<lambda>server_key.
     obind (hkdf_extract_expand X key_salt d2d_server (as_bytes ''SIG:1'') 32) (\<lambda>server_hmac_key.
     Done \<lparr>sk_auth_string = auth_string, sk_client_key = client_key,
       sk_client_hmac_key = client_hmac_key, sk_server_key = server_key,
       sk_server_hmac_key = server_hmac_key\<rparr>))))))))))"

text \<open>\<open>key[..32].try_into().unwrap()\<close> and \<open>HmacSha256::new_from_slice(key)?\<close>\<close>

definition aes_key_of :: "bytes \<Rightarrow> ('x, bytes) rio" where
  "aes_key_of key = unwrap ''key[..32]'' (slice 0 32 key)"

definition new_hmac :: "env \<Rightarrow> bytes \<Rightarrow> ('x, hmac_ctx) rio" where
  "new_hmac X key = (if hmac_accepts X key then ret \<lparr>hc_key = key, hc_pending = []\<rparr>
     else fail (Error ''InvalidLength''))"

definition session_secrets :: "env \<Rightarrow> generic_public_key \<Rightarrow> ('x, session_keys) rio" where
  "session_secrets X raw_peer_key =
     bind (lift_outcome (peer_point X raw_peer_key)) (\<lambda>peer_key.
     bind (bind (get (\<lambda>r. is_private_key (rq_st r))) (unwrap ''private_key'')) (\<lambda>priv_key.
     let dhs = diffie_hellman X priv_key peer_key; derived_secret = sha256 X dhs in
     bind (bind (get (\<lambda>r. is_client_init_msg_data (rq_st r))) (unwrap ''client_init_msg_data'')) (\<lambda>ci.
     bind (bind (get (\<lambda>r. is_server_init_data (rq_st r))) (unwrap ''server_init_data'')) (\<lambda>si.
     lift_outcome (derive_keys X derived_secret (ci @ si))))))"

text \<open>The two sides differ in the use of the keys, and in telling the front end the PIN.\<close>

definition server_finalize_key_exchange :: "env \<Rightarrow> generic_public_key \<Rightarrow> ('x, unit) rio" where
  "server_finalize_key_exchange X raw_peer_key =
     bind (session_secrets X raw_peer_key) (\<lambda>k.
     bind (aes_key_of (sk_server_key k)) (\<lambda>encrypt_key.
     andthen (modify (\<lambda>r. r\<lparr>rq_encrypt_key_aes := Some encrypt_key\<rparr>))
     (bind (aes_key_of (sk_client_key k)) (\<lambda>decrypt_key.
     andthen (modify (\<lambda>r. r\<lparr>rq_decrypt_key_aes := Some decrypt_key\<rparr>))
     (bind (new_hmac X (sk_server_hmac_key k)) (\<lambda>send_hmac.
     andthen (modify (\<lambda>r. r\<lparr>rq_send_hmac := Some send_hmac\<rparr>))
     (bind (new_hmac X (sk_client_hmac_key k)) (\<lambda>recv_hmac.
     andthen (modify (\<lambda>r. r\<lparr>rq_recv_hmac := Some recv_hmac\<rparr>))
     (update_state Inbound (\<lambda>e. e\<lparr>
        is_decrypt_key := Some (sk_client_key k),
        is_recv_hmac_key := Some (sk_client_hmac_key k),
        is_encrypt_key := Some (sk_server_key k),
        is_send_hmac_key := Some (sk_server_hmac_key k),
        is_pin_code := Some (to_four_digit_string (sk_auth_string k)),
        is_encryption_done := True\<rparr>) False)))))))))"

definition client_finalize_key_exchange :: "env \<Rightarrow> generic_public_key \<Rightarrow> ('x, unit) rio" where
  "client_finalize_key_exchange X raw_peer_key =
     bind (session_secrets X raw_peer_key) (\<lambda>k.
     bind (aes_key_of (sk_client_key k)) (\<lambda>encrypt_key.
     andthen (modify (\<lambda>r. r\<lparr>rq_encrypt_key_aes := Some encrypt_key\<rparr>))
     (bind (aes_key_of (sk_server_key k)) (\<lambda>decrypt_key.
     andthen (modify (\<lambda>r. r\<lparr>rq_decrypt_key_aes := Some decrypt_key\<rparr>))
     (bind (new_hmac X (sk_client_hmac_key k)) (\<lambda>send_hmac.
     andthen (modify (\<lambda>r. r\<lparr>rq_send_hmac := Some send_hmac\<rparr>))
     (bind (new_hmac X (sk_server_hmac_key k)) (\<lambda>recv_hmac.
     andthen (modify (\<lambda>r. r\<lparr>rq_recv_hmac := Some recv_hmac\<rparr>))
     (update_state Outbound (\<lambda>e. e\<lparr>
        is_decrypt_key := Some (sk_server_key k),
        is_recv_hmac_key := Some (sk_server_hmac_key k),
        is_encrypt_key := Some (sk_client_key k),
        is_send_hmac_key := Some (sk_client_hmac_key k),
        is_pin_code := Some (to_four_digit_string (sk_auth_string k)),
        is_encryption_done := True,
        is_transfer_metadata := map_option
          (\<lambda>tm. tm\<lparr>tm_pin_code := Some (to_four_digit_string (sk_auth_string k))\<rparr>)
          (is_transfer_metadata e)\<rparr>) True)))))))))"

section \<open>The client's messages\<close>

definition own_public_key :: "env \<Rightarrow> bytes \<Rightarrow> generic_public_key outcome" where
  "own_public_key X public_key =
     obind (encode_point X (point_x X public_key)) (\<lambda>x.
     obind (encode_point X (point_y X public_key)) (\<lambda>y.
     Done \<lparr>gp_type = public_key_type_ec_p256,
       gp_ec_p256 = Some \<lparr>ec_x = x, ec_y = y\<rparr>\<rparr>))"

definition next_protocol :: string where
  "next_protocol = ''AES_256_CBC-HMAC_SHA256''"

definition ukey2_frame :: "ukey2_type \<Rightarrow> bytes \<Rightarrow> ukey2_message" where
  "ukey2_frame t d = \<lparr>um_type = Some (enum_num ukey2_type_table t), um_data = Some d\<rparr>"

definition client_finish_frame :: "env \<Rightarrow> generic_public_key \<Rightarrow> ukey2_message" where
  "client_finish_frame X pkey =
     ukey2_frame UkClientFinish (enc_client_finished X (Some (enc_public_key X pkey)))"

definition client_init_frame :: "env \<Rightarrow> bytes \<Rightarrow> bytes \<Rightarrow> ukey2_message" where
  "client_init_frame X random commitment = ukey2_frame UkClientInit (enc_client_init X
     \<lparr>ci_version = Some 1, ci_random = Some random,
      ci_commitments = [\<lparr>cc_cipher = Some (enum_num handshake_cipher_table HcP256Sha512),
        cc_commitment = Some commitment\<rparr>],
      ci_next_protocol = Some next_protocol\<rparr>)"

definition send_ukey2_client_init :: "env \<Rightarrow> ('x, unit) rio" where
  "send_ukey2_client_init X =
     bind draw (\<lambda>k. let (secret_key, public_key) = gen_ecdsa_keypair X k in
     bind (lift_outcome (own_public_key X public_key)) (\<lambda>pkey.
     let finish_frame = client_finish_frame X pkey;
         commitment = sha512 X (enc_ukey2 X finish_frame) in
     bind draw (\<lambda>k.
     let frame = client_init_frame X (gen_random X k 32) commitment in
     andthen (send_frame X (enc_ukey2 X frame))
     (update_state Outbound (\<lambda>e. e\<lparr>
        is_state := SentUkeyClientInit,
        is_private_key := Some secret_key,
        is_public_key := Some public_key,
        is_client_init_msg_data := Some (enc_ukey2 X frame),
        is_ukey_client_finish_msg_data := Some (enc_ukey2 X finish_frame)\<rparr>) False))))"

definition connection_response_accept :: "env \<Rightarrow> offline_frame" where
  "connection_response_accept X = offline_v1 (v1_default\<lparr>
     v1_type := Some (enum_num frame_type_table FrConnectionResponse),
     v1_connection_response := Some
       \<lparr>cresp_response = Some (enum_num response_status_table RsAccept),
        cresp_os_info = Some (Some (enum_num os_type_table (current_os_type X)))\<rparr>\<rparr>)"

text \<open>\<open>self.send_ukey2_alert(a).await?; return Err(e)\<close>\<close>

definition alert_and_fail :: "env \<Rightarrow> alert_type \<Rightarrow> string \<Rightarrow> ('x, 'a) rio" where
  "alert_and_fail X a e = andthen (send_ukey2_alert X a) (fail (Error e))"

definition process_ukey2_server_init :: "env \<Rightarrow> ukey2_message \<Rightarrow> ('x, unit) rio" where
  "process_ukey2_server_init X msg =
     (if ukey2_kind msg \<noteq> UkServerInit then alert_and_fail X BadMessageType ''UKey2: message_type''
      else case dec_server_init X (bytes_or_empty (um_data msg)) of
        None \<Rightarrow> fail (Error ''UKey2: Ukey2ClientFinished::decode'')
      | Some server_init \<Rightarrow>
     if i32_or_zero (si_version server_init) \<noteq> 1
     then alert_and_fail X BadVersion ''UKey2: server_init.version != 1''
     else if length (bytes_or_empty (si_random server_init)) \<noteq> 32
     then alert_and_fail X BadRandom ''UKey2: server_init.random.len != 32''
     else if server_cipher server_init \<noteq> HcP256Sha512
     then alert_and_fail X BadHandshakeCipher ''UKey2: handshake_cipher != P256Sha512''
     else (case dec_public_key X (bytes_or_empty (si_public_key server_init)) of
        None \<Rightarrow> fail (Error ''UKey2: GenericPublicKey::decode'')
      | Some server_public_key \<Rightarrow>
     andthen (client_finalize_key_exchange X server_public_key)
     (bind (bind (get (\<lambda>r. is_ukey_client_finish_msg_data (rq_st r)))
             (unwrap ''ukey_client_finish_msg_data'')) (\<lambda>ukey_data.
     andthen (send_frame X ukey_data)
     (send_frame X (enc_offline X (connection_response_accept X)))))))"

section \<open>The server's messages\<close>

definition server_init_frame :: "env \<Rightarrow> bytes \<Rightarrow> generic_public_key \<Rightarrow> ukey2_message" where
  "server_init_frame X random pkey = ukey2_frame UkServerInit (enc_server_init X
     \<lparr>si_version = Some 1, si_random = Some random,
      si_cipher = Some (enum_num handshake_cipher_table HcP256Sha512),
      si_public_key = Some (enc_public_key X pkey)\<rparr>)"

definition preferred_commitment :: "ukey2_client_init \<Rightarrow> cipher_commitment option" where
  "preferred_commitment client_init =
     find (\<lambda>c. commitment_cipher c = HcP256Sha512) (ci_commitments client_init)"

definition process_ukey2_client_init :: "env \<Rightarrow> ukey2_message \<Rightarrow> ('x, unit) rio" where
  "process_ukey2_client_init X msg =
     (if ukey2_kind msg \<noteq> UkClientInit then alert_and_fail X BadMessageType ''UKey2: message_type''
      else case dec_client_init X (bytes_or_empty (um_data msg)) of
        None \<Rightarrow> alert_and_fail X BadMessageData ''UKey2: Ukey2ClientInit::decode''
      | Some client_init \<Rightarrow>
     if i32_or_zero (ci_version client_init) \<noteq> 1
     then alert_and_fail X BadVersion ''UKey2: client_init.version != 1''
     else if length (bytes_or_empty (ci_random client_init)) \<noteq> 32
     then alert_and_fail X BadRandom ''UKey2: client_init.random.len != 32''
     else (case preferred_commitment client_init of
        None \<Rightarrow> alert_and_fail X BadHandshakeCipher ''UKey2: badHandshakeCipher''
      | Some commitment \<Rightarrow>
     andthen (update_state Inbound (\<lambda>e. e\<lparr>is_cipher_commitment := Some commitment\<rparr>) False)
     (if string_or_empty (ci_next_protocol client_init) \<noteq> next_protocol
      then alert_and_fail X BadNextProtocol ''UKey2: badNextProtocol''
      else
     bind draw (\<lambda>k. let (secret_key, public_key) = gen_ecdsa_keypair X k in
     bind (lift_outcome (own_public_key X public_key)) (\<lambda>pkey.
     bind draw (\<lambda>k.
     let server_init_data = enc_ukey2 X (server_init_frame X (os_rand X k 32) pkey) in
     andthen (update_state Inbound (\<lambda>e. e\<lparr>
        is_private_key := Some secret_key,
        is_public_key := Some public_key,
        is_server_init_data := Some server_init_data\<rparr>) False)
     (send_frame X server_init_data)))))))"

definition process_ukey2_client_finish :: "env \<Rightarrow> ukey2_message \<Rightarrow> bytes \<Rightarrow> ('x, unit) rio" where
  "process_ukey2_client_finish X msg frame_data =
     (if ukey2_kind msg \<noteq> UkClientFinish then alert_and_fail X BadMessageType ''UKey2: message_type''
      else
     bind (bind (get (\<lambda>r. is_cipher_commitment (rq_st r))) (unwrap ''cipher_commitment'')) (\<lambda>c.
     if bytes_or_empty (cc_commitment c) \<noteq> sha512 X frame_data
     then fail (Error ''UKey2: cipher_commitment != sha512'')
     else case dec_client_finished X (bytes_or_empty (um_data msg)) of
        None \<Rightarrow> fail (Error ''UKey2: Ukey2ClientFinished::decode'')
      | Some None \<Rightarrow> fail (Error ''UKey2: client_finish.public_key None'')
      | Some (Some public_key) \<Rightarrow>
     (case dec_public_key X public_key of
        None \<Rightarrow> fail (Error ''UKey2: GenericPublicKey::decode'')
      | Some client_public_key \<Rightarrow> server_finalize_key_exchange X client_public_key)))"

section \<open>What the handshake leaves alone\<close>

lemma aes_key_of_eq_Done: "aes_key_of k s = (Done a, t) \<longleftrightarrow> slice 0 32 k = Some a \<and> t = s"
  by (simp add: aes_key_of_def unwrap_eq_Done)

lemma new_hmac_eq_Done:
  "new_hmac X k s = (Done a, t) \<longleftrightarrow> hmac_accepts X k \<and> a = \<lparr>hc_key = k, hc_pending = []\<rparr> \<and> t = s"
  by (auto simp: new_hmac_def exec)

lemma session_secrets_state: "session_secrets X k s = (res, t) \<Longrightarrow> t = s"
proof -
  have "within (same_rel (\<lambda>s. s)) (session_secrets X k)"
    unfolding session_secrets_def Let_def by (intro within_rules)
  then show "session_secrets X k s = (res, t) \<Longrightarrow> ?thesis"
    by (auto dest: withinD simp: same_rel_def)
qed

lemma alert_and_fail_same [within_rules]:
  "within (same_rel conn) (alert_and_fail X a e)" "within (same_rel rq_fs) (alert_and_fail X a e)"
  unfolding alert_and_fail_def by (intro within_rules)+

lemma session_parts_same [within_rules]:
  "within (same_rel f) (aes_key_of key)" "within (same_rel f) (new_hmac X key)"
  "within (same_rel f) (session_secrets X k)"
  unfolding aes_key_of_def new_hmac_def session_secrets_def Let_def by (intro within_rules)+

lemma finalize_same [within_rules]:
  "within (same_rel conn) (server_finalize_key_exchange X k)"
  "within (same_rel rq_fs) (server_finalize_key_exchange X k)"
  "within (same_rel conn) (client_finalize_key_exchange X k)"
  "within (same_rel rq_fs) (client_finalize_key_exchange X k)"
  unfolding server_finalize_key_exchange_def client_finalize_key_exchange_def
  by (intro within_rules; simp add: conn_def)+

lemma process_ukey2_client_init_same [within_rules]:
  "within (same_rel conn) (process_ukey2_client_init X m)"
  "within (same_rel rq_fs) (process_ukey2_client_init X m)"
  unfolding process_ukey2_client_init_def Let_def case_prod_beta by (intro within_rules; simp)+

lemma process_ukey2_client_finish_same [within_rules]:
  "within (same_rel conn) (process_ukey2_client_finish X m d)"
  "within (same_rel rq_fs) (process_ukey2_client_finish X m d)"
  unfolding process_ukey2_client_finish_def by (intro within_rules)+

lemma process_ukey2_server_init_same [within_rules]:
  "within (same_rel conn) (process_ukey2_server_init X m)"
  "within (same_rel rq_fs) (process_ukey2_server_init X m)"
  unfolding process_ukey2_server_init_def by (intro within_rules)+

end
