(* ===== verification/Files.thy ===== *)
theory Files
  imports Request
begin

text \<open>
  Files on disk, as the receiving and sending sides use them: creating a file, writing to it at
  the handle's cursor, and the choice of a destination that does not exist yet. The file system
  of a request maps path strings to nodes; two strings that a real system would resolve to the
  same file are different keys here.
\<close>

section \<open>Creating and writing\<close>

definition path_exists :: "(path \<Rightarrow> fs_node option) \<Rightarrow> path \<Rightarrow> bool" where
  "path_exists fs p \<longleftrightarrow> fs p \<noteq> None"

definition file_content :: "(path \<Rightarrow> fs_node option) \<Rightarrow> path \<Rightarrow> bytes" where
  "file_content fs p = (case fs p of Some (FileNode c) \<Rightarrow> c | _ \<Rightarrow> [])"

text \<open>\<open>File::create\<close>: an existing file is truncated.\<close>

definition file_create :: "env \<Rightarrow> path \<Rightarrow> ('x, file_handle) rio" where
  "file_create X p r =
     (if os_create_error X p \<or> rq_fs r p = Some DirNode then (Fail IoError, r)
      else (Done \<lparr>fh_path = p, fh_pos = 0\<rparr>, r\<lparr>rq_fs := (rq_fs r)(p \<mapsto> FileNode [])\<rparr>))"

text \<open>Writing at a cursor; a gap before the cursor reads as zeros.\<close>

definition write_at :: "nat \<Rightarrow> bytes \<Rightarrow> bytes \<Rightarrow> bytes" where
  "write_at pos d content =
     take pos (content @ replicate (pos - length content) 0) @ d @ drop (pos + length d) content"

definition put_bytes :: "file_handle \<Rightarrow> bytes \<Rightarrow> 'x request_scheme \<Rightarrow> 'x request_scheme" where
  "put_bytes h d r = r\<lparr>rq_fs := (rq_fs r)
     (fh_path h \<mapsto> FileNode (write_at (fh_pos h) d (file_content (rq_fs r) (fh_path h))))\<rparr>"

text \<open>
  \<open>write_all\<close> on the file of a transferred payload: a failing write may have written a part.
\<close>

definition put_handle :: "i64 \<Rightarrow> internal_file_info \<Rightarrow> file_handle \<Rightarrow> 'x request_scheme \<Rightarrow> 'x request_scheme" where
  "put_handle i info h = upd_st (\<lambda>s. s\<lparr>is_transferred_files :=
     hm_insert i (info\<lparr>ifi_file := Some h\<rparr>) (is_transferred_files s)\<rparr>)"

definition file_write_all ::
  "env \<Rightarrow> i64 \<Rightarrow> internal_file_info \<Rightarrow> file_handle \<Rightarrow> bytes \<Rightarrow> ('x, unit) rio" where
  "file_write_all X i info h d r =
     (case os_disk_fault X (fh_path h) (fh_pos h) of
        None \<Rightarrow> (Done (), put_handle i info (h\<lparr>fh_pos := fh_pos h + length d\<rparr>) (put_bytes h d r))
      | Some n \<Rightarrow> (Fail IoError,
          put_handle i info (h\<lparr>fh_pos := fh_pos h + length (take n d)\<rparr>) (put_bytes h (take n d) r)))"

lemma write_at_end: "write_at (length c) d c = c @ d"
  by (simp add: write_at_def)

section \<open>A free destination\<close>

text \<open>
  The loop of \<open>process_introduction\<close>: push the name with a counter in front, take the
  result if it does not exist, pop and try again otherwise. The counter is an \<open>i32\<close>. The
  loop has no other exit, so it is a partial function: None means that it never returns.
\<close>

definition numbered_name :: "i32 \<Rightarrow> string \<Rightarrow> string" where
  "numbered_name counter name = dec_int (sint counter) @ ''_'' @ name"

partial_function (option) free_dest :: "(path \<Rightarrow> bool) \<Rightarrow> string \<Rightarrow> path \<Rightarrow> i32 \<Rightarrow> path option" where
  "free_dest exists name dest counter =
     (let pushed = path_push dest (numbered_name counter name) in
      if \<not> exists pushed then Some pushed
      else free_dest exists name (path_pop pushed) (counter + 1))"

definition pick_dest :: "(path \<Rightarrow> bool) \<Rightarrow> path \<Rightarrow> string \<Rightarrow> path option" where
  "pick_dest exists download_dir name =
     (let dest = path_push download_dir name in
      if exists dest then free_dest exists name (path_pop dest) 1 else Some dest)"

lemma free_dest_step:
  "exists (path_push dest (numbered_name c name)) \<Longrightarrow>
     free_dest exists name dest c
       = free_dest exists name (path_pop (path_push dest (numbered_name c name))) (c + 1)"
  "\<not> exists (path_push dest (numbered_name c name)) \<Longrightarrow>
     free_dest exists name dest c = Some (path_push dest (numbered_name c name))"
  by (subst free_dest.simps, simp add: Let_def)+

text \<open>Whatever the loop returns does not exist.\<close>

lemma free_dest_fresh: "free_dest exists name dest c = Some p \<Longrightarrow> \<not> exists p"
  by (rule free_dest.raw_induct [where P = "\<lambda>exists name dest c p. \<not> exists p"])
     (fastforce simp: Let_def split: if_splits)+

lemma pick_dest_fresh: "pick_dest exists dir name = Some p \<Longrightarrow> \<not> exists p"
  by (auto simp: pick_dest_def Let_def free_dest_fresh split: if_splits)

lemma is_digit_minus: "\<not> is_digit CHR ''-''" and is_digit_slash: "\<not> is_digit CHR ''/''"
  by (simp_all add: is_digit_def of_char_def)

lemma dec_int_inj: "dec_int i = dec_int j \<longleftrightarrow> i = j"
proof -
  have "CHR ''-'' # x \<noteq> dec n" for x n
    using dec_digits [of "CHR ''-''" n]
    by (metis is_digit_minus list.set_intros(1))
  then show ?thesis
    by (auto simp: dec_int_def dec_inj split: if_splits) metis+
qed

lemma numbered_name_inj: "numbered_name c name = numbered_name c' name \<longleftrightarrow> c = c'"
  by (auto simp: numbered_name_def dec_int_inj intro: signed_word_eqI)

lemma numbered_name_plain: "plain_name name \<Longrightarrow> plain_name (numbered_name c name)"
proof -
  assume n: "plain_name name"
  have "CHR ''/'' \<notin> set (dec_int i)" for i
    using dec_digits [of "CHR ''/''"] is_digit_slash by (auto simp: dec_int_def)
  then have "CHR ''/'' \<notin> set (numbered_name c name)"
    using n by (simp add: numbered_name_def plain_name_def)
  moreover have "CHR ''_'' \<in> set (numbered_name c name)"
    by (simp add: numbered_name_def)
  then have "numbered_name c name \<notin> {[], ''.'', ''..''}" by auto
  ultimately show ?thesis by (simp add: plain_name_def skipped_def)
qed

text \<open>
  For a plain name in a plain directory the loop tries \<open>1_name\<close>, \<open>2_name\<close>, ...
\<close>

definition candidate :: "path \<Rightarrow> string \<Rightarrow> nat \<Rightarrow> path" where
  "candidate dir name k = path_push dir (numbered_name (1 + word_of_nat k) name)"

lemma candidate_inj:
  assumes "plain_dir dir" and "plain_name name" and "i < 2 ^ 32" and "j < 2 ^ 32"
    and "candidate dir name i = candidate dir name j"
  shows "i = j"
proof -
  have "numbered_name (1 + word_of_nat i) name = numbered_name (1 + word_of_nat j) name"
    using assms(1,2,5) push_plain_inj [of dir] plain_name_not_absolute numbered_name_plain
    by (simp add: candidate_def plain_dir_def)
  then have "(word_of_nat i :: i32) = word_of_nat j"
    by (simp add: numbered_name_inj)
  then have "unat (word_of_nat i :: i32) = unat (word_of_nat j :: i32)" by simp
  with assms(3,4) show ?thesis
    by (simp add: unat_of_nat take_bit_nat_eq_self)
qed

lemma free_dest_candidates:
  assumes d: "plain_dir dir" and n: "plain_name name"
    and "\<And>j. j < k \<Longrightarrow> exists (candidate dir name (i + j))"
    and "\<not> exists (candidate dir name (i + k))"
  shows "free_dest exists name dir (1 + word_of_nat i) = Some (candidate dir name (i + k))"
  using assms(3,4)
proof (induction k arbitrary: i)
  case 0
  then show ?case by (simp add: free_dest_step candidate_def)
next
  case (Suc k)
  have pop: "path_pop (candidate dir name i) = dir"
    unfolding candidate_def using pop_push_plain [OF d numbered_name_plain [OF n]] .
  have "exists (candidate dir name i)" using Suc.prems(1) [of 0] by simp
  then have "free_dest exists name dir (1 + word_of_nat i)
      = free_dest exists name dir (1 + word_of_nat (Suc i))"
    using pop by (simp add: free_dest_step candidate_def algebra_simps)
  also have "\<dots> = Some (candidate dir name (Suc i + k))"
    using Suc.prems(1) [of "Suc j" for j] Suc.prems(2) by (intro Suc.IH) auto
  finally show ?case by simp
qed

lemma free_candidate:
  assumes "plain_dir dir" and "plain_name name"
    and "finite {p. exists p}" and "card {p. exists p} < 2 ^ 32"
  shows "\<exists>k. \<not> exists (candidate dir name k) \<and> (\<forall>j < k. exists (candidate dir name j))"
proof -
  have "\<exists>k. \<not> exists (candidate dir name k)"
  proof (rule ccontr)
    assume all: "\<not> (\<exists>k. \<not> exists (candidate dir name k))"
    define N :: nat where "N = 2 ^ 32"
    have "inj_on (candidate dir name) {..<N}"
      using candidate_inj [OF assms(1,2)] unfolding N_def inj_on_def by blast
    then have "card (candidate dir name ` {..<N}) = N"
      by (simp add: card_image)
    moreover have "candidate dir name ` {..<N} \<subseteq> {p. exists p}"
      using all by auto
    then have "card (candidate dir name ` {..<N}) \<le> card {p. exists p}"
      by (rule card_mono [OF assms(3)])
    ultimately show False
      using assms(4) unfolding N_def by simp
  qed
  then show ?thesis
    using exists_least_iff [of "\<lambda>k. \<not> exists (candidate dir name k)"] by auto
qed

text \<open>
  C34. The destination of a received file: with fewer than \<open>2 ^ 32\<close> existing paths the search
  returns, the destination does not exist, it lies in the download directory under the file's own
  name if that was free, and otherwise under the name with the least positive number in front
  that is free. (For a name that is a plain one; the counter of the code is an \<open>i32\<close>.)
\<close>

theorem pick_dest_returns:
  assumes "plain_dir dir" and "plain_name name"
    and "finite {p. exists p}" and "card {p. exists p} < 2 ^ 32"
  shows "\<exists>dest. pick_dest exists dir name = Some dest \<and> \<not> exists dest \<and>
    (if exists (path_push dir name)
     then \<exists>k. dest = candidate dir name k \<and> (\<forall>j < k. exists (candidate dir name j))
     else dest = path_push dir name)"
proof (cases "exists (path_push dir name)")
  case True
  obtain k where k: "\<not> exists (candidate dir name k)" "\<forall>j < k. exists (candidate dir name j)"
    using free_candidate [OF assms] by blast
  then have "pick_dest exists dir name = Some (candidate dir name k)"
    using True pop_push_plain [OF assms(1,2)] free_dest_candidates [OF assms(1,2), of k exists 0]
    by (simp add: pick_dest_def)
  with k True show ?thesis by auto
next
  case False
  then show ?thesis by (simp add: pick_dest_def)
qed

end
