(* ===== verification/Inbound.thy ===== *)
theory Inbound
  imports KeyExchange Files
begin

text \<open>
  \<open>InboundRequest\<close> of \<open>hdl/inbound.rs\<close>: the receiving side of a transfer. One call
  of \<open>handle\<close> serves one event, a channel message or a frame on the socket, and dispatches
  on the state of the connection. The methods are in the order of the file.
\<close>

section \<open>State\<close>

record inbound = request +
  ib_recv_buf :: bytes

definition new_inbound ::
  "string \<Rightarrow> (path \<Rightarrow> fs_node option) \<Rightarrow> path option option \<Rightarrow> bytes \<Rightarrow> inbound" where
  "new_inbound i fs custom_download socket =
     \<lparr>rq_in = socket, rq_out = [], rq_chan = [], rq_fs = fs, rq_draws = 0,
      rq_custom_download = custom_download,
      rq_st = is_default\<lparr>is_id := i, is_server_seq := 0, is_client_seq := 0,
        is_state := Initial, is_encryption_done := True\<rparr>,
      rq_encode_buf = [], rq_frame_buf = [], rq_encrypt_key_aes = None,
      rq_decrypt_key_aes = None, rq_send_hmac = None, rq_recv_hmac = None, ib_recv_buf = []\<rparr>"

type_synonym 'a inb = "(inbound, 'a) io"

definition set_state :: "transfer_type \<Rightarrow> conn_state \<Rightarrow> bool \<Rightarrow> ('x, unit) rio" where
  "set_state role s inform = update_state role (\<lambda>e. e\<lparr>is_state := s\<rparr>) inform"

section \<open>The handshake's last step\<close>

definition paired_key_encryption :: "env \<Rightarrow> nat \<Rightarrow> nat \<Rightarrow> sharing_frame" where
  "paired_key_encryption X k1 k2 = sharing_v1_frame (sv_default\<lparr>
     sv_type := Some (enum_num sharing_type_table ShPairedKeyEncryption),
     sv_paired_key_encryption := Some \<lparr>pke_signed_data = Some (gen_random X k2 72),
       pke_secret_id_hash = Some (gen_random X k1 6)\<rparr>\<rparr>)"

definition process_connection_response :: "env \<Rightarrow> offline_frame \<Rightarrow> unit inb" where
  "process_connection_response X frame =
     bind (ok_or (Error ''Missing required fields'') (of_v1 frame)) (\<lambda>v1.
     andthen (fail_if (v1_frame_type v1 \<noteq> FrConnectionResponse) (Error ''Unexpected frame type''))
     (andthen (send_frame X (enc_offline X (connection_response_accept X)))
     (bind draw (\<lambda>k1. bind draw (\<lambda>k2.
     send_encrypted_frame X (paired_key_encryption X k1 k2))))))"

section \<open>Answers\<close>

definition response_frame :: "consent_status \<Rightarrow> sharing_frame" where
  "response_frame status = sharing_v1_frame (sv_default\<lparr>
     sv_type := Some (enum_num sharing_type_table ShResponse),
     sv_connection_response := Some (Some (enum_num consent_status_table status))\<rparr>)"

definition reject_transfer :: "env \<Rightarrow> consent_status option \<Rightarrow> unit inb" where
  "reject_transfer X reason =
     (let sreason = (case reason of Some r \<Rightarrow> r | None \<Rightarrow> CsReject)
      in send_encrypted_frame X (response_frame sreason))"

text \<open>One round of the loop over the keys: \<open>get_mut(..).unwrap()\<close>, \<open>File::create\<close>.\<close>

definition open_destination :: "env \<Rightarrow> i64 \<Rightarrow> unit inb" where
  "open_destination X i =
     bind (bind (get (\<lambda>r. hm_lookup (is_transferred_files (rq_st r)) i))
            (unwrap ''transferred_files.get_mut'')) (\<lambda>mfi.
     bind (file_create X (ifi_file_url mfi)) (\<lambda>file.
     modify (upd_st (\<lambda>s. s\<lparr>is_transferred_files :=
       hm_insert i (mfi\<lparr>ifi_file := Some file\<rparr>) (is_transferred_files s)\<rparr>))))"

definition accept_transfer :: "env \<Rightarrow> unit inb" where
  "accept_transfer X =
     bind (get (\<lambda>r. os_key_order X (hm_keys (is_transferred_files (rq_st r))))) (\<lambda>ids.
     andthen (for_each ids (open_destination X))
     (andthen (send_encrypted_frame X (response_frame CsAccept))
     (bind draw (\<lambda>k.
     update_state Inbound (\<lambda>e. e\<lparr>is_state := ReceivingFiles,
       is_transfer_start := Some (os_now X k)\<rparr>) True))))"

section \<open>Introduction\<close>

text \<open>
  The loop over the announced files: choose a destination, register the file, add up the sizes
  (as \<open>u64\<close>, wrapping) and collect the names.
\<close>

fun introduce_files ::
  "env \<Rightarrow> file_metadata list \<Rightarrow> string list \<Rightarrow> u64 \<Rightarrow> (string list \<times> u64) inb" where
  "introduce_files X [] files_name total_bytes = ret (files_name, total_bytes)"
| "introduce_files X (file # files) files_name total_bytes =
     bind (get (\<lambda>r. pick_dest (path_exists (rq_fs r)) (get_download_dir X (rq_custom_download r))
                 (file_name_of file))) (\<lambda>picked.
     case picked of
       None \<Rightarrow> no_fuel
     | Some dest \<Rightarrow>
         (let info = \<lparr>ifi_payload_id = file_payload_id file, ifi_file_url = dest,
                ifi_bytes_transferred = 0, ifi_total_size = file_size file, ifi_file = None\<rparr> in
          andthen (modify (upd_st (\<lambda>s. s\<lparr>is_transferred_files :=
            hm_insert (file_payload_id file) info (is_transferred_files s)\<rparr>)))
          (introduce_files X files (files_name @ [file_name_of file])
            (total_bytes + ifi_total_size info))))"

text \<open>\<open>None\<close>: the download directory is not UTF-8 and does not convert to a string.\<close>

definition file_transfer_metadata ::
  "env \<Rightarrow> inbound \<Rightarrow> string list \<Rightarrow> u64 \<Rightarrow> transfer_metadata option" where
  "file_transfer_metadata X r files_name total_bytes = map_option (\<lambda>destination. tm_default\<lparr>
     tm_id := is_id (rq_st r),
     tm_destination := Some destination,
     tm_source := is_remote_device_info (rq_st r),
     tm_files := Some files_name,
     tm_pin_code := is_pin_code (rq_st r),
     tm_total_bytes := total_bytes\<rparr>)
     (path_into_string (get_download_dir X (rq_custom_download r)))"

definition text_transfer_metadata :: "inbound \<Rightarrow> string option \<Rightarrow> transfer_metadata" where
  "text_transfer_metadata r description = tm_default\<lparr>
     tm_id := is_id (rq_st r),
     tm_source := is_remote_device_info (rq_st r),
     tm_pin_code := is_pin_code (rq_st r),
     tm_text_description := description\<rparr>"

definition offer_text :: "text_payload_info \<Rightarrow> string option \<Rightarrow> unit inb" where
  "offer_text payload description =
     bind (get (\<lambda>r. text_transfer_metadata r description)) (\<lambda>metadata.
     update_state Inbound (\<lambda>e. e\<lparr>is_text_payload := Some payload,
       is_transfer_metadata := Some metadata\<rparr>) True)"

definition process_introduction :: "env \<Rightarrow> sharing_v1 \<Rightarrow> unit inb" where
  "process_introduction X v1 =
     bind (ok_or (Error ''Missing required fields'') (sv_introduction v1)) (\<lambda>introduction.
     andthen (set_state Inbound WaitingForUserConsent False)
     (if in_files introduction \<noteq> [] \<and> in_texts introduction = [] then
        bind (introduce_files X (in_files introduction) [] 0) (\<lambda>(files_name, total_bytes).
        bind (get (\<lambda>r. file_transfer_metadata X r files_name total_bytes)) (\<lambda>metadata.
        bind (ok_or (Error ''failed to convert PathBuf to String'') metadata) (\<lambda>metadata.
        update_state Inbound (\<lambda>e. e\<lparr>is_transfer_metadata := Some metadata\<rparr>) True)))
      else case in_texts introduction of
        [meta] \<Rightarrow>
          (case text_kind meta of
             TtUrl \<Rightarrow> offer_text (TpUrl (text_payload_id meta)) (txm_title meta)
           | TtPhoneNumber \<Rightarrow> offer_text (TpText (text_payload_id meta)) (txm_title meta)
           | TtAddress \<Rightarrow> offer_text (TpText (text_payload_id meta)) (txm_title meta)
           | TtText \<Rightarrow> offer_text (TpText (text_payload_id meta)) (txm_title meta)
           | TtUnknown \<Rightarrow> reject_transfer X (Some CsUnsupportedAttachmentType))
      | _ \<Rightarrow>
          (case in_wifis introduction of
             [meta] \<Rightarrow> offer_text (TpWifi (wifi_payload_id meta) (wifi_ssid meta)) (wm_ssid meta)
           | _ \<Rightarrow> reject_transfer X (Some CsUnsupportedAttachmentType))))"

section \<open>Transfer setup\<close>

definition paired_key_result :: sharing_frame where
  "paired_key_result = sharing_v1_frame (sv_default\<lparr>
     sv_type := Some (enum_num sharing_type_table ShPairedKeyResult),
     sv_paired_key_result := Some (Some paired_key_unable)\<rparr>)"

definition process_paired_key_encryption_frame :: "env \<Rightarrow> sharing_v1 \<Rightarrow> unit inb" where
  "process_paired_key_encryption_frame X v1 =
     andthen (fail_if (sv_paired_key_encryption v1 = None) (Error ''Missing required fields''))
     (send_encrypted_frame X paired_key_result)"

definition process_paired_key_result :: "sharing_v1 \<Rightarrow> unit inb" where
  "process_paired_key_result v1 =
     fail_if (sv_paired_key_result v1 = None) (Error ''Missing required fields'')"

text \<open>The end of a connection that is no error: tell the front end, say goodbye, stop.\<close>

definition finish :: "env \<Rightarrow> transfer_type \<Rightarrow> conn_state \<Rightarrow> ('x, unit) rio" where
  "finish X role s =
     andthen (set_state role s True)
     (andthen (disconnection X)
     (fail NotAnError))"

definition process_transfer_setup :: "env \<Rightarrow> sharing_frame \<Rightarrow> unit inb" where
  "process_transfer_setup X frame =
     bind (ok_or (Error ''Missing required fields'') (sf_v1 frame)) (\<lambda>v1.
     if sv_frame_type v1 = ShCancel then finish X Inbound Cancelled
     else bind (get (\<lambda>r. is_state (rq_st r))) (\<lambda>state.
     if state = SentConnectionResponse then
       andthen (process_paired_key_encryption_frame X v1)
       (set_state Inbound SentPairedKeyResult False)
     else if state = SentPairedKeyResult then
       andthen (process_paired_key_result v1)
       (set_state Inbound ReceivedPairedKeyResult False)
     else if state = ReceivedPairedKeyResult then process_introduction X v1
     else ret ()))"

section \<open>Payload chunks\<close>

text \<open>The completed text: up to the first byte 16, as UTF-8.\<close>

definition text_of_buffer :: "bytes \<Rightarrow> string option" where
  "text_of_buffer buffer = from_utf8 (takeWhile (\<lambda>b. b \<noteq> 16) buffer)"

definition store_text :: "text_payload_info \<Rightarrow> string \<Rightarrow> inner_state \<Rightarrow> inner_state" where
  "store_text info payload e = e\<lparr>is_transfer_metadata := map_option (\<lambda>tmd.
     (case info of
        TpUrl _ \<Rightarrow> tmd\<lparr>tm_text_payload := Some payload, tm_text_type := Some TptUrl\<rparr>
      | TpText _ \<Rightarrow> tmd\<lparr>tm_text_payload := Some payload, tm_text_type := Some TptText\<rparr>
      | TpWifi _ ssid \<Rightarrow> tmd\<lparr>tm_text_payload := Some (ssid @ '': '' @ trim payload),
          tm_text_type := Some TptWifi\<rparr>)) (is_transfer_metadata e)\<rparr>"

text \<open>
  \<open>Vec::with_capacity(total_size as usize)\<close>: the size was checked against the upper bound
  only, so a negative one becomes a capacity above \<open>isize::MAX\<close>, which panics.
\<close>

definition entry_buffer :: "i64 \<Rightarrow> i64 \<Rightarrow> ('x, unit) rio" where
  "entry_buffer payload_id total_size =
     bind (get (\<lambda>r. hm_lookup (is_payload_buffers (rq_st r)) payload_id)) (\<lambda>entry.
     if entry \<noteq> None then ret ()
     else if total_size <s 0 then panic ''capacity overflow''
     else modify (upd_st (\<lambda>s. s\<lparr>is_payload_buffers :=
            hm_insert payload_id [] (is_payload_buffers s)\<rparr>)))"

definition remove_buffer :: "i64 \<Rightarrow> ('x, unit) rio" where
  "remove_buffer payload_id = modify (upd_st (\<lambda>s. s\<lparr>is_payload_buffers :=
     hm_remove payload_id (is_payload_buffers s)\<rparr>))"

definition finish_text :: "env \<Rightarrow> text_payload_info \<Rightarrow> bytes \<Rightarrow> unit inb" where
  "finish_text X info buffer =
     bind (ok_or Utf8Error (text_of_buffer buffer)) (\<lambda>payload.
     andthen (update_state Inbound (store_text info payload) False)
     (finish X Inbound Finished))"

definition deliver_buffer :: "env \<Rightarrow> i64 \<Rightarrow> bytes \<Rightarrow> unit inb" where
  "deliver_buffer X payload_id buffer =
     bind (get (\<lambda>r. is_text_payload (rq_st r))) (\<lambda>text_payload.
     case text_payload of
       Some info \<Rightarrow>
         if get_i64_value info = payload_id then finish_text X info buffer
         else bind (ok_or DecodeError (dec_sharing X buffer)) (process_transfer_setup X)
     | None \<Rightarrow> bind (ok_or DecodeError (dec_sharing X buffer)) (process_transfer_setup X))"

definition process_bytes_payload :: "env \<Rightarrow> payload_header \<Rightarrow> payload_chunk \<Rightarrow> unit inb" where
  "process_bytes_payload X header chunk =
     (let payload_id = header_id header in
      if word_of_nat sane_frame_length <s header_total_size header then
        andthen (remove_buffer payload_id) (fail (Error ''Payload too large''))
      else
        andthen (entry_buffer payload_id (header_total_size header))
        (bind (bind (get (\<lambda>r. hm_lookup (is_payload_buffers (rq_st r)) payload_id))
                (unwrap ''payload_buffers.get'')) (\<lambda>buffer0.
        if chunk_offset chunk \<noteq> word_of_nat (length buffer0) then
          andthen (remove_buffer payload_id) (fail (Error ''Unexpected chunk offset''))
        else
          let buffer = buffer0 @ chunk_body chunk in
          andthen (modify (upd_st (\<lambda>s. s\<lparr>is_payload_buffers :=
            hm_insert payload_id buffer (is_payload_buffers s)\<rparr>)))
          (if chunk_flags chunk AND 1 = 1 then deliver_buffer X payload_id buffer else ret ()))))"

definition notify_threshold :: u64 where
  "notify_threshold = 256 * 1024"

text \<open>The bookkeeping after a chunk was written: tell the front end every 256 KB.\<close>

definition count_acknowledged :: "nat \<Rightarrow> unit inb" where
  "count_acknowledged chunk_size =
     bind (get (\<lambda>r. (case is_transfer_metadata (rq_st r) of None \<Rightarrow> 0 | Some t \<Rightarrow> tm_ack_bytes t)
                 + word_of_nat chunk_size)) (\<lambda>new_ack.
     bind (get (\<lambda>r. notify_threshold \<le> new_ack - is_last_notified_bytes (rq_st r))) (\<lambda>should_notify.
     update_state Inbound (\<lambda>e.
       (let e' = e\<lparr>is_transfer_metadata :=
              map_option (\<lambda>tmd. tmd\<lparr>tm_ack_bytes := new_ack\<rparr>) (is_transfer_metadata e)\<rparr> in
        if should_notify then e'\<lparr>is_last_notified_bytes := new_ack\<rparr> else e')) should_notify))"

definition complete_file :: "env \<Rightarrow> i64 \<Rightarrow> unit inb" where
  "complete_file X payload_id =
     andthen (modify (upd_st (\<lambda>s. s\<lparr>is_transferred_files :=
       hm_remove payload_id (is_transferred_files s)\<rparr>)))
     (bind (get (\<lambda>r. hm_is_empty (is_transferred_files (rq_st r)))) (\<lambda>all_done.
     if all_done then finish X Inbound Finished else ret ()))"

definition process_file_payload :: "env \<Rightarrow> payload_header \<Rightarrow> payload_chunk \<Rightarrow> unit inb" where
  "process_file_payload X header chunk =
     (let payload_id = header_id header in
      bind (bind (get (\<lambda>r. hm_lookup (is_transferred_files (rq_st r)) payload_id))
             (ok_or (Error ''File payload ID is not known''))) (\<lambda>file_internal.
      let current_offset = ifi_bytes_transferred file_internal;
          chunk_size = length (chunk_body chunk) in
      andthen (fail_if (chunk_offset chunk \<noteq> current_offset) (Error ''Invalid offset into file''))
      (andthen (fail_if (ifi_total_size file_internal <s current_offset + word_of_nat chunk_size)
                 (Error ''Transferred file size exceeds previously specified value''))
      (if chunk_body chunk \<noteq> [] then
         bind (unwrap ''file.as_mut()'' (ifi_file file_internal)) (\<lambda>file.
         andthen (file_write_all X payload_id file_internal file (chunk_body chunk))
         (andthen (modify (upd_st (\<lambda>s. s\<lparr>is_transferred_files :=
            hm_adjust payload_id (\<lambda>i. i\<lparr>ifi_bytes_transferred :=
              ifi_bytes_transferred i + word_of_nat chunk_size\<rparr>) (is_transferred_files s)\<rparr>)))
         (count_acknowledged chunk_size)))
       else if chunk_flags chunk AND 1 = 1 then complete_file X payload_id
       else ret ()))))"

text \<open>The effect of a chunk for a known file, branch by branch.\<close>

lemma process_file_payload_eq:
  assumes "hm_lookup (is_transferred_files (rq_st r)) (header_id header) = Some info"
  shows "process_file_payload X header chunk r =
    (if chunk_offset chunk \<noteq> ifi_bytes_transferred info
     then (Fail (Error ''Invalid offset into file''), r)
     else if ifi_total_size info <s ifi_bytes_transferred info + word_of_nat (length (chunk_body chunk))
     then (Fail (Error ''Transferred file size exceeds previously specified value''), r)
     else if chunk_body chunk = []
     then (if chunk_flags chunk AND 1 = 1 then complete_file X (header_id header) r else (Done (), r))
     else case ifi_file info of
       None \<Rightarrow> (Panic ''file.as_mut()'', r)
     | Some file \<Rightarrow>
         andthen (file_write_all X (header_id header) info file (chunk_body chunk))
         (andthen (modify (upd_st (\<lambda>s. s\<lparr>is_transferred_files :=
            hm_adjust (header_id header) (\<lambda>i. i\<lparr>ifi_bytes_transferred :=
              ifi_bytes_transferred i + word_of_nat (length (chunk_body chunk))\<rparr>) (is_transferred_files s)\<rparr>)))
         (count_acknowledged (length (chunk_body chunk)))) r)"
  using assms by (cases "ifi_file info") (simp_all add: process_file_payload_def Let_def exec)
section \<open>Dispatch\<close>

definition process_payload_transfer :: "env \<Rightarrow> payload_transfer_frame \<Rightarrow> unit inb" where
  "process_payload_transfer X payload_transfer =
     bind (ok_or (Error ''Missing required fields'') (pt_payload_header payload_transfer)) (\<lambda>header.
     bind (ok_or (Error ''Missing required fields'') (pt_payload_chunk payload_transfer)) (\<lambda>chunk.
     case header_type header of
       PtBytes \<Rightarrow> process_bytes_payload X header chunk
     | PtFile \<Rightarrow> process_file_payload X header chunk
     | PtStream \<Rightarrow> ret ()
     | PtUnknown \<Rightarrow> ret ()))"

definition process_offline_frame :: "env \<Rightarrow> offline_frame \<Rightarrow> unit inb" where
  "process_offline_frame X offline =
     bind (ok_or (Error ''Missing required fields'') (of_v1 offline)) (\<lambda>v1.
     case v1_frame_type v1 of
       FrPayloadTransfer \<Rightarrow>
         bind (ok_or (Error ''Missing required fields'') (v1_payload_transfer v1))
           (process_payload_transfer X)
     | FrKeepAlive \<Rightarrow> send_keepalive X True
     | FrDisconnection \<Rightarrow> ret ()
     | _ \<Rightarrow> ret ())"

definition decrypt_and_process_secure_message :: "env \<Rightarrow> secure_message \<Rightarrow> unit inb" where
  "decrypt_and_process_secure_message X smsg =
     bind (open_secure_message X smsg) (process_offline_frame X)"

text \<open>
  \<open>handle_frame\<close> is \<open>_handle\<close>: the length was read; check it, read the message into
  the reused buffer, dispatch on the state. \<open>serve_frame\<close> is the dispatch.
\<close>

definition serve_frame :: "env \<Rightarrow> bytes \<Rightarrow> unit inb" where
  "serve_frame X frame_data =
     bind (get (\<lambda>r. is_state (rq_st r))) (\<lambda>state.
     if state = Initial then
       bind (ok_or DecodeError (dec_offline X frame_data)) (\<lambda>frame.
       bind (lift_outcome (process_connection_request frame)) (\<lambda>rdi.
       update_state Inbound (\<lambda>e. e\<lparr>is_state := ReceivedConnectionRequest,
         is_remote_device_info := Some rdi\<rparr>) False))
     else if state = ReceivedConnectionRequest then
       bind (ok_or DecodeError (dec_ukey2 X frame_data)) (\<lambda>msg.
       andthen (process_ukey2_client_init X msg)
       (update_state Inbound (\<lambda>e. e\<lparr>is_state := SentUkeyServerInit,
         is_client_init_msg_data := Some frame_data\<rparr>) False))
     else if state = SentUkeyServerInit then
       bind (ok_or DecodeError (dec_ukey2 X frame_data)) (\<lambda>msg.
       andthen (process_ukey2_client_finish X msg frame_data)
       (set_state Inbound ReceivedUkeyClientFinish False))
     else if state = ReceivedUkeyClientFinish then
       bind (ok_or DecodeError (dec_offline X frame_data)) (\<lambda>frame.
       andthen (process_connection_response X frame)
       (set_state Inbound SentConnectionResponse False))
     else
       bind (ok_or DecodeError (dec_secure X frame_data)) (\<lambda>smsg.
       decrypt_and_process_secure_message X smsg))"

definition handle_frame :: "env \<Rightarrow> bytes \<Rightarrow> unit inb" where
  "handle_frame X length_buf =
     (let msg_length = unat (from_be32 length_buf) in
      andthen (fail_if (msg_length > sane_frame_length) (Error ''value''))
      (andthen (modify (\<lambda>r. r\<lparr>ib_recv_buf :=
         take msg_length (ib_recv_buf r) @ replicate (msg_length - length (ib_recv_buf r)) 0\<rparr>))
      (bind (stream_read_exact msg_length) (\<lambda>data.
      andthen (modify (\<lambda>r. r\<lparr>ib_recv_buf := data @ drop msg_length (ib_recv_buf r)\<rparr>))
      (bind (get (\<lambda>r. take msg_length (ib_recv_buf r))) (serve_frame X))))))"

text \<open>
  What \<open>select!\<close> finds ready first: something in the channel, or the four bytes of a frame's
  length. \<open>read_exact\<close> loses what it read so far when it is dropped, so a channel message
  that wins the race may cost up to three bytes of the length.
\<close>

datatype event = OnChannel nat recv_result | OnSocket

definition drop_partial_length :: "nat \<Rightarrow> ('x, unit) rio" where
  "drop_partial_length k = modify (\<lambda>r. r\<lparr>rq_in := drop (min k 3) (rq_in r)\<rparr>)"

definition handle_action :: "env \<Rightarrow> channel_action option \<Rightarrow> unit inb" where
  "handle_action X action =
     (case action of
        Some AcceptTransfer \<Rightarrow> accept_transfer X
      | Some RejectTransfer \<Rightarrow>
          andthen (set_state Inbound Rejected True)
          (andthen (reject_transfer X (Some CsReject))
          (fail NotAnError))
      | Some CancelTransfer \<Rightarrow> finish X Inbound Cancelled
      | None \<Rightarrow> ret ())"

definition handle :: "env \<Rightarrow> event \<Rightarrow> unit inb" where
  "handle X ev =
     (case ev of
        OnChannel k received \<Rightarrow>
          andthen (drop_partial_length k)
          (case received of
             RecvOk channel_msg \<Rightarrow>
               if cm_direction channel_msg = LibToFront then ret ()
               else bind (get (\<lambda>r. is_id (rq_st r))) (\<lambda>i.
                 if cm_id channel_msg \<noteq> i then ret ()
                 else handle_action X (cm_action channel_msg))
           | RecvLagged n \<Rightarrow> ret ()
           | RecvClosed \<Rightarrow> ret ())
      | OnSocket \<Rightarrow> bind (stream_read_exact 4) (handle_frame X))"

end
