(* ===== verification/InboundStates.thy ===== *)
theory InboundStates
  imports Inbound
begin

text \<open>
  The receiving side as a state machine: which moves a frame or the user can cause, what holds in
  every reachable state, and what happens to the file system before the user agreed.
\<close>

section \<open>The moves\<close>

definition secured :: "conn_state \<Rightarrow> bool" where
  "secured s \<longleftrightarrow> s \<notin> {Initial, ReceivedConnectionRequest, SentUkeyServerInit, ReceivedUkeyClientFinish}"

inductive frame_move :: "conn_state \<Rightarrow> conn_state \<Rightarrow> bool" where
  connection_request: "frame_move Initial ReceivedConnectionRequest"
| client_init: "frame_move ReceivedConnectionRequest SentUkeyServerInit"
| client_finish: "frame_move SentUkeyServerInit ReceivedUkeyClientFinish"
| connection_response: "frame_move ReceivedUkeyClientFinish SentConnectionResponse"
| paired_key_encryption: "frame_move SentConnectionResponse SentPairedKeyResult"
| paired_key_result: "frame_move SentPairedKeyResult ReceivedPairedKeyResult"
| introduction: "frame_move ReceivedPairedKeyResult WaitingForUserConsent"
| cancel: "secured s \<Longrightarrow> frame_move s Cancelled"
| complete: "secured s \<Longrightarrow> frame_move s Finished"

inductive user_move :: "channel_action \<Rightarrow> conn_state \<Rightarrow> bool" where
  "user_move AcceptTransfer ReceivingFiles"
| "user_move RejectTransfer Rejected"
| "user_move CancelTransfer Cancelled"

code_pred frame_move .
code_pred user_move .

inductive_cases frame_moveE: "frame_move s t"
inductive_simps user_move_simps:
  "user_move AcceptTransfer t" "user_move RejectTransfer t" "user_move CancelTransfer t"

lemma user_move_fun:
  "user_move AcceptTransfer = (\<lambda>t. t = ReceivingFiles)" "user_move RejectTransfer = (\<lambda>t. t = Rejected)"
  "user_move CancelTransfer = (\<lambda>t. t = Cancelled)"
  by (simp_all add: user_move_simps fun_eq_iff)

definition may_move :: "(conn_state \<Rightarrow> conn_state \<Rightarrow> bool) \<Rightarrow> 'x request_scheme \<Rightarrow> 'x request_scheme \<Rightarrow> bool" where
  "may_move M r t \<longleftrightarrow> conn t = conn r \<or> M (conn r) (conn t)"

interpretation mv: one_step "same_rel conn" "may_move M"
  by unfold_locales (auto simp: may_move_def same_rel_def)

lemma set_state_move: "(\<And>c. M c s) \<Longrightarrow> within (may_move M) (set_state role s inform)"
  by (auto simp: within_def may_move_def set_state_def update_state_def exec conn_def upd_st_def)

lemma finish_move:
  "(\<And>c. M c s) \<Longrightarrow> within (may_move M) (finish X role s)"
  unfolding finish_def by (intro mv.post_andthen set_state_move within_rules)

section \<open>One event, at most one move\<close>

lemma text_parts_conn [within_rules]:
  "within (same_rel conn) (offer_text p d)"
  "within (same_rel conn) (reject_transfer X reason)"
  "within (same_rel conn) (entry_buffer i sz)"
  "within (same_rel conn) (remove_buffer i)"
  "within (same_rel conn) (count_acknowledged n)"
  "within (same_rel conn) (process_paired_key_encryption_frame X v)"
  "within (same_rel conn) (process_paired_key_result v)"
  "within (same_rel conn) (process_connection_response X f)"
  unfolding offer_text_def reject_transfer_def entry_buffer_def remove_buffer_def
    count_acknowledged_def process_paired_key_encryption_frame_def process_paired_key_result_def
    process_connection_response_def Let_def
  by (intro within_rules; simp add: conn_def upd_st_def)+

lemma conn_put [simp]: "conn (put_handle i info h r) = conn r" "conn (put_bytes h d r) = conn r"
  by (simp_all add: put_handle_def put_bytes_def conn_def upd_st_def)

lemma file_write_all_conn [within_rules]: "within (same_rel conn) (file_write_all X i info h d)"
  by (auto simp: within_def same_rel_def file_write_all_def split: option.split)

lemma file_create_conn [within_rules]: "within (same_rel conn) (file_create X p)"
  by (auto simp: within_def same_rel_def file_create_def conn_def)

lemma introduce_files_conn [within_rules]:
  "within (same_rel conn) (introduce_files X files names sz)"
proof (induction files arbitrary: names sz)
  case Nil
  show ?case by (simp add: within_rules)
next
  case (Cons f fs)
  then show ?case unfolding introduce_files.simps Let_def
    by (intro within_rules; simp add: conn_def upd_st_def)
qed

text \<open>The moves of a frame on the secure channel.\<close>

definition secure_move :: "conn_state \<Rightarrow> conn_state \<Rightarrow> bool" where
  "secure_move s t \<longleftrightarrow> t = Cancelled \<or> t = Finished
     \<or> s = SentConnectionResponse \<and> t = SentPairedKeyResult
     \<or> s = SentPairedKeyResult \<and> t = ReceivedPairedKeyResult
     \<or> s = ReceivedPairedKeyResult \<and> t = WaitingForUserConsent"

lemma secure_move_ends: "secure_move c Cancelled" "secure_move c Finished"
  by (simp_all add: secure_move_def)

lemma frame_move_secure: "secured s \<Longrightarrow> secure_move s t \<Longrightarrow> frame_move s t"
  by (auto simp: secure_move_def intro: frame_move.intros)

lemma process_introduction_conn:
  "process_introduction X v r = (res, r') \<Longrightarrow> conn r' = conn r \<or> conn r' = WaitingForUserConsent"
proof -
  have "within (may_move (\<lambda>_ t. t = WaitingForUserConsent)) (process_introduction X v)"
    unfolding process_introduction_def case_prod_beta
    by (rule mv.pre_bind, rule within_rules, rule mv.post_andthen, rule set_state_move, simp,
        intro within_rules) (simp_all add: conn_def)
  then show "process_introduction X v r = (res, r') \<Longrightarrow> ?thesis"
    by (auto dest!: withinD simp: may_move_def)
qed

lemma process_transfer_setup_move:
  "within (may_move secure_move) (process_transfer_setup X frame)"
proof -
  have start: "within (same_rel conn) m \<Longrightarrow> secure_move (conn r) t \<Longrightarrow>
      may_move secure_move r (snd (andthen m (set_state role t inform) r))" for m r t role inform
  proof -
    assume m: "within (same_rel conn) m" and "secure_move (conn r) t"
    have "within (may_move (\<lambda>_ s. s = t)) (andthen m (set_state role t inform))"
      by (intro mv.pre_andthen m set_state_move refl)
    then show ?thesis
      using \<open>secure_move (conn r) t\<close> by (auto simp: within_def may_move_def dest: spec [of _ r])
  qed
  have intro: "may_move secure_move r (snd (process_introduction X v r))"
    if "conn r = ReceivedPairedKeyResult" for v r
    using process_introduction_conn [of X v r] that
    by (cases "process_introduction X v r") (auto simp: may_move_def secure_move_def)
  have stay: "may_move M r r" for M and r :: inbound
    by (simp add: may_move_def)
  show ?thesis
    unfolding process_transfer_setup_def conn_def [symmetric]
    by (rule mv.pre_bind, rule within_rules, rule mv.if_move, rule finish_move,
        rule secure_move_ends, rule mv.move_get)
       (auto intro!: start intro stay within_rules simp: secure_move_def exec)
qed

lemma finish_text_move: "within (may_move secure_move) (finish_text X info buffer)"
  unfolding finish_text_def
  by (intro mv.pre_bind mv.pre_andthen finish_move secure_move_ends within_rules)
     (simp add: store_text_def)

lemma process_bytes_payload_move:
  "within (may_move secure_move) (process_bytes_payload X header chunk)"
proof -
  have quiet: "within (may_move M) (ret ())" "within (may_move M) (fail e)"
      "within (may_move M) (remove_buffer i)" for M i e
    by (intro mv.still within_rules)+
  show ?thesis
    unfolding process_bytes_payload_def deliver_buffer_def Let_def
    by (intro mv.if_move mv.pre_andthen mv.pre_bind mv.option_move process_transfer_setup_move finish_text_move quiet
          within_rules)
       (simp_all add: conn_def upd_st_def)
qed

lemma process_file_payload_move:
  "within (may_move secure_move) (process_file_payload X header chunk)"
proof -
  have quiet: "within (may_move M) (ret ())" "within (may_move M) (count_acknowledged n)" for M n
    by (intro mv.still within_rules)+
  have complete: "within (may_move secure_move) (complete_file X i)" for i
    unfolding complete_file_def
    by (intro mv.if_move mv.pre_andthen mv.pre_bind finish_move secure_move_ends quiet within_rules)
       (simp add: conn_def upd_st_def)
  show ?thesis
    unfolding process_file_payload_def Let_def
    by (intro mv.if_move mv.pre_andthen mv.pre_bind complete quiet within_rules)
       (simp_all add: conn_def upd_st_def)
qed

lemma process_offline_frame_move:
  "within (may_move secure_move) (process_offline_frame X f)"
proof -
  have transfer: "within (may_move secure_move) (process_payload_transfer X p)" for p
    unfolding process_payload_transfer_def
    by (intro mv.pre_bind within_rules process_bytes_payload_move process_file_payload_move mv.still)
  show ?thesis
    unfolding process_offline_frame_def
    by (intro mv.pre_bind within_rules transfer mv.still)
qed

lemma enters_set_state: "within (may_move (\<lambda>_ t. t = s)) (set_state role s inform)"
  by (rule set_state_move) simp

lemma enters_update:
  "(\<And>e. is_state (f e) = s) \<Longrightarrow> within (may_move (\<lambda>_ t. t = s)) (update_state role f inform)"
  by (auto simp: within_def may_move_def update_state_def exec conn_def upd_st_def)

lemma within_at: "within R m \<Longrightarrow> R r (snd (m r))"
  by (simp add: within_def)

lemma serve_frame_move: "within (may_move frame_move) (serve_frame X d)"
proof -
  have enters: "may_move frame_move r (snd (m r))"
    if "within (may_move (\<lambda>_ t. t = c)) m" "frame_move (conn r) c" for m r c
    using within_at [OF that(1), of r] that(2) by (auto simp: may_move_def)
  have secure: "may_move frame_move r (snd (m r))"
    if "within (may_move secure_move) m" "secured (conn r)" for m r
    using within_at [OF that(1), of r] frame_move_secure [OF that(2)] by (auto simp: may_move_def)
  note parts = mv.pre_bind mv.pre_andthen enters_update enters_set_state within_rules
  show ?thesis
    unfolding serve_frame_def conn_def [symmetric] decrypt_and_process_secure_message_def
  proof (rule mv.move_get, goal_cases)
    case (1 r)
    consider "conn r = Initial" | "conn r = ReceivedConnectionRequest"
      | "conn r = SentUkeyServerInit" | "conn r = ReceivedUkeyClientFinish" | "secured (conn r)"
      by (auto simp: secured_def)
    then show ?case
    proof cases
      case 1
      show ?thesis
        by (simp add: 1, rule enters, intro parts) (auto simp: 1 intro: frame_move.intros enters_set_state)
    next
      case 2
      show ?thesis
        by (simp add: 2, rule enters, intro parts) (auto simp: 2 intro: frame_move.intros enters_set_state)
    next
      case 3
      show ?thesis
        by (simp add: 3, rule enters, intro parts) (auto simp: 3 intro: frame_move.intros enters_set_state)
    next
      case 4
      show ?thesis
        by (simp add: 4, rule enters, intro parts) (auto simp: 4 intro: frame_move.intros enters_set_state)
    next
      case 5
      then have "conn r \<noteq> Initial" "conn r \<noteq> ReceivedConnectionRequest"
        "conn r \<noteq> SentUkeyServerInit" "conn r \<noteq> ReceivedUkeyClientFinish"
        by (auto simp: secured_def)
      then show ?thesis
        by (simp, intro secure mv.pre_bind process_offline_frame_move within_rules 5)
    qed
  qed
qed

lemma handle_frame_move: "within (may_move frame_move) (handle_frame X lb)"
  unfolding handle_frame_def Let_def
  by (intro mv.pre_bind mv.pre_andthen serve_frame_move within_rules) (simp_all add: conn_def)

section \<open>User actions\<close>

lemma accept_transfer_move: "within (may_move (\<lambda>_ t. t = ReceivingFiles)) (accept_transfer X)"
proof -
  have "within (same_rel conn) (open_destination X i)" for i
    unfolding open_destination_def by (intro within_rules) (simp add: conn_def upd_st_def)
  then show ?thesis
    unfolding accept_transfer_def
    by (intro mv.pre_bind mv.pre_andthen enters_update within_rules) simp_all
qed

lemma handle_action_move:
  "within (may_move (\<lambda>_ t. \<exists>a. action = Some a \<and> user_move a t)) (handle_action X action)"
proof -
  have "within (may_move (\<lambda>_ t. t = Rejected))
      (andthen (set_state Inbound Rejected True) (andthen (reject_transfer X r) (fail NotAnError)))" for r
    by (intro mv.post_andthen enters_set_state within_rules)
  moreover have "within (may_move (\<lambda>_ t. t = Cancelled)) (finish X Inbound Cancelled)"
    by (rule finish_move) simp
  moreover have "within (may_move M) (ret ())" for M
    by (intro mv.still within_rules)
  moreover note accept_transfer_move [of X]
  ultimately show ?thesis
    unfolding handle_action_def
    by (cases action; simp; cases "the action"; simp add: user_move_fun)
qed

lemma handle_step:
  assumes "handle X ev r = (res, r')"
  shows "conn r' = conn r \<or>
    (case ev of
       OnSocket \<Rightarrow> frame_move (conn r) (conn r')
     | OnChannel k (RecvOk m) \<Rightarrow> cm_direction m = FrontToLib \<and> cm_id m = is_id (rq_st r)
         \<and> (\<exists>a. cm_action m = Some a \<and> user_move a (conn r'))
     | OnChannel k _ \<Rightarrow> False)"
proof (cases ev)
  case OnSocket
  have "within (may_move frame_move) (handle X OnSocket)"
    by (simp add: handle_def, intro mv.pre_bind handle_frame_move within_rules)
  with assms OnSocket show ?thesis by (auto dest: withinD simp: may_move_def)
next
  case (OnChannel k received)
  define r1 where "r1 = r\<lparr>rq_in := drop (min k 3) (rq_in r)\<rparr>"
  have r1: "conn r1 = conn r" "is_id (rq_st r1) = is_id (rq_st r)"
    by (simp_all add: r1_def conn_def)
  show ?thesis
  proof (cases received)
    case (RecvOk m)
    have "handle X ev r = (if cm_direction m = LibToFront \<or> cm_id m \<noteq> is_id (rq_st r) then (Done (), r1)
        else handle_action X (cm_action m) r1)"
      using OnChannel RecvOk r1 by (simp add: handle_def drop_partial_length_def exec r1_def)
    with assms have "conn r' = conn r1 \<or> cm_direction m \<noteq> LibToFront \<and> cm_id m = is_id (rq_st r)
        \<and> (\<exists>a. cm_action m = Some a \<and> user_move a (conn r'))"
      using withinD [OF handle_action_move [of "cm_action m" X], of r1]
      by (auto simp: may_move_def split: if_splits)
    with OnChannel RecvOk r1 show ?thesis
      by (cases "cm_direction m") auto
  qed (use assms OnChannel r1 in \<open>auto simp: handle_def drop_partial_length_def exec r1_def\<close>)
qed

text \<open>
  C17. One call of \<open>handle\<close> makes at most one move. A frame moves the connection along the
  protocol, one step for each phase, or ends it once the channel is secured; only a message of the
  front end for this very connection can do what the user decides, and it does that in any phase.
\<close>

theorem handle_moves:
  assumes "handle X ev r = (res, r')"
  shows "conn r' = conn r \<or>
    (case ev of
       OnSocket \<Rightarrow> frame_move (conn r) (conn r')
     | OnChannel k (RecvOk m) \<Rightarrow> cm_direction m = FrontToLib \<and> cm_id m = is_id (rq_st r)
         \<and> (\<exists>a. cm_action m = Some a \<and> user_move a (conn r'))
     | OnChannel k _ \<Rightarrow> False)"
  using assms by (rule handle_step)

section \<open>Nothing is written before the user agreed\<close>

text \<open>
  Only \<open>accept_transfer\<close> opens files: whatever else is served opens no file, and the file system
  stays as it is outside the files that are open.
\<close>

definition open_paths :: "'x request_scheme \<Rightarrow> path set" where
  "open_paths r = {p. \<exists>i info h. hm_lookup (is_transferred_files (rq_st r)) i = Some info
     \<and> ifi_file info = Some h \<and> fh_path h = p}"

definition quiet_rel :: "'x request_scheme \<Rightarrow> 'x request_scheme \<Rightarrow> bool" where
  "quiet_rel r t \<longleftrightarrow> open_paths t \<subseteq> open_paths r \<and> (\<forall>p. p \<notin> open_paths r \<longrightarrow> rq_fs t p = rq_fs r p)"

interpretation quiet: step_rel quiet_rel
  by unfold_locales (auto simp: quiet_rel_def subset_iff)

lemma quiet_modify [within_rules]:
  "(\<And>r. rq_fs (f r) = rq_fs r) \<Longrightarrow> (\<And>r. open_paths (f r) \<subseteq> open_paths r) \<Longrightarrow> within quiet_rel (modify f)"
  by (simp add: within_def quiet_rel_def exec)

lemma open_paths_still [simp]:
  "open_paths (upd_st f r) = open_paths r" if "\<And>e. is_transferred_files (f e) = is_transferred_files e" for f
  using that by (simp add: open_paths_def upd_st_def)

lemma open_paths_closed_entry:
  "ifi_file info = None \<Longrightarrow> open_paths (upd_st (\<lambda>s. s\<lparr>is_transferred_files :=
     hm_insert i info (is_transferred_files s)\<rparr>) r) \<subseteq> open_paths r"
  "open_paths (upd_st (\<lambda>s. s\<lparr>is_transferred_files := hm_remove i (is_transferred_files s)\<rparr>) r) \<subseteq> open_paths r"
  by (auto simp: open_paths_def upd_st_def split: if_splits)

lemma quiet_core: "within (same_rel core) m \<Longrightarrow> within quiet_rel m"
proof (erule within_mono)
  fix s t :: "'a request_scheme"
  assume "same_rel core s t"
  then have c: "core t = core s" by (simp add: same_rel_def)
  have "is_transferred_files (rq_st t) = is_transferred_files (rq_st s)"
    using coreD(8) [OF c, THEN arg_cong, of is_transferred_files] by simp
  with coreD(3) [OF c] show "quiet_rel s t"
    by (simp add: quiet_rel_def open_paths_def)
qed

lemmas quiet_senders [within_rules] =
  core_basic [THEN quiet_core] send_frame_core [THEN quiet_core]
  encrypt_and_send_core [THEN quiet_core] senders_core [THEN quiet_core]

lemma quiet_update_state [within_rules]:
  "(\<And>e. is_transferred_files (f e) = is_transferred_files e) \<Longrightarrow> within quiet_rel (update_state role f inform)"
  by (simp add: within_def quiet_rel_def update_state_def exec upd_st_def open_paths_def)

lemma quiet_read [within_rules]: "within quiet_rel (stream_read_exact n)"
  by (simp add: within_def quiet_rel_def stream_read_exact_def open_paths_def)

lemma quiet_set_state [within_rules]: "within quiet_rel (set_state role s inform)"
  unfolding set_state_def by (intro within_rules) simp

lemma quiet_finish [within_rules]: "within quiet_rel (finish X role s)"
  unfolding finish_def by (intro within_rules)

lemma quiet_handshake [within_rules]:
  "within quiet_rel (alert_and_fail X a e)"
  "within quiet_rel (aes_key_of key)" "within quiet_rel (new_hmac X key)"
  "within quiet_rel (session_secrets X k)"
  unfolding alert_and_fail_def aes_key_of_def new_hmac_def session_secrets_def Let_def
  by (intro within_rules)+

lemma quiet_keys [within_rules]:
  "within quiet_rel (server_finalize_key_exchange X k)"
  unfolding server_finalize_key_exchange_def
  by (intro within_rules; simp add: open_paths_def)

lemma quiet_ukey2 [within_rules]:
  "within quiet_rel (process_ukey2_client_init X m)"
  "within quiet_rel (process_ukey2_client_finish X m d)"
  unfolding process_ukey2_client_init_def process_ukey2_client_finish_def Let_def case_prod_beta
  by (intro within_rules; simp)+

lemma quiet_open [within_rules]: "within quiet_rel (open_secure_message X m)"
  unfolding open_secure_message_def get_client_seq_inc_def Let_def case_prod_beta
  by (intro within_rules; simp add: open_paths_def upd_st_def)

lemma quiet_parts [within_rules]:
  "within quiet_rel (offer_text p d)"
  "within quiet_rel (reject_transfer X reason)"
  "within quiet_rel (entry_buffer i sz)"
  "within quiet_rel (remove_buffer i)"
  "within quiet_rel (count_acknowledged n)"
  "within quiet_rel (process_paired_key_encryption_frame X v)"
  "within quiet_rel (process_paired_key_result v)"
  "within quiet_rel (process_connection_response X f)"
  "within quiet_rel (drop_partial_length k)"
  unfolding offer_text_def reject_transfer_def entry_buffer_def remove_buffer_def
    count_acknowledged_def process_paired_key_encryption_frame_def process_paired_key_result_def
    process_connection_response_def drop_partial_length_def Let_def
  by (intro within_rules; simp add: open_paths_def upd_st_def)+

lemma quiet_introduce [within_rules]: "within quiet_rel (introduce_files X files names sz)"
proof (induction files arbitrary: names sz)
  case Nil
  show ?case by (simp add: within_rules)
next
  case (Cons f fs)
  then show ?case unfolding introduce_files.simps Let_def
    by (intro within_rules; (intro open_paths_closed_entry)?; simp)
qed

lemma quiet_transfer_setup [within_rules]: "within quiet_rel (process_transfer_setup X f)"
proof -
  have "within quiet_rel (process_introduction X v)" for v
    unfolding process_introduction_def case_prod_beta by (intro within_rules; simp)
  then show ?thesis
    unfolding process_transfer_setup_def by (intro within_rules) simp_all
qed

lemma file_write_all_quiet:
  assumes "hm_lookup (is_transferred_files (rq_st r)) i = Some info" and "ifi_file info = Some h"
    and "file_write_all X i info h d r = (res, t)"
  shows "quiet_rel r t"
  using assms
  by (auto simp: quiet_rel_def open_paths_def file_write_all_def put_handle_def put_bytes_def upd_st_def
      split: option.splits if_splits) blast+

lemma quiet_file_payload [within_rules]: "within quiet_rel (process_file_payload X header chunk)"
proof (rule withinI)
  fix r res t
  let ?i = "header_id header"
  assume run: "process_file_payload X header chunk r = (res, t)"
  have complete: "within quiet_rel (complete_file X i)" for i
    unfolding complete_file_def by (intro within_rules open_paths_closed_entry) simp
  have count: "within quiet_rel (andthen (modify (upd_st (\<lambda>s. s\<lparr>is_transferred_files :=
      hm_adjust ?i (\<lambda>i. i\<lparr>ifi_bytes_transferred := b i\<rparr>) (is_transferred_files s)\<rparr>))) (count_acknowledged n))" for b n
    by (intro within_rules) (auto simp: open_paths_def upd_st_def hm_adjust_def split: option.splits if_splits)
  show "quiet_rel r t"
  proof (cases "hm_lookup (is_transferred_files (rq_st r)) ?i")
    case None
    with run show ?thesis by (simp add: process_file_payload_def Let_def exec quiet.refl)
  next
    case (Some info)
    show ?thesis
    proof (cases "ifi_file info")
      case None
      then show ?thesis
        using run withinD [OF complete, of ?i r res t] unfolding process_file_payload_eq [OF Some]
        by (simp add: quiet.refl split: if_split_asm)
    next
      case opened: (Some h)
      obtain w u where w: "file_write_all X ?i info h (chunk_body chunk) r = (w, u)" by fastforce
      have "quiet_rel r u" by (rule file_write_all_quiet [OF Some opened w])
      then have "quiet_rel r (snd (andthen (file_write_all X ?i info h (chunk_body chunk))
          (andthen (modify (upd_st (\<lambda>s. s\<lparr>is_transferred_files := hm_adjust ?i (\<lambda>i. i\<lparr>ifi_bytes_transferred :=
            ifi_bytes_transferred i + word_of_nat (length (chunk_body chunk))\<rparr>) (is_transferred_files s)\<rparr>)))
          (count_acknowledged (length (chunk_body chunk)))) r))"
        using quiet.trans [OF _ within_at [OF count]] w
        by (cases w) (simp_all add: andthen_Done andthen_Fail andthen_Panic andthen_NoFuel)
      then show ?thesis
        using run opened withinD [OF complete, of ?i r res t] unfolding process_file_payload_eq [OF Some]
        by (simp add: quiet.refl split: if_split_asm)
    qed
  qed
qed

lemma quiet_offline_frame [within_rules]: "within quiet_rel (process_offline_frame X f)"
proof -
  have "within quiet_rel (process_bytes_payload X header chunk)" for header chunk
    unfolding process_bytes_payload_def deliver_buffer_def finish_text_def store_text_def Let_def
    by (intro within_rules; simp add: open_paths_def upd_st_def)
  then show ?thesis
    unfolding process_offline_frame_def process_payload_transfer_def
    by (intro within_rules) simp_all
qed

lemma quiet_frame: "within quiet_rel (handle X OnSocket)"
  unfolding handle_def handle_frame_def serve_frame_def decrypt_and_process_secure_message_def
    Let_def event.case
  by (intro within_rules; simp add: open_paths_def)

definition accepts :: "event \<Rightarrow> bool" where
  "accepts ev \<longleftrightarrow> (case ev of OnChannel _ (RecvOk m) \<Rightarrow>
     cm_direction m = FrontToLib \<and> cm_action m = Some AcceptTransfer | _ \<Rightarrow> False)"

lemma quiet_handle: "\<not> accepts ev \<Longrightarrow> within quiet_rel (handle X ev)"
proof (cases ev)
  case (OnChannel k received)
  have action: "within quiet_rel (handle_action X a)" if "a \<noteq> Some AcceptTransfer" for a
    using that unfolding handle_action_def
    by (cases a; simp; (cases "the a")?; simp) (intro within_rules)+
  assume no: "\<not> accepts ev"
  show ?thesis
  proof (cases received)
    case (RecvOk m)
    have "cm_direction m = LibToFront \<or> cm_action m \<noteq> Some AcceptTransfer"
      using no OnChannel RecvOk by (cases "cm_direction m") (auto simp: accepts_def)
    then show ?thesis
      by (auto simp: handle_def OnChannel RecvOk intro!: within_rules action)
  qed (auto simp: handle_def OnChannel intro!: within_rules)
qed (use quiet_frame in simp)

text \<open>
  C10. No file is created, truncated or written before the user agreed: whatever frames come and
  whatever else the front end says, after any number of events, and even if the last one failed
  or panicked, the file system is what it was when the connection was made, unless one of the
  events is a message of the front end that accepts the transfer.
\<close>

theorem no_write_before_consent:
  assumes "\<forall>ev \<in> set evs. \<not> accepts ev"
    and "for_each evs (handle X) (new_inbound i fs custom_download socket) = (res, r)"
  shows "rq_fs r = fs"
proof -
  have "within quiet_rel (for_each evs (handle X))"
    using assms(1) by (intro within_rules quiet_handle) auto
  then have "quiet_rel (new_inbound i fs custom_download socket) r"
    using assms(2) by (rule withinD)
  then show ?thesis
    by (auto simp: quiet_rel_def open_paths_def new_inbound_def is_default_def)
qed

end
