(* ===== verification/FileTransfer.thy ===== *)
theory FileTransfer
  imports InboundStates
begin

text \<open>
  What the receiving side does with the payloads of a transfer: the file chunks and what ends up
  on disk, the chunks of a bytes payload and the sharing frame they carry, and the announcement
  of files.
\<close>

section \<open>File chunks\<close>

lemma count_acknowledged_Done:
  "\<exists>t. count_acknowledged n r = (Done (), t) \<and> rq_fs t = rq_fs r
     \<and> is_transferred_files (rq_st t) = is_transferred_files (rq_st r)
     \<and> rq_custom_download t = rq_custom_download r"
  by (simp add: count_acknowledged_def update_state_def exec upd_st_def Let_def)

text \<open>
  The state of one file that is being received: its entry, its open handle at the end of the
  file, and the bytes written so far, which are the ones counted.
\<close>

definition receiving :: "i64 \<Rightarrow> internal_file_info \<Rightarrow> path \<Rightarrow> bytes \<Rightarrow> 'x request_scheme \<Rightarrow> bool" where
  "receiving i info p c r \<longleftrightarrow>
     hm_lookup (is_transferred_files (rq_st r)) i = Some info \<and>
     ifi_file info = Some \<lparr>fh_path = p, fh_pos = length c\<rparr> \<and>
     rq_fs r p = Some (FileNode c) \<and>
     ifi_bytes_transferred info = word_of_nat (length c) \<and>
     int (length c) \<le> sint (ifi_total_size info)"

definition received :: "internal_file_info \<Rightarrow> path \<Rightarrow> bytes \<Rightarrow> internal_file_info" where
  "received info p c = info\<lparr>ifi_bytes_transferred := word_of_nat (length c),
     ifi_file := Some \<lparr>fh_path = p, fh_pos = length c\<rparr>\<rparr>"

lemma received_simps [simp]:
  "ifi_total_size (received info p c) = ifi_total_size info"
  "received (received info p c) p' c' = received info p' c'"
  by (simp_all add: received_def)

lemma receiving_received: "receiving i info p c r \<Longrightarrow> received info p c = info"
  by (simp add: receiving_def received_def)

text \<open>The size check of the code, on 64-bit words, is the check on integers below overflow.\<close>

lemma size_check:
  assumes "int (length c) \<le> sint tot" and "sint (tot :: i64) + int (length d) < 2 ^ 63"
  shows "tot <s word_of_nat (length c) + word_of_nat (length d)
    \<longleftrightarrow> sint tot < int (length c) + int (length d)"
proof -
  have "int (length c) + int (length d) < 2 ^ 63" using assms by linarith
  then have "sint (word_of_nat (length c + length d) :: i64) = int (length c + length d)"
    by (simp add: signed_of_nat signed_take_bit_int_eq_self del: of_nat_add)
  then show ?thesis by (simp add: word_sless_alt)
qed

lemma file_write_all_append:
  assumes "os_disk_fault X p (length c) = None" and "rq_fs r p = Some (FileNode c)"
  shows "file_write_all X i info \<lparr>fh_path = p, fh_pos = length c\<rparr> d r =
    (Done (), put_handle i info \<lparr>fh_path = p, fh_pos = length (c @ d)\<rparr>
       (r\<lparr>rq_fs := (rq_fs r)(p \<mapsto> FileNode (c @ d))\<rparr>))"
  using assms by (simp add: file_write_all_def put_bytes_def file_content_def write_at_end)

lemma process_chunk:
  assumes r: "receiving (header_id header) info p c r"
    and "chunk_offset chunk = word_of_nat (length c)"
    and small: "int (length c) + int (length (chunk_body chunk)) \<le> sint (ifi_total_size info)"
      "sint (ifi_total_size info) + int (length (chunk_body chunk)) < 2 ^ 63"
    and "os_disk_fault X p (length c) = None" and "chunk_body chunk \<noteq> []"
  shows "\<exists>t. process_file_payload X header chunk r = (Done (), t)
    \<and> receiving (header_id header) (received info p (c @ chunk_body chunk)) p (c @ chunk_body chunk) t
    \<and> rq_fs t = (rq_fs r)(p \<mapsto> FileNode (c @ chunk_body chunk))
    \<and> (\<forall>i. i \<noteq> header_id header \<longrightarrow>
        hm_lookup (is_transferred_files (rq_st t)) i = hm_lookup (is_transferred_files (rq_st r)) i)"
proof -
  let ?i = "header_id header" and ?d = "chunk_body chunk"
  define r1 where "r1 = upd_st (\<lambda>s. s\<lparr>is_transferred_files := hm_adjust ?i
      (\<lambda>j. j\<lparr>ifi_bytes_transferred := ifi_bytes_transferred j + word_of_nat (length ?d)\<rparr>)
      (is_transferred_files s)\<rparr>)
    (put_handle ?i info \<lparr>fh_path = p, fh_pos = length (c @ ?d)\<rparr>
      (r\<lparr>rq_fs := (rq_fs r)(p \<mapsto> FileNode (c @ ?d))\<rparr>))"
  obtain t where t: "count_acknowledged (length ?d) r1 = (Done (), t)" "rq_fs t = rq_fs r1"
      "is_transferred_files (rq_st t) = is_transferred_files (rq_st r1)"
    using count_acknowledged_Done by blast
  have "\<not> ifi_total_size info <s word_of_nat (length c) + word_of_nat (length ?d)"
    using small r by (simp add: size_check receiving_def)
  then have "process_file_payload X header chunk r = count_acknowledged (length ?d) r1"
    using assms file_write_all_append [OF assms(5), of r ?i info ?d]
    by (simp add: process_file_payload_eq receiving_def exec andthen_Done r1_def)
  with t r small show ?thesis
    by (auto simp: receiving_def received_def r1_def put_handle_def upd_st_def)
qed

text \<open>The chunks of a file, as they are sent one after another.\<close>

fun file_chunks :: "i64 \<Rightarrow> bytes list \<Rightarrow> payload_chunk list" where
  "file_chunks offset [] = []"
| "file_chunks offset (b # bs) =
     \<lparr>pc_flags = Some 0, pc_offset = Some offset, pc_body = Some b\<rparr>
       # file_chunks (offset + word_of_nat (length b)) bs"

lemma chunks_written:
  assumes "receiving (header_id header) info p c r"
    and "int (length c) + int (length (concat bodies)) \<le> sint (ifi_total_size info)"
    and "sint (ifi_total_size info) + int (length (concat bodies)) < 2 ^ 63"
    and "\<forall>n. os_disk_fault X p n = None" and "\<forall>b \<in> set bodies. b \<noteq> []"
  shows "\<exists>t. for_each (file_chunks (word_of_nat (length c)) bodies) (process_file_payload X header) r
      = (Done (), t)
    \<and> receiving (header_id header) (received info p (c @ concat bodies)) p (c @ concat bodies) t
    \<and> rq_fs t = (rq_fs r)(p \<mapsto> FileNode (c @ concat bodies))
    \<and> (\<forall>i. i \<noteq> header_id header \<longrightarrow>
        hm_lookup (is_transferred_files (rq_st t)) i = hm_lookup (is_transferred_files (rq_st r)) i)"
  using assms
proof (induction bodies arbitrary: r c info)
  case Nil
  then show ?case
    by (auto simp: exec receiving_received receiving_def fun_upd_idem)
next
  case (Cons b bs)
  let ?k = "\<lparr>pc_flags = Some 0, pc_offset = Some (word_of_nat (length c)), pc_body = Some b\<rparr>"
  obtain r1 where r1: "process_file_payload X header ?k r = (Done (), r1)"
      "receiving (header_id header) (received info p (c @ b)) p (c @ b) r1"
      "rq_fs r1 = (rq_fs r)(p \<mapsto> FileNode (c @ b))"
      "\<forall>i. i \<noteq> header_id header \<longrightarrow>
        hm_lookup (is_transferred_files (rq_st r1)) i = hm_lookup (is_transferred_files (rq_st r)) i"
    using process_chunk [OF Cons.prems(1), of ?k X] Cons.prems
    by (auto simp: chunk_offset_def chunk_body_def)
  obtain t where t: "for_each (file_chunks (word_of_nat (length (c @ b))) bs)
        (process_file_payload X header) r1 = (Done (), t)"
      "receiving (header_id header) (received info p (c @ b @ concat bs)) p (c @ b @ concat bs) t"
      "rq_fs t = (rq_fs r1)(p \<mapsto> FileNode (c @ b @ concat bs))"
      "\<forall>i. i \<noteq> header_id header \<longrightarrow>
        hm_lookup (is_transferred_files (rq_st t)) i = hm_lookup (is_transferred_files (rq_st r1)) i"
    using Cons.IH [OF r1(2)] Cons.prems by (auto simp: fun_upd_def)
  show ?case
    using r1 t by (intro exI [of _ t]) (simp add: exec bind_Done)
qed

text \<open>
  What was sent is what is on disk: the chunks of a file that was accepted, sent in order
  from where the file stands and within the announced size, are written one after another, so the
  file holds the bytes it had followed by all chunks; the count of transferred bytes is the
  length of the file, and no other file or entry changes.
\<close>

theorem file_content_received:
  assumes "receiving (header_id header) info p c r"
    and "int (length c) + int (length (concat bodies)) \<le> sint (ifi_total_size info)"
    and "sint (ifi_total_size info) + int (length (concat bodies)) < 2 ^ 63"
    and "\<forall>n. os_disk_fault X p n = None" and "\<forall>b \<in> set bodies. b \<noteq> []"
  shows "\<exists>t. for_each (file_chunks (word_of_nat (length c)) bodies) (process_file_payload X header) r
      = (Done (), t)
    \<and> rq_fs t = (rq_fs r)(p \<mapsto> FileNode (c @ concat bodies))
    \<and> hm_lookup (is_transferred_files (rq_st t)) (header_id header)
        = Some (received info p (c @ concat bodies))
    \<and> (\<forall>i. i \<noteq> header_id header \<longrightarrow>
        hm_lookup (is_transferred_files (rq_st t)) i = hm_lookup (is_transferred_files (rq_st r)) i)"
  using chunks_written [OF assms] unfolding receiving_def by blast

lemma set_state_fs [within_rules]: "within (same_rel rq_fs) (set_state role s inform)"
  and finish_fs [within_rules]: "within (same_rel rq_fs) (finish X role s)"
  unfolding finish_def set_state_def by (intro within_rules)+

lemma complete_file_fs: "complete_file X i r = (res, t) \<Longrightarrow> rq_fs t = rq_fs r"
proof -
  have "within (same_rel rq_fs) (complete_file X i)"
    unfolding complete_file_def by (intro within_rules) simp
  then show "complete_file X i r = (res, t) \<Longrightarrow> ?thesis"
    by (auto dest: withinD simp: same_rel_def)
qed

lemma file_write_all_prefix:
  assumes "file_write_all X i info \<lparr>fh_path = p, fh_pos = length c\<rparr> d r = (res, t)"
    and "rq_fs r p = Some (FileNode c)"
  shows "(res = Done () \<or> res = Fail IoError) \<and> (\<exists>n. rq_fs t p = Some (FileNode (c @ take n d)))"
  using assms
  by (auto simp: file_write_all_def put_bytes_def put_handle_def file_content_def write_at_end
      split: option.splits intro: exI [of _ "length d"])

text \<open>
  C25. A sender cannot write more than it announced: whatever chunk comes for a file that is
  being received, and whatever the outcome, a failing disk included, the file keeps the bytes it
  had, gets a prefix of the chunk at its end, and is not longer than the announced size.
\<close>

theorem file_size_bounded:
  assumes r: "receiving (header_id header) info p c r"
    and small: "sint (ifi_total_size info) + int (length (chunk_body chunk)) < 2 ^ 63"
    and run: "process_file_payload X header chunk r = (res, r')"
  shows "\<exists>n. rq_fs r' p = Some (FileNode (c @ take n (chunk_body chunk)))
    \<and> int (length (c @ take n (chunk_body chunk))) \<le> sint (ifi_total_size info)"
proof -
  let ?d = "chunk_body chunk"
  have l: "hm_lookup (is_transferred_files (rq_st r)) (header_id header) = Some info"
    and f: "ifi_file info = Some \<lparr>fh_path = p, fh_pos = length c\<rparr>"
    and c: "rq_fs r p = Some (FileNode c)" "int (length c) \<le> sint (ifi_total_size info)"
    and b: "ifi_bytes_transferred info = word_of_nat (length c)"
    using r by (simp_all add: receiving_def)
  let ?w = "file_write_all X (header_id header) info \<lparr>fh_path = p, fh_pos = length c\<rparr> ?d r"
  have "rq_fs r' = rq_fs r \<or>
    int (length c) + int (length ?d) \<le> sint (ifi_total_size info) \<and>
    (\<exists>wres t. ?w = (wres, t) \<and> rq_fs r' = rq_fs t)"
  proof (cases "?d = [] \<or> ifi_total_size info <s word_of_nat (length c) + word_of_nat (length ?d)
      \<or> chunk_offset chunk \<noteq> word_of_nat (length c)")
    case True
    with run show ?thesis
      unfolding process_file_payload_eq [OF l] f b
      by (auto split: if_split_asm dest: complete_file_fs)
  next
    case False
    obtain wres t where t: "?w = (wres, t)" by (cases ?w)
    have "wres = Done () \<or> wres = Fail IoError"
      using file_write_all_prefix [OF t c(1)] by simp
    moreover obtain u where "count_acknowledged (length ?d) (upd_st (\<lambda>s. s\<lparr>is_transferred_files :=
        hm_adjust (header_id header) (\<lambda>i. i\<lparr>ifi_bytes_transferred := ifi_bytes_transferred i
          + word_of_nat (length ?d)\<rparr>) (is_transferred_files s)\<rparr>) t) = (Done (), u)" "rq_fs u = rq_fs t"
      using count_acknowledged_Done by fastforce
    ultimately have "rq_fs r' = rq_fs t"
      using run False t unfolding process_file_payload_eq [OF l] f b
      by (auto simp: andthen_Done andthen_Fail andthen_modify)
    moreover have "int (length c) + int (length ?d) \<le> sint (ifi_total_size info)"
      using False size_check [OF c(2) small] by auto
    ultimately show ?thesis using t by auto
  qed
  then show ?thesis
  proof
    assume "rq_fs r' = rq_fs r"
    with c show ?thesis by (intro exI [of _ 0]) simp
  next
    assume "int (length c) + int (length ?d) \<le> sint (ifi_total_size info) \<and>
      (\<exists>wres t. ?w = (wres, t) \<and> rq_fs r' = rq_fs t)"
    then obtain wres t where t: "?w = (wres, t)" "rq_fs r' = rq_fs t"
      and "int (length c) + int (length ?d) \<le> sint (ifi_total_size info)" by auto
    moreover obtain n where "rq_fs t p = Some (FileNode (c @ take n ?d))"
      using file_write_all_prefix [OF t(1) c(1)] by auto
    ultimately show ?thesis by (intro exI [of _ n]) simp
  qed
qed

section \<open>Bytes payloads\<close>

text \<open>The state with the given buffer for a payload.\<close>

definition with_buffer :: "i64 \<Rightarrow> bytes \<Rightarrow> 'x request_scheme \<Rightarrow> 'x request_scheme" where
  "with_buffer i b = upd_st (\<lambda>s. s\<lparr>is_payload_buffers := hm_insert i b (is_payload_buffers s)\<rparr>)"

definition buffered :: "i64 \<Rightarrow> 'x request_scheme \<Rightarrow> bytes" where
  "buffered i r = (case hm_lookup (is_payload_buffers (rq_st r)) i of None \<Rightarrow> [] | Some b \<Rightarrow> b)"

lemma with_buffer_simps [simp]:
  "with_buffer i b (with_buffer i c r) = with_buffer i b r"
  "buffered i (with_buffer i b r) = b"
  by (simp_all add: with_buffer_def upd_st_def buffered_def)

definition sane_header :: "payload_header \<Rightarrow> bool" where
  "sane_header header \<longleftrightarrow> 0 \<le> sint (header_total_size header)
     \<and> sint (header_total_size header) \<le> int sane_frame_length"

lemma process_bytes_chunk:
  assumes "sane_header header"
    and "chunk_offset chunk = word_of_nat (length (buffered (header_id header) r))"
  shows "process_bytes_payload X header chunk r =
    (let b = buffered (header_id header) r @ chunk_body chunk in
     (if chunk_flags chunk AND 1 = 1 then deliver_buffer X (header_id header) b else ret ())
       (with_buffer (header_id header) b r))"
proof -
  have n: "\<not> word_of_nat sane_frame_length <s header_total_size header" "\<not> header_total_size header <s 0"
    using assms(1) by (simp_all add: sane_header_def word_sless_alt sane_frame_length_def)
  show ?thesis
    using assms(2) n
    by (cases "hm_lookup (is_payload_buffers (rq_st r)) (header_id header)")
       (auto simp: process_bytes_payload_def entry_buffer_def buffered_def with_buffer_def exec
         andthen_Done upd_st_def Let_def)
qed

fun bytes_chunks :: "nat \<Rightarrow> bytes list \<Rightarrow> payload_chunk list" where
  "bytes_chunks offset [] = []"
| "bytes_chunks offset (b # bs) =
     \<lparr>pc_flags = Some 0, pc_offset = Some (word_of_nat offset), pc_body = Some b\<rparr>
       # bytes_chunks (offset + length b) bs"

lemma bytes_chunks_buffered:
  assumes "sane_header header"
  shows "for_each (bytes_chunks (length (buffered (header_id header) r)) (b # bs))
      (process_bytes_payload X header) r
    = (Done (), with_buffer (header_id header) (buffered (header_id header) r @ concat (b # bs)) r)"
proof (induction bs arbitrary: b r)
  case Nil
  show ?case
    by (simp add: process_bytes_chunk [OF assms] chunk_offset_def chunk_flags_def chunk_body_def
        Let_def exec bind_Done)
next
  case (Cons b' bs)
  let ?r = "with_buffer (header_id header) (buffered (header_id header) r @ b) r"
  have "process_bytes_payload X header
      \<lparr>pc_flags = Some 0, pc_offset = Some (word_of_nat (length (buffered (header_id header) r))),
       pc_body = Some b\<rparr> r = (Done (), ?r)"
    by (simp add: process_bytes_chunk [OF assms] chunk_offset_def chunk_flags_def chunk_body_def
        Let_def exec)
  with Cons.IH [of ?r b'] show ?case
    by (simp add: bind_Done)
qed

text \<open>
  A payload of bytes arrives whole: its chunks, however it was cut, are put together in the
  buffer of their payload id, and the last one hands over exactly their concatenation.
\<close>

theorem bytes_payload_reassembled:
  assumes "sane_header header"
    and "hm_lookup (is_payload_buffers (rq_st r)) (header_id header) = None"
    and "chunk_offset final = word_of_nat (length (concat bodies))"
    and "chunk_flags final AND 1 = 1"
  shows "andthen (for_each (bytes_chunks 0 bodies) (process_bytes_payload X header))
      (process_bytes_payload X header final) r
    = deliver_buffer X (header_id header) (concat bodies @ chunk_body final)
        (with_buffer (header_id header) (concat bodies @ chunk_body final) r)"
proof -
  have fresh: "buffered (header_id header) r = []"
    using assms(2) by (simp add: buffered_def)
  show ?thesis
  proof (cases bodies)
    case Nil
    with fresh assms show ?thesis
      by (simp add: exec process_bytes_chunk [OF assms(1)] Let_def)
  next
    case (Cons b bs)
    let ?r = "with_buffer (header_id header) (concat bodies) r"
    have "for_each (bytes_chunks 0 bodies) (process_bytes_payload X header) r = (Done (), ?r)"
      using bytes_chunks_buffered [OF assms(1), of r b bs X] fresh Cons by simp
    with assms(3,4) show ?thesis
      by (simp add: andthen_Done process_bytes_chunk [OF assms(1)] Let_def)
  qed
qed

section \<open>Acceptance\<close>

definition opened_file :: "internal_file_info \<Rightarrow> internal_file_info" where
  "opened_file info = info\<lparr>ifi_file := Some \<lparr>fh_path = ifi_file_url info, fh_pos = 0\<rparr>\<rparr>"

definition registered_at :: "'x request_scheme \<Rightarrow> i64 set \<Rightarrow> path set" where
  "registered_at r ids = {p. \<exists>i \<in> ids. \<exists>info.
     hm_lookup (is_transferred_files (rq_st r)) i = Some info \<and> ifi_file_url info = p}"

lemma opened_file_simps [simp]:
  "ifi_file_url (opened_file info) = ifi_file_url info"
  "opened_file (opened_file info) = opened_file info"
  by (simp_all add: opened_file_def)

lemma open_destination_Done:
  assumes "open_destination X i r = (Done (), t)"
  shows "\<exists>info. hm_lookup (is_transferred_files (rq_st r)) i = Some info
    \<and> rq_fs t = (rq_fs r)(ifi_file_url info \<mapsto> FileNode [])
    \<and> (\<forall>j. hm_lookup (is_transferred_files (rq_st t)) j =
        (if j = i then Some (opened_file info) else hm_lookup (is_transferred_files (rq_st r)) j))"
  using assms
  by (auto simp: open_destination_def eq_Done get_exec file_create_def modify_exec upd_st_def
      opened_file_def split: if_splits)

lemma open_destinations_Done:
  assumes "for_each ids (open_destination X) r = (Done (), t)"
  shows "rq_fs t = (\<lambda>p. if p \<in> registered_at r (set ids) then Some (FileNode []) else rq_fs r p)
    \<and> (\<forall>i. hm_lookup (is_transferred_files (rq_st t)) i =
        (if i \<in> set ids then map_option opened_file (hm_lookup (is_transferred_files (rq_st r)) i)
         else hm_lookup (is_transferred_files (rq_st r)) i))"
  using assms
proof (induction ids arbitrary: r)
  case Nil
  then show ?case by (simp add: ret_exec registered_at_def)
next
  case (Cons i ids)
  then obtain r1 where r1: "open_destination X i r = (Done (), r1)"
      "for_each ids (open_destination X) r1 = (Done (), t)"
    by (auto simp: eq_Done)
  obtain info where info: "hm_lookup (is_transferred_files (rq_st r)) i = Some info"
      "rq_fs r1 = (rq_fs r)(ifi_file_url info \<mapsto> FileNode [])"
      "\<And>j. hm_lookup (is_transferred_files (rq_st r1)) j =
        (if j = i then Some (opened_file info) else hm_lookup (is_transferred_files (rq_st r)) j)"
    using open_destination_Done [OF r1(1)] by blast
  have reg: "registered_at r (set (i # ids)) = insert (ifi_file_url info) (registered_at r1 (set ids))"
  proof (rule set_eqI)
    fix p
    have "p \<in> registered_at r1 (set ids) \<longleftrightarrow>
        (i \<in> set ids \<and> p = ifi_file_url info) \<or> p \<in> registered_at r (set ids - {i})"
      unfolding registered_at_def using info(3) by (auto split: if_splits)
    moreover have "p \<in> registered_at r (set (i # ids)) \<longleftrightarrow>
        p = ifi_file_url info \<or> p \<in> registered_at r (set ids - {i})"
      unfolding registered_at_def using info(1) by auto
    ultimately show "p \<in> registered_at r (set (i # ids)) \<longleftrightarrow>
        p \<in> insert (ifi_file_url info) (registered_at r1 (set ids))" by auto
  qed
  have "rq_fs t = (\<lambda>p. if p \<in> registered_at r (set (i # ids)) then Some (FileNode []) else rq_fs r p)"
    using Cons.IH [OF r1(2)] unfolding reg by (auto simp: info(2) fun_eq_iff)
  moreover have "hm_lookup (is_transferred_files (rq_st t)) j =
      (if j \<in> set (i # ids) then map_option opened_file (hm_lookup (is_transferred_files (rq_st r)) j)
       else hm_lookup (is_transferred_files (rq_st r)) j)" for j
    using Cons.IH [OF r1(2)] info(1) by (auto simp: info(3))
  ultimately show ?case by blast
qed

lemma accepted_files:
  assumes "key_order_ok X" and "accept_transfer X r = (Done (), t)"
  shows "rq_fs t = (\<lambda>p. if p \<in> registered_at r UNIV then Some (FileNode []) else rq_fs r p)
    \<and> (\<forall>i. hm_lookup (is_transferred_files (rq_st t)) i
        = map_option opened_file (hm_lookup (is_transferred_files (rq_st r)) i))
    \<and> conn t = ReceivingFiles"
proof -
  let ?ids = "os_key_order X (hm_keys (is_transferred_files (rq_st r)))"
  obtain r1 r2 where r1: "for_each ?ids (open_destination X) r = (Done (), r1)"
      and r2: "send_encrypted_frame X (response_frame CsAccept) r1 = (Done (), r2)"
      and t: "rq_fs t = rq_fs r2" "is_transferred_files (rq_st t) = is_transferred_files (rq_st r2)"
        "conn t = ReceivingFiles"
    using assms(2)
    by (auto simp: accept_transfer_def bind_get eq_Done draw_def update_state_def modify_exec
        upd_st_def conn_def)
  have "within (same_rel core) (send_encrypted_frame X (response_frame CsAccept))"
    by (intro within_rules)
  from withinD [OF this r2] have c: "core r2 = core r1" by (simp add: same_rel_def)
  have sent: "rq_fs r2 = rq_fs r1" "is_transferred_files (rq_st r2) = is_transferred_files (rq_st r1)"
    using coreD(3) [OF c] coreD(8) [OF c, THEN arg_cong, of is_transferred_files] by simp_all
  have ids: "set ?ids = {i. hm_lookup (is_transferred_files (rq_st r)) i \<noteq> None}"
    using assms(1) hm.set_keys mset_eq_setD unfolding key_order_ok_def by metis
  then have "registered_at r (set ?ids) = registered_at r UNIV"
    by (auto simp: registered_at_def)
  with open_destinations_Done [OF r1] sent t ids show ?thesis by auto
qed

text \<open>
  Accepting a transfer creates, or truncates, exactly the destinations registered for the
  announced files, leaves every other path alone, opens each file at its start, and moves to
  \<open>ReceivingFiles\<close>; the order in which the hash map gives its keys does not matter.
\<close>

theorem accept_creates_files:
  assumes "key_order_ok X" and "accept_transfer X r = (Done (), t)"
  shows "rq_fs t = (\<lambda>p. if p \<in> registered_at r UNIV then Some (FileNode []) else rq_fs r p)
    \<and> (\<forall>i. hm_lookup (is_transferred_files (rq_st t)) i
        = map_option opened_file (hm_lookup (is_transferred_files (rq_st r)) i))
    \<and> conn t = ReceivingFiles"
  using assms by (rule accepted_files)

end
