(* ===== verification/Delivery.thy ===== *)
theory Delivery
  imports FileTransfer
begin

text \<open>
  End to end: what a sender puts on the socket with \<open>send_encrypted_frame\<close> is what the
  receiving side's \<open>handle\<close> passes to the protocol.
\<close>

section \<open>A frame on the secured connection\<close>

definition set_recv_buf :: "bytes \<Rightarrow> inbound \<Rightarrow> inbound" where
  "set_recv_buf d r = r\<lparr>ib_recv_buf := d\<rparr>"

text \<open>Reading a message does not depend on the reused receive buffer.\<close>

lemma open_secure_message_buf:
  "open_secure_message X m r = (Done f, t) \<Longrightarrow>
     open_secure_message X m (set_recv_buf d r) = (Done f, set_recv_buf d t)"
  by (auto simp: open_secure_message_def eq_Done get_exec modify_exec hmac_finalize_eq Let_def
      get_client_seq_inc_def upd_st_def set_recv_buf_def)

lemma handle_secured:
  assumes "receive_secure X r = (Done f, t)" and "secured (conn r)"
  shows "\<exists>d. handle X OnSocket r = process_offline_frame X f (set_recv_buf d t)"
proof -
  obtain lb r1 where lb: "stream_read_exact 4 r = (Done lb, r1)"
    and rest: "bind (read_message lb) (\<lambda>data.
      bind (ok_or DecodeError (dec_secure X data)) (open_secure_message X)) r1 = (Done f, t)"
    using assms(1) by (auto simp: receive_secure_def bind_eq_Done)
  let ?n = "unat (from_be32 lb)"
  obtain data r2 m where data: "\<not> ?n > sane_frame_length" "stream_read_exact ?n r1 = (Done data, r2)"
    and m: "dec_secure X data = Some m" "open_secure_message X m r2 = (Done f, t)"
    using rest by (auto simp: read_message_def Let_def eq_Done)
  have n: "length data = ?n" "r2 = r1\<lparr>rq_in := drop ?n (rq_in r1)\<rparr>" "?n \<le> length (rq_in r1)"
    "data = take ?n (rq_in r1)"
    using data by (auto simp: stream_read_exact_def split: if_splits)
  define b where "b = take ?n (ib_recv_buf r1) @ replicate (?n - length (ib_recv_buf r1)) 0"
  define d where "d = data @ drop ?n b"
  have "conn r1 = conn r"
    using lb by (auto simp: stream_read_exact_def conn_def split: if_splits)
  with assms(2) have sec: "is_state (rq_st r1) \<notin>
      {Initial, ReceivedConnectionRequest, SentUkeyServerInit, ReceivedUkeyClientFinish}"
    by (simp add: conn_def secured_def)
  have take: "take ?n d = data" using n by (simp add: d_def)
  have "handle X OnSocket r = handle_frame X lb r1"
    using lb by (simp add: handle_def bind_Done)
  also have "\<dots> = serve_frame X data (set_recv_buf d r2)"
    using data n take
    by (simp add: handle_frame_def Let_def exec stream_read_exact_def bind_Done b_def [symmetric]
        d_def set_recv_buf_def)
  also have "\<dots> = process_offline_frame X f (set_recv_buf d t)"
    using sec m open_secure_message_buf [OF m(2), of d] n(2)
    by (simp add: serve_frame_def exec set_recv_buf_def decrypt_and_process_secure_message_def bind_Done)
  finally show ?thesis by blast
qed

lemma receive_secure_state:
  assumes "receive_secure X r = (Done f, t)"
  shows "\<exists>u. t = opened (r\<lparr>rq_in := u\<rparr>)"
proof -
  have open_Done: "open_secure_message X m q = (Done f, t) \<Longrightarrow> t = opened q" for m q
    by (auto simp: open_secure_message_def eq_Done get_exec modify_exec hmac_finalize_eq Let_def
        get_client_seq_inc_def upd_st_def opened_def)
  show ?thesis
    using assms
    by (auto simp: receive_secure_def bind_eq_Done read_message_def Let_def andthen_eq_Done
        fail_if_eq_Done ok_or_eq_Done stream_read_exact_def split: if_splits dest!: open_Done)
qed

section \<open>A sharing frame from end to end\<close>

lemma send_encrypted_frame_parts:
  assumes "send_encrypted_frame X g s = (Done (), s')"
  defines "header \<equiv> bytes_header (os_rand_i64 X (rq_draws s)) (length (enc_sharing X g))"
  shows "for_each
    [data_transfer header \<lparr>pc_flags = Some 0, pc_offset = Some 0, pc_body = Some (enc_sharing X g)\<rparr>,
     data_transfer header \<lparr>pc_flags = Some 1, pc_offset = Some (word_of_nat (length (enc_sharing X g))),
       pc_body = Some []\<rparr>] (encrypt_and_send X) (s\<lparr>rq_draws := Suc (rq_draws s)\<rparr>) = (Done (), s')"
  using assms by (auto simp: send_encrypted_frame_def Let_def eq_Done draw_def ret_exec)

lemma process_data_transfer:
  assumes "header_type header = PtBytes"
  shows "process_offline_frame X (data_transfer header chunk) = process_bytes_payload X header chunk"
proof (rule ext)
  fix r
  have "v1_frame_type (v1_default\<lparr>v1_type := Some (enum_num frame_type_table FrPayloadTransfer),
      v1_payload_transfer := p\<rparr>) = FrPayloadTransfer" for p
    using enum_roundtrip(1) [of FrPayloadTransfer] by (simp add: v1_frame_type_def)
  then show "process_offline_frame X (data_transfer header chunk) r = process_bytes_payload X header chunk r"
    using assms
    by (simp add: process_offline_frame_def data_transfer_def offline_v1_def exec
        process_payload_transfer_def)
qed

lemma bytes_header_ok:
  "header_type (bytes_header i n) = PtBytes" "header_id (bytes_header i n) = i"
  "n \<le> sane_frame_length \<Longrightarrow> sane_header (bytes_header i n)"
proof -
  show "header_type (bytes_header i n) = PtBytes"
    using enum_roundtrip(2) [of PtBytes] by (simp add: header_type_def bytes_header_def)
  assume "n \<le> sane_frame_length"
  moreover from this have "sint (word_of_nat n :: i64) = int n"
    by (simp add: signed_of_nat signed_take_bit_int_eq_self sane_frame_length_def)
  ultimately show "sane_header (bytes_header i n)"
    by (simp add: sane_header_def header_total_size_def bytes_header_def)
qed (simp add: header_id_def bytes_header_def)

text \<open>
  The two request types take in sharing frames in the same way: \<open>step\<close> serves one frame of the
  secure channel, \<open>deliver\<close> is what a completed sharing frame is handed to, in states that are
  \<open>ready\<close> for it, and \<open>kept\<close> is what a type adds to a request and chunks leave alone.
\<close>

locale sharing_receiver =
  fixes X :: env
    and step :: "('x request_scheme, unit) io"
    and deliver :: "sharing_frame \<Rightarrow> ('x request_scheme, unit) io"
    and ready :: "'x request_scheme \<Rightarrow> bool"
    and kept :: "'x request_scheme \<Rightarrow> 'k"
  assumes serves_chunk: "\<lbrakk>receive_secure X r = (Done (data_transfer header chunk), t); ready r;
      header_type header = PtBytes; sane_header header;
      chunk_offset chunk = word_of_nat (length (buffered (header_id header) t));
      b = buffered (header_id header) t @ chunk_body chunk\<rbrakk> \<Longrightarrow>
    \<exists>u. request.truncate u = request.truncate (with_buffer (header_id header) b t)
      \<and> ready u \<and> kept u = kept r
      \<and> step r = (if chunk_flags chunk AND 1 = 1
          then bind (ok_or DecodeError (dec_sharing X b)) deliver u else (Done (), u))"

text \<open>What receiving a sharing frame leaves alone.\<close>

definition ashore :: "'x request_scheme \<Rightarrow> request" where
  "ashore r = request.truncate (r\<lparr>rq_in := [], rq_recv_hmac := None,
     rq_st := (rq_st r)\<lparr>is_client_seq := 0, is_payload_buffers := []\<rparr>\<rparr>)"

lemma truncateD:
  assumes "request.truncate t = request.truncate r"
  shows "rq_in t = rq_in r" "rq_out t = rq_out r" "rq_st t = rq_st r" "rq_draws t = rq_draws r"
    "rq_fs t = rq_fs r" "rq_chan t = rq_chan r" "rq_custom_download t = rq_custom_download r"
    "rq_encrypt_key_aes t = rq_encrypt_key_aes r" "rq_decrypt_key_aes t = rq_decrypt_key_aes r"
    "rq_send_hmac t = rq_send_hmac r" "rq_recv_hmac t = rq_recv_hmac r"
    "rq_encode_buf t = rq_encode_buf r" "rq_frame_buf t = rq_frame_buf r"
  using assms by (simp_all add: request.truncate_def)

lemma ashoreD:
  assumes "ashore t = ashore r"
  shows "rq_out t = rq_out r" "rq_draws t = rq_draws r" "rq_fs t = rq_fs r" "rq_chan t = rq_chan r"
    "rq_custom_download t = rq_custom_download r"
    "rq_encrypt_key_aes t = rq_encrypt_key_aes r" "rq_decrypt_key_aes t = rq_decrypt_key_aes r"
    "rq_send_hmac t = rq_send_hmac r"
    "(rq_st t)\<lparr>is_client_seq := 0, is_payload_buffers := []\<rparr> = (rq_st r)\<lparr>is_client_seq := 0, is_payload_buffers := []\<rparr>"
  using assms by (simp_all add: ashore_def request.truncate_def)

lemma ashore_conn: "ashore t = ashore r \<Longrightarrow> conn t = conn r"
  using ashoreD(9) [THEN arg_cong, of t r is_state] by (simp add: conn_def)

lemma linked_truncate:
  assumes "request.truncate u = request.truncate t" and "linked s t"
  shows "linked s u"
  using assms(2) by (simp add: linked_def truncateD [OF assms(1)])

lemma linked_with_buffer [simp]: "linked s (with_buffer i b t) = linked s t"
  and in_with_buffer [simp]: "rq_in (with_buffer i b t) = rq_in t"
  by (simp_all add: linked_def with_buffer_def upd_st_def)

context sharing_receiver
begin

lemma serves_sent_chunk:
  fixes s :: "'y request_scheme"
  assumes X: "channel_env X" and l: "linked s r"
    and send: "encrypt_and_send X (data_transfer header chunk) s = (Done (), s')"
      "rq_out s' = rq_out s @ ws" "list_all fits_frame ws"
    and r: "rq_in r = concat ws @ rest" "ready r"
    and h: "header_type header = PtBytes" "sane_header header" "header_id header = i"
      "chunk_offset chunk = word_of_nat (length (buffered i r))"
    and b: "b = buffered i r @ chunk_body chunk"
  shows "\<exists>u. linked s' u \<and> rq_in u = rest \<and> ashore u = ashore r \<and> ready u \<and> kept u = kept r
    \<and> is_payload_buffers (rq_st u) = hm_insert i b (is_payload_buffers (rq_st r))
    \<and> step r = (if chunk_flags chunk AND 1 = 1
        then bind (ok_or DecodeError (dec_sharing X b)) deliver u else (Done (), u))"
proof -
  obtain t where t: "receive_secure X r = (Done (data_transfer header chunk), t)"
      "rq_in t = rest" "linked s' t"
    using channel_delivers_one [OF X l send r(1)] by auto
  obtain v where v: "t = opened (r\<lparr>rq_in := v\<rparr>)"
    using receive_secure_state [OF t(1)] by blast
  have buf: "buffered i t = buffered i r" by (simp add: v buffered_def opened_def)
  obtain u where u: "request.truncate u = request.truncate (with_buffer i b t)" "ready u" "kept u = kept r"
      "step r = (if chunk_flags chunk AND 1 = 1
          then bind (ok_or DecodeError (dec_sharing X b)) deliver u else (Done (), u))"
    using serves_chunk [OF t(1) r(2) h(1,2), of b] h(3,4) b by (auto simp: buf)
  note u1 = truncateD [OF u(1)]
  have "ashore u = ashore r"
    using u1 by (simp add: ashore_def request.truncate_def v with_buffer_def upd_st_def opened_def)
  moreover have "linked s' u" "rq_in u = rest"
    using linked_truncate [OF u(1)] t(2,3) u1(1) by simp_all
  moreover have "is_payload_buffers (rq_st u) = hm_insert i b (is_payload_buffers (rq_st r))"
    using u1(3) by (simp add: with_buffer_def upd_st_def v opened_def)
  ultimately show ?thesis using u(2,3,4) by blast
qed

lemma delivers_sharing:
  fixes s s' :: "'y request_scheme"
  assumes X: "channel_env X" and l: "linked s r"
    and send: "send_encrypted_frame X g s = (Done (), s')"
    and ws: "rq_out s' = rq_out s @ ws" "list_all fits_frame ws" "rq_in r = concat ws @ rest"
    and r: "ready r" "hm_lookup (is_payload_buffers (rq_st r)) (os_rand_i64 X (rq_draws s)) = None"
    and small: "length (enc_sharing X g) \<le> sane_frame_length"
  shows "\<exists>t. andthen step step r = deliver g t \<and> rq_in t = rest \<and> linked s' t
    \<and> ashore t = ashore r \<and> ready t \<and> kept t = kept r
    \<and> (\<forall>j. j \<noteq> os_rand_i64 X (rq_draws s) \<longrightarrow>
        hm_lookup (is_payload_buffers (rq_st t)) j = hm_lookup (is_payload_buffers (rq_st r)) j)"
proof -
  let ?i = "os_rand_i64 X (rq_draws s)" and ?d = "enc_sharing X g"
  let ?h = "bytes_header ?i (length ?d)"
  let ?c1 = "\<lparr>pc_flags = Some 0, pc_offset = Some 0, pc_body = Some ?d\<rparr>"
  let ?c2 = "\<lparr>pc_flags = Some 1, pc_offset = Some (word_of_nat (length ?d)), pc_body = Some []\<rparr>"
  note h = bytes_header_ok(1) [of ?i "length ?d"] bytes_header_ok(3) [OF small, of ?i]
    bytes_header_ok(2) [of ?i "length ?d"]
  note c = chunk_offset_def chunk_flags_def chunk_body_def
  define s0 where "s0 = s\<lparr>rq_draws := Suc (rq_draws s)\<rparr>"
  obtain s1 where send1: "encrypt_and_send X (data_transfer ?h ?c1) s0 = (Done (), s1)"
      and send2: "encrypt_and_send X (data_transfer ?h ?c2) s1 = (Done (), s')"
    using send_encrypted_frame_parts [OF send] by (auto simp: s0_def eq_Done ret_exec)
  obtain ws1 ws2 where w1: "rq_out s1 = rq_out s0 @ ws1" and w2: "rq_out s' = rq_out s1 @ ws2"
    using withinD [OF encrypt_and_send_out send1] withinD [OF encrypt_and_send_out send2]
    by (auto simp: grows_def)
  then have ws12: "ws = ws1 @ ws2" "list_all fits_frame ws1" "list_all fits_frame ws2"
    using ws by (auto simp: s0_def)
  have l0: "linked s0 r" using l by (simp add: linked_def s0_def)
  have b0: "buffered ?i r = []" using r(2) by (simp add: buffered_def)
  have in0: "rq_in r = concat ws1 @ concat ws2 @ rest" using ws(3) ws12(1) by simp
  obtain u where u: "linked s1 u" "rq_in u = concat ws2 @ rest" "ashore u = ashore r" "ready u"
      "kept u = kept r" "is_payload_buffers (rq_st u) = hm_insert ?i ?d (is_payload_buffers (rq_st r))"
      "step r = (Done (), u)"
    using serves_sent_chunk [OF X l0 send1 w1 ws12(2) in0 r(1) h _ refl] by (auto simp: c b0)
  have b1: "buffered ?i u = ?d" using u(6) by (simp add: buffered_def)
  obtain t where t: "linked s' t" "rq_in t = rest" "ashore t = ashore u" "ready t"
      "kept t = kept u" "is_payload_buffers (rq_st t) = hm_insert ?i ?d (is_payload_buffers (rq_st u))"
      "step u = bind (ok_or DecodeError (dec_sharing X ?d)) deliver t"
    using serves_sent_chunk [OF X u(1) send2 w2 ws12(3) u(2,4) h _ refl] by (auto simp: c b1)
  have "dec_sharing X ?d = Some g"
    using X by (simp add: channel_env_def codec_okD(10))
  then have "andthen step step r = deliver g t"
    using u(7) t(7) by (simp add: exec)
  with t(1-6) u(3,5,6) show ?thesis by auto
qed

end

text \<open>A receiving request in a secured state, which does not wait for a text.\<close>

definition takes_frames :: "inbound \<Rightarrow> bool" where
  "takes_frames r \<longleftrightarrow> secured (conn r) \<and> is_text_payload (rq_st r) = None"

interpretation sharing_in: sharing_receiver X "handle X OnSocket" "process_transfer_setup X"
  takes_frames "\<lambda>_. ()" for X
proof
  fix r t :: inbound and header chunk b
  assume r: "receive_secure X r = (Done (data_transfer header chunk), t)" "takes_frames r"
    and h: "header_type header = PtBytes" "sane_header header"
      "chunk_offset chunk = word_of_nat (length (buffered (header_id header) t))"
      "b = buffered (header_id header) t @ chunk_body chunk"
  obtain v where v: "t = opened (r\<lparr>rq_in := v\<rparr>)"
    using receive_secure_state [OF r(1)] by blast
  obtain d where d: "handle X OnSocket r = process_offline_frame X (data_transfer header chunk) (set_recv_buf d t)"
    using handle_secured [OF r(1)] r(2) by (auto simp: takes_frames_def)
  let ?u = "with_buffer (header_id header) b (set_recv_buf d t)"
  have buf: "buffered (header_id header) (set_recv_buf d t) = buffered (header_id header) t"
    by (simp add: buffered_def set_recv_buf_def)
  have "handle X OnSocket r = (if chunk_flags chunk AND 1 = 1
      then deliver_buffer X (header_id header) b ?u else (Done (), ?u))"
    using h by (simp add: d process_data_transfer process_bytes_chunk buf Let_def exec)
  moreover have "is_text_payload (rq_st ?u) = None"
    using r(2) by (simp add: takes_frames_def v opened_def with_buffer_def upd_st_def set_recv_buf_def)
  moreover have "takes_frames ?u"
    using r(2)
    by (simp add: takes_frames_def conn_def v opened_def with_buffer_def upd_st_def set_recv_buf_def)
  moreover have "request.truncate ?u = request.truncate (with_buffer (header_id header) b t)"
    by (simp add: request.truncate_def with_buffer_def upd_st_def set_recv_buf_def)
  ultimately show "\<exists>u. request.truncate u = request.truncate (with_buffer (header_id header) b t)
      \<and> takes_frames u \<and> () = ()
      \<and> handle X OnSocket r = (if chunk_flags chunk AND 1 = 1
          then bind (ok_or DecodeError (dec_sharing X b)) (process_transfer_setup X) u else (Done (), u))"
    by (intro exI [of _ ?u]) (simp add: deliver_buffer_def exec)
qed

text \<open>
  From end to end: when one side sends a sharing frame with \<open>send_encrypted_frame\<close> and
  the bytes written reach the receiving side in a secured state, with the counterpart keys and
  number and no buffer in use for the payload's id, then two calls of \<open>handle\<close> take in
  exactly these bytes and hand exactly this frame to \<open>process_transfer_setup\<close>, in a state
  in which the two sides are in step again.
\<close>

theorem sharing_frame_delivered:
  fixes s s' :: "'x request_scheme" and r :: inbound
  assumes X: "channel_env X" and l: "linked s r"
    and send: "send_encrypted_frame X g s = (Done (), s')"
    and ws: "rq_out s' = rq_out s @ ws" "list_all fits_frame ws" "rq_in r = concat ws @ rest"
    and r: "secured (conn r)" "is_text_payload (rq_st r) = None"
      "hm_lookup (is_payload_buffers (rq_st r)) (os_rand_i64 X (rq_draws s)) = None"
    and small: "length (enc_sharing X g) \<le> sane_frame_length"
  shows "\<exists>t. andthen (handle X OnSocket) (handle X OnSocket) r = process_transfer_setup X g t
    \<and> rq_in t = rest \<and> conn t = conn r \<and> linked s' t"
  using sharing_in.delivers_sharing [OF X l send ws _ r(3) small] r(1,2) ashore_conn
  by (auto simp: takes_frames_def)

section \<open>A text while the user is asked\<close>

text \<open>The rest of a completed text: it is stored, the front end is told, the connection is ended.\<close>

lemma finish_text_runs:
  assumes "text_of_buffer buffer = Some payload"
  shows "\<exists>res t. finish_text X info buffer r = (res, t) \<and> res \<noteq> Done () \<and> conn t = Finished
    \<and> is_transfer_metadata (rq_st t) = is_transfer_metadata (store_text info payload (rq_st r))
    \<and> is_id (rq_st t) = is_id (rq_st r)
    \<and> rq_chan t = rq_chan r
        @ [state_message Inbound ((store_text info payload (rq_st r))\<lparr>is_state := Finished\<rparr>)]"
proof -
  define r1 where "r1 = upd_st (\<lambda>e. (store_text info payload e)\<lparr>is_state := Finished\<rparr>) r"
  define r2 where "r2 = r1\<lparr>rq_chan := rq_chan r1 @ [state_message Inbound (rq_st r1)]\<rparr>"
  obtain res t where t: "andthen (disconnection X) (fail NotAnError) r2 = (res :: unit outcome, t)"
    by fastforce
  have "within (same_rel core) (andthen (disconnection X) (fail NotAnError))"
    by (intro within_rules)
  from withinD [OF this t] have c: "core t = core r2" by (simp add: same_rel_def)
  have "conn t = conn r2" "is_transfer_metadata (rq_st t) = is_transfer_metadata (rq_st r2)"
      "is_id (rq_st t) = is_id (rq_st r2)" "rq_chan t = rq_chan r2"
    using core_conn [OF c] coreD(2) [OF c] coreD(8) [OF c, THEN arg_cong, of is_transfer_metadata]
      coreD(8) [OF c, THEN arg_cong, of is_id] by simp_all
  moreover have "finish_text X info buffer r = (res, t)"
    using assms t
    by (simp add: finish_text_def finish_def set_state_def update_state_def exec andthen_Done
        r1_def r2_def upd_st_def)
  moreover have "res \<noteq> Done ()" using t by (auto simp: andthen_eq_Done fail_exec)
  ultimately show ?thesis
    by (intro exI [of _ res] exI [of _ t]) (simp add: r2_def r1_def conn_def upd_st_def store_text_def)
qed

text \<open>What the front end is shown of a text of each kind.\<close>

fun shown_text :: "text_payload_info \<Rightarrow> string \<Rightarrow> string \<times> text_payload_type" where
  "shown_text (TpUrl i) payload = (payload, TptUrl)"
| "shown_text (TpText i) payload = (payload, TptText)"
| "shown_text (TpWifi i ssid) payload = (ssid @ '': '' @ trim payload, TptWifi)"

text \<open>
  C36. A text needs no consent: in every state after the key exchange, also while the connection
  waits for the user's answer, the frame with the last chunk of the announced url, text or wifi
  password makes \<open>handle\<close> finish the transfer. The text is in the metadata, and the one
  message the front end gets reports Finished and carries it.
\<close>

theorem text_needs_no_consent:
  assumes "receive_secure X r = (Done (data_transfer header chunk), u)" and "secured (conn r)"
    and "is_text_payload (rq_st r) = Some info" and "is_transfer_metadata (rq_st r) = Some tm"
    and "header_type header = PtBytes" and "header_id header = get_i64_value info"
    and "sane_header header" and "chunk_flags chunk AND 1 = 1"
    and "chunk_offset chunk = word_of_nat (length (buffered (header_id header) r))"
    and "text_of_buffer (buffered (header_id header) r @ chunk_body chunk) = Some payload"
  shows "\<exists>res t tm' m. handle X OnSocket r = (res, t) \<and> res \<noteq> Done () \<and> conn t = Finished
    \<and> is_transfer_metadata (rq_st t) = Some tm'
    \<and> tm_text_payload tm' = Some (fst (shown_text info payload))
    \<and> tm_text_type tm' = Some (snd (shown_text info payload))
    \<and> rq_chan t = rq_chan r @ [m] \<and> cm_id m = is_id (rq_st r) \<and> cm_direction m = LibToFront
    \<and> cm_state m = Some Finished \<and> cm_meta m = Some tm'"
proof -
  obtain v where v: "u = opened (r\<lparr>rq_in := v\<rparr>)"
    using receive_secure_state [OF assms(1)] by blast
  obtain d where d: "handle X OnSocket r = process_offline_frame X (data_transfer header chunk) (set_recv_buf d u)"
    using handle_secured [OF assms(1,2)] by blast
  let ?b = "buffered (header_id header) r @ chunk_body chunk"
  let ?w = "with_buffer (header_id header) ?b (set_recv_buf d u)"
  have st: "buffered (header_id header) (set_recv_buf d u) = buffered (header_id header) r"
      "is_text_payload (rq_st ?w) = Some info" "is_transfer_metadata (rq_st ?w) = Some tm"
      "is_id (rq_st ?w) = is_id (rq_st r)" "rq_chan ?w = rq_chan r"
    using assms(3,4) by (simp_all add: v opened_def set_recv_buf_def buffered_def with_buffer_def upd_st_def)
  have "handle X OnSocket r = finish_text X info ?b ?w"
    using assms(6,8,9) st(1,2)
    by (simp add: d process_data_transfer [OF assms(5)] process_bytes_chunk [OF assms(7)] Let_def
        deliver_buffer_def bind_get)
  moreover obtain res t where "finish_text X info ?b ?w = (res, t)" "res \<noteq> Done ()" "conn t = Finished"
      "is_transfer_metadata (rq_st t) = is_transfer_metadata (store_text info payload (rq_st ?w))"
      "is_id (rq_st t) = is_id (rq_st ?w)"
      "rq_chan t = rq_chan ?w @ [state_message Inbound ((store_text info payload (rq_st ?w))\<lparr>is_state := Finished\<rparr>)]"
    using finish_text_runs [OF assms(10)] by blast
  ultimately show ?thesis
    using st(3-5) by (intro exI [of _ res] exI [of _ t])
      (cases info; simp add: store_text_def state_message_def cm_default_def)
qed

end
