(* ===== verification/InboundSafety.thy ===== *)
theory InboundSafety
  imports FileTransfer
begin

text \<open>
  Safety of the receiving side: a secured state has its keys; what an announcement of files
  registers; and the inputs on which the code panics or skips the user's consent.
\<close>

section \<open>Keys before the secured states\<close>

definition keyed :: "'x request_scheme \<Rightarrow> bool" where
  "keyed r \<longleftrightarrow> rq_encrypt_key_aes r \<noteq> None \<and> rq_decrypt_key_aes r \<noteq> None
     \<and> rq_send_hmac r \<noteq> None \<and> rq_recv_hmac r \<noteq> None"

definition key_inv :: "'x request_scheme \<Rightarrow> bool" where
  "key_inv r \<longleftrightarrow> (rq_encrypt_key_aes r \<noteq> None \<longrightarrow> keyed r)
     \<and> (secured (conn r) \<or> conn r = ReceivedUkeyClientFinish \<longrightarrow> keyed r)"

text \<open>Once the keys are there they stay, and only the end of the key exchange brings them.\<close>

definition keys_rel :: "'x request_scheme \<Rightarrow> 'x request_scheme \<Rightarrow> bool" where
  "keys_rel r t \<longleftrightarrow> (keyed r \<longrightarrow> keyed t)
     \<and> (rq_encrypt_key_aes r = None \<longrightarrow> rq_encrypt_key_aes t = None)"

interpretation keys: step_rel keys_rel
  by unfold_locales (auto simp: keys_rel_def)

lemma keys_modify [within_rules]:
  "(\<And>r. keys_rel r (f r)) \<Longrightarrow> within keys_rel (modify f)"
  by (simp add: within_def exec)

lemma keys_basic [within_rules]:
  "within keys_rel (write_all X d)" "within keys_rel draw" "within keys_rel (stream_read_exact n)"
  "within keys_rel (update_state role f inform)"
  by (auto simp: within_def keys_rel_def keyed_def write_all_def draw_def stream_read_exact_def
      update_state_def exec upd_st_def split: option.split)

lemma keys_senders [within_rules]:
  "within keys_rel (send_frame X d)" "within keys_rel (encrypt_and_send X f)"
  "within keys_rel (send_encrypted_frame X g)" "within keys_rel (send_by_encryption X f)"
  "within keys_rel (disconnection X)" "within keys_rel (send_keepalive X ack)"
  "within keys_rel (send_ukey2_alert X a)" "within keys_rel (alert_and_fail X a e)"
  "within keys_rel (set_state role s inform)" "within keys_rel (finish X role s)"
proof -
  show 1: "within keys_rel (send_frame X d)" for X d
    unfolding send_frame_def Let_def by (intro within_rules)
  show 2: "within keys_rel (encrypt_and_send X f)" for X f
    unfolding encrypt_and_send_def Let_def case_prod_beta
    by (intro within_rules 1; simp add: keys_rel_def keyed_def upd_st_def)
  show 3: "within keys_rel (send_by_encryption X f)" for X f
    unfolding send_by_encryption_def by (intro within_rules 1 2)
  show 4: "within keys_rel (disconnection X)" for X
    unfolding disconnection_def by (intro 3)
  show 5: "within keys_rel (set_state role s inform)" for role s inform
    unfolding set_state_def by (intro within_rules)
  show "within keys_rel (send_encrypted_frame X g)" "within keys_rel (send_keepalive X ack)"
    "within keys_rel (send_ukey2_alert X a)" "within keys_rel (alert_and_fail X a e)"
    "within keys_rel (finish X role s)"
    unfolding send_encrypted_frame_def send_keepalive_def send_ukey2_alert_def alert_and_fail_def
      finish_def Let_def
    by (intro within_rules 1 2 3 4 5)+
qed

lemma keys_open [within_rules]: "within keys_rel (open_secure_message X m)"
  unfolding open_secure_message_def get_client_seq_inc_def Let_def case_prod_beta
  by (intro within_rules; simp add: keys_rel_def keyed_def upd_st_def)

lemma keys_parts [within_rules]:
  "within keys_rel (offer_text p d)"
  "within keys_rel (reject_transfer X reason)"
  "within keys_rel (entry_buffer i sz)"
  "within keys_rel (remove_buffer i)"
  "within keys_rel (count_acknowledged n)"
  "within keys_rel (process_paired_key_encryption_frame X v)"
  "within keys_rel (process_paired_key_result v)"
  "within keys_rel (process_connection_response X f)"
  "within keys_rel (drop_partial_length k)"
  "within keys_rel (complete_file X i)"
  "within keys_rel (process_ukey2_client_init X um)"
  unfolding offer_text_def reject_transfer_def entry_buffer_def remove_buffer_def
    count_acknowledged_def process_paired_key_encryption_frame_def process_paired_key_result_def
    process_connection_response_def drop_partial_length_def complete_file_def
    process_ukey2_client_init_def Let_def case_prod_beta
  by (intro within_rules; simp add: keys_rel_def keyed_def upd_st_def)+

lemma keys_files [within_rules]:
  "within keys_rel (file_write_all X i info h d)" "within keys_rel (file_create X p)"
  by (auto simp: within_def keys_rel_def keyed_def file_write_all_def file_create_def put_handle_def
      put_bytes_def upd_st_def split: option.split)

lemma keys_introduce [within_rules]: "within keys_rel (introduce_files X files names sz)"
proof (induction files arbitrary: names sz)
  case Nil
  show ?case by (simp add: within_rules)
next
  case (Cons f fs)
  show ?case unfolding introduce_files.simps Let_def
    by (intro within_rules Cons.IH; simp add: keys_rel_def keyed_def upd_st_def)
qed

lemma keys_transfer_setup [within_rules]: "within keys_rel (process_transfer_setup X f)"
  unfolding process_transfer_setup_def process_introduction_def case_prod_beta
  by (intro within_rules)

lemma keys_offline_frame [within_rules]: "within keys_rel (process_offline_frame X f)"
  unfolding process_offline_frame_def process_payload_transfer_def process_bytes_payload_def
    process_file_payload_def deliver_buffer_def finish_text_def Let_def
  by (intro within_rules; simp add: keys_rel_def keyed_def upd_st_def)

lemma keys_accept [within_rules]: "within keys_rel (accept_transfer X)"
  unfolding accept_transfer_def open_destination_def
  by (intro within_rules; simp add: keys_rel_def keyed_def upd_st_def)

lemma keys_action [within_rules]: "within keys_rel (handle_action X a)"
  unfolding handle_action_def by (cases a; simp; (cases "the a"; simp)?; intro within_rules)

lemma finalize_keyed:
  "server_finalize_key_exchange X k r = (Done (), t) \<Longrightarrow> keyed t"
  by (auto simp: server_finalize_key_exchange_def eq_Done modify_exec update_state_def keyed_def
      upd_st_def ret_exec aes_key_of_eq_Done new_hmac_eq_Done)

lemma client_finish_keyed:
  "process_ukey2_client_finish X m d r = (Done (), t) \<Longrightarrow> keyed t"
  by (auto simp: process_ukey2_client_finish_def eq_Done get_exec fail_exec alert_and_fail_def
      split: if_splits option.splits dest: finalize_keyed)

lemma send_without_key:
  "rq_encrypt_key_aes r = None \<Longrightarrow> fst (encrypt_and_send X f r) = Panic ''encrypt_key_aes''"
  by (simp add: encrypt_and_send_def exec upd_st_def draw_def Let_def bind_Done)

lemma send_needs_key:
  assumes "encrypt_and_send X f r = (Done (), t)"
  shows "rq_encrypt_key_aes t \<noteq> None"
proof -
  have "core t = core r"
    using withinD [OF encrypt_and_send_core assms] by (simp add: same_rel_def)
  then have "rq_encrypt_key_aes t = rq_encrypt_key_aes r" by (rule coreD)
  with send_without_key [of r X f] assms show ?thesis by auto
qed

lemma accept_needs_key: "accept_transfer X r = (Done (), t) \<Longrightarrow> rq_encrypt_key_aes t \<noteq> None"
  by (auto simp: accept_transfer_def send_encrypted_frame_def Let_def eq_Done get_exec draw_def
      update_state_def modify_exec ret_exec upd_st_def dest!: send_needs_key)

lemma key_inv_quiet:
  assumes "key_inv r" and "keys_rel r t"
    and "secured (conn t) \<or> conn t = ReceivedUkeyClientFinish \<Longrightarrow>
      secured (conn r) \<or> conn r = ReceivedUkeyClientFinish \<or> rq_encrypt_key_aes t \<noteq> None"
  shows "key_inv t"
  using assms unfolding key_inv_def keys_rel_def keyed_def by metis

lemma serve_frame_key_inv:
  assumes inv: "key_inv r" and run: "serve_frame X d r = (Done (), t)"
  shows "key_inv t"
proof -
  have move: "conn t = conn r \<or> frame_move (conn r) (conn t)"
    using withinD [OF serve_frame_move run] by (simp add: may_move_def)
  show ?thesis
  proof (cases "conn r = SentUkeyServerInit")
    case True
    with run have "keyed t"
      by (auto simp: serve_frame_def conn_def bind_get eq_Done set_state_def update_state_def
          modify_exec ret_exec upd_st_def keyed_def dest!: client_finish_keyed)
    then show ?thesis by (simp add: key_inv_def)
  next
    case False
    have "keys_rel r (snd (serve_frame X d r))"
      unfolding serve_frame_def conn_def [symmetric] bind_get
        decrypt_and_process_secure_message_def
      by (simp add: False) (intro conjI impI within_at [of keys_rel]; intro within_rules)
    then have "keys_rel r t" by (simp add: run)
    then show ?thesis
      using inv move False
      by (intro key_inv_quiet [OF inv]) (auto elim!: frame_moveE simp: secured_def)
  qed
qed

lemma key_inv_io [simp]:
  "key_inv (r\<lparr>rq_in := i\<rparr>) = key_inv r" "key_inv (s\<lparr>ib_recv_buf := b\<rparr>) = key_inv s"
  by (simp_all add: key_inv_def keyed_def conn_def)

lemma read_key_inv: "stream_read_exact n r = (res, t) \<Longrightarrow> key_inv t = key_inv r"
  by (auto simp: stream_read_exact_def split: if_splits)

lemma handle_frame_key_inv:
  assumes "key_inv r" and "handle_frame X lb r = (Done (), t)"
  shows "key_inv t"
  using assms
  by (auto simp: handle_frame_def Let_def eq_Done modify_exec get_exec
      dest!: read_key_inv intro: serve_frame_key_inv [rotated])

lemma handle_action_key_inv:
  assumes inv: "key_inv r" and run: "handle_action X a r = (Done (), t)"
  shows "key_inv t"
proof (cases "a = Some AcceptTransfer")
  case True
  with run have acc: "accept_transfer X r = (Done (), t)" by (simp add: handle_action_def)
  have "rq_encrypt_key_aes t \<noteq> None" using accept_needs_key [OF acc] .
  moreover have "keys_rel r t" using withinD [OF keys_accept acc] .
  ultimately show ?thesis using inv by (intro key_inv_quiet [OF inv]) auto
next
  case False
  with run have "t = r"
    by (auto simp: handle_action_def finish_def andthen_eq_Done fail_exec ret_exec
        split: option.splits channel_action.splits)
  with inv show ?thesis by simp
qed

lemma handle_key_inv:
  assumes "key_inv r" and "handle X ev r = (Done (), t)"
  shows "key_inv t"
  using assms
  by (auto simp: handle_def bind_eq_Done andthen_eq_Done drop_partial_length_def modify_exec
      get_exec ret_exec dest!: read_key_inv split: event.splits recv_result.splits if_splits
      intro: handle_frame_key_inv [rotated] handle_action_key_inv [rotated])

text \<open>
  No secured state without keys: after any run of events that all succeeded, a connection
  in a secured state has both AES keys and both HMAC objects, so no frame that it serves finds a
  key missing. (\<open>encryption_done\<close> is set from the start and says nothing about it.)
\<close>

theorem keys_before_secured:
  assumes "for_each evs (handle X) (new_inbound i fs custom_download socket) = (Done (), r)"
    and "secured (conn r)"
  shows "rq_encrypt_key_aes r \<noteq> None \<and> rq_decrypt_key_aes r \<noteq> None
    \<and> rq_send_hmac r \<noteq> None \<and> rq_recv_hmac r \<noteq> None"
proof -
  have "key_inv r" if "for_each evs (handle X) q = (Done (), r)" "key_inv q" for evs q
    using that by (induction evs arbitrary: q) (auto simp: ret_exec eq_Done dest: handle_key_inv)
  moreover have "key_inv (new_inbound i fs custom_download socket)"
    by (simp add: key_inv_def keyed_def conn_def new_inbound_def is_default_def secured_def)
  ultimately show ?thesis
    using assms by (auto simp: key_inv_def keyed_def)
qed

section \<open>The announcement of files\<close>

definition destination_of :: "env \<Rightarrow> 'x request_scheme \<Rightarrow> file_metadata \<Rightarrow> path option" where
  "destination_of X r file = pick_dest (path_exists (rq_fs r)) (get_download_dir X (rq_custom_download r))
     (file_name_of file)"

definition announced :: "env \<Rightarrow> 'x request_scheme \<Rightarrow> file_metadata \<Rightarrow> internal_file_info" where
  "announced X r file = \<lparr>ifi_payload_id = file_payload_id file,
     ifi_file_url = the (destination_of X r file), ifi_bytes_transferred = 0,
     ifi_total_size = file_size file, ifi_file = None\<rparr>"

definition register ::
  "env \<Rightarrow> 'x request_scheme \<Rightarrow> file_metadata list \<Rightarrow> (i64, internal_file_info) hashmap
     \<Rightarrow> (i64, internal_file_info) hashmap" where
  "register X r files m = foldl (\<lambda>m f. hm_insert (file_payload_id f) (announced X r f) m) m files"

lemma destination_of_upd_st [simp]: "destination_of X (upd_st f r) file = destination_of X r file"
  and announced_upd_st [simp]: "announced X (upd_st f r) file = announced X r file"
  by (simp_all add: destination_of_def announced_def upd_st_def)

lemma register_upd_st [simp]: "register X (upd_st f r) = register X r"
  by (simp add: register_def fun_eq_iff)

lemma introduce_files_Done:
  assumes "\<forall>f \<in> set files. destination_of X r f \<noteq> None"
  shows "introduce_files X files names n r =
    (Done (names @ map file_name_of files, n + sum_list (map file_size files)),
     upd_st (\<lambda>s. s\<lparr>is_transferred_files := register X r files (is_transferred_files s)\<rparr>) r)"
  using assms
proof (induction files arbitrary: names n r)
  case Nil
  then show ?case by (simp add: ret_exec register_def upd_st_def)
next
  case (Cons f fs)
  let ?info = "announced X r f"
  let ?r = "upd_st (\<lambda>s. s\<lparr>is_transferred_files :=
    hm_insert (file_payload_id f) ?info (is_transferred_files s)\<rparr>) r"
  obtain dest where d: "destination_of X r f = Some dest" using Cons.prems by auto
  have "introduce_files X (f # fs) names n r
      = introduce_files X fs (names @ [file_name_of f]) (n + file_size f) ?r"
    using d by (simp add: exec Let_def announced_def destination_of_def)
  also have "\<dots> = (Done (names @ map file_name_of (f # fs), n + sum_list (map file_size (f # fs))),
      upd_st (\<lambda>s. s\<lparr>is_transferred_files := register X r fs (is_transferred_files s)\<rparr>) ?r)"
    using Cons.IH [of ?r] Cons.prems by (simp add: add.assoc)
  also have "upd_st (\<lambda>s. s\<lparr>is_transferred_files := register X r fs (is_transferred_files s)\<rparr>) ?r
      = upd_st (\<lambda>s. s\<lparr>is_transferred_files := register X r (f # fs) (is_transferred_files s)\<rparr>) r"
    by (simp add: upd_st_def register_def)
  finally show ?case .
qed

lemma metadata_printable:
  assumes "utf8_valid (as_bytes (get_download_dir X (rq_custom_download r)))"
  shows "file_transfer_metadata X r names n = Some (tm_default\<lparr>tm_id := is_id (rq_st r),
    tm_destination := Some (get_download_dir X (rq_custom_download r)),
    tm_source := is_remote_device_info (rq_st r), tm_files := Some names,
    tm_pin_code := is_pin_code (rq_st r), tm_total_bytes := n\<rparr>)"
  using assms by (simp add: file_transfer_metadata_def path_into_string_eq)

lemma introduction_runs:
  assumes "sv_introduction v = Some intro" and "in_files intro \<noteq> []" and "in_texts intro = []"
    and "\<forall>f \<in> set (in_files intro). destination_of X r f \<noteq> None"
    and "utf8_valid (as_bytes (get_download_dir X (rq_custom_download r)))"
  shows "\<exists>t. process_introduction X v r = (Done (), t)
    \<and> conn t = WaitingForUserConsent
    \<and> is_transferred_files (rq_st t) = register X r (in_files intro) (is_transferred_files (rq_st r))
    \<and> is_transfer_metadata (rq_st t) = file_transfer_metadata X r
        (map file_name_of (in_files intro)) (sum_list (map file_size (in_files intro)))
    \<and> rq_chan t = rq_chan r @ [state_message Inbound (rq_st t)]
    \<and> rq_fs t = rq_fs r \<and> rq_out t = rq_out r"
proof -
  let ?r = "upd_st (\<lambda>e. e\<lparr>is_state := WaitingForUserConsent\<rparr>) r"
  have "set_state Inbound WaitingForUserConsent False r = (Done (), ?r)"
    by (simp add: set_state_def update_state_def exec)
  moreover note introduce_files_Done [of "in_files intro" X ?r "[]" 0]
  ultimately show ?thesis
    using assms
    by (simp add: process_introduction_def exec andthen_Done bind_Done update_state_def conn_def
        file_transfer_metadata_def path_into_string_eq) (simp add: upd_st_def)
qed

text \<open>
  A download directory that is not UTF-8: the announcement is an error after the files are registered
  and the state has changed, and the front end is told nothing.
\<close>

lemma introduction_unprintable:
  assumes "sv_introduction v = Some intro" and "in_files intro \<noteq> []" and "in_texts intro = []"
    and "\<forall>f \<in> set (in_files intro). destination_of X r f \<noteq> None"
    and "\<not> utf8_valid (as_bytes (get_download_dir X (rq_custom_download r)))"
  shows "\<exists>t. process_introduction X v r = (Fail (Error ''failed to convert PathBuf to String''), t)
    \<and> conn t = WaitingForUserConsent
    \<and> is_transferred_files (rq_st t) = register X r (in_files intro) (is_transferred_files (rq_st r))
    \<and> rq_chan t = rq_chan r \<and> rq_fs t = rq_fs r \<and> rq_out t = rq_out r"
proof -
  let ?r = "upd_st (\<lambda>e. e\<lparr>is_state := WaitingForUserConsent\<rparr>) r"
  have "set_state Inbound WaitingForUserConsent False r = (Done (), ?r)"
    by (simp add: set_state_def update_state_def exec)
  moreover note introduce_files_Done [of "in_files intro" X ?r "[]" 0]
  ultimately show ?thesis
    using assms
    by (simp add: process_introduction_def exec andthen_Done bind_Done conn_def
        file_transfer_metadata_def path_into_string_eq) (simp add: upd_st_def)
qed

lemma introduction_printable:
  assumes "sv_introduction v = Some intro" and "in_files intro \<noteq> []" and "in_texts intro = []"
    and "\<forall>f \<in> set (in_files intro). destination_of X r f \<noteq> None"
    and "process_introduction X v r = (Done (), t)"
  shows "utf8_valid (as_bytes (get_download_dir X (rq_custom_download r)))"
  using introduction_unprintable [OF assms(1-4)] assms(5) by auto

text \<open>
  What an announcement of files does: if a destination is found for each file and the download
  directory converts to a string, the
  connection waits for the user, each file is registered under its payload id with nothing
  received and no open file, the front end is told the names and the sum of the sizes once, and
  no file is created.
\<close>

theorem introduction_registers:
  assumes "sv_introduction v = Some intro" and "in_files intro \<noteq> []" and "in_texts intro = []"
    and "\<forall>f \<in> set (in_files intro). destination_of X r f \<noteq> None"
    and "utf8_valid (as_bytes (get_download_dir X (rq_custom_download r)))"
  shows "\<exists>t. process_introduction X v r = (Done (), t)
    \<and> conn t = WaitingForUserConsent
    \<and> is_transferred_files (rq_st t) = register X r (in_files intro) (is_transferred_files (rq_st r))
    \<and> is_transfer_metadata (rq_st t) = file_transfer_metadata X r
        (map file_name_of (in_files intro)) (sum_list (map file_size (in_files intro)))
    \<and> rq_chan t = rq_chan r @ [state_message Inbound (rq_st t)]
    \<and> rq_fs t = rq_fs r \<and> rq_out t = rq_out r"
  using assms by (rule introduction_runs)

lemma register_last:
  "hm_lookup (register X r (files @ [f]) m) (file_payload_id f) = Some (announced X r f)"
  by (simp add: register_def)

text \<open>
  Two announced files with the same name get the same destination, whatever their payload
  ids: existence is looked up on disk, and no file is created before the user agrees.
\<close>

theorem same_name_same_destination:
  assumes "sv_introduction v = Some intro" and "in_files intro = [f, g]" and "in_texts intro = []"
    and "file_name_of f = file_name_of g" and "file_payload_id f \<noteq> file_payload_id g"
    and "process_introduction X v r = (Done (), t)"
  shows "\<exists>a b. hm_lookup (is_transferred_files (rq_st t)) (file_payload_id f) = Some a
    \<and> hm_lookup (is_transferred_files (rq_st t)) (file_payload_id g) = Some b
    \<and> ifi_file_url a = ifi_file_url b"
proof -
  let ?r = "upd_st (\<lambda>e. e\<lparr>is_state := WaitingForUserConsent\<rparr>) r"
  have s: "set_state Inbound WaitingForUserConsent False r = (Done (), ?r)"
    by (simp add: set_state_def update_state_def exec)
  have eq: "destination_of X r f = destination_of X r g"
    using assms(4) by (simp add: destination_of_def)
  have "destination_of X r f \<noteq> None"
  proof
    assume "destination_of X r f = None"
    then have "introduce_files X [f, g] [] 0 ?r = (NoFuel, ?r)"
      by (simp add: exec destination_of_def upd_st_def)
    with assms s show False
      by (simp add: process_introduction_def exec andthen_Done bind_NoFuel)
  qed
  with eq have i: "introduce_files X [f, g] [] 0 ?r =
      (Done ([file_name_of f, file_name_of g], file_size f + file_size g),
       upd_st (\<lambda>s. s\<lparr>is_transferred_files := register X r [f, g] (is_transferred_files s)\<rparr>) ?r)"
    using introduce_files_Done [of "[f, g]" X ?r "[]" 0] by simp
  from eq have url: "ifi_file_url (announced X r f) = ifi_file_url (announced X r g)"
    by (simp add: announced_def)
  have "utf8_valid (as_bytes (get_download_dir X (rq_custom_download r)))"
    using introduction_printable [OF assms(1) _ assms(3) _ assms(6)] assms(2) eq i s
      \<open>destination_of X r f \<noteq> None\<close> by simp
  with i s assms url show ?thesis
    by (auto simp: process_introduction_def exec andthen_Done bind_Done update_state_def
        file_transfer_metadata_def path_into_string_eq register_def upd_st_def)
qed

section \<open>Where the code panics or goes on without asking\<close>

text \<open>
  A chunk for an announced file that the user has not accepted panics the receiver: its
  file is still None, and the code unwraps it. The offset and size checks come first and pass.
\<close>

theorem chunk_before_consent_panics:
  assumes "hm_lookup (is_transferred_files (rq_st r)) (header_id header) = Some info"
    and "ifi_file info = None" and "chunk_body chunk \<noteq> []"
    and "chunk_offset chunk = ifi_bytes_transferred info"
    and "\<not> ifi_total_size info <s ifi_bytes_transferred info + word_of_nat (length (chunk_body chunk))"
  shows "process_file_payload X header chunk r = (Panic ''file.as_mut()'', r)"
  using assms by (simp add: process_file_payload_eq)

text \<open>
  A bytes payload that claims a negative size passes the size limit and panics when its
  buffer is allocated.
\<close>

theorem negative_size_panics:
  assumes "header_total_size header <s 0"
    and "hm_lookup (is_payload_buffers (rq_st r)) (header_id header) = None"
  shows "process_bytes_payload X header chunk r = (Panic ''capacity overflow'', r)"
proof -
  have "\<not> word_of_nat sane_frame_length <s header_total_size header"
    using assms(1) by (simp add: word_sless_alt sane_frame_length_def)
  with assms show ?thesis
    by (simp add: process_bytes_payload_def entry_buffer_def exec Let_def andthen_Panic)
qed

text \<open>
  The last-chunk flag ends a file without a look at its size: with one file left, an empty
  last chunk at the current offset finishes the whole transfer, however little was received.
\<close>

theorem last_chunk_finishes:
  assumes "is_transferred_files (rq_st r) = [(header_id header, info)]"
    and "chunk_body chunk = []" and "chunk_flags chunk = 1"
    and "chunk_offset chunk = ifi_bytes_transferred info"
    and "0 \<le> sint (ifi_bytes_transferred info)"
    and "sint (ifi_bytes_transferred info) \<le> sint (ifi_total_size info)"
  shows "conn (snd (process_file_payload X header chunk r)) = Finished"
proof -
  define r1 where "r1 = upd_st (\<lambda>s. s\<lparr>is_transferred_files := []\<rparr>) r"
  have l: "hm_lookup (is_transferred_files (rq_st r)) (header_id header) = Some info"
    using assms(1) by (simp add: hm_lookup_def)
  have "\<not> ifi_total_size info <s ifi_bytes_transferred info"
    using assms(6) by (simp add: word_sless_alt)
  then have "process_file_payload X header chunk r = complete_file X (header_id header) r"
    using assms by (simp add: process_file_payload_eq [OF l])
  also have "\<dots> = finish X Inbound Finished r1"
    using assms(1) by (simp add: complete_file_def exec r1_def upd_st_def hm_remove_def hm_is_empty_def)
  also have "conn (snd (finish X Inbound Finished r1)) = Finished"
  proof -
    have tail: "within (same_rel conn) (andthen (disconnection X) (fail NotAnError))"
      by (intro within_rules)
    show ?thesis
      using within_at [OF tail, of "snd (set_state Inbound Finished True r1)"]
      by (simp add: finish_def set_state_def update_state_def exec andthen_Done same_rel_def
          conn_def upd_st_def)
  qed
  finally show ?thesis by simp
qed

end
