(* ===== verification/Outbound.thy ===== *)
theory Outbound
  imports Inbound
begin

text \<open>
  \<open>OutboundRequest\<close> of \<open>hdl/outbound.rs\<close>: the sending side of a transfer. What the
  file defines with the same text as \<open>hdl/inbound.rs\<close> (sending frames, opening secure
  messages) is in \<open>Request\<close>, the key exchange in \<open>KeyExchange\<close>; the rest is here, in
  the order of the file. The loop that sends a file may never end, so it takes fuel.
\<close>

section \<open>State\<close>

record outbound = request +
  ob_endpoint_id :: bytes
  ob_payload :: "string list"    \<comment> \<open>\<open>OutboundPayload::Files\<close>\<close>

type_synonym 'a outb = "(outbound, 'a) io"

definition new_outbound ::
  "bytes \<Rightarrow> string \<Rightarrow> string list \<Rightarrow> remote_device_info \<Rightarrow> (path \<Rightarrow> fs_node option) \<Rightarrow> bytes \<Rightarrow> outbound" where
  "new_outbound endpoint_id i files rdi fs socket =
     \<lparr>rq_in = socket, rq_out = [], rq_chan = [], rq_fs = fs, rq_draws = 0,
      rq_custom_download = None,
      rq_st = is_default\<lparr>is_id := i, is_server_seq := 0, is_client_seq := 0,
        is_state := Initial, is_encryption_done := True,
        is_transfer_metadata := Some (tm_default\<lparr>tm_id := [], tm_source := Some rdi,
          tm_files := Some files\<rparr>)\<rparr>,
      rq_encode_buf = [], rq_frame_buf = [], rq_encrypt_key_aes = None,
      rq_decrypt_key_aes = None, rq_send_hmac = None, rq_recv_hmac = None,
      ob_endpoint_id = endpoint_id, ob_payload = files\<rparr>"

text \<open>
  The methods that \<open>outbound.rs\<close> has in a copy of its own, word for word those of
  \<open>inbound.rs\<close> but for the transfer type that \<open>update_state\<close> puts into its message.
\<close>

abbreviation out_update_state :: "(inner_state \<Rightarrow> inner_state) \<Rightarrow> bool \<Rightarrow> unit outb" where
  "out_update_state \<equiv> update_state Outbound"

abbreviation out_send_frame :: "env \<Rightarrow> bytes \<Rightarrow> unit outb" where
  "out_send_frame \<equiv> send_frame"

abbreviation out_encrypt_and_send :: "env \<Rightarrow> offline_frame \<Rightarrow> unit outb" where
  "out_encrypt_and_send \<equiv> encrypt_and_send"

abbreviation out_send_encrypted_frame :: "env \<Rightarrow> sharing_frame \<Rightarrow> unit outb" where
  "out_send_encrypted_frame \<equiv> send_encrypted_frame"

abbreviation out_send_keepalive :: "env \<Rightarrow> bool \<Rightarrow> unit outb" where
  "out_send_keepalive \<equiv> send_keepalive"

abbreviation out_disconnection :: "env \<Rightarrow> unit outb" where
  "out_disconnection \<equiv> disconnection"

abbreviation out_send_ukey2_alert :: "env \<Rightarrow> alert_type \<Rightarrow> unit outb" where
  "out_send_ukey2_alert \<equiv> send_ukey2_alert"

abbreviation out_get_client_seq_inc :: "i32 outb" where
  "out_get_client_seq_inc \<equiv> get_client_seq_inc"

section \<open>The connection request\<close>

definition connection_request :: "env \<Rightarrow> bytes \<Rightarrow> nat \<Rightarrow> offline_frame" where
  "connection_request X endpoint_id k = offline_v1 (v1_default\<lparr>
     v1_type := Some (enum_num frame_type_table FrConnectionRequest),
     v1_connection_request := Some
       \<lparr>cr_endpoint_id = Some (from_utf8_lossy endpoint_id),
        cr_endpoint_name = Some (as_bytes (os_hostname X)),
        cr_mediums = [medium_wifi_lan],
        cr_endpoint_info = Some (serialize X k \<lparr>rdi_name = os_hostname X, rdi_type = DevLaptop\<rparr>)\<rparr>\<rparr>)"

definition send_connection_request :: "env \<Rightarrow> unit outb" where
  "send_connection_request X =
     bind (get ob_endpoint_id) (\<lambda>endpoint_id.
     bind draw (\<lambda>k.
     out_send_frame X (enc_offline X (connection_request X endpoint_id k))))"

section \<open>The handshake's last step\<close>

definition check_connection_response :: "env \<Rightarrow> offline_frame \<Rightarrow> unit outb" where
  "check_connection_response X frame =
     bind (ok_or (Error ''Missing required fields'') (of_v1 frame)) (\<lambda>v1.
     andthen (fail_if (v1_frame_type v1 \<noteq> FrConnectionResponse) (Error ''Unexpected frame type''))
     (bind (ok_or (Error ''Unexpected None connection_response'') (v1_connection_response v1))
       (\<lambda>connection_response.
     andthen (fail_if (response_of connection_response \<noteq> RsAccept)
       (Error ''Connection rejected by third party''))
     (bind draw (\<lambda>k1. bind draw (\<lambda>k2.
     out_send_encrypted_frame X (paired_key_encryption X k1 k2)))))))"

section \<open>The introduction\<close>

definition is_file :: "(path \<Rightarrow> fs_node option) \<Rightarrow> path \<Rightarrow> bool" where
  "is_file fs p \<longleftrightarrow> (case fs p of Some (FileNode c) \<Rightarrow> True | _ \<Rightarrow> False)"

definition meta_type :: "string \<Rightarrow> path \<Rightarrow> file_type" where
  "meta_type ftype p =
     (if starts_with ''image/'' ftype then FtImage
      else if starts_with ''video/'' ftype then FtVideo
      else if starts_with ''audio/'' ftype then FtAudio
      else if string_or_empty (path_extension p) = ''apk'' then FtApp
      else FtUnknown)"

definition outgoing_info :: "file_metadata \<Rightarrow> path \<Rightarrow> internal_file_info" where
  "outgoing_info fmeta p = \<lparr>ifi_payload_id = file_payload_id fmeta, ifi_file_url = p,
     ifi_bytes_transferred = 0, ifi_total_size = file_size fmeta,
     ifi_file = Some \<lparr>fh_path = p, fh_pos = 0\<rparr>\<rparr>"

text \<open>
  The loop over the paths of the payload: what is no file, cannot be opened or has no metadata is
  skipped; a path without a last component ends the connection.
\<close>

fun collect_files ::
  "env \<Rightarrow> path list \<Rightarrow> file_metadata list \<Rightarrow> (i64, internal_file_info) hashmap \<Rightarrow> u64
     \<Rightarrow> (file_metadata list \<times> (i64, internal_file_info) hashmap \<times> u64) outb" where
  "collect_files X [] metas infos total_to_send = ret (metas, infos, total_to_send)"
| "collect_files X (f # fs) metas infos total_to_send =
     bind (get (\<lambda>r. is_file (rq_fs r) f)) (\<lambda>file_here.
     if \<not> file_here then collect_files X fs metas infos total_to_send
     else if os_open_error X f then collect_files X fs metas infos total_to_send
     else if os_metadata_error X f then collect_files X fs metas infos total_to_send
     else
     bind (get (\<lambda>r. length (file_content (rq_fs r) f))) (\<lambda>len.
     let ftype = os_mime X f in
     bind (ok_or (Error ''Failed to get file_name'') (path_file_name f)) (\<lambda>fname.
     bind draw (\<lambda>k.
     let fmeta = \<lparr>fm_name = Some fname,
           fm_type = Some (enum_num file_type_table (meta_type ftype f)),
           fm_payload_id = Some (os_rand_i64 X k), fm_size = Some (word_of_nat len),
           fm_mime_type = Some ftype\<rparr> in
     collect_files X fs (metas @ [fmeta])
       (hm_insert (file_payload_id fmeta) (outgoing_info fmeta f) infos)
       (total_to_send + word_of_nat len)))))"

definition introduction_frame_of :: "file_metadata list \<Rightarrow> sharing_frame" where
  "introduction_frame_of metas = sharing_v1_frame (sv_default\<lparr>
     sv_type := Some (enum_num sharing_type_table ShIntroduction),
     sv_introduction := Some \<lparr>in_files = metas, in_texts = [], in_wifis = []\<rparr>\<rparr>)"

definition send_introduction :: "env \<Rightarrow> sharing_v1 \<Rightarrow> unit outb" where
  "send_introduction X v1 =
     andthen (fail_if (sv_paired_key_result v1 = None) (Error ''Missing required fields''))
     (bind (get ob_payload) (\<lambda>files.
     bind (collect_files X files [] [] 0) (\<lambda>(metas, infos, total_to_send).
     andthen (out_update_state (\<lambda>e. e\<lparr>
        is_transfer_metadata :=
          map_option (\<lambda>tmd. tmd\<lparr>tm_total_bytes := total_to_send\<rparr>) (is_transfer_metadata e),
        is_transferred_files := infos\<rparr>) False)
     (out_send_encrypted_frame X (introduction_frame_of metas)))))"

definition answer_paired_key_encryption :: "env \<Rightarrow> sharing_v1 \<Rightarrow> unit outb" where
  "answer_paired_key_encryption X v1 =
     andthen (fail_if (sv_paired_key_encryption v1 = None) (Error ''Missing required fields''))
     (out_send_encrypted_frame X paired_key_result)"

section \<open>Sending the files\<close>

definition read_buffer_size :: nat where
  "read_buffer_size = 512 * 1024"

text \<open>
  \<open>Read::read\<close> on a file: at least one byte unless the end is reached, at most what fits into
  the buffer, and otherwise as much as the system likes.
\<close>

definition file_read :: "env \<Rightarrow> i64 \<Rightarrow> internal_file_info \<Rightarrow> file_handle \<Rightarrow> bytes outb" where
  "file_read X i info h r =
     (if os_read_error X (fh_path h) (fh_pos h) then (Fail IoError, r)
      else
        let left = drop (fh_pos h) (file_content (rq_fs r) (fh_path h));
            data = take (min read_buffer_size (Suc (os_read_limit X (fh_path h) (fh_pos h)))) left
        in (Done data, put_handle i info (h\<lparr>fh_pos := fh_pos h + length data\<rparr>) r))"

definition file_header :: "i64 \<Rightarrow> internal_file_info \<Rightarrow> payload_header" where
  "file_header current s = \<lparr>ph_id = Some current,
     ph_type = Some (enum_num payload_type_table PtFile),
     ph_total_size = Some (ifi_total_size s), ph_is_sensitive = Some False,
     ph_file_name = path_file_name (ifi_file_url s)\<rparr>"

definition count_sent :: "i64 \<Rightarrow> nat \<Rightarrow> unit outb" where
  "count_sent current bytes_read =
     bind (get (\<lambda>r. (case is_transfer_metadata (rq_st r) of None \<Rightarrow> 0 | Some t \<Rightarrow> tm_ack_bytes t)
                 + word_of_nat bytes_read)) (\<lambda>new_ack.
     bind (get (\<lambda>r. notify_threshold \<le> new_ack - is_last_notified_bytes (rq_st r))) (\<lambda>should_notify.
     out_update_state (\<lambda>e.
       (let e' = e\<lparr>is_transferred_files := hm_adjust current
              (\<lambda>mu. mu\<lparr>ifi_bytes_transferred := ifi_bytes_transferred mu + word_of_nat bytes_read\<rparr>)
              (is_transferred_files e),
            is_transfer_metadata :=
              map_option (\<lambda>tmd. tmd\<lparr>tm_ack_bytes := new_ack\<rparr>) (is_transfer_metadata e)\<rparr> in
        if should_notify then e'\<lparr>is_last_notified_bytes := new_ack\<rparr> else e')) should_notify))"

text \<open>The inner loop: chunks of one file until its announced size was sent.\<close>

fun send_file :: "env \<Rightarrow> nat \<Rightarrow> i64 \<Rightarrow> payload_header \<Rightarrow> i64 \<Rightarrow> unit outb" where
  "send_file X 0 current header file_total_size = no_fuel"
| "send_file X (Suc fuel) current header file_total_size =
     bind (get (\<lambda>r. hm_lookup (is_transferred_files (rq_st r)) current)) (\<lambda>entry.
     case entry of
       None \<Rightarrow> ret ()
     | Some curr_state \<Rightarrow>
     if ifi_bytes_transferred curr_state = ifi_total_size curr_state then
       out_update_state (\<lambda>e. e\<lparr>is_transferred_files :=
         hm_remove current (is_transferred_files e)\<rparr>) False
     else
     (case ifi_file curr_state of
       None \<Rightarrow> ret ()
     | Some file \<Rightarrow>
     bind (file_read X current curr_state file) (\<lambda>data.
     let bytes_transferred = ifi_bytes_transferred curr_state; bytes_read = length data in
     andthen (out_encrypt_and_send X (data_transfer header
       \<lparr>pc_flags = Some 0, pc_offset = Some bytes_transferred, pc_body = Some data\<rparr>))
     (andthen (count_sent current bytes_read)
     (if bytes_transferred + word_of_nat bytes_read = file_total_size then
        out_encrypt_and_send X (data_transfer header
          \<lparr>pc_flags = Some 1, pc_offset = Some file_total_size, pc_body = Some []\<rparr>)
      else send_file X fuel current header file_total_size)))))"

text \<open>The outer loop: one file after another, then the end of the transfer.\<close>

fun send_files :: "env \<Rightarrow> nat \<Rightarrow> i64 list \<Rightarrow> unit outb" where
  "send_files X fuel [] =
     andthen (set_state Outbound Finished True)
     (out_disconnection X)"
| "send_files X fuel (current # ids) =
     bind (get (\<lambda>r. hm_lookup (is_transferred_files (rq_st r)) current)) (\<lambda>entry.
     case entry of
       None \<Rightarrow> send_files X fuel ids
     | Some s \<Rightarrow>
         andthen (send_file X fuel current (file_header current s) (ifi_total_size s))
         (send_files X fuel ids))"

definition process_consent :: "env \<Rightarrow> nat \<Rightarrow> sharing_v1 \<Rightarrow> unit outb" where
  "process_consent X fuel v1 =
     (if sv_frame_type v1 \<noteq> ShResponse then fail (Error ''Missing required fields'')
      else case sv_connection_response v1 of
        None \<Rightarrow> fail (Error ''Missing required fields'')
      | Some status \<Rightarrow>
          if consent_of status = CsAccept then
            bind draw (\<lambda>k.
            andthen (out_update_state (\<lambda>e. e\<lparr>is_state := SendingFiles,
              is_transfer_start := Some (os_now X k)\<rparr>) True)
            (bind (get (\<lambda>r. os_key_order X (hm_keys (is_transferred_files (rq_st r))))) (\<lambda>ids.
            send_files X fuel ids)))
          else finish X Outbound Disconnected)"

section \<open>Dispatch\<close>

definition process_setup :: "env \<Rightarrow> nat \<Rightarrow> sharing_frame \<Rightarrow> unit outb" where
  "process_setup X fuel frame =
     bind (ok_or (Error ''Missing required fields'') (sf_v1 frame)) (\<lambda>v1.
     if sv_frame_type v1 = ShCancel then finish X Outbound Cancelled
     else bind (get (\<lambda>r. is_state (rq_st r))) (\<lambda>state.
     if state = SentPairedKeyEncryption then
       andthen (answer_paired_key_encryption X v1)
       (set_state Outbound SentPairedKeyResult False)
     else if state = SentPairedKeyResult then
       andthen (send_introduction X v1)
       (set_state Outbound SentIntroduction True)
     else if state = SentIntroduction then process_consent X fuel v1
     else ret ()))"

definition out_bytes_payload :: "env \<Rightarrow> nat \<Rightarrow> payload_header \<Rightarrow> payload_chunk \<Rightarrow> unit outb" where
  "out_bytes_payload X fuel header chunk =
     (let payload_id = header_id header in
      if word_of_nat sane_frame_length <s header_total_size header then
        andthen (remove_buffer payload_id) (fail (Error ''Payload too large''))
      else
        andthen (entry_buffer payload_id (header_total_size header))
        (bind (bind (get (\<lambda>r. hm_lookup (is_payload_buffers (rq_st r)) payload_id))
                (unwrap ''payload_buffers.get'')) (\<lambda>buffer0.
        if chunk_offset chunk \<noteq> word_of_nat (length buffer0) then
          andthen (remove_buffer payload_id) (fail (Error ''Unexpected chunk offset''))
        else
          let buffer = buffer0 @ chunk_body chunk in
          andthen (modify (upd_st (\<lambda>s. s\<lparr>is_payload_buffers :=
            hm_insert payload_id buffer (is_payload_buffers s)\<rparr>)))
          (if chunk_flags chunk AND 1 = 1
           then bind (ok_or DecodeError (dec_sharing X buffer)) (process_setup X fuel)
           else ret ()))))"

definition out_payload_transfer :: "env \<Rightarrow> nat \<Rightarrow> payload_transfer_frame \<Rightarrow> unit outb" where
  "out_payload_transfer X fuel payload_transfer =
     bind (ok_or (Error ''Missing required fields'') (pt_payload_header payload_transfer)) (\<lambda>header.
     bind (ok_or (Error ''Missing required fields'') (pt_payload_chunk payload_transfer)) (\<lambda>chunk.
     case header_type header of
       PtBytes \<Rightarrow> out_bytes_payload X fuel header chunk
     | PtFile \<Rightarrow> ret ()
     | PtStream \<Rightarrow> ret ()
     | PtUnknown \<Rightarrow> ret ()))"

definition out_offline_frame :: "env \<Rightarrow> nat \<Rightarrow> offline_frame \<Rightarrow> unit outb" where
  "out_offline_frame X fuel offline =
     bind (ok_or (Error ''Missing required fields'') (of_v1 offline)) (\<lambda>v1.
     case v1_frame_type v1 of
       FrPayloadTransfer \<Rightarrow>
         bind (ok_or (Error ''Missing required fields'') (v1_payload_transfer v1))
           (out_payload_transfer X fuel)
     | FrKeepAlive \<Rightarrow> out_send_keepalive X True
     | FrDisconnection \<Rightarrow> ret ()
     | _ \<Rightarrow> ret ())"

definition out_secure_message :: "env \<Rightarrow> nat \<Rightarrow> secure_message \<Rightarrow> unit outb" where
  "out_secure_message X fuel smsg =
     bind (open_secure_message X smsg) (out_offline_frame X fuel)"

definition out_serve_frame :: "env \<Rightarrow> nat \<Rightarrow> bytes \<Rightarrow> unit outb" where
  "out_serve_frame X fuel frame_data =
     bind (get (\<lambda>r. is_state (rq_st r))) (\<lambda>state.
     if state = SentUkeyClientInit then
       bind (ok_or DecodeError (dec_ukey2 X frame_data)) (\<lambda>msg.
       andthen (out_update_state (\<lambda>e. e\<lparr>is_server_init_data := Some frame_data\<rparr>) False)
       (andthen (process_ukey2_server_init X msg)
       (out_update_state (\<lambda>e. e\<lparr>is_state := SentUkeyClientFinish,
          is_encryption_done := True\<rparr>) False)))
     else if state = SentUkeyClientFinish then
       bind (ok_or DecodeError (dec_offline X frame_data)) (\<lambda>frame.
       andthen (check_connection_response X frame)
       (out_update_state (\<lambda>e. e\<lparr>is_state := SentPairedKeyEncryption,
          is_server_init_data := Some frame_data, is_encryption_done := True\<rparr>) False))
     else
       bind (ok_or DecodeError (dec_secure X frame_data)) (\<lambda>smsg.
       out_secure_message X fuel smsg))"

definition out_handle_frame :: "env \<Rightarrow> nat \<Rightarrow> bytes \<Rightarrow> unit outb" where
  "out_handle_frame X fuel length_buf =
     bind (read_message length_buf) (out_serve_frame X fuel)"

definition out_handle_action :: "env \<Rightarrow> channel_action option \<Rightarrow> unit outb" where
  "out_handle_action X action =
     (case action of
        Some CancelTransfer \<Rightarrow> finish X Outbound Cancelled
      | None \<Rightarrow> ret ()
      | _ \<Rightarrow> ret ())"

definition out_handle :: "env \<Rightarrow> nat \<Rightarrow> event \<Rightarrow> unit outb" where
  "out_handle X fuel ev =
     (case ev of
        OnChannel k received \<Rightarrow>
          andthen (drop_partial_length k)
          (case received of
             RecvOk channel_msg \<Rightarrow>
               if cm_direction channel_msg = LibToFront then ret ()
               else bind (get (\<lambda>r. is_id (rq_st r))) (\<lambda>i.
                 if cm_id channel_msg \<noteq> i then ret ()
                 else out_handle_action X (cm_action channel_msg))
           | RecvLagged n \<Rightarrow> ret ()
           | RecvClosed \<Rightarrow> ret ())
      | OnSocket \<Rightarrow> bind (stream_read_exact 4) (out_handle_frame X fuel))"

end
