(* ===== verification/Handshake.thy ===== *)
theory Handshake
  imports Outbound
begin

text \<open>
  The key exchange from both sides: the messages that one side builds are the ones the other side
  accepts, and both derive the same keys, crosswise, and the same PIN.
\<close>

section \<open>What the cryptographic crates promise\<close>

text \<open>
  HKDF gives as many bytes as it is asked for (32 is below its limit), HMAC takes a key of 32
  bytes, and the two constants are hexadecimal.
\<close>

definition kdf_ok :: "env \<Rightarrow> bool" where
  "kdf_ok X \<longleftrightarrow> (\<forall>salt input info. \<exists>okm. hkdf_expand X salt input info 32 = Some okm \<and> length okm = 32)
     \<and> (\<forall>key. length key = 32 \<longrightarrow> hmac_accepts X key)
     \<and> hex_decode X salt_hex \<noteq> None \<and> hex_decode X key_salt_hex \<noteq> None"

text \<open>Diffie-Hellman gives both sides the same secret.\<close>

definition dh_ok :: "env \<Rightarrow> bool" where
  "dh_ok X \<longleftrightarrow> (\<forall>a b. diffie_hellman X a (public_of X b) = diffie_hellman X b (public_of X a))"

text \<open>
  A public key has coordinates of 32 bytes, from which its point can be read back.
  \<open>long_coordinates\<close> is what \<open>encode_point\<close> needs on top of that.
\<close>

definition point_ok :: "env \<Rightarrow> bytes \<Rightarrow> bool" where
  "point_ok X pk \<longleftrightarrow> length (point_x X pk) = 32 \<and> length (point_y X pk) = 32
     \<and> (\<exists>pt. point_of_bytes X ([0x04] @ point_x X pk @ point_y X pk) = Some pt \<and> key_of_point X pt = Some pk)"

definition long_coordinates :: "env \<Rightarrow> bytes \<Rightarrow> bool" where
  "long_coordinates X pk \<longleftrightarrow> 2 ^ 247 \<le> be_nat (point_x X pk) \<and> 2 ^ 247 \<le> be_nat (point_y X pk)"

definition exchange_env :: "env \<Rightarrow> bool" where
  "exchange_env X \<longleftrightarrow> codec_ok X \<and> rand_ok X \<and> bigint_ok X \<and> kdf_ok X \<and> dh_ok X"

section \<open>Public keys on the wire\<close>

lemma own_public_key_read:
  assumes X: "bigint_ok X" and pk: "point_ok X pk" "long_coordinates X pk"
  shows "\<exists>g. own_public_key X pk = Done g \<and> peer_point X g = Done pk"
proof -
  obtain ex where ex: "encode_point X (point_x X pk) = Done ex" "key_coordinate ex = point_x X pk"
    using point_coordinate_read [OF X, of "point_x X pk"] pk by (auto simp: point_ok_def long_coordinates_def)
  obtain ey where ey: "encode_point X (point_y X pk) = Done ey" "key_coordinate ey = point_y X pk"
    using point_coordinate_read [OF X, of "point_y X pk"] pk by (auto simp: point_ok_def long_coordinates_def)
  obtain pt where "point_of_bytes X ([0x04] @ point_x X pk @ point_y X pk) = Some pt"
      "key_of_point X pt = Some pk"
    using pk(1) by (auto simp: point_ok_def)
  with ex ey show ?thesis
    by (simp add: own_public_key_def peer_point_def Let_def)
qed

text \<open>What the handshake leaves alone.\<close>

definition aside where
  "aside r = (rq_in r, rq_fs r, rq_custom_download r, is_id (rq_st r),
     is_remote_device_info (rq_st r), is_payload_buffers (rq_st r), is_text_payload (rq_st r),
     is_transferred_files (rq_st r))"

section \<open>The derived keys\<close>

definition good_keys :: "env \<Rightarrow> session_keys \<Rightarrow> bool" where
  "good_keys X ks \<longleftrightarrow> (\<forall>k \<in> {sk_client_key ks, sk_client_hmac_key ks, sk_server_key ks, sk_server_hmac_key ks}.
     length k = 32) \<and> hmac_accepts X (sk_client_hmac_key ks) \<and> hmac_accepts X (sk_server_hmac_key ks)"

lemma derive_keys_Done:
  assumes "kdf_ok X"
  shows "\<exists>ks. derive_keys X secret info = Done ks \<and> good_keys X ks"
proof -
  obtain kdf where kdf: "\<And>salt input info. hkdf_expand X salt input info 32 = Some (kdf salt input info)"
      "\<And>salt input info. length (kdf salt input info) = 32"
    using assms unfolding kdf_ok_def by metis
  obtain s1 s2 where "hex_decode X salt_hex = Some s1" "hex_decode X key_salt_hex = Some s2"
    using assms by (auto simp: kdf_ok_def)
  with kdf assms show ?thesis
    by (simp add: derive_keys_def hkdf_extract_expand_def good_keys_def kdf_ok_def)
qed

lemma slice_32: "length k = 32 \<Longrightarrow> slice 0 32 k = Some k"
  by (simp add: slice_def)

definition hmac_of :: "bytes \<Rightarrow> hmac_ctx" where
  "hmac_of k = \<lparr>hc_key = k, hc_pending = []\<rparr>"

definition pin_of :: "session_keys \<Rightarrow> string" where
  "pin_of ks = to_four_digit_string (sk_auth_string ks)"

lemma server_finalize_Done:
  assumes "session_secrets X k r = (Done ks, r)" and "good_keys X ks"
  shows "\<exists>t. server_finalize_key_exchange X k r = (Done (), t)
    \<and> rq_encrypt_key_aes t = Some (sk_server_key ks) \<and> rq_decrypt_key_aes t = Some (sk_client_key ks)
    \<and> rq_send_hmac t = Some (hmac_of (sk_server_hmac_key ks))
    \<and> rq_recv_hmac t = Some (hmac_of (sk_client_hmac_key ks))
    \<and> is_pin_code (rq_st t) = Some (pin_of ks) \<and> rq_out t = rq_out r
    \<and> is_server_seq (rq_st t) = is_server_seq (rq_st r)
    \<and> is_client_seq (rq_st t) = is_client_seq (rq_st r)
    \<and> rq_draws t = rq_draws r \<and> aside t = aside r"
  using assms
  by (simp add: aside_def server_finalize_key_exchange_def bind_Done exec aes_key_of_def new_hmac_def slice_32
      good_keys_def update_state_def upd_st_def hmac_of_def pin_of_def)

lemma client_finalize_Done:
  fixes r :: outbound
  assumes "session_secrets X k r = (Done ks, r)" and "good_keys X ks"
  shows "\<exists>t. client_finalize_key_exchange X k r = (Done (), t)
    \<and> rq_encrypt_key_aes t = Some (sk_client_key ks) \<and> rq_decrypt_key_aes t = Some (sk_server_key ks)
    \<and> rq_send_hmac t = Some (hmac_of (sk_client_hmac_key ks))
    \<and> rq_recv_hmac t = Some (hmac_of (sk_server_hmac_key ks))
    \<and> is_pin_code (rq_st t) = Some (pin_of ks) \<and> rq_out t = rq_out r
    \<and> is_server_seq (rq_st t) = is_server_seq (rq_st r)
    \<and> is_client_seq (rq_st t) = is_client_seq (rq_st r)
    \<and> is_ukey_client_finish_msg_data (rq_st t) = is_ukey_client_finish_msg_data (rq_st r)
    \<and> rq_draws t = rq_draws r \<and> aside t = aside r \<and> ob_payload t = ob_payload r"
  using assms
  by (simp add: aside_def client_finalize_key_exchange_def bind_Done exec aes_key_of_def new_hmac_def slice_32
      good_keys_def update_state_def upd_st_def hmac_of_def pin_of_def)

section \<open>The four messages\<close>

definition framed :: "bytes \<Rightarrow> bytes list" where
  "framed m = [to_be32 (word_of_nat (length m)), m]"

definition no_faults :: "env \<Rightarrow> bool" where
  "no_faults X \<longleftrightarrow> (\<forall>k. os_write_fault X k = None)"

lemma send_frame_no_faults:
  "no_faults X \<Longrightarrow> send_frame X m r = (Done (), r\<lparr>rq_out := rq_out r @ framed m\<rparr>)"
  by (simp add: send_frame_def write_all_def no_faults_def andthen_Done framed_def Let_def)

lemma ukey2_kind_frame [simp]: "ukey2_kind (ukey2_frame t d) = t" "bytes_or_empty (um_data (ukey2_frame t d)) = d"
  using enum_roundtrip(4) [of t]
  by (simp_all add: ukey2_kind_def ukey2_frame_def bytes_or_empty_def)

lemma accessors_Some [simp]:
  "bytes_or_empty (Some b) = b" "i32_or_zero (Some w) = w" "string_or_empty (Some t) = t"
  by (simp_all add: bytes_or_empty_def i32_or_zero_def string_or_empty_def)

text \<open>The client starts: it commits to the message it will finish with.\<close>

lemma client_starts:
  fixes c :: outbound
  assumes "no_faults X" and g: "own_public_key X (public_of X (gen_secret X (rq_draws c))) = Done g"
  defines "fin \<equiv> enc_ukey2 X (client_finish_frame X g)"
  defines "m1 \<equiv> enc_ukey2 X (client_init_frame X (os_rand X (Suc (rq_draws c)) 32) (sha512 X fin))"
  shows "\<exists>c1. send_ukey2_client_init X c = (Done (), c1) \<and> rq_out c1 = rq_out c @ framed m1
    \<and> conn c1 = SentUkeyClientInit
    \<and> is_private_key (rq_st c1) = Some (gen_secret X (rq_draws c))
    \<and> is_client_init_msg_data (rq_st c1) = Some m1
    \<and> is_ukey_client_finish_msg_data (rq_st c1) = Some fin
    \<and> is_server_seq (rq_st c1) = is_server_seq (rq_st c)
    \<and> is_client_seq (rq_st c1) = is_client_seq (rq_st c)
    \<and> rq_draws c1 = rq_draws c + 2 \<and> aside c1 = aside c \<and> ob_payload c1 = ob_payload c"
  using g
  by (simp add: aside_def send_ukey2_client_init_def draw_def bind_Done gen_ecdsa_keypair_def lift_outcome_exec
      Let_def andthen_Done send_frame_no_faults [OF assms(1)] update_state_def exec upd_st_def conn_def
      gen_random_def m1_def fin_def)

text \<open>The server answers with its key and keeps the commitment.\<close>

lemma server_answers:
  fixes s :: inbound and rnd commitment :: bytes
  assumes "no_faults X" and "codec_ok X" and "rand_ok X" and "length rnd = 32"
    and g: "own_public_key X (public_of X (gen_secret X (rq_draws s))) = Done g"
    and st: "conn s = ReceivedConnectionRequest"
  defines "m1 \<equiv> enc_ukey2 X (client_init_frame X rnd commitment)"
  defines "m2 \<equiv> enc_ukey2 X (server_init_frame X (os_rand X (Suc (rq_draws s)) 32) g)"
  shows "\<exists>s1. serve_frame X m1 s = (Done (), s1) \<and> rq_out s1 = rq_out s @ framed m2
    \<and> conn s1 = SentUkeyServerInit
    \<and> is_private_key (rq_st s1) = Some (gen_secret X (rq_draws s))
    \<and> is_client_init_msg_data (rq_st s1) = Some m1
    \<and> is_server_init_data (rq_st s1) = Some m2
    \<and> map_option cc_commitment (is_cipher_commitment (rq_st s1)) = Some (Some commitment)
    \<and> is_server_seq (rq_st s1) = is_server_seq (rq_st s)
    \<and> is_client_seq (rq_st s1) = is_client_seq (rq_st s)
    \<and> rq_draws s1 = rq_draws s + 2 \<and> aside s1 = aside s"
proof -
  have cc: "commitment_cipher \<lparr>cc_cipher = Some (enum_num handshake_cipher_table HcP256Sha512),
      cc_commitment = c\<rparr> = HcP256Sha512" for c
    using enum_roundtrip(5) [of HcP256Sha512] by (simp add: commitment_cipher_def)
  have kind: "ukey2_kind (client_init_frame X rnd commitment) = UkClientInit"
      "dec_client_init X (bytes_or_empty (um_data (client_init_frame X rnd commitment))) = Some
        \<lparr>ci_version = Some 1, ci_random = Some rnd,
         ci_commitments = [\<lparr>cc_cipher = Some (enum_num handshake_cipher_table HcP256Sha512),
           cc_commitment = Some commitment\<rparr>],
         ci_next_protocol = Some next_protocol\<rparr>"
    using codec_okD(3) [OF assms(2)] by (simp_all add: client_init_frame_def)
  show ?thesis
    using g st assms(4)
    by (simp add: aside_def serve_frame_def exec conn_def m1_def m2_def codec_okD(2) [OF assms(2)] andthen_Done
        process_ukey2_client_init_def kind preferred_commitment_def cc update_state_def draw_def bind_Done gen_ecdsa_keypair_def Let_def
        send_frame_no_faults [OF assms(1)] upd_st_def)
qed

text \<open>Both sides derive from their own secret, the other's key and the first two messages.\<close>

lemma session_secrets_Done:
  assumes "peer_point X g = Done pk" and "is_private_key (rq_st r) = Some sk"
    and "is_client_init_msg_data (rq_st r) = Some m1" and "is_server_init_data (rq_st r) = Some m2"
    and "derive_keys X (sha256 X (diffie_hellman X sk pk)) (m1 @ m2) = Done ks"
  shows "session_secrets X g r = (Done ks, r)"
  using assms by (simp add: session_secrets_def exec bind_Done Let_def)

lemma client_finishes:
  fixes c1 :: outbound
  assumes "no_faults X" and "codec_ok X" and "length rnd = 32"
    and st: "conn c1 = SentUkeyClientInit" and g: "peer_point X g = Done pk"
    and c1: "is_private_key (rq_st c1) = Some sk" "is_client_init_msg_data (rq_st c1) = Some m1"
      "is_ukey_client_finish_msg_data (rq_st c1) = Some fin"
    and ks: "derive_keys X (sha256 X (diffie_hellman X sk pk))
        (m1 @ enc_ukey2 X (server_init_frame X rnd g)) = Done ks" "good_keys X ks"
  shows "\<exists>c2. out_serve_frame X fuel (enc_ukey2 X (server_init_frame X rnd g)) c1 = (Done (), c2)
    \<and> rq_out c2 = rq_out c1 @ framed fin @ framed (enc_offline X (connection_response_accept X))
    \<and> conn c2 = SentUkeyClientFinish
    \<and> rq_encrypt_key_aes c2 = Some (sk_client_key ks) \<and> rq_decrypt_key_aes c2 = Some (sk_server_key ks)
    \<and> rq_send_hmac c2 = Some (hmac_of (sk_client_hmac_key ks))
    \<and> rq_recv_hmac c2 = Some (hmac_of (sk_server_hmac_key ks))
    \<and> is_pin_code (rq_st c2) = Some (pin_of ks)
    \<and> is_server_seq (rq_st c2) = is_server_seq (rq_st c1)
    \<and> is_client_seq (rq_st c2) = is_client_seq (rq_st c1)
    \<and> rq_draws c2 = rq_draws c1 \<and> aside c2 = aside c1 \<and> ob_payload c2 = ob_payload c1
    \<and> is_encryption_done (rq_st c2)"
proof -
  let ?m2 = "enc_ukey2 X (server_init_frame X rnd g)"
  let ?r = "upd_st (\<lambda>e. e\<lparr>is_server_init_data := Some ?m2\<rparr>) c1"
  have kind: "ukey2_kind (server_init_frame X rnd g) = UkServerInit"
      "dec_server_init X (bytes_or_empty (um_data (server_init_frame X rnd g))) = Some
        \<lparr>si_version = Some 1, si_random = Some rnd,
         si_cipher = Some (enum_num handshake_cipher_table HcP256Sha512),
         si_public_key = Some (enc_public_key X g)\<rparr>"
    using codec_okD(4) [OF assms(2)] by (simp_all add: server_init_frame_def)
  have cipher: "server_cipher \<lparr>si_version = v, si_random = q,
      si_cipher = Some (enum_num handshake_cipher_table HcP256Sha512), si_public_key = k\<rparr> = HcP256Sha512" for v q k
    using enum_roundtrip(5) [of HcP256Sha512] by (simp add: server_cipher_def)
  have "session_secrets X g ?r = (Done ks, ?r)"
    using c1 ks(1) by (intro session_secrets_Done [OF g]) (simp_all add: upd_st_def)
  from client_finalize_Done [OF this ks(2)] obtain t where
    t: "client_finalize_key_exchange X g ?r = (Done (), t)"
      "rq_encrypt_key_aes t = Some (sk_client_key ks)" "rq_decrypt_key_aes t = Some (sk_server_key ks)"
      "rq_send_hmac t = Some (hmac_of (sk_client_hmac_key ks))"
      "rq_recv_hmac t = Some (hmac_of (sk_server_hmac_key ks))"
      "is_pin_code (rq_st t) = Some (pin_of ks)" "rq_out t = rq_out c1"
      "is_server_seq (rq_st t) = is_server_seq (rq_st c1)" "is_client_seq (rq_st t) = is_client_seq (rq_st c1)"
      "is_ukey_client_finish_msg_data (rq_st t) = Some fin"
      "rq_draws t = rq_draws c1" "aside t = aside c1" "ob_payload t = ob_payload c1"
    using c1(3) by (auto simp: upd_st_def aside_def)
  have "process_ukey2_server_init X (server_init_frame X rnd g) ?r = (Done (),
      t\<lparr>rq_out := rq_out c1 @ framed fin @ framed (enc_offline X (connection_response_accept X))\<rparr>)"
    using t assms(3)
    by (simp add: process_ukey2_server_init_def kind cipher codec_okD(6) [OF assms(2)] andthen_Done exec
        send_frame_no_faults [OF assms(1)])
  with t st show ?thesis
    by (simp add: out_serve_frame_def exec conn_def codec_okD(2) [OF assms(2)] andthen_Done update_state_def)
       (simp add: upd_st_def aside_def)
qed

lemma server_finishes:
  fixes s1 :: inbound
  assumes "codec_ok X" and st: "conn s1 = SentUkeyServerInit" and g: "peer_point X g = Done pk"
  defines "fin \<equiv> enc_ukey2 X (client_finish_frame X g)"
  assumes s1: "is_private_key (rq_st s1) = Some sk" "is_client_init_msg_data (rq_st s1) = Some m1"
      "is_server_init_data (rq_st s1) = Some m2"
      "map_option cc_commitment (is_cipher_commitment (rq_st s1)) = Some (Some (sha512 X fin))"
    and ks: "derive_keys X (sha256 X (diffie_hellman X sk pk)) (m1 @ m2) = Done ks" "good_keys X ks"
  shows "\<exists>s2. serve_frame X fin s1 = (Done (), s2)
    \<and> rq_out s2 = rq_out s1 \<and> conn s2 = ReceivedUkeyClientFinish
    \<and> rq_encrypt_key_aes s2 = Some (sk_server_key ks) \<and> rq_decrypt_key_aes s2 = Some (sk_client_key ks)
    \<and> rq_send_hmac s2 = Some (hmac_of (sk_server_hmac_key ks))
    \<and> rq_recv_hmac s2 = Some (hmac_of (sk_client_hmac_key ks))
    \<and> is_pin_code (rq_st s2) = Some (pin_of ks)
    \<and> is_server_seq (rq_st s2) = is_server_seq (rq_st s1)
    \<and> is_client_seq (rq_st s2) = is_client_seq (rq_st s1)
    \<and> rq_draws s2 = rq_draws s1 \<and> aside s2 = aside s1"
proof -
  obtain cc where cc: "is_cipher_commitment (rq_st s1) = Some cc" "cc_commitment cc = Some (sha512 X fin)"
    using s1(4) by auto
  have kind: "ukey2_kind (client_finish_frame X g) = UkClientFinish"
      "dec_client_finished X (bytes_or_empty (um_data (client_finish_frame X g)))
        = Some (Some (enc_public_key X g))"
    using codec_okD(5) [OF assms(1)] by (simp_all add: client_finish_frame_def)
  from server_finalize_Done [OF session_secrets_Done [OF g s1(1,2,3) ks(1)] ks(2)] obtain t where
    t: "server_finalize_key_exchange X g s1 = (Done (), t)"
      "rq_encrypt_key_aes t = Some (sk_server_key ks)" "rq_decrypt_key_aes t = Some (sk_client_key ks)"
      "rq_send_hmac t = Some (hmac_of (sk_server_hmac_key ks))"
      "rq_recv_hmac t = Some (hmac_of (sk_client_hmac_key ks))"
      "is_pin_code (rq_st t) = Some (pin_of ks)" "rq_out t = rq_out s1"
      "is_server_seq (rq_st t) = is_server_seq (rq_st s1)" "is_client_seq (rq_st t) = is_client_seq (rq_st s1)"
      "rq_draws t = rq_draws s1" "aside t = aside s1"
    by auto
  have "process_ukey2_client_finish X (client_finish_frame X g) fin s1 = (Done (), t)"
    using t(1) cc
    by (simp add: process_ukey2_client_finish_def kind exec codec_okD(6) [OF assms(1)])
  with t st show ?thesis
    by (simp add: serve_frame_def exec conn_def codec_okD(2) [OF assms(1)] fin_def andthen_Done
        set_state_def update_state_def upd_st_def aside_def)
qed

section \<open>Agreement\<close>

text \<open>
  C7. The key exchange agrees: if both public keys have coordinates of full length and no write
  fails, the client's first message is accepted by the server in its state, the server's answer
  by the client, and the client's finish by the server; afterwards each side's sending keys are
  the other's receiving keys, both show the same PIN, and with matching counters the two sides
  are linked in both directions.
\<close>

theorem handshake_agrees:
  fixes c :: outbound and s :: inbound
  assumes X: "exchange_env X" and nf: "no_faults X" and st: "conn s = ReceivedConnectionRequest"
    and kc: "point_ok X (public_of X (gen_secret X (rq_draws c)))"
      "long_coordinates X (public_of X (gen_secret X (rq_draws c)))"
    and ks: "point_ok X (public_of X (gen_secret X (rq_draws s)))"
      "long_coordinates X (public_of X (gen_secret X (rq_draws s)))"
    and seqs: "is_client_seq (rq_st s) = is_server_seq (rq_st c)"
      "is_client_seq (rq_st c) = is_server_seq (rq_st s)"
  shows "\<exists>m1 m2 m3 m4 c1 s1 c2 s2 pin.
    send_ukey2_client_init X c = (Done (), c1) \<and> rq_out c1 = rq_out c @ framed m1 \<and>
    serve_frame X m1 s = (Done (), s1) \<and> rq_out s1 = rq_out s @ framed m2 \<and>
    out_serve_frame X fuel m2 c1 = (Done (), c2) \<and> rq_out c2 = rq_out c1 @ framed m3 @ framed m4 \<and>
    serve_frame X m3 s1 = (Done (), s2) \<and>
    conn c2 = SentUkeyClientFinish \<and> conn s2 = ReceivedUkeyClientFinish \<and>
    linked c2 s2 \<and> linked s2 c2 \<and>
    is_pin_code (rq_st c2) = Some pin \<and> is_pin_code (rq_st s2) = Some pin"
proof -
  let ?a = "gen_secret X (rq_draws c)" and ?b = "gen_secret X (rq_draws s)"
  have e: "codec_ok X" "rand_ok X" "bigint_ok X" "kdf_ok X" "dh_ok X"
    using X by (simp_all add: exchange_env_def)
  obtain gc where gc: "own_public_key X (public_of X ?a) = Done gc" "peer_point X gc = Done (public_of X ?a)"
    using own_public_key_read [OF e(3) kc] by blast
  obtain gs where gs: "own_public_key X (public_of X ?b) = Done gs" "peer_point X gs = Done (public_of X ?b)"
    using own_public_key_read [OF e(3) ks] by blast
  define fin where "fin = enc_ukey2 X (client_finish_frame X gc)"
  define rc where "rc = os_rand X (Suc (rq_draws c)) 32"
  define rs where "rs = os_rand X (Suc (rq_draws s)) 32"
  define m1 where "m1 = enc_ukey2 X (client_init_frame X rc (sha512 X fin))"
  define m2 where "m2 = enc_ukey2 X (server_init_frame X rs gs)"
  have r32: "length rc = 32" "length rs = 32"
    using e(2) by (simp_all add: rand_ok_def rc_def rs_def)
  obtain k where k: "derive_keys X (sha256 X (diffie_hellman X ?a (public_of X ?b))) (m1 @ m2) = Done k"
      "good_keys X k"
    using derive_keys_Done [OF e(4)] by blast
  have k': "derive_keys X (sha256 X (diffie_hellman X ?b (public_of X ?a))) (m1 @ m2) = Done k"
    using k(1) e(5) by (simp add: dh_ok_def)
  obtain c1 where c1: "send_ukey2_client_init X c = (Done (), c1)" "rq_out c1 = rq_out c @ framed m1"
      "conn c1 = SentUkeyClientInit" "is_private_key (rq_st c1) = Some ?a"
      "is_client_init_msg_data (rq_st c1) = Some m1" "is_ukey_client_finish_msg_data (rq_st c1) = Some fin"
      "is_server_seq (rq_st c1) = is_server_seq (rq_st c)" "is_client_seq (rq_st c1) = is_client_seq (rq_st c)"
    using client_starts [OF nf gc(1)] unfolding m1_def rc_def fin_def by blast
  obtain s1 where s1: "serve_frame X m1 s = (Done (), s1)" "rq_out s1 = rq_out s @ framed m2"
      "conn s1 = SentUkeyServerInit" "is_private_key (rq_st s1) = Some ?b"
      "is_client_init_msg_data (rq_st s1) = Some m1" "is_server_init_data (rq_st s1) = Some m2"
      "map_option cc_commitment (is_cipher_commitment (rq_st s1)) = Some (Some (sha512 X fin))"
      "is_server_seq (rq_st s1) = is_server_seq (rq_st s)" "is_client_seq (rq_st s1) = is_client_seq (rq_st s)"
    using server_answers [OF nf e(1,2) r32(1) gs(1) st, of "sha512 X fin"]
    unfolding m1_def m2_def rs_def by blast
  from client_finishes [OF nf e(1) r32(2) c1(3) gs(2) c1(4,5,6) k [unfolded m2_def], of fuel]
  obtain c2 where c2: "out_serve_frame X fuel m2 c1 = (Done (), c2)"
      "rq_out c2 = rq_out c1 @ framed fin @ framed (enc_offline X (connection_response_accept X))"
      "conn c2 = SentUkeyClientFinish" "rq_encrypt_key_aes c2 = Some (sk_client_key k)"
      "rq_decrypt_key_aes c2 = Some (sk_server_key k)" "rq_send_hmac c2 = Some (hmac_of (sk_client_hmac_key k))"
      "rq_recv_hmac c2 = Some (hmac_of (sk_server_hmac_key k))" "is_pin_code (rq_st c2) = Some (pin_of k)"
      "is_server_seq (rq_st c2) = is_server_seq (rq_st c1)" "is_client_seq (rq_st c2) = is_client_seq (rq_st c1)"
    unfolding m2_def by blast
  from server_finishes [OF e(1) s1(3) gc(2) s1(4,5,6) s1(7) [unfolded fin_def] k' k(2)]
  obtain s2 where s2: "serve_frame X fin s1 = (Done (), s2)"
      "conn s2 = ReceivedUkeyClientFinish" "rq_encrypt_key_aes s2 = Some (sk_server_key k)"
      "rq_decrypt_key_aes s2 = Some (sk_client_key k)" "rq_send_hmac s2 = Some (hmac_of (sk_server_hmac_key k))"
      "rq_recv_hmac s2 = Some (hmac_of (sk_client_hmac_key k))" "is_pin_code (rq_st s2) = Some (pin_of k)"
      "is_server_seq (rq_st s2) = is_server_seq (rq_st s1)" "is_client_seq (rq_st s2) = is_client_seq (rq_st s1)"
    unfolding fin_def by blast
  have "linked c2 s2" "linked s2 c2"
    using c1 s1 c2 s2 seqs by (simp_all add: linked_def)
  with c1(1,2) s1(1,2) c2(1,2,3,8) s2(1,2,7) show ?thesis by blast
qed

end
