(* ===== verification/FileSending.thy ===== *)
theory FileSending
  imports Outbound Delivery
begin

text \<open>
  The loop that sends a file: it ends for a file that is still as long as announced, never ends
  for one that became shorter, and what it sends is what the receiving side writes to disk.
\<close>

section \<open>One round\<close>

text \<open>
  The state of a file that is being sent: \<open>sent\<close> was read and sent, \<open>todo\<close> is still to
  be read, and together they have the announced length.
\<close>

definition sending :: "i64 \<Rightarrow> internal_file_info \<Rightarrow> path \<Rightarrow> bytes \<Rightarrow> bytes \<Rightarrow> 'x request_scheme \<Rightarrow> bool" where
  "sending i info p sent todo r \<longleftrightarrow>
     hm_lookup (is_transferred_files (rq_st r)) i = Some info \<and>
     ifi_file info = Some \<lparr>fh_path = p, fh_pos = length sent\<rparr> \<and>
     rq_fs r p = Some (FileNode (sent @ todo)) \<and>
     ifi_bytes_transferred info = word_of_nat (length sent) \<and>
     ifi_total_size info = word_of_nat (length (sent @ todo)) \<and>
     length (sent @ todo) < 2 ^ 63"

lemma offset_eq_total:
  "length (sent @ todo) < 2 ^ 63 \<Longrightarrow>
     (word_of_nat (length sent) :: i64) = word_of_nat (length (sent @ todo)) \<longleftrightarrow> todo = []"
proof -
  assume b: "length (sent @ todo) < 2 ^ 63"
  have "length sent = length (sent @ todo)"
    if "(word_of_nat (length sent) :: i64) = word_of_nat (length (sent @ todo))"
  proof -
    have "length sent < 2 ^ 64" using b by simp
    with arg_cong [OF that, of unat] b show ?thesis
      by (simp add: unat_of_nat take_bit_nat_eq_self del: length_append of_nat_add)
  qed
  then show ?thesis by auto
qed

definition piece :: "env \<Rightarrow> path \<Rightarrow> bytes \<Rightarrow> bytes \<Rightarrow> bytes" where
  "piece X p sent todo = take (min read_buffer_size (Suc (os_read_limit X p (length sent)))) todo"

lemma piece_not_Nil: "todo \<noteq> [] \<Longrightarrow> piece X p sent todo \<noteq> []"
  by (simp add: piece_def read_buffer_size_def)

lemma piece_split: "\<exists>rest. todo = piece X p sent todo @ rest"
  unfolding piece_def by (metis append_take_drop_id)

lemma count_sent_Done:
  "\<exists>t. count_sent i n r = (Done (), t) \<and> rq_fs t = rq_fs r \<and> rq_out t = rq_out r \<and> rq_in t = rq_in r
     \<and> rq_encrypt_key_aes t = rq_encrypt_key_aes r \<and> rq_send_hmac t = rq_send_hmac r
     \<and> rq_decrypt_key_aes t = rq_decrypt_key_aes r \<and> rq_recv_hmac t = rq_recv_hmac r
     \<and> is_server_seq (rq_st t) = is_server_seq (rq_st r)
     \<and> is_client_seq (rq_st t) = is_client_seq (rq_st r) \<and> conn t = conn r
     \<and> is_transferred_files (rq_st t) = hm_adjust i (\<lambda>mu. mu\<lparr>ifi_bytes_transferred :=
         ifi_bytes_transferred mu + word_of_nat n\<rparr>) (is_transferred_files (rq_st r))"
  by (simp add: count_sent_def update_state_def exec upd_st_def conn_def Let_def)

text \<open>A round of the loop on such a file, as far as the socket goes.\<close>

lemma send_file_round:
  assumes s: "sending i info p sent todo r" and "todo \<noteq> []"
    and ok: "\<not> os_read_error X p (length sent)"
  defines "d \<equiv> piece X p sent todo"
  defines "r1 \<equiv> put_handle i info \<lparr>fh_path = p, fh_pos = length (sent @ d)\<rparr> r"
  shows "send_file X (Suc fuel) i header (ifi_total_size info) r =
    andthen (encrypt_and_send X (data_transfer header
       \<lparr>pc_flags = Some 0, pc_offset = Some (word_of_nat (length sent)), pc_body = Some d\<rparr>))
    (andthen (count_sent i (length d))
    (if word_of_nat (length (sent @ d)) = ifi_total_size info then
       encrypt_and_send X (data_transfer header
         \<lparr>pc_flags = Some 1, pc_offset = Some (ifi_total_size info), pc_body = Some []\<rparr>)
     else send_file X fuel i header (ifi_total_size info))) r1"
proof -
  have l: "hm_lookup (is_transferred_files (rq_st r)) i = Some info"
    and f: "ifi_file info = Some \<lparr>fh_path = p, fh_pos = length sent\<rparr>"
    and c: "rq_fs r p = Some (FileNode (sent @ todo))"
    and b: "ifi_bytes_transferred info = word_of_nat (length sent)"
    and t: "ifi_bytes_transferred info \<noteq> ifi_total_size info"
    using s \<open>todo \<noteq> []\<close> offset_eq_total [of sent todo] by (auto simp: sending_def)
  have read: "file_read X i info \<lparr>fh_path = p, fh_pos = length sent\<rparr> r = (Done d, r1)"
    using ok c by (simp add: file_read_def file_content_def d_def piece_def r1_def Let_def)
  show ?thesis
    using l f b t by (simp add: exec bind_Done read Let_def)
qed

lemma sending_next:
  assumes s: "sending i info p sent (d @ todo') r"
    and t: "is_transferred_files (rq_st t) = hm_adjust i (\<lambda>mu. mu\<lparr>ifi_bytes_transferred :=
         ifi_bytes_transferred mu + word_of_nat (length d)\<rparr>)
       (hm_insert i (info\<lparr>ifi_file := Some \<lparr>fh_path = p, fh_pos = length (sent @ d)\<rparr>\<rparr>) m)"
    and fs: "rq_fs t = rq_fs r"
  shows "\<exists>info'. sending i info' p (sent @ d) todo' t \<and> ifi_total_size info' = ifi_total_size info"
  using s by (intro exI [of _ "received info p (sent @ d)"])
    (simp add: sending_def t fs received_def)

section \<open>Termination\<close>

text \<open>One round that succeeds leaves a file in the middle of being sent.\<close>

lemma send_round_Done:
  assumes s: "sending i info p sent (d @ todo') r"
    and send: "encrypt_and_send X f (put_handle i info \<lparr>fh_path = p, fh_pos = length (sent @ d)\<rparr> r)
      = (Done (), t1)"
  shows "\<exists>t2 info'. count_sent i (length d) t1 = (Done (), t2)
    \<and> sending i info' p (sent @ d) todo' t2 \<and> ifi_total_size info' = ifi_total_size info"
proof -
  let ?r1 = "put_handle i info \<lparr>fh_path = p, fh_pos = length (sent @ d)\<rparr> r"
  have c: "core t1 = core ?r1"
    using withinD [OF encrypt_and_send_core send] by (simp add: same_rel_def)
  obtain t2 where t2: "count_sent i (length d) t1 = (Done (), t2)" "rq_fs t2 = rq_fs t1"
      "is_transferred_files (rq_st t2) = hm_adjust i (\<lambda>mu. mu\<lparr>ifi_bytes_transferred :=
         ifi_bytes_transferred mu + word_of_nat (length d)\<rparr>) (is_transferred_files (rq_st t1))"
    using count_sent_Done [of i "length d" t1] by blast
  have "rq_fs t1 = rq_fs r" "is_transferred_files (rq_st t1) =
      hm_insert i (info\<lparr>ifi_file := Some \<lparr>fh_path = p, fh_pos = length (sent @ d)\<rparr>\<rparr>)
        (is_transferred_files (rq_st r))"
    using coreD(3) [OF c] coreD(8) [OF c, THEN arg_cong, of is_transferred_files]
    by (simp_all add: put_handle_def upd_st_def)
  then show ?thesis
    using sending_next [OF s, of t2] t2 by auto
qed

lemma send_file_end:
  assumes "sending i info p sent [] r"
  shows "send_file X (Suc fuel) i header total_size r =
    (Done (), upd_st (\<lambda>e. e\<lparr>is_transferred_files := hm_remove i (is_transferred_files e)\<rparr>) r)"
  using assms by (simp add: sending_def exec update_state_def)

lemma send_file_read_error:
  assumes "sending i info p sent todo r" and "todo \<noteq> []" and "os_read_error X p (length sent)"
  shows "send_file X (Suc fuel) i header total_size r = (Fail IoError, r)"
proof -
  have "ifi_bytes_transferred info \<noteq> ifi_total_size info"
    using assms(1,2) offset_eq_total [of sent todo] by (auto simp: sending_def)
  with assms show ?thesis
    by (simp add: sending_def exec file_read_def bind_Fail)
qed

text \<open>
  Sending a file ends: for a file that still has the announced length, more rounds than
  there are bytes left are enough, whatever the reads return, whether writes fail or not.
\<close>

theorem send_file_returns:
  assumes "sending i info p sent todo r" and "length todo < fuel"
  shows "fst (send_file X fuel i header (ifi_total_size info) r) \<noteq> NoFuel"
  using assms
proof (induction fuel arbitrary: sent todo info r)
  case 0
  then show ?case by simp
next
  case (Suc fuel)
  note s = Suc.prems(1)
  show ?case
  proof (cases "todo = [] \<or> os_read_error X p (length sent)")
    case True
    with s show ?thesis
      by (cases "todo = []") (simp_all add: send_file_end send_file_read_error del: send_file.simps)
  next
    case False
    define d where "d = piece X p sent todo"
    obtain rest where todo: "todo = d @ rest" using piece_split d_def by metis
    have "d \<noteq> []" using False piece_not_Nil by (simp add: d_def)
    with todo Suc.prems(2) have short: "length rest < fuel" by (cases d) auto
    let ?r1 = "put_handle i info \<lparr>fh_path = p, fh_pos = length (sent @ d)\<rparr> r"
    let ?f = "data_transfer header \<lparr>pc_flags = Some 0, pc_offset = Some (word_of_nat (length sent)),
      pc_body = Some d\<rparr>"
    have round: "send_file X (Suc fuel) i header (ifi_total_size info) r =
      andthen (encrypt_and_send X ?f) (andthen (count_sent i (length d))
        (if word_of_nat (length (sent @ d)) = ifi_total_size info then
           encrypt_and_send X (data_transfer header
             \<lparr>pc_flags = Some 1, pc_offset = Some (ifi_total_size info), pc_body = Some []\<rparr>)
         else send_file X fuel i header (ifi_total_size info))) ?r1"
      using send_file_round [OF s] False by (simp add: d_def)
    show ?thesis
    proof (cases "fst (encrypt_and_send X ?f ?r1) = Done ()")
      case True
      then obtain t1 where t1: "encrypt_and_send X ?f ?r1 = (Done (), t1)"
        by (cases "encrypt_and_send X ?f ?r1") auto
      obtain t2 info' where t2: "count_sent i (length d) t1 = (Done (), t2)"
          "sending i info' p (sent @ d) rest t2" "ifi_total_size info' = ifi_total_size info"
        using send_round_Done [OF s [unfolded todo] t1] by blast
      show ?thesis
        using Suc.IH [OF t2(2) short] t2(3)
        by (simp add: round andthen_Done t1 t2(1) returnsD [OF senders_return(4)] del: send_file.simps length_append)
    next
      case False
      then show ?thesis
        unfolding round using returnsD [OF senders_return(4), of X ?f ?r1]
        by (cases "encrypt_and_send X ?f ?r1"; cases "fst (encrypt_and_send X ?f ?r1)")
           (auto simp: andthen_Fail andthen_Panic)
    qed
  qed
qed

section \<open>From the sender's file to the receiver's\<close>

text \<open>What a receiver needs to keep reading: nothing of it changes when a chunk is written.\<close>

definition link :: "'x request_scheme \<Rightarrow> bytes \<times> bytes option \<times> hmac_ctx option \<times> i32 \<times> conn_state" where
  "link r = (rq_in r, rq_decrypt_key_aes r, rq_recv_hmac r, is_client_seq (rq_st r), conn r)"

lemma link_linked: "link t = link r \<Longrightarrow> linked s r \<Longrightarrow> linked s t"
  by (auto simp: link_def linked_def)

lemma chunk_link:
  assumes "process_file_payload X header chunk r = (Done (), t)" and "chunk_body chunk \<noteq> []"
  shows "link t = link r"
proof -
  have parts: "within (same_rel link) (file_write_all X i info h d)"
      "within (same_rel link) (count_acknowledged n)" for X i info h d n
    by (auto simp: within_def same_rel_def link_def file_write_all_def put_handle_def put_bytes_def
        upd_st_def conn_def count_acknowledged_def update_state_def exec Let_def split: option.split)
  obtain info where l: "hm_lookup (is_transferred_files (rq_st r)) (header_id header) = Some info"
    using assms(1) by (auto simp: process_file_payload_def Let_def exec split: option.splits)
  obtain fh where "andthen (file_write_all X (header_id header) info fh (chunk_body chunk))
     (andthen (modify (upd_st (\<lambda>s. s\<lparr>is_transferred_files :=
        hm_adjust (header_id header) (\<lambda>i. i\<lparr>ifi_bytes_transferred :=
          ifi_bytes_transferred i + word_of_nat (length (chunk_body chunk))\<rparr>) (is_transferred_files s)\<rparr>)))
     (count_acknowledged (length (chunk_body chunk)))) r = (Done (), t)"
    using assms unfolding process_file_payload_eq [OF l]
    by (auto split: if_splits option.splits)
  moreover have "within (same_rel link) (andthen (file_write_all X (header_id header) info fh (chunk_body chunk))
     (andthen (modify (upd_st (\<lambda>s. s\<lparr>is_transferred_files :=
        hm_adjust (header_id header) (\<lambda>i. i\<lparr>ifi_bytes_transferred :=
          ifi_bytes_transferred i + word_of_nat (length (chunk_body chunk))\<rparr>) (is_transferred_files s)\<rparr>)))
     (count_acknowledged (length (chunk_body chunk)))))"
    by (intro same.within_andthen parts same.within_modify)
       (simp add: same_rel_def link_def upd_st_def conn_def)
  ultimately show ?thesis by (auto dest: withinD simp: same_rel_def)
qed

lemma process_file_transfer:
  assumes "header_type header = PtFile"
  shows "process_offline_frame X (data_transfer header chunk) r = process_file_payload X header chunk r"
proof -
  have "v1_frame_type (v1_default\<lparr>v1_type := Some (enum_num frame_type_table FrPayloadTransfer),
      v1_payload_transfer := p\<rparr>) = FrPayloadTransfer" for p
    using enum_roundtrip(1) [of FrPayloadTransfer] by (simp add: v1_frame_type_def)
  with assms show ?thesis
    by (simp add: process_offline_frame_def data_transfer_def offline_v1_def exec
        process_payload_transfer_def)
qed

text \<open>The delivery of one frame about a file, up to what the receiver does with it.\<close>

lemma file_frame_delivered:
  fixes r :: inbound
  assumes "channel_env X" and "linked s r" and "secured (conn r)" and "header_type header = PtFile"
    and "encrypt_and_send X (data_transfer header chunk) s = (Done (), s')"
    and "rq_out s' = rq_out s @ ws" "list_all fits_frame ws" "rq_in r = concat ws @ rest"
  shows "\<exists>u. handle X OnSocket r = process_file_payload X header chunk u \<and> linked s' u
    \<and> rq_in u = rest \<and> conn u = conn r \<and> rq_fs u = rq_fs r
    \<and> is_transferred_files (rq_st u) = is_transferred_files (rq_st r)"
proof -
  obtain t where t: "receive_secure X r = (Done (data_transfer header chunk), t)" "rq_in t = rest"
      "linked s' t"
    using channel_delivers_one [OF assms(1,2,5,6,7,8)] by blast
  obtain v where v: "t = opened (r\<lparr>rq_in := v\<rparr>)"
    using receive_secure_state [OF t(1)] by blast
  obtain b where "handle X OnSocket r = process_offline_frame X (data_transfer header chunk) (set_recv_buf b t)"
    using handle_secured [OF t(1) assms(3)] by blast
  then show ?thesis
    using t(2,3) v
    by (intro exI [of _ "set_recv_buf b t"])
       (simp add: process_file_transfer [OF assms(4)] linked_def set_recv_buf_def conn_def opened_def)
qed

lemma complete_file_result:
  assumes "complete_file X i r = (res, t)"
  shows "rq_fs t = rq_fs r \<and> hm_lookup (is_transferred_files (rq_st t)) i = None
    \<and> (\<forall>j. j \<noteq> i \<longrightarrow> hm_lookup (is_transferred_files (rq_st t)) j = hm_lookup (is_transferred_files (rq_st r)) j)
    \<and> (if \<forall>j. j \<noteq> i \<longrightarrow> hm_lookup (is_transferred_files (rq_st r)) j = None
       then conn t = Finished else res = Done () \<and> link t = link r)"
proof -
  let ?r1 = "upd_st (\<lambda>s. s\<lparr>is_transferred_files := hm_remove i (is_transferred_files s)\<rparr>) r"
  let ?r2 = "snd (set_state Inbound Finished True ?r1)"
  have empty: "hm_is_empty (hm_remove i m) \<longleftrightarrow> (\<forall>j. j \<noteq> i \<longrightarrow> hm_lookup m j = None)" for m :: "(i64, 'z) hashmap"
    by (auto simp: hm.is_empty)
  have run: "(if hm_is_empty (hm_remove i (is_transferred_files (rq_st r)))
      then andthen (disconnection X) (fail NotAnError) ?r2 else (Done (), ?r1)) = (res, t)"
    using assms by (simp add: complete_file_def exec finish_def set_state_def update_state_def andthen_Done
        upd_st_def split: if_splits)
  have w: "within (same_rel core) (andthen (disconnection X) (fail NotAnError :: (inbound, unit) io))"
    by (intro within_rules)
  have "conn t = conn ?r2 \<and> rq_fs t = rq_fs ?r2
      \<and> is_transferred_files (rq_st t) = is_transferred_files (rq_st ?r2)"
    if run2: "andthen (disconnection X) (fail NotAnError) ?r2 = (res, t)"
  proof -
    have c: "core t = core ?r2" using withinD [OF w run2] by (simp add: same_rel_def)
    show ?thesis
      using core_conn [OF c] coreD(3) [OF c] coreD(8) [OF c, THEN arg_cong, of is_transferred_files]
      by simp
  qed
  then show ?thesis
    using run unfolding empty
    by (auto simp: set_state_def update_state_def exec upd_st_def conn_def link_def split: if_splits)
qed

definition others_left :: "i64 \<Rightarrow> 'x request_scheme \<Rightarrow> bool" where
  "others_left i r \<longleftrightarrow> (\<exists>j. j \<noteq> i \<and> hm_lookup (is_transferred_files (rq_st r)) j \<noteq> None)"

text \<open>The outcome on the receiving side after \<open>n\<close> frames.\<close>

definition file_taken_in ::
  "env \<Rightarrow> nat \<Rightarrow> i64 \<Rightarrow> path \<Rightarrow> bytes \<Rightarrow> bytes \<Rightarrow> outbound \<Rightarrow> inbound \<Rightarrow> bool" where
  "file_taken_in X n i p content rest s' r \<longleftrightarrow>
     (\<exists>res r'. for_each (replicate n OnSocket) (handle X) r = (res, r')
       \<and> rq_fs r' = (rq_fs r)(p \<mapsto> FileNode content)
       \<and> hm_lookup (is_transferred_files (rq_st r')) i = None
       \<and> (\<forall>j. j \<noteq> i \<longrightarrow>
           hm_lookup (is_transferred_files (rq_st r')) j = hm_lookup (is_transferred_files (rq_st r)) j)
       \<and> (if others_left i r
          then res = Done () \<and> linked s' r' \<and> rq_in r' = rest \<and> conn r' = conn r
          else conn r' = Finished))"

lemma last_frame_taken_in:
  assumes X: "channel_env X" and l: "linked s r" and r: "secured (conn r)"
    and ri: "receiving i ri p content r" and len: "length content < 2 ^ 63"
    and h: "header_type header = PtFile" "header_id header = i"
    and tot: "tot = ifi_total_size ri" "tot = word_of_nat (length content)"
    and run: "encrypt_and_send X (data_transfer header
        \<lparr>pc_flags = Some 1, pc_offset = Some tot, pc_body = Some []\<rparr>) s = (Done (), s')"
    and ws: "rq_out s' = rq_out s @ ws" "list_all fits_frame ws" "rq_in r = concat ws @ rest"
  shows "file_taken_in X 1 i p content rest s' r"
proof -
  let ?c = "\<lparr>pc_flags = Some 1, pc_offset = Some tot, pc_body = Some []\<rparr>"
  obtain u where u: "handle X OnSocket r = process_file_payload X header ?c u" "linked s' u"
      "rq_in u = rest" "conn u = conn r" "rq_fs u = rq_fs r"
      "is_transferred_files (rq_st u) = is_transferred_files (rq_st r)"
    using file_frame_delivered [OF X l r h(1) run ws] by blast
  have ru: "hm_lookup (is_transferred_files (rq_st u)) (header_id header) = Some ri"
    and b: "ifi_bytes_transferred ri = tot" and keep: "rq_fs u p = Some (FileNode content)"
    using ri u h(2) tot by (simp_all add: receiving_def)
  obtain res t where t: "complete_file X i u = (res, t)" by fastforce
  have "handle X OnSocket r = (res, t)"
    unfolding u(1) process_file_payload_eq [OF ru]
    using t tot b h(2) by (simp add: chunk_offset_def chunk_body_def chunk_flags_def word_sless_alt)
  then have run1: "for_each (replicate 1 OnSocket) (handle X) r = (res, t)"
    by (cases res) (simp_all add: bind_def ret_exec)
  have "(rq_fs r)(p \<mapsto> FileNode content) = rq_fs u"
    using keep u(5) by (simp add: fun_upd_idem)
  with run1 complete_file_result [OF t] u link_linked [of t u s'] show ?thesis
    unfolding file_taken_in_def others_left_def
    by (intro exI [of _ res] exI [of _ t]) (auto simp: link_def split: if_splits)
qed

lemma send_file_out: "within (grows rq_out) (send_file X fuel i header sz)"
proof (induction fuel)
  case 0
  show ?case by (simp add: within_rules)
next
  case (Suc fuel)
  have "within (grows rq_out) (file_read X i info h)" "within (grows rq_out) (count_sent i n)"
      "within (grows rq_out) (update_state Outbound f inform)" for info h n f inform
    by (auto simp: within_def grows_def file_read_def Let_def put_handle_def upd_st_def count_sent_def
        update_state_def exec)
  then show ?case
    unfolding send_file.simps Let_def by (intro within_rules Suc.IH)
qed

lemma file_delivered_all:
  assumes "channel_env X" and "linked s r" and "secured (conn r)"
    and "sending i si q sent todo s" and "todo \<noteq> []"
    and "receiving i ri p sent r" and "ifi_total_size ri = ifi_total_size si"
    and "length (sent @ todo) + read_buffer_size < 2 ^ 63"
    and "\<forall>n. os_disk_fault X p n = None"
    and "header_type header = PtFile" "header_id header = i"
    and "send_file X fuel i header (ifi_total_size si) s = (Done (), s')"
    and "rq_out s' = rq_out s @ ws" "list_all fits_frame ws" "rq_in r = concat ws @ rest"
  shows "\<exists>n. file_taken_in X n i p (sent @ todo) rest s' r"
  using assms
proof (induction fuel arbitrary: s r sent todo si ri ws)
  case 0
  then show ?case by (simp add: no_fuel_exec)
next
  case (Suc fuel)
  note X = Suc.prems(1) and l = Suc.prems(2) and sec = Suc.prems(3) and s = Suc.prems(4)
    and ri = Suc.prems(6) and tot = Suc.prems(7) and run = Suc.prems(12)
  have ok: "\<not> os_read_error X q (length sent)"
    using send_file_read_error [OF s Suc.prems(5)] run by auto
  define d where "d = piece X q sent todo"
  obtain left where todo: "todo = d @ left" using piece_split d_def by metis
  have d: "d \<noteq> []" "length d \<le> read_buffer_size"
    using Suc.prems(5) piece_not_Nil by (simp_all add: d_def piece_def)
  let ?s1 = "put_handle i si \<lparr>fh_path = q, fh_pos = length (sent @ d)\<rparr> s"
  let ?c = "\<lparr>pc_flags = Some 0, pc_offset = Some (word_of_nat (length sent)), pc_body = Some d\<rparr>"
  let ?last = "data_transfer header \<lparr>pc_flags = Some 1, pc_offset = Some (ifi_total_size si), pc_body = Some []\<rparr>"
  let ?tail = "if word_of_nat (length (sent @ d)) = ifi_total_size si then encrypt_and_send X ?last
    else send_file X fuel i header (ifi_total_size si)"
  have "andthen (encrypt_and_send X (data_transfer header ?c)) (andthen (count_sent i (length d)) ?tail) ?s1
      = (Done (), s')"
    using run send_file_round [OF s Suc.prems(5) ok, of fuel header] by (simp only: d_def)
  then obtain t1 where t1: "encrypt_and_send X (data_transfer header ?c) ?s1 = (Done (), t1)"
      and tail1: "andthen (count_sent i (length d)) ?tail t1 = (Done (), s')"
    by (auto simp only: andthen_eq_Done)
  obtain t2 si' where t2: "count_sent i (length d) t1 = (Done (), t2)"
      "sending i si' q (sent @ d) left t2" "ifi_total_size si' = ifi_total_size si"
    using send_round_Done [OF s [unfolded todo] t1] by blast
  have tail2: "?tail t2 = (Done (), s')" using tail1 by (simp add: andthen_Done t2(1))
  have lt2: "linked t2 u" if "linked t1 u" for u :: inbound
    using that count_sent_Done [of i "length d" t1] t2(1) by (auto simp: linked_def)
  have out2: "rq_out t2 = rq_out t1"
    using count_sent_Done [of i "length d" t1] t2(1) by auto
  have ls1: "linked ?s1 r" and os1: "rq_out ?s1 = rq_out s"
    using l by (simp_all add: linked_def put_handle_def upd_st_def)
  obtain ws1 where ws1: "rq_out t1 = rq_out ?s1 @ ws1"
    using withinD [OF encrypt_and_send_out t1] by (auto simp: grows_def)
  have w: "within (grows rq_out) ?tail"
    by (intro within_rules send_file_out)
  obtain ws2 where ws2: "rq_out s' = rq_out t2 @ ws2"
    using withinD [OF w tail2] by (auto simp: grows_def)
  have split: "ws = ws1 @ ws2" "list_all fits_frame ws1" "list_all fits_frame ws2"
      "rq_in r = concat ws1 @ (concat ws2 @ rest)"
    using Suc.prems(13,14,15) ws1 ws2 os1 out2 by auto
  obtain u where u: "handle X OnSocket r = process_file_payload X header ?c u" "linked t1 u"
      "rq_in u = concat ws2 @ rest" "conn u = conn r" "rq_fs u = rq_fs r"
      "is_transferred_files (rq_st u) = is_transferred_files (rq_st r)"
    using file_frame_delivered [OF X ls1 sec Suc.prems(10) t1 ws1 split(2,4)] by blast
  have ru: "receiving (header_id header) ri p sent u"
    using ri u(5,6) Suc.prems(11) by (simp add: receiving_def)
  have big: "sint (ifi_total_size ri) = int (length (sent @ todo))"
    using s tot by (simp add: sending_def signed_of_nat signed_take_bit_int_eq_self del: length_append)
  obtain v where v: "process_file_payload X header ?c u = (Done (), v)"
      "receiving (header_id header) (received ri p (sent @ d)) p (sent @ d) v"
      "rq_fs v = (rq_fs u)(p \<mapsto> FileNode (sent @ d))"
      "\<forall>j. j \<noteq> header_id header \<longrightarrow>
        hm_lookup (is_transferred_files (rq_st v)) j = hm_lookup (is_transferred_files (rq_st u)) j"
    using process_chunk [OF ru, of ?c X] big d Suc.prems(8,9) todo
    by (auto simp: chunk_offset_def chunk_body_def)
  have v': "link v = link u" using chunk_link [OF v(1)] d(1) by (simp add: chunk_body_def)
  have lv: "linked t2 v" using link_linked [OF v'] lt2 u(2) by blast
  have cv: "secured (conn v)" "conn v = conn r" "rq_in v = concat ws2 @ rest"
    using v' u sec by (simp_all add: link_def)
  have rv: "receiving i (received ri p (sent @ d)) p (sent @ d) v"
    using v(2) Suc.prems(11) by simp
  have step: "file_taken_in X (Suc n) i p (sent @ todo) rest s' r"
    if taken: "file_taken_in X n i p (sent @ todo) rest s' v" for n
  proof -
    have same: "hm_lookup (is_transferred_files (rq_st v)) j = hm_lookup (is_transferred_files (rq_st r)) j"
      if "j \<noteq> i" for j
      using that v(4) u(6) Suc.prems(11) by auto
    then have ol: "others_left i v = others_left i r" by (auto simp: others_left_def)
    obtain res r' where r': "for_each (replicate n OnSocket) (handle X) v = (res, r')"
        "rq_fs r' = (rq_fs v)(p \<mapsto> FileNode (sent @ todo))"
        "hm_lookup (is_transferred_files (rq_st r')) i = None"
        "\<forall>j. j \<noteq> i \<longrightarrow>
           hm_lookup (is_transferred_files (rq_st r')) j = hm_lookup (is_transferred_files (rq_st v)) j"
        "if others_left i v then res = Done () \<and> linked s' r' \<and> rq_in r' = rest \<and> conn r' = conn v
         else conn r' = Finished"
      using taken unfolding file_taken_in_def by blast
    have "for_each (replicate (Suc n) OnSocket) (handle X) r = (res, r')"
      using r'(1) u(1) v(1) by (simp add: bind_Done)
    moreover have "rq_fs r' = (rq_fs r)(p \<mapsto> FileNode (sent @ todo))"
      using r'(2) v(3) u(5) by simp
    ultimately show ?thesis
      unfolding file_taken_in_def using r'(3,4,5) same ol cv(2) by auto
  qed
  show ?case
  proof (cases "left = []")
    case True
    have "word_of_nat (length (sent @ d)) = ifi_total_size si"
      using s todo True by (simp add: sending_def)
    with tail2 have fin: "encrypt_and_send X ?last t2 = (Done (), s')" by simp
    have "file_taken_in X 1 i p (sent @ d) rest s' v"
      by (rule last_frame_taken_in [OF X lv cv(1) rv _ Suc.prems(10,11) _ _ fin ws2 split(3) cv(3)])
         (use s tot todo True in \<open>simp_all add: sending_def\<close>)
    with True todo step [of 1] show ?thesis by auto
  next
    case False
    have "word_of_nat (length (sent @ d)) \<noteq> ifi_total_size si"
      using s False offset_eq_total [of "sent @ d" left] todo by (simp add: sending_def)
    then have "send_file X fuel i header (ifi_total_size si') t2 = (Done (), s')"
      using tail2 t2(3) by simp
    then have "\<exists>n. file_taken_in X n i p ((sent @ d) @ left) rest s' v"
      by (intro Suc.IH [OF X lv cv(1) t2(2) False rv _ _ Suc.prems(9,10,11) _ ws2 split(3) cv(3)])
         (use t2(3) tot todo Suc.prems(8) in simp_all)
    then obtain n where "file_taken_in X n i p ((sent @ d) @ left) rest s' v" by blast
    with todo step [of n] show ?thesis by auto
  qed
qed

text \<open>
  What the sender reads is what the receiver stores. If a file is being sent that still has
  the announced length, the receiver accepted it with the same size and has stored the part
  already sent, and the sending loop succeeds, then serving the bytes that the loop wrote to the
  socket brings the rest: the receiver's file holds exactly the sender's bytes, the entry is
  closed, no other file or entry is touched; the transfer is finished if this was the last file,
  and otherwise the two sides are in step for the next one.
\<close>

theorem file_delivered:
  assumes "channel_env X" and "linked s r" and "secured (conn r)"
    and "sending i si q sent todo s" and "todo \<noteq> []"
    and "receiving i ri p sent r" and "ifi_total_size ri = ifi_total_size si"
    and "length (sent @ todo) + read_buffer_size < 2 ^ 63"
    and "\<forall>n. os_disk_fault X p n = None"
    and "send_file X fuel i (file_header i si) (ifi_total_size si) s = (Done (), s')"
    and "rq_out s' = rq_out s @ ws" and "list_all fits_frame ws" and "rq_in r = concat ws @ rest"
  shows "\<exists>n res r'. for_each (replicate n OnSocket) (handle X) r = (res, r')
    \<and> rq_fs r' = (rq_fs r)(p \<mapsto> FileNode (sent @ todo))
    \<and> hm_lookup (is_transferred_files (rq_st r')) i = None
    \<and> (\<forall>j. j \<noteq> i \<longrightarrow>
        hm_lookup (is_transferred_files (rq_st r')) j = hm_lookup (is_transferred_files (rq_st r)) j)
    \<and> (if others_left i r
       then res = Done () \<and> linked s' r' \<and> rq_in r' = rest \<and> conn r' = conn r
       else conn r' = Finished)"
proof -
  have "header_type (file_header i si) = PtFile" "header_id (file_header i si) = i"
    using enum_roundtrip(2) [of PtFile] by (simp_all add: file_header_def header_type_def header_id_def)
  then show ?thesis
    using file_delivered_all [OF assms(1-9) _ _ assms(10-13)] by (simp add: file_taken_in_def)
qed

section \<open>A file that became shorter\<close>

definition stuck :: "i64 \<Rightarrow> 'x request_scheme \<Rightarrow> bool" where
  "stuck i r \<longleftrightarrow> (\<exists>info h. hm_lookup (is_transferred_files (rq_st r)) i = Some info
     \<and> ifi_file info = Some h \<and> ifi_bytes_transferred info \<noteq> ifi_total_size info
     \<and> length (file_content (rq_fs r) (fh_path h)) \<le> fh_pos h)
     \<and> rq_encrypt_key_aes r \<noteq> None \<and> rq_send_hmac r \<noteq> None"

lemma encrypt_and_send_Done:
  assumes "aes_length_ok X" and "\<forall>k. os_write_fault X k = None"
    and "rq_encrypt_key_aes r \<noteq> None" and "rq_send_hmac r \<noteq> None"
  shows "\<exists>t. encrypt_and_send X f r = (Done (), t) \<and> rq_send_hmac t \<noteq> None"
proof -
  obtain key h where k: "rq_encrypt_key_aes r = Some key" "rq_send_hmac r = Some h"
    using assms(3,4) by auto
  show ?thesis
    unfolding seals [OF assms(1) k]
    using assms(2) k
    by (simp add: Let_def send_frame_def andthen_Done write_all_def exec sealing_def)
qed

lemma send_file_succeeds:
  assumes "aes_length_ok X" and "\<forall>k. os_write_fault X k = None" and "\<forall>p n. \<not> os_read_error X p n"
    and "rq_encrypt_key_aes r \<noteq> None" and "rq_send_hmac r \<noteq> None"
    and "sending i info p sent todo r" and "length todo < fuel"
  shows "\<exists>t. send_file X fuel i header (ifi_total_size info) r = (Done (), t)"
  using assms(4-7)
proof (induction fuel arbitrary: sent todo info r)
  case 0
  then show ?case by simp
next
  case (Suc fuel)
  note s = Suc.prems(3) and X = assms(1,2)
  show ?case
  proof (cases "todo = []")
    case True
    with s show ?thesis by (simp add: send_file_end del: send_file.simps)
  next
    case False
    define d where "d = piece X p sent todo"
    obtain left where todo: "todo = d @ left" using piece_split d_def by metis
    have "d \<noteq> []" using False piece_not_Nil by (simp add: d_def)
    with todo Suc.prems(4) have short: "length left < fuel" by (cases d) auto
    let ?r1 = "put_handle i info \<lparr>fh_path = p, fh_pos = length (sent @ d)\<rparr> r"
    let ?f = "data_transfer header \<lparr>pc_flags = Some 0, pc_offset = Some (word_of_nat (length sent)),
      pc_body = Some d\<rparr>"
    have k1: "rq_encrypt_key_aes ?r1 \<noteq> None" "rq_send_hmac ?r1 \<noteq> None"
      using Suc.prems(1,2) by (simp_all add: put_handle_def upd_st_def)
    obtain t1 where t1: "encrypt_and_send X ?f ?r1 = (Done (), t1)" "rq_send_hmac t1 \<noteq> None"
      using encrypt_and_send_Done [OF X k1, of ?f] by blast
    have "core t1 = core ?r1"
      using withinD [OF encrypt_and_send_core t1(1)] by (simp add: same_rel_def)
    then have k2: "rq_encrypt_key_aes t1 \<noteq> None" using k1(1) coreD(5) by metis
    obtain t2 info' where t2: "count_sent i (length d) t1 = (Done (), t2)"
        "sending i info' p (sent @ d) left t2" "ifi_total_size info' = ifi_total_size info"
      using send_round_Done [OF s [unfolded todo] t1(1)] by blast
    have k3: "rq_encrypt_key_aes t2 \<noteq> None" "rq_send_hmac t2 \<noteq> None"
      using count_sent_Done [of i "length d" t1] t2(1) k2 t1(2) by auto
    have round: "send_file X (Suc fuel) i header (ifi_total_size info) r =
      (if word_of_nat (length (sent @ d)) = ifi_total_size info then
         encrypt_and_send X (data_transfer header
           \<lparr>pc_flags = Some 1, pc_offset = Some (ifi_total_size info), pc_body = Some []\<rparr>)
       else send_file X fuel i header (ifi_total_size info)) t2"
      using send_file_round [OF s False, of X fuel header] assms(3) t1(1) t2(1)
      by (simp add: d_def [symmetric] andthen_Done del: send_file.simps length_append of_nat_add)
    show ?thesis
      unfolding round
      using encrypt_and_send_Done [OF X k3] Suc.IH [OF k3 t2(2) short] t2(3) by auto
  qed
qed

text \<open>
  With a healthy network and disk the sending loop succeeds: for a file that still has the
  announced length, with the keys there, no failing write and no failing read, more rounds than
  there are bytes left bring it to its regular end.
\<close>

theorem send_file_completes:
  assumes "aes_length_ok X" and "\<forall>k. os_write_fault X k = None" and "\<forall>p n. \<not> os_read_error X p n"
    and "rq_encrypt_key_aes r \<noteq> None" and "rq_send_hmac r \<noteq> None"
    and "sending i info p sent todo r" and "length todo < fuel"
  shows "\<exists>t. send_file X fuel i header (ifi_total_size info) r = (Done (), t)"
  using assms by (rule send_file_succeeds)

text \<open>
  C39. A file that became shorter after it was announced is never finished: at its end the reads
  give nothing, the count stays below the announced size, and the loop goes on sending empty
  chunks as long as the peer takes them, for any number of rounds.
\<close>

theorem truncated_file_never_ends:
  assumes "aes_length_ok X" and "\<forall>k. os_write_fault X k = None" and "\<forall>p n. \<not> os_read_error X p n"
    and "stuck i r" and "hm_lookup (is_transferred_files (rq_st r)) i = Some info"
  shows "fst (send_file X fuel i header (ifi_total_size info) r) = NoFuel"
  using assms
proof (induction fuel arbitrary: r info)
  case 0
  then show ?case by (simp add: no_fuel_exec)
next
  case (Suc fuel)
  obtain h where h: "ifi_file info = Some h" "ifi_bytes_transferred info \<noteq> ifi_total_size info"
      "length (file_content (rq_fs r) (fh_path h)) \<le> fh_pos h"
    using Suc.prems(4,5) by (auto simp: stuck_def)
  let ?r1 = "put_handle i info h r"
  let ?f = "data_transfer header \<lparr>pc_flags = Some 0, pc_offset = Some (ifi_bytes_transferred info),
    pc_body = Some []\<rparr>"
  have read: "file_read X i info h r = (Done [], ?r1)"
    using h(3) Suc.prems(3) by (simp add: file_read_def Let_def)
  obtain t1 where t1: "encrypt_and_send X ?f ?r1 = (Done (), t1)" "rq_send_hmac t1 \<noteq> None"
    using encrypt_and_send_Done [OF Suc.prems(1,2), of ?r1 ?f] Suc.prems(4)
    by (auto simp: stuck_def put_handle_def upd_st_def)
  have c: "core t1 = core ?r1"
    using withinD [OF encrypt_and_send_core t1(1)] by (simp add: same_rel_def)
  obtain t2 where t2: "count_sent i 0 t1 = (Done (), t2)" "rq_fs t2 = rq_fs t1"
      "rq_encrypt_key_aes t2 = rq_encrypt_key_aes t1" "rq_send_hmac t2 = rq_send_hmac t1"
      "is_transferred_files (rq_st t2) = hm_adjust i (\<lambda>mu. mu\<lparr>ifi_bytes_transferred :=
         ifi_bytes_transferred mu + word_of_nat 0\<rparr>) (is_transferred_files (rq_st t1))"
    using count_sent_Done [of i 0 t1] by blast
  have files: "is_transferred_files (rq_st t1) = hm_insert i (info\<lparr>ifi_file := Some h\<rparr>)
      (is_transferred_files (rq_st r))"
    using coreD(8) [OF c, THEN arg_cong, of is_transferred_files] by (simp add: put_handle_def upd_st_def)
  have info: "info\<lparr>ifi_file := Some h\<rparr> = info" using h(1) by simp
  have l2: "hm_lookup (is_transferred_files (rq_st t2)) i = Some info"
    using t2(5) files info by simp
  have "rq_fs t2 = rq_fs r" "rq_encrypt_key_aes t2 = rq_encrypt_key_aes r"
    using t2(2,3) coreD(3,5) [OF c] by (simp_all add: put_handle_def upd_st_def)
  then have st: "stuck i t2"
    using Suc.prems(4) h l2 t1(2) t2(4) by (auto simp: stuck_def)
  have "send_file X (Suc fuel) i header (ifi_total_size info) r
      = send_file X fuel i header (ifi_total_size info) t2"
    using Suc.prems(5) h(1,2) t1(1) t2(1) by (simp add: exec bind_Done read andthen_Done Let_def)
  with Suc.IH [OF Suc.prems(1-3) st l2] show ?case by simp
qed

end
