(* ===== verification/OutboundStates.thy ===== *)
theory OutboundStates
  imports Outbound InboundStates
begin

text \<open>
  The sending side as a state machine, what it does to the file system (nothing), and what it
  announces.
\<close>

section \<open>The moves\<close>

inductive out_move :: "conn_state \<Rightarrow> conn_state \<Rightarrow> bool" where
  client_finish: "out_move SentUkeyClientInit SentUkeyClientFinish"
| connection_response: "out_move SentUkeyClientFinish SentPairedKeyEncryption"
| paired_key_encryption: "out_move SentPairedKeyEncryption SentPairedKeyResult"
| paired_key_result: "out_move SentPairedKeyResult SentIntroduction"
| accepted: "out_move SentIntroduction SendingFiles"      \<comment> \<open>an error while sending\<close>
| all_sent: "out_move SentIntroduction Finished"
| refused: "out_move SentIntroduction Disconnected"
| cancelled: "s \<notin> {SentUkeyClientInit, SentUkeyClientFinish} \<Longrightarrow> out_move s Cancelled"

inductive_cases out_moveE: "out_move s t"

definition out_secure_move :: "conn_state \<Rightarrow> conn_state \<Rightarrow> bool" where
  "out_secure_move s t \<longleftrightarrow> t = Cancelled
     \<or> s = SentPairedKeyEncryption \<and> t = SentPairedKeyResult
     \<or> s = SentPairedKeyResult \<and> t = SentIntroduction
     \<or> s = SentIntroduction \<and> t \<in> {SendingFiles, Finished, Disconnected}"

lemma out_move_secure:
  "s \<notin> {SentUkeyClientInit, SentUkeyClientFinish} \<Longrightarrow> out_secure_move s t \<Longrightarrow> out_move s t"
  by (auto simp: out_secure_move_def intro: out_move.intros)

section \<open>One event, at most one move\<close>

lemma count_sent_conn [within_rules]: "within (same_rel conn) (count_sent i n)"
  unfolding count_sent_def by (intro within_rules) (simp add: Let_def)

lemma file_read_same [within_rules]:
  "within (same_rel conn) (file_read X i info h)" "within (same_rel rq_fs) (file_read X i info h)"
  by (auto simp: within_def same_rel_def file_read_def Let_def put_handle_def upd_st_def conn_def)

lemma send_file_conn [within_rules]: "within (same_rel conn) (send_file X fuel i header sz)"
proof (induction fuel)
  case 0
  show ?case by (simp add: within_rules)
next
  case (Suc fuel)
  then show ?case unfolding send_file.simps Let_def
    by (intro within_rules; simp)
qed

lemma enters_set: "within (may_move (\<lambda>_ t. t \<in> S)) (set_state role s inform)" if "s \<in> S"
  using that by (intro set_state_move) simp

lemma send_files_move: "within (may_move (\<lambda>_ t. t \<in> {Finished})) (send_files X fuel ids)"
proof (induction ids)
  case Nil
  show ?case unfolding send_files.simps
    by (intro mv.post_andthen enters_set within_rules) simp
next
  case (Cons i ids)
  then show ?case unfolding send_files.simps
    by (intro mv.pre_bind mv.option_move mv.pre_andthen within_rules) simp_all
qed

lemma collect_files_conn [within_rules]:
  "within (same_rel conn) (collect_files X fs metas infos sz)"
proof (induction fs arbitrary: metas infos sz)
  case Nil
  show ?case by (simp add: within_rules)
next
  case (Cons f fs)
  then show ?case unfolding collect_files.simps Let_def
    by (intro within_rules; simp)
qed

lemma out_parts_conn [within_rules]:
  "within (same_rel conn) (send_introduction X v)"
  "within (same_rel conn) (answer_paired_key_encryption X v)"
  "within (same_rel conn) (check_connection_response X f)"
  unfolding send_introduction_def answer_paired_key_encryption_def check_connection_response_def
    case_prod_beta
  by (intro within_rules; simp)+

lemma process_consent_conn:
  "conn (snd (process_consent X fuel v r)) \<in> {conn r, SendingFiles, Finished, Disconnected}"
proof -
  have accept: "within (may_move (\<lambda>_ t. t \<in> {SendingFiles, Finished}))
      (bind draw (\<lambda>k. andthen (update_state Outbound (\<lambda>e. e\<lparr>is_state := SendingFiles,
          is_transfer_start := Some (os_now X k)\<rparr>) True)
        (bind (get (\<lambda>r. os_key_order X (hm_keys (is_transferred_files (rq_st r))))) (send_files X fuel))))"
  proof (rule withinI)
    fix q res t
    assume "bind draw (\<lambda>k. andthen (update_state Outbound (\<lambda>e. e\<lparr>is_state := SendingFiles,
          is_transfer_start := Some (os_now X k)\<rparr>) True)
        (bind (get (\<lambda>r. os_key_order X (hm_keys (is_transferred_files (rq_st r))))) (send_files X fuel))) q = (res, t)"
    then obtain u ids where "send_files X fuel ids u = (res, t)" "conn u = SendingFiles"
      by (auto simp: bind_Done draw_def andthen_Done update_state_def exec conn_def upd_st_def)
    then show "may_move (\<lambda>_ t. t \<in> {SendingFiles, Finished}) q t"
      using withinD [OF send_files_move, of X fuel ids u res t] by (auto simp: may_move_def)
  qed
  have "within (may_move (\<lambda>_ t. t \<in> {Disconnected})) (finish X Outbound Disconnected)"
    by (rule finish_move) simp
  from within_at [OF this, of r] within_at [OF accept, of r] show ?thesis
    unfolding process_consent_def
    by (auto simp: may_move_def exec split: option.split)
qed

lemma process_setup_move: "within (may_move out_secure_move) (process_setup X fuel f)"
proof -
  have start: "within (same_rel conn) m \<Longrightarrow> out_secure_move (conn r) t \<Longrightarrow>
      may_move out_secure_move r (snd (andthen m (set_state role t inform) r))" for m r t role inform
  proof -
    assume m: "within (same_rel conn) m" and "out_secure_move (conn r) t"
    have "within (may_move (\<lambda>_ s. s = t)) (andthen m (set_state role t inform))"
      by (intro mv.pre_andthen m set_state_move HOL.refl)
    then show ?thesis
      using \<open>out_secure_move (conn r) t\<close> by (auto simp: within_def may_move_def dest: spec [of _ r])
  qed
  have consent: "may_move out_secure_move r (snd (process_consent X fuel v r))"
    if "conn r = SentIntroduction" for v r
    using process_consent_conn [of X fuel v r] that by (auto simp: may_move_def out_secure_move_def)
  have stay: "may_move M r r" for M and r :: outbound
    by (simp add: may_move_def)
  show ?thesis
    unfolding process_setup_def conn_def [symmetric]
    by (rule mv.pre_bind, rule within_rules, rule mv.if_move, rule finish_move,
        simp add: out_secure_move_def, rule mv.move_get)
       (auto intro!: start consent stay within_rules simp: out_secure_move_def exec)
qed

lemma out_offline_frame_move: "within (may_move out_secure_move) (out_offline_frame X fuel f)"
proof -
  have quiet: "within (may_move M) (ret ())" "within (may_move M) (fail e)"
      "within (may_move M) (remove_buffer i)" for M i e
    by (intro mv.still within_rules; simp add: conn_def)+
  have payload: "within (may_move out_secure_move) (out_bytes_payload X fuel header chunk)" for header chunk
    unfolding out_bytes_payload_def Let_def
    by (intro mv.if_move mv.pre_andthen mv.pre_bind process_setup_move quiet within_rules)
       (simp_all add: conn_def upd_st_def)
  have transfer: "within (may_move out_secure_move) (out_payload_transfer X fuel p)" for p
    unfolding out_payload_transfer_def
    by (intro mv.pre_bind within_rules payload mv.still)
  show ?thesis
    unfolding out_offline_frame_def
    by (intro mv.pre_bind within_rules transfer mv.still)
qed

lemma out_serve_frame_move: "within (may_move out_move) (out_serve_frame X fuel d)"
proof -
  have enters: "may_move out_move r (snd (m r))"
    if "within (may_move (\<lambda>_ t. t = c)) m" "out_move (conn r) c" for m r c
    using within_at [OF that(1), of r] that(2) by (auto simp: may_move_def)
  have secure: "may_move out_move r (snd (m r))"
    if "within (may_move out_secure_move) m" "conn r \<notin> {SentUkeyClientInit, SentUkeyClientFinish}" for m r
    using within_at [OF that(1), of r] out_move_secure [OF that(2)] by (auto simp: may_move_def)
  note parts = mv.pre_bind mv.pre_andthen enters_update within_rules
  show ?thesis
    unfolding out_serve_frame_def conn_def [symmetric] out_secure_message_def
  proof (rule mv.move_get, goal_cases)
    case (1 r)
    consider "conn r = SentUkeyClientInit" | "conn r = SentUkeyClientFinish"
      | "conn r \<notin> {SentUkeyClientInit, SentUkeyClientFinish}" by blast
    then show ?case
    proof cases
      case 1
      show ?thesis
        by (simp add: 1, rule enters, intro parts) (auto simp: 1 intro: out_move.intros)
    next
      case 2
      show ?thesis
        by (simp add: 2, rule enters, intro parts) (auto simp: 2 intro: out_move.intros)
    next
      case 3
      then show ?thesis
        by (simp, intro secure mv.pre_bind out_offline_frame_move within_rules) simp
    qed
  qed
qed

lemma out_handle_step:
  assumes "out_handle X fuel ev r = (res, r')"
  shows "conn r' = conn r \<or>
    (case ev of
       OnSocket \<Rightarrow> out_move (conn r) (conn r')
     | OnChannel k (RecvOk m) \<Rightarrow> cm_direction m = FrontToLib \<and> cm_id m = is_id (rq_st r)
         \<and> cm_action m = Some CancelTransfer \<and> conn r' = Cancelled
     | OnChannel k _ \<Rightarrow> False)"
proof (cases ev)
  case OnSocket
  have "within (same_rel conn) (read_message lb)" for lb
    unfolding read_message_def Let_def by (intro within_rules)
  then have "within (may_move out_move) (out_handle X fuel OnSocket)"
    unfolding out_handle_def out_handle_frame_def event.case
    by (intro mv.pre_bind out_serve_frame_move within_rules)
  with assms OnSocket show ?thesis by (auto dest: withinD simp: may_move_def)
next
  case (OnChannel k received)
  define r1 where "r1 = r\<lparr>rq_in := drop (min k 3) (rq_in r)\<rparr>"
  have r1: "conn r1 = conn r" "is_id (rq_st r1) = is_id (rq_st r)"
    by (simp_all add: r1_def conn_def)
  show ?thesis
  proof (cases received)
    case (RecvOk m)
    have "within (may_move (\<lambda>_ t. t = Cancelled)) (finish X Outbound Cancelled)"
      by (rule finish_move) simp
    then have cancel: "conn (snd (finish X Outbound Cancelled r1)) \<in> {conn r1, Cancelled}"
      by (auto simp: within_def may_move_def dest: spec [of _ r1])
    have "out_handle X fuel ev r = (if cm_direction m = LibToFront \<or> cm_id m \<noteq> is_id (rq_st r) then (Done (), r1)
        else out_handle_action X (cm_action m) r1)"
      using OnChannel RecvOk r1 by (simp add: out_handle_def drop_partial_length_def exec r1_def)
    moreover have "out_handle_action X (cm_action m) r1 = (if cm_action m = Some CancelTransfer
        then finish X Outbound Cancelled r1 else (Done (), r1))"
      by (auto simp: out_handle_action_def exec split: option.split channel_action.split)
    ultimately show ?thesis
      using assms cancel r1 OnChannel RecvOk
      by (cases "cm_direction m") (auto split: if_splits)
  qed (use assms OnChannel r1 in \<open>auto simp: out_handle_def drop_partial_length_def exec r1_def\<close>)
qed

text \<open>
  C18. One call of the sending side's \<open>handle\<close> makes at most one move, along the protocol: a
  frame cannot skip a phase, files are sent only in answer to the peer's consent after the
  introduction, and the only thing the user can do is cancel.
\<close>

theorem out_handle_moves:
  assumes "out_handle X fuel ev r = (res, r')"
  shows "conn r' = conn r \<or>
    (case ev of
       OnSocket \<Rightarrow> out_move (conn r) (conn r')
     | OnChannel k (RecvOk m) \<Rightarrow> cm_direction m = FrontToLib \<and> cm_id m = is_id (rq_st r)
         \<and> cm_action m = Some CancelTransfer \<and> conn r' = Cancelled
     | OnChannel k _ \<Rightarrow> False)"
  using assms by (rule out_handle_step)

section \<open>The sender and the file system\<close>

lemma send_file_fs [within_rules]: "within (same_rel rq_fs) (send_file X fuel i header sz)"
proof (induction fuel)
  case 0
  show ?case by (simp add: within_rules)
next
  case (Suc fuel)
  have "within (same_rel rq_fs) (count_sent i n)" for n
    unfolding count_sent_def by (intro within_rules)
  with Suc show ?case unfolding send_file.simps Let_def by (intro within_rules)
qed

lemma send_files_fs [within_rules]: "within (same_rel rq_fs) (send_files X fuel ids)"
proof (induction ids)
  case Nil
  show ?case unfolding send_files.simps set_state_def by (intro within_rules)
next
  case (Cons i ids)
  then show ?case unfolding send_files.simps by (intro within_rules)
qed

lemma collect_files_fs [within_rules]: "within (same_rel rq_fs) (collect_files X fs metas infos sz)"
proof (induction fs arbitrary: metas infos sz)
  case Nil
  show ?case by (simp add: within_rules)
next
  case (Cons f fs)
  then show ?case unfolding collect_files.simps Let_def by (intro within_rules)
qed

lemma set_state_finish_fs [within_rules]:
  "within (same_rel rq_fs) (set_state role s inform)" "within (same_rel rq_fs) (finish X role s)"
  unfolding finish_def set_state_def by (intro within_rules)+

lemma out_setup_fs [within_rules]: "within (same_rel rq_fs) (process_setup X fuel f)"
  unfolding process_setup_def answer_paired_key_encryption_def send_introduction_def
    process_consent_def case_prod_beta
  by (intro within_rules)

lemma out_handle_fs: "within (same_rel rq_fs) (out_handle X fuel ev)"
proof -
  have frame: "within (same_rel rq_fs) (out_offline_frame X fuel f)" for f
    unfolding out_offline_frame_def out_payload_transfer_def out_bytes_payload_def entry_buffer_def
      remove_buffer_def Let_def
    by (intro within_rules; simp)
  have "within (same_rel rq_fs) (out_serve_frame X fuel d)" for d
    unfolding out_serve_frame_def check_connection_response_def out_secure_message_def
    by (intro within_rules frame)
  then have sock: "within (same_rel rq_fs) (out_handle X fuel OnSocket)"
    unfolding out_handle_def out_handle_frame_def read_message_def Let_def event.case
    by (intro within_rules)
  show ?thesis
  proof (cases ev)
    case (OnChannel k received)
    have "within (same_rel rq_fs) (out_handle_action X a)" for a
      unfolding out_handle_action_def by (intro within_rules)
    then show ?thesis
      unfolding OnChannel out_handle_def drop_partial_length_def event.case
      by (intro within_rules) simp_all
  qed (use sock in simp)
qed

text \<open>
  Sending never changes the file system: whatever frames come and whatever the user does,
  every path holds after any events what it held before, failures included.
\<close>

theorem sender_keeps_files:
  assumes "for_each evs (out_handle X fuel) r = (res, t)"
  shows "rq_fs t = rq_fs r"
proof -
  have "within (same_rel rq_fs) (for_each evs (out_handle X fuel))"
    by (intro within_rules out_handle_fs)
  from withinD [OF this assms] show ?thesis by (simp add: same_rel_def)
qed

section \<open>What is announced\<close>

text \<open>The files that are announced: those that exist, open and have metadata.\<close>

definition announceable :: "env \<Rightarrow> (path \<Rightarrow> fs_node option) \<Rightarrow> path \<Rightarrow> bool" where
  "announceable X fs f \<longleftrightarrow> is_file fs f \<and> \<not> os_open_error X f \<and> \<not> os_metadata_error X f"

definition content_size :: "(path \<Rightarrow> fs_node option) \<Rightarrow> path \<Rightarrow> u64" where
  "content_size fs f = word_of_nat (length (file_content fs f))"

lemma collect_files_announces:
  assumes "collect_files X files metas infos n r = (Done (metas', infos', n'), t)"
  shows "\<exists>new. metas' = metas @ new
    \<and> map fm_name new = map path_file_name (filter (announceable X (rq_fs r)) files)
    \<and> map fm_size new = map (\<lambda>f. Some (content_size (rq_fs r) f)) (filter (announceable X (rq_fs r)) files)
    \<and> n' = n + sum_list (map (content_size (rq_fs r)) (filter (announceable X (rq_fs r)) files))
    \<and> (\<forall>i. hm_lookup infos' i \<noteq> None \<longleftrightarrow> hm_lookup infos i \<noteq> None \<or> i \<in> file_payload_id ` set new)"
  using assms
proof (induction files arbitrary: metas infos n r)
  case Nil
  then show ?case by (simp add: ret_exec)
next
  case (Cons f fs)
  show ?case
  proof (cases "announceable X (rq_fs r) f")
    case False
    with Cons.prems have "collect_files X fs metas infos n r = (Done (metas', infos', n'), t)"
      by (auto simp: announceable_def exec split: if_splits)
    with Cons.IH [OF this] False show ?thesis by simp
  next
    case True
    obtain fname where fname: "path_file_name f = Some fname"
      using Cons.prems True
      by (cases "path_file_name f") (auto simp: announceable_def exec Let_def)
    let ?m = "\<lparr>fm_name = Some fname, fm_type = Some (enum_num file_type_table (meta_type (os_mime X f) f)),
      fm_payload_id = Some (os_rand_i64 X (rq_draws r)), fm_size = Some (content_size (rq_fs r) f),
      fm_mime_type = Some (os_mime X f)\<rparr>"
    have run: "collect_files X fs (metas @ [?m]) (hm_insert (file_payload_id ?m) (outgoing_info ?m f) infos)
        (n + content_size (rq_fs r) f) (r\<lparr>rq_draws := Suc (rq_draws r)\<rparr>) = (Done (metas', infos', n'), t)"
      using Cons.prems True fname
      by (simp add: announceable_def exec Let_def draw_def bind_Done content_size_def)
    have lk: "hm_lookup (hm_insert (file_payload_id ?m) (outgoing_info ?m f) infos) i \<noteq> None
        \<longleftrightarrow> i = file_payload_id ?m \<or> hm_lookup infos i \<noteq> None" for i
      by simp
    have same_fs: "rq_fs (r\<lparr>rq_draws := Suc (rq_draws r)\<rparr>) = rq_fs r"
      by simp
    from Cons.IH [OF run, unfolded lk same_fs]
    obtain new where new: "metas' = (metas @ [?m]) @ new
      \<and> map fm_name new = map path_file_name (filter (announceable X (rq_fs r)) fs)
      \<and> map fm_size new = map (\<lambda>f. Some (content_size (rq_fs r) f)) (filter (announceable X (rq_fs r)) fs)
      \<and> n' = n + content_size (rq_fs r) f
          + sum_list (map (content_size (rq_fs r)) (filter (announceable X (rq_fs r)) fs))
      \<and> (\<forall>i. hm_lookup infos' i \<noteq> None \<longleftrightarrow>
          (i = file_payload_id ?m \<or> hm_lookup infos i \<noteq> None) \<or> i \<in> file_payload_id ` set new)"
      by (rule exE)
    then have keys: "\<forall>i. hm_lookup infos' i \<noteq> None \<longleftrightarrow>
          (i = file_payload_id ?m \<or> hm_lookup infos i \<noteq> None) \<or> i \<in> file_payload_id ` set new"
      by (elim conjE)
    have "\<forall>i. hm_lookup infos' i \<noteq> None \<longleftrightarrow>
        hm_lookup infos i \<noteq> None \<or> i \<in> file_payload_id ` set (?m # new)"
      unfolding list.set(2) image_insert insert_iff keys [rule_format] by iprover
    moreover have "metas' = metas @ (?m # new)"
      "map fm_name (?m # new) = map path_file_name (filter (announceable X (rq_fs r)) (f # fs))"
      "map fm_size (?m # new)
        = map (\<lambda>f. Some (content_size (rq_fs r) f)) (filter (announceable X (rq_fs r)) (f # fs))"
      "n' = n + sum_list (map (content_size (rq_fs r)) (filter (announceable X (rq_fs r)) (f # fs)))"
      using new True fname by simp_all
    ultimately show ?thesis by blast
  qed
qed

text \<open>
  The introduction announces what will be sent: one entry for each path of the payload that
  is an accessible file, in order, with its last component as name and its length as size; the
  total is the sum of the sizes, and exactly the announced payload ids have a file to send.
\<close>

theorem introduction_announces:
  assumes "collect_files X files [] [] 0 r = (Done (metas, infos, total_to_send), t)"
  shows "map fm_name metas = map path_file_name (filter (announceable X (rq_fs r)) files)
    \<and> map fm_size metas = map (\<lambda>f. Some (content_size (rq_fs r) f)) (filter (announceable X (rq_fs r)) files)
    \<and> total_to_send = sum_list (map (content_size (rq_fs r)) (filter (announceable X (rq_fs r)) files))
    \<and> (\<forall>i. hm_lookup infos i \<noteq> None \<longleftrightarrow> i \<in> file_payload_id ` set metas)"
  using collect_files_announces [OF assms] by auto

end
