(* ===== verification/Serial.thy ===== *)
theory Serial
  imports Externals
begin

text \<open>
  A concrete codec for the messages of \<open>Wire\<close>, so that the assumptions on the generated
  codec have a model that computes. It is not the protocol-buffer format: a serializer is a pair
  of an encoder and a decoder that reads one value from the front of the input, and the messages
  are built from a few combinators, each of which is faithful if its parts are.
\<close>

section \<open>Serializers\<close>

type_synonym 'a ser = "('a \<Rightarrow> bytes) \<times> (bytes \<Rightarrow> ('a \<times> bytes) option)"

definition faithful :: "'a ser \<Rightarrow> bool" where
  "faithful s \<longleftrightarrow> (\<forall>a rest. snd s (fst s a @ rest) = Some (a, rest))"

named_theorems faithful_rules \<open>the combinators keep faithfulness\<close>
named_theorems ser_length \<open>the length of an encoded value\<close>

lemma faithfulD: "faithful s \<Longrightarrow> snd s (fst s a @ rest) = Some (a, rest)"
  by (simp add: faithful_def)

definition encode :: "'a ser \<Rightarrow> 'a \<Rightarrow> bytes" where
  "encode s a = fst s a"

definition decode :: "'a ser \<Rightarrow> bytes \<Rightarrow> 'a option" where
  "decode s b = (case snd s b of Some (a, []) \<Rightarrow> Some a | _ \<Rightarrow> None)"

lemma decode_encode: "faithful s \<Longrightarrow> decode s (encode s a) = Some a"
  using faithfulD [of s a "[]"] by (simp add: decode_def encode_def)

section \<open>Combinators\<close>

definition unit_ser :: "unit ser" where
  "unit_ser = (\<lambda>_. [], \<lambda>b. Some ((), b))"

definition byte_ser :: "byte ser" where
  "byte_ser = (\<lambda>x. [x], \<lambda>b. case b of [] \<Rightarrow> None | x # b' \<Rightarrow> Some (x, b'))"

definition map_ser :: "('b \<Rightarrow> 'a) \<Rightarrow> ('a \<Rightarrow> 'b) \<Rightarrow> 'a ser \<Rightarrow> 'b ser" where
  "map_ser f g s = (fst s \<circ> f, \<lambda>b. map_option (\<lambda>(a, b'). (g a, b')) (snd s b))"

definition pair_ser :: "'a ser \<Rightarrow> 'b ser \<Rightarrow> ('a \<times> 'b) ser" where
  "pair_ser s t = (\<lambda>(x, y). fst s x @ fst t y,
     \<lambda>b. case snd s b of None \<Rightarrow> None
       | Some (x, b') \<Rightarrow> map_option (\<lambda>(y, b''). ((x, y), b'')) (snd t b'))"

definition opt_ser :: "'a ser \<Rightarrow> 'a option ser" where
  "opt_ser s = (\<lambda>x. case x of None \<Rightarrow> [0] | Some a \<Rightarrow> 1 # fst s a,
     \<lambda>b. case b of [] \<Rightarrow> None
       | t # b' \<Rightarrow> if t = 0 then Some (None, b')
           else map_option (\<lambda>(a, b''). (Some a, b'')) (snd s b'))"

fun enc_list :: "('a \<Rightarrow> bytes) \<Rightarrow> 'a list \<Rightarrow> bytes" where
  "enc_list e [] = [0]"
| "enc_list e (x # xs) = 1 # e x @ enc_list e xs"

fun dec_list :: "nat \<Rightarrow> (bytes \<Rightarrow> ('a \<times> bytes) option) \<Rightarrow> bytes \<Rightarrow> ('a list \<times> bytes) option" where
  "dec_list 0 d b = None"
| "dec_list (Suc n) d [] = None"
| "dec_list (Suc n) d (t # b) =
     (if t = 0 then Some ([], b)
      else case d b of None \<Rightarrow> None
        | Some (x, b') \<Rightarrow> map_option (\<lambda>(xs, b''). (x # xs, b'')) (dec_list n d b'))"

definition list_ser :: "'a ser \<Rightarrow> 'a list ser" where
  "list_ser s = (enc_list (fst s), \<lambda>b. dec_list (length b) (snd s) b)"

text \<open>A word as its bits, the lowest first.\<close>

definition enc_word :: "'a::len word \<Rightarrow> bytes" where
  "enc_word w = map (\<lambda>i. of_bool (bit w i)) [0..<LENGTH('a)]"

definition word_ser :: "'a::len word ser" where
  "word_ser = (enc_word, \<lambda>b. if LENGTH('a) \<le> length b
     then Some (horner_sum of_bool 2 (map (\<lambda>x. x = 1) (take LENGTH('a) b)), drop LENGTH('a) b)
     else None)"

definition bool_ser :: "bool ser" where
  "bool_ser = map_ser of_bool (\<lambda>x. x = 1) byte_ser"

definition bytes_ser :: "bytes ser" where
  "bytes_ser = list_ser byte_ser"

definition string_ser :: "string ser" where
  "string_ser = map_ser as_bytes chars bytes_ser"

section \<open>They are faithful\<close>

lemma faithful_unit [faithful_rules]: "faithful unit_ser"
  and faithful_byte [faithful_rules]: "faithful byte_ser"
  by (simp_all add: faithful_def unit_ser_def byte_ser_def)

lemma faithful_map: "faithful s \<Longrightarrow> (\<And>x. g (f x) = x) \<Longrightarrow> faithful (map_ser f g s)"
  by (simp add: faithful_def map_ser_def)

lemma faithful_pair [faithful_rules]: "faithful s \<Longrightarrow> faithful t \<Longrightarrow> faithful (pair_ser s t)"
  by (simp add: faithful_def pair_ser_def split: prod.split)

lemma faithful_opt [faithful_rules]: "faithful s \<Longrightarrow> faithful (opt_ser s)"
  by (auto simp: faithful_def opt_ser_def split: option.split)

lemma dec_enc_list:
  assumes "faithful s" and "length xs < n"
  shows "dec_list n (snd s) (enc_list (fst s) xs @ rest) = Some (xs, rest)"
  using assms(2)
proof (induction xs arbitrary: n)
  case Nil
  then show ?case by (cases n) simp_all
next
  case (Cons x xs)
  then show ?case using assms(1) by (cases n) (simp_all add: faithfulD)
qed

lemma enc_list_length: "length xs < length (enc_list e xs)"
  by (induction xs) auto

lemma faithful_list [faithful_rules]: "faithful s \<Longrightarrow> faithful (list_ser s)"
  unfolding faithful_def list_ser_def
  by (auto intro!: dec_enc_list [unfolded faithful_def] simp: enc_list_length trans_less_add1)

lemma faithful_word [faithful_rules]: "faithful (word_ser :: 'a::len word ser)"
proof -
  have "(\<lambda>x. x = 1) \<circ> (\<lambda>i. of_bool (bit w i) :: byte) = bit w" for w :: "'a word"
    by (simp add: fun_eq_iff)
  then show ?thesis
    by (simp add: faithful_def word_ser_def enc_word_def horner_sum_bit_eq_take_bit)
qed

lemma faithful_bool [faithful_rules]: "faithful bool_ser"
  unfolding bool_ser_def by (intro faithful_map faithful_rules) simp

lemma faithful_bytes [faithful_rules]: "faithful bytes_ser"
  unfolding bytes_ser_def by (intro faithful_rules)

lemma faithful_string [faithful_rules]: "faithful string_ser"
  unfolding string_ser_def by (intro faithful_map faithful_rules chars_as_bytes)

section \<open>Lengths\<close>

lemma ser_lengths [ser_length]:
  "length (fst (map_ser f g s) x) = length (fst s (f x))"
  "length (fst (pair_ser s t) p) = length (fst s (fst p)) + length (fst t (snd p))"
  "length (fst (opt_ser s) None) = 1" "length (fst (opt_ser s) (Some a)) = 1 + length (fst s a)"
  "length (fst (word_ser :: 'a::len word ser) w) = LENGTH('a)"
  "length (fst unit_ser u) = 0" "length (fst byte_ser b) = 1"
  by (simp_all add: map_ser_def pair_ser_def opt_ser_def word_ser_def enc_word_def unit_ser_def
      byte_ser_def split: prod.split)

lemma bytes_length [ser_length]: "length (fst bytes_ser bs) = 2 * length bs + 1"
  by (induction bs) (simp_all add: bytes_ser_def list_ser_def byte_ser_def)

lemma string_length [ser_length]: "length (fst string_ser cs) = 2 * length cs + 1"
  by (simp add: string_ser_def ser_length)

lemma bool_length [ser_length]: "length (fst bool_ser c) = 1"
  by (simp add: bool_ser_def ser_length)

end
