(* ===== verification/Instances.thy ===== *)
theory Instances
  imports Serial Handshake
begin

text \<open>
  A concrete environment: serializers for the messages, CBC replaced by the bare PKCS7 padding,
  constant hashes and keys, a reliable network and disk, and an operating system whose random
  bytes count upwards. The theorems of the development hold for every environment that satisfies
  the named assumptions; this one shows that the assumptions can be met together.
\<close>

section \<open>The messages\<close>

definition payload_header_ser :: "payload_header ser" where
  "payload_header_ser = map_ser (\<lambda>m. (ph_id m, ph_type m, ph_total_size m, ph_is_sensitive m, ph_file_name m))
     (\<lambda>(a, b, c, d, e). \<lparr>ph_id = a, ph_type = b, ph_total_size = c, ph_is_sensitive = d, ph_file_name = e\<rparr>)
     (pair_ser (opt_ser word_ser) (pair_ser (opt_ser word_ser) (pair_ser (opt_ser word_ser) (pair_ser (opt_ser bool_ser) (opt_ser string_ser)))))"

lemma faithful_payload_header [faithful_rules]: "faithful payload_header_ser"
  unfolding payload_header_ser_def by (intro faithful_map faithful_rules) simp

definition payload_chunk_ser :: "payload_chunk ser" where
  "payload_chunk_ser = map_ser (\<lambda>m. (pc_flags m, pc_offset m, pc_body m))
     (\<lambda>(a, b, c). \<lparr>pc_flags = a, pc_offset = b, pc_body = c\<rparr>)
     (pair_ser (opt_ser word_ser) (pair_ser (opt_ser word_ser) (opt_ser bytes_ser)))"

lemma faithful_payload_chunk [faithful_rules]: "faithful payload_chunk_ser"
  unfolding payload_chunk_ser_def by (intro faithful_map faithful_rules) simp

definition payload_transfer_frame_ser :: "payload_transfer_frame ser" where
  "payload_transfer_frame_ser = map_ser (\<lambda>m. (pt_packet_type m, pt_payload_header m, pt_payload_chunk m))
     (\<lambda>(a, b, c). \<lparr>pt_packet_type = a, pt_payload_header = b, pt_payload_chunk = c\<rparr>)
     (pair_ser (opt_ser word_ser) (pair_ser (opt_ser payload_header_ser) (opt_ser payload_chunk_ser)))"

lemma faithful_payload_transfer_frame [faithful_rules]: "faithful payload_transfer_frame_ser"
  unfolding payload_transfer_frame_ser_def by (intro faithful_map faithful_rules) simp

definition connection_request_frame_ser :: "connection_request_frame ser" where
  "connection_request_frame_ser = map_ser (\<lambda>m. (cr_endpoint_id m, cr_endpoint_name m, cr_mediums m, cr_endpoint_info m))
     (\<lambda>(a, b, c, d). \<lparr>cr_endpoint_id = a, cr_endpoint_name = b, cr_mediums = c, cr_endpoint_info = d\<rparr>)
     (pair_ser (opt_ser string_ser) (pair_ser (opt_ser bytes_ser) (pair_ser (list_ser word_ser) (opt_ser bytes_ser))))"

lemma faithful_connection_request_frame [faithful_rules]: "faithful connection_request_frame_ser"
  unfolding connection_request_frame_ser_def by (intro faithful_map faithful_rules) simp

definition connection_response_frame_ser :: "connection_response_frame ser" where
  "connection_response_frame_ser = map_ser (\<lambda>m. (cresp_response m, cresp_os_info m))
     (\<lambda>(a, b). \<lparr>cresp_response = a, cresp_os_info = b\<rparr>)
     (pair_ser (opt_ser word_ser) (opt_ser (opt_ser word_ser)))"

lemma faithful_connection_response_frame [faithful_rules]: "faithful connection_response_frame_ser"
  unfolding connection_response_frame_ser_def by (intro faithful_map faithful_rules) simp

definition v1_frame_ser :: "v1_frame ser" where
  "v1_frame_ser = map_ser (\<lambda>m. (v1_type m, v1_connection_request m, v1_connection_response m, v1_payload_transfer m, v1_keep_alive m, v1_disconnection m))
     (\<lambda>(a, b, c, d, e, f). \<lparr>v1_type = a, v1_connection_request = b, v1_connection_response = c, v1_payload_transfer = d, v1_keep_alive = e, v1_disconnection = f\<rparr>)
     (pair_ser (opt_ser word_ser) (pair_ser (opt_ser connection_request_frame_ser) (pair_ser (opt_ser connection_response_frame_ser) (pair_ser (opt_ser payload_transfer_frame_ser) (pair_ser (opt_ser (opt_ser bool_ser)) (opt_ser unit_ser))))))"

lemma faithful_v1_frame [faithful_rules]: "faithful v1_frame_ser"
  unfolding v1_frame_ser_def by (intro faithful_map faithful_rules) simp

definition offline_frame_ser :: "offline_frame ser" where
  "offline_frame_ser = map_ser (\<lambda>m. (of_version m, of_v1 m))
     (\<lambda>(a, b). \<lparr>of_version = a, of_v1 = b\<rparr>)
     (pair_ser (opt_ser word_ser) (opt_ser v1_frame_ser))"

lemma faithful_offline_frame [faithful_rules]: "faithful offline_frame_ser"
  unfolding offline_frame_ser_def by (intro faithful_map faithful_rules) simp

definition file_metadata_ser :: "file_metadata ser" where
  "file_metadata_ser = map_ser (\<lambda>m. (fm_name m, fm_type m, fm_payload_id m, fm_size m, fm_mime_type m))
     (\<lambda>(a, b, c, d, e). \<lparr>fm_name = a, fm_type = b, fm_payload_id = c, fm_size = d, fm_mime_type = e\<rparr>)
     (pair_ser (opt_ser string_ser) (pair_ser (opt_ser word_ser) (pair_ser (opt_ser word_ser) (pair_ser (opt_ser word_ser) (opt_ser string_ser)))))"

lemma faithful_file_metadata [faithful_rules]: "faithful file_metadata_ser"
  unfolding file_metadata_ser_def by (intro faithful_map faithful_rules) simp

definition text_metadata_ser :: "text_metadata ser" where
  "text_metadata_ser = map_ser (\<lambda>m. (txm_title m, txm_type m, txm_payload_id m))
     (\<lambda>(a, b, c). \<lparr>txm_title = a, txm_type = b, txm_payload_id = c\<rparr>)
     (pair_ser (opt_ser string_ser) (pair_ser (opt_ser word_ser) (opt_ser word_ser)))"

lemma faithful_text_metadata [faithful_rules]: "faithful text_metadata_ser"
  unfolding text_metadata_ser_def by (intro faithful_map faithful_rules) simp

definition wifi_metadata_ser :: "wifi_metadata ser" where
  "wifi_metadata_ser = map_ser (\<lambda>m. (wm_ssid m, wm_payload_id m))
     (\<lambda>(a, b). \<lparr>wm_ssid = a, wm_payload_id = b\<rparr>)
     (pair_ser (opt_ser string_ser) (opt_ser word_ser))"

lemma faithful_wifi_metadata [faithful_rules]: "faithful wifi_metadata_ser"
  unfolding wifi_metadata_ser_def by (intro faithful_map faithful_rules) simp

definition introduction_frame_ser :: "introduction_frame ser" where
  "introduction_frame_ser = map_ser (\<lambda>m. (in_files m, in_texts m, in_wifis m))
     (\<lambda>(a, b, c). \<lparr>in_files = a, in_texts = b, in_wifis = c\<rparr>)
     (pair_ser (list_ser file_metadata_ser) (pair_ser (list_ser text_metadata_ser) (list_ser wifi_metadata_ser)))"

lemma faithful_introduction_frame [faithful_rules]: "faithful introduction_frame_ser"
  unfolding introduction_frame_ser_def by (intro faithful_map faithful_rules) simp

definition paired_key_encryption_frame_ser :: "paired_key_encryption_frame ser" where
  "paired_key_encryption_frame_ser = map_ser (\<lambda>m. (pke_signed_data m, pke_secret_id_hash m))
     (\<lambda>(a, b). \<lparr>pke_signed_data = a, pke_secret_id_hash = b\<rparr>)
     (pair_ser (opt_ser bytes_ser) (opt_ser bytes_ser))"

lemma faithful_paired_key_encryption_frame [faithful_rules]: "faithful paired_key_encryption_frame_ser"
  unfolding paired_key_encryption_frame_ser_def by (intro faithful_map faithful_rules) simp

definition sharing_v1_ser :: "sharing_v1 ser" where
  "sharing_v1_ser = map_ser (\<lambda>m. (sv_type m, sv_introduction m, sv_connection_response m, sv_paired_key_encryption m, sv_paired_key_result m))
     (\<lambda>(a, b, c, d, e). \<lparr>sv_type = a, sv_introduction = b, sv_connection_response = c, sv_paired_key_encryption = d, sv_paired_key_result = e\<rparr>)
     (pair_ser (opt_ser word_ser) (pair_ser (opt_ser introduction_frame_ser) (pair_ser (opt_ser (opt_ser word_ser)) (pair_ser (opt_ser paired_key_encryption_frame_ser) (opt_ser (opt_ser word_ser))))))"

lemma faithful_sharing_v1 [faithful_rules]: "faithful sharing_v1_ser"
  unfolding sharing_v1_ser_def by (intro faithful_map faithful_rules) simp

definition sharing_frame_ser :: "sharing_frame ser" where
  "sharing_frame_ser = map_ser (\<lambda>m. (sf_version m, sf_v1 m))
     (\<lambda>(a, b). \<lparr>sf_version = a, sf_v1 = b\<rparr>)
     (pair_ser (opt_ser word_ser) (opt_ser sharing_v1_ser))"

lemma faithful_sharing_frame [faithful_rules]: "faithful sharing_frame_ser"
  unfolding sharing_frame_ser_def by (intro faithful_map faithful_rules) simp

definition ukey2_message_ser :: "ukey2_message ser" where
  "ukey2_message_ser = map_ser (\<lambda>m. (um_type m, um_data m))
     (\<lambda>(a, b). \<lparr>um_type = a, um_data = b\<rparr>)
     (pair_ser (opt_ser word_ser) (opt_ser bytes_ser))"

lemma faithful_ukey2_message [faithful_rules]: "faithful ukey2_message_ser"
  unfolding ukey2_message_ser_def by (intro faithful_map faithful_rules) simp

definition ukey2_alert_ser :: "ukey2_alert ser" where
  "ukey2_alert_ser = map_ser (\<lambda>m. (al_type m, al_error_message m))
     (\<lambda>(a, b). \<lparr>al_type = a, al_error_message = b\<rparr>)
     (pair_ser (opt_ser word_ser) (opt_ser string_ser))"

lemma faithful_ukey2_alert [faithful_rules]: "faithful ukey2_alert_ser"
  unfolding ukey2_alert_ser_def by (intro faithful_map faithful_rules) simp

definition cipher_commitment_ser :: "cipher_commitment ser" where
  "cipher_commitment_ser = map_ser (\<lambda>m. (cc_cipher m, cc_commitment m))
     (\<lambda>(a, b). \<lparr>cc_cipher = a, cc_commitment = b\<rparr>)
     (pair_ser (opt_ser word_ser) (opt_ser bytes_ser))"

lemma faithful_cipher_commitment [faithful_rules]: "faithful cipher_commitment_ser"
  unfolding cipher_commitment_ser_def by (intro faithful_map faithful_rules) simp

definition ukey2_client_init_ser :: "ukey2_client_init ser" where
  "ukey2_client_init_ser = map_ser (\<lambda>m. (ci_version m, ci_random m, ci_commitments m, ci_next_protocol m))
     (\<lambda>(a, b, c, d). \<lparr>ci_version = a, ci_random = b, ci_commitments = c, ci_next_protocol = d\<rparr>)
     (pair_ser (opt_ser word_ser) (pair_ser (opt_ser bytes_ser) (pair_ser (list_ser cipher_commitment_ser) (opt_ser string_ser))))"

lemma faithful_ukey2_client_init [faithful_rules]: "faithful ukey2_client_init_ser"
  unfolding ukey2_client_init_ser_def by (intro faithful_map faithful_rules) simp

definition ukey2_server_init_ser :: "ukey2_server_init ser" where
  "ukey2_server_init_ser = map_ser (\<lambda>m. (si_version m, si_random m, si_cipher m, si_public_key m))
     (\<lambda>(a, b, c, d). \<lparr>si_version = a, si_random = b, si_cipher = c, si_public_key = d\<rparr>)
     (pair_ser (opt_ser word_ser) (pair_ser (opt_ser bytes_ser) (pair_ser (opt_ser word_ser) (opt_ser bytes_ser))))"

lemma faithful_ukey2_server_init [faithful_rules]: "faithful ukey2_server_init_ser"
  unfolding ukey2_server_init_ser_def by (intro faithful_map faithful_rules) simp

definition ec_p256_public_key_ser :: "ec_p256_public_key ser" where
  "ec_p256_public_key_ser = map_ser (\<lambda>m. (ec_x m, ec_y m))
     (\<lambda>(a, b). \<lparr>ec_x = a, ec_y = b\<rparr>)
     (pair_ser bytes_ser bytes_ser)"

lemma faithful_ec_p256_public_key [faithful_rules]: "faithful ec_p256_public_key_ser"
  unfolding ec_p256_public_key_ser_def by (intro faithful_map faithful_rules) simp

definition generic_public_key_ser :: "generic_public_key ser" where
  "generic_public_key_ser = map_ser (\<lambda>m. (gp_type m, gp_ec_p256 m))
     (\<lambda>(a, b). \<lparr>gp_type = a, gp_ec_p256 = b\<rparr>)
     (pair_ser word_ser (opt_ser ec_p256_public_key_ser))"

lemma faithful_generic_public_key [faithful_rules]: "faithful generic_public_key_ser"
  unfolding generic_public_key_ser_def by (intro faithful_map faithful_rules) simp

definition msg_header_ser :: "msg_header ser" where
  "msg_header_ser = map_ser (\<lambda>m. (hd_signature_scheme m, hd_encryption_scheme m, hd_iv m, hd_public_metadata m))
     (\<lambda>(a, b, c, d). \<lparr>hd_signature_scheme = a, hd_encryption_scheme = b, hd_iv = c, hd_public_metadata = d\<rparr>)
     (pair_ser word_ser (pair_ser word_ser (pair_ser (opt_ser bytes_ser) (opt_ser bytes_ser))))"

lemma faithful_msg_header [faithful_rules]: "faithful msg_header_ser"
  unfolding msg_header_ser_def by (intro faithful_map faithful_rules) simp

definition header_and_body_ser :: "header_and_body ser" where
  "header_and_body_ser = map_ser (\<lambda>m. (hb_header m, hb_body m))
     (\<lambda>(a, b). \<lparr>hb_header = a, hb_body = b\<rparr>)
     (pair_ser msg_header_ser bytes_ser)"

lemma faithful_header_and_body [faithful_rules]: "faithful header_and_body_ser"
  unfolding header_and_body_ser_def by (intro faithful_map faithful_rules) simp

definition secure_message_ser :: "secure_message ser" where
  "secure_message_ser = map_ser (\<lambda>m. (sm_header_and_body m, sm_signature m))
     (\<lambda>(a, b). \<lparr>sm_header_and_body = a, sm_signature = b\<rparr>)
     (pair_ser bytes_ser bytes_ser)"

lemma faithful_secure_message [faithful_rules]: "faithful secure_message_ser"
  unfolding secure_message_ser_def by (intro faithful_map faithful_rules) simp

definition d2d_message_ser :: "d2d_message ser" where
  "d2d_message_ser = map_ser (\<lambda>m. (d2d_message_bytes m, d2d_sequence m))
     (\<lambda>(a, b). \<lparr>d2d_message_bytes = a, d2d_sequence = b\<rparr>)
     (pair_ser (opt_ser bytes_ser) (opt_ser word_ser))"

lemma faithful_d2d_message [faithful_rules]: "faithful d2d_message_ser"
  unfolding d2d_message_ser_def by (intro faithful_map faithful_rules) simp

definition gcm_metadata_ser :: "gcm_metadata ser" where
  "gcm_metadata_ser = map_ser (\<lambda>m. (gm_type m, gm_version m))
     (\<lambda>(a, b). \<lparr>gm_type = a, gm_version = b\<rparr>)
     (pair_ser word_ser (opt_ser word_ser))"

lemma faithful_gcm_metadata [faithful_rules]: "faithful gcm_metadata_ser"
  unfolding gcm_metadata_ser_def by (intro faithful_map faithful_rules) simp

section \<open>Numbers and padding\<close>

fun be_bytes :: "nat \<Rightarrow> bytes" where
  "be_bytes n = (if n < 256 then [word_of_nat n] else be_bytes (n div 256) @ [word_of_nat (n mod 256)])"

declare be_bytes.simps [simp del]

definition signed_bytes :: "int \<Rightarrow> bytes" where
  "signed_bytes i = (let b = be_bytes (nat i) in if hd b < 0x80 then b else 0 # b)"

lemma be_bytes_small: "n < 256 \<Longrightarrow> be_bytes n = [word_of_nat n]"
  and be_bytes_large: "\<not> n < 256 \<Longrightarrow> be_bytes n = be_bytes (n div 256) @ [word_of_nat (n mod 256)]"
  by (subst be_bytes.simps; simp)+

lemma unat_byte: "n < 256 \<Longrightarrow> unat (word_of_nat n :: byte) = n"
  by (simp add: unat_of_nat take_bit_nat_eq_self_iff)

lemma be_bytes_value: "be_bytes n \<noteq> [] \<and> be_nat (be_bytes n) = n"
proof (induction n rule: be_bytes.induct)
  case (1 n)
  show ?case
  proof (cases "n < 256")
    case True
    then show ?thesis by (simp add: be_bytes_small unat_byte)
  next
    case False
    with 1 show ?thesis by (simp add: be_bytes_large be_nat_snoc unat_byte)
  qed
qed

lemma be_bytes_head: "0 < n \<Longrightarrow> hd (be_bytes n) \<noteq> 0"
proof (induction n rule: be_bytes.induct)
  case (1 n)
  show ?case
  proof (cases "n < 256")
    case True
    then have "unat (word_of_nat n :: byte) \<noteq> 0"
      using 1 by (simp only: unat_byte)
    then show ?thesis using True by (auto simp: be_bytes_small)
  next
    case False
    then have "0 < n div 256" by simp
    with 1 False show ?thesis by (simp add: be_bytes_large be_bytes_value)
  qed
qed

lemma be_bytes_props: "be_bytes n \<noteq> [] \<and> be_nat (be_bytes n) = n
    \<and> (1 < length (be_bytes n) \<longrightarrow> hd (be_bytes n) \<noteq> 0)"
  using be_bytes_head [of n] by (cases "n = 0") (simp_all add: be_bytes_value be_bytes_small)

lemma signed_bytes_ok: "0 \<le> i \<Longrightarrow> signed_be_of i (signed_bytes i)"
  using be_bytes_props [of "nat i"]
  by (cases "be_bytes (nat i)")
     (auto simp: signed_be_of_def signed_bytes_def Let_def be_nat_Cons not_less)

definition pad :: "bytes \<Rightarrow> bytes" where
  "pad pt = (let n = 16 - length pt mod 16 in pt @ replicate n (word_of_nat n))"

definition unpad :: "bytes \<Rightarrow> bytes option" where
  "unpad b = (if b = [] then None else Some (take (length b - unat (last b)) b))"

lemma length_pad: "length (pad pt) = (length pt div 16 + 1) * 16"
proof -
  have "length pt mod 16 < 16" by simp
  then have "length (pad pt) = length pt - length pt mod 16 + 16"
    by (simp add: pad_def Let_def)
  then show ?thesis
    by (simp add: minus_mod_eq_mult_div)
qed

lemma unpad_pad: "unpad (pad pt) = Some pt"
proof -
  define n where "n = 16 - length pt mod 16"
  have n: "n < 256" "0 < n" by (auto simp: n_def)
  then have "unat (word_of_nat n :: byte) = n"
    by (simp add: unat_of_nat take_bit_nat_eq_self_iff)
  with n show ?thesis
    by (simp add: unpad_def pad_def Let_def flip: n_def)
qed

section \<open>The environment\<close>

definition fixed_key :: bytes where
  "fixed_key = replicate 64 0x7F"

definition W :: env where
  "W = \<lparr>
     enc_offline = encode offline_frame_ser, dec_offline = decode offline_frame_ser,
     enc_ukey2 = encode ukey2_message_ser, dec_ukey2 = decode ukey2_message_ser,
     enc_client_init = encode ukey2_client_init_ser, dec_client_init = decode ukey2_client_init_ser,
     enc_server_init = encode ukey2_server_init_ser, dec_server_init = decode ukey2_server_init_ser,
     enc_client_finished = encode (opt_ser bytes_ser), dec_client_finished = decode (opt_ser bytes_ser),
     enc_alert = encode ukey2_alert_ser,
     enc_public_key = encode generic_public_key_ser, dec_public_key = decode generic_public_key_ser,
     enc_secure = encode secure_message_ser, dec_secure = decode secure_message_ser,
     enc_header_body = encode header_and_body_ser, dec_header_body = decode header_and_body_ser,
     enc_d2d = encode d2d_message_ser, dec_d2d = decode d2d_message_ser,
     enc_sharing = encode sharing_frame_ser, dec_sharing = decode sharing_frame_ser,
     enc_gcm = encode gcm_metadata_ser,
     sha256 = (\<lambda>b. replicate 32 (word_of_nat (length b))),
     sha512 = (\<lambda>b. replicate 64 (word_of_nat (length b))),
     hkdf_expand = (\<lambda>salt input info n. Some (take n (info @ input @ replicate n 0))),
     hmac_accepts = (\<lambda>_. True), hmac_tag = (\<lambda>key msg. take 32 (key @ replicate 32 0)),
     aes_cbc_encrypt = (\<lambda>key iv pt. pad pt), aes_cbc_decrypt = (\<lambda>key iv ct. unpad ct),
     gen_secret = (\<lambda>k. [word_of_nat k]), public_of = (\<lambda>_. fixed_key),
     point_x = take 32, point_y = drop 32,
     point_of_bytes = (\<lambda>b. if length b = 65 then Some b else None),
     key_of_point = (\<lambda>p. Some (tl p)), diffie_hellman = (\<lambda>_ _. replicate 32 0),
     biguint_of_be = be_nat, bigint_of_biguint = (\<lambda>n. Some (int n)),
     signed_be_of_bigint = signed_bytes,
     hex_decode = (\<lambda>h. Some (as_bytes h)),
     base64_encode = chars, base64_decode = (\<lambda>s. Some (as_bytes s)),
     os_rand = (\<lambda>k n. replicate n (word_of_nat k)), os_rand_i64 = (\<lambda>k. word_of_nat k),
     os_write_fault = (\<lambda>_. None), os_key_order = (\<lambda>ks. ks), os_hostname = ''host'',
     os_target = OsLinux, os_create_error = (\<lambda>_. False), os_disk_fault = (\<lambda>_ _. None),
     os_open_error = (\<lambda>_. False), os_metadata_error = (\<lambda>_. False),
     os_read_error = (\<lambda>_ _. False), os_read_limit = (\<lambda>_ _. 1),
     os_mime = (\<lambda>_. ''application/octet-stream''), os_now = (\<lambda>k. k),
     os_user_dirs = Some (Some ''/downloads'', ''/home'')\<rparr>"

lemma W_fields:
  "enc_offline W = encode offline_frame_ser" "enc_header_body W = encode header_and_body_ser"
  "enc_secure W = encode secure_message_ser" "enc_d2d W = encode d2d_message_ser"
  "enc_sharing W = encode sharing_frame_ser" "enc_gcm W = encode gcm_metadata_ser"
  "enc_ukey2 W = encode ukey2_message_ser" "enc_client_init W = encode ukey2_client_init_ser"
  "enc_server_init W = encode ukey2_server_init_ser"
  "enc_client_finished W = encode (opt_ser bytes_ser)"
  "enc_public_key W = encode generic_public_key_ser" "aes_cbc_encrypt W key iv pt = pad pt"
  "length (hmac_tag W key d) = 32" "os_rand W k n = replicate n (word_of_nat k)"
  "os_read_limit W p n = 1" "os_rand_i64 W k = word_of_nat k" "os_key_order W ks = ks"
  by (simp_all add: W_def)

lemma W_codec: "codec_ok W"
  unfolding codec_ok_def W_def codec.simps by (intro conjI allI decode_encode faithful_rules)

lemma W_aes: "aes_ok W" "aes_length_ok W"
  by (simp_all add: aes_ok_def aes_length_ok_def W_def length_pad unpad_pad)

lemma W_rand: "rand_ok W"
  by (simp add: rand_ok_def W_def)

lemma W_keys: "key_order_ok W"
  by (simp add: key_order_ok_def W_def)

lemma W_base64: "base64_ok W"
  by (simp add: base64_ok_def W_def)

lemma W_channel: "channel_env W"
  by (simp add: channel_env_def W_codec W_aes W_rand)

lemma W_bigint: "bigint_ok W"
  by (simp add: bigint_ok_def W_def signed_bytes_ok)

lemma W_kdf: "kdf_ok W"
  by (auto simp: kdf_ok_def W_def min_def)

lemma W_dh: "dh_ok W"
  by (simp add: dh_ok_def W_def)

lemma W_exchange: "exchange_env W"
  by (simp add: exchange_env_def W_codec W_rand W_bigint W_kdf W_dh)

lemma W_no_faults: "no_faults W" "\<forall>k. os_write_fault W k = None" "\<forall>p n. \<not> os_read_error W p n"
  "\<forall>n. os_disk_fault W p n = None"
  by (simp_all add: no_faults_def W_def)

lemma W_point: "point_ok W (public_of W sk)"
  by (simp add: point_ok_def W_def fixed_key_def flip: replicate_add)

lemma W_long: "long_coordinates W (public_of W sk)"
proof -
  have "(2::nat) ^ 247 \<le> 127 * 256 ^ 31" by simp
  also have "\<dots> \<le> be_nat ((0x7F :: byte) # replicate 31 0x7F)"
    by (simp add: be_nat_Cons)
  also have "(0x7F :: byte) # replicate 31 0x7F = replicate 32 0x7F"
    by (simp add: eval_nat_numeral)
  finally show ?thesis
    by (simp add: long_coordinates_def W_def fixed_key_def)
qed

end
