(* ===== verification/Witnesses.thy ===== *)
theory Witnesses
  imports Instances InboundSafety FileSending OutboundStates
begin

text \<open>
  Concrete runs: every property with a hypothesis is applied here to an input that satisfies it,
  in the environment \<open>W\<close> of \<open>Instances\<close>.
\<close>

section \<open>Two connections with keys\<close>

definition aes_key :: bytes where "aes_key = replicate 32 9"

definition mac :: hmac_ctx where "mac = \<lparr>hc_key = replicate 32 5, hc_pending = []\<rparr>"

definition empty_disk :: "path \<Rightarrow> fs_node option" where "empty_disk = (\<lambda>_. None)"

definition fresh :: inbound where
  "fresh = new_inbound ''10.0.0.7:4444'' empty_disk None []"

definition receiver :: "conn_state \<Rightarrow> inbound" where
  "receiver st = fresh\<lparr>rq_st := (rq_st fresh)\<lparr>is_state := st\<rparr>, rq_encrypt_key_aes := Some aes_key,
     rq_decrypt_key_aes := Some aes_key, rq_send_hmac := Some mac, rq_recv_hmac := Some mac\<rparr>"

definition sender_device :: remote_device_info where
  "sender_device = \<lparr>rdi_name = ''Pixel'', rdi_type = DevPhone\<rparr>"

definition fresh_out :: outbound where
  "fresh_out = new_outbound [65, 66, 67, 68] ''out1'' [''/home/a.txt''] sender_device
     (empty_disk(''/home/a.txt'' \<mapsto> FileNode [7, 8])) []"

definition sender :: "conn_state \<Rightarrow> outbound" where
  "sender st = fresh_out\<lparr>rq_st := (rq_st fresh_out)\<lparr>is_state := st\<rparr>, rq_encrypt_key_aes := Some aes_key,
     rq_decrypt_key_aes := Some aes_key, rq_send_hmac := Some mac, rq_recv_hmac := Some mac\<rparr>"

lemmas start_defs = fresh_def new_inbound_def is_default_def fresh_out_def new_outbound_def empty_disk_def

lemma receiver_simps [simp]:
  "rq_encrypt_key_aes (receiver st) = Some aes_key" "rq_decrypt_key_aes (receiver st) = Some aes_key"
  "rq_send_hmac (receiver st) = Some mac" "rq_recv_hmac (receiver st) = Some mac"
  "conn (receiver st) = st" "is_client_seq (rq_st (receiver st)) = 0"
  "is_server_seq (rq_st (receiver st)) = 0" "is_text_payload (rq_st (receiver st)) = None"
  "is_payload_buffers (rq_st (receiver st)) = []" "is_transferred_files (rq_st (receiver st)) = []"
  "rq_fs (receiver st) = empty_disk" "rq_draws (receiver st) = 0" "rq_out (receiver st) = []"
  "rq_in (receiver st) = []" "rq_chan (receiver st) = []" "rq_custom_download (receiver st) = None"
  by (simp_all add: receiver_def conn_def start_defs)

lemma sender_simps [simp]:
  "rq_encrypt_key_aes (sender st) = Some aes_key" "rq_decrypt_key_aes (sender st) = Some aes_key"
  "rq_send_hmac (sender st) = Some mac" "rq_recv_hmac (sender st) = Some mac"
  "conn (sender st) = st" "is_client_seq (rq_st (sender st)) = 0"
  "is_server_seq (rq_st (sender st)) = 0" "is_transferred_files (rq_st (sender st)) = []"
  "rq_fs (sender st) = [''/home/a.txt'' \<mapsto> FileNode [7, 8]]" "rq_draws (sender st) = 0"
  "rq_out (sender st) = []" "rq_in (sender st) = []"
  by (simp_all add: sender_def conn_def start_defs)

definition keep_alive_frame :: offline_frame where
  "keep_alive_frame = offline_v1 (v1_default\<lparr>v1_type := Some 5, v1_keep_alive := Some (Some True)\<rparr>)"

section \<open>Utilities and endpoint records\<close>

lemma point_coordinate_roundtrip_witness:
  "\<exists>e. encode_point W (replicate 32 1) = Done e
    \<and> (key_coordinate e = replicate 32 1 \<longleftrightarrow> 2 ^ 247 \<le> be_nat (replicate 32 1))
    \<and> (be_nat (replicate 32 1) < 2 ^ 247 \<longrightarrow> length (key_coordinate e) < 32)"
  by (rule point_coordinate_roundtrip [OF W_bigint]) simp

lemma connection_request_roundtrip_witness:
  "process_connection_request (request_frame (serialize W 3 sender_device)) = Done sender_device"
proof -
  have "utf8_valid (as_bytes ''Pixel'')"
    by (simp add: as_bytes_def utf8_valid.simps)
  then have "from_utf8 (take 255 (as_bytes ''Pixel'')) = Some ''Pixel''"
    using from_utf8_as_bytes by (simp add: take_all)
  then show ?thesis
    using connection_request_roundtrip [OF W_rand, of 3 sender_device] by (simp add: sender_device_def)
qed

lemma mdns_info_roundtrip_witness:
  "parse_mdns_endpoint_info W (gen_mdns_endpoint_info W 3 (device_num DevLaptop) ''host'')
     = Done (DevLaptop, ''host'')"
proof -
  have "utf8_valid (as_bytes ''host'')"
    by (simp add: as_bytes_def utf8_valid.simps)
  then have "from_utf8 (take 4 (as_bytes ''host'')) = Some ''host''"
    using from_utf8_as_bytes by (simp add: take_all)
  then show ?thesis
    using mdns_info_roundtrip [OF W_base64 W_rand, of 3 DevLaptop "''host''"] by simp
qed

section \<open>The secure channel\<close>

lemma encrypt_and_send_seals_witness:
  "encrypt_and_send W keep_alive_frame (sender SendingFiles) =
    (let m = seal W aes_key (hc_key mac) (os_rand W 0 16) 1 keep_alive_frame
     in andthen (send_frame W m) (modify (\<lambda>r. r\<lparr>rq_encode_buf := m\<rparr>))
          (sealing W aes_key keep_alive_frame (sender SendingFiles)))"
  using encrypt_and_send_seals [OF W_aes(2), of "sender SendingFiles" aes_key mac keep_alive_frame] by simp

lemma open_sealed_message_witness:
  "open_secure_message W (sealed_message W aes_key (hc_key mac) (replicate 16 0) 1 keep_alive_frame)
     (receiver ReceivingFiles) = (Done keep_alive_frame, opened (receiver ReceivingFiles))
   \<and> open_secure_message W (sealed_message W aes_key (hc_key mac) (replicate 16 0) 2 keep_alive_frame)
     (receiver ReceivingFiles)
     = (Fail (Error ''Error d2d_msg.sequence_number invalid''), opened (receiver ReceivingFiles))"
  using open_sealed_message [OF W_codec W_aes(1), of "replicate 16 0" "receiver ReceivingFiles" aes_key mac]
  by simp

lemma open_authentic_witness:
  "\<exists>h hb key plain d.
    rq_recv_hmac (receiver ReceivingFiles) = Some h
    \<and> sm_signature (sealed_message W aes_key (hc_key mac) (replicate 16 0) 1 keep_alive_frame)
        = hmac_tag W (hc_key h) (sm_header_and_body
            (sealed_message W aes_key (hc_key mac) (replicate 16 0) 1 keep_alive_frame))
    \<and> dec_header_body W (sm_header_and_body
        (sealed_message W aes_key (hc_key mac) (replicate 16 0) 1 keep_alive_frame)) = Some hb
    \<and> length (bytes_or_empty (hd_iv (hb_header hb))) = 16
    \<and> rq_decrypt_key_aes (receiver ReceivingFiles) = Some key
    \<and> aes_cbc_decrypt W key (bytes_or_empty (hd_iv (hb_header hb))) (hb_body hb) = Some plain
    \<and> dec_d2d W plain = Some d
    \<and> i32_or_zero (d2d_sequence d) = is_client_seq (rq_st (receiver ReceivingFiles)) + 1
    \<and> dec_offline W (bytes_or_empty (d2d_message_bytes d)) = Some keep_alive_frame"
proof -
  have "open_secure_message W (sealed_message W aes_key (hc_key mac) (replicate 16 0) 1 keep_alive_frame)
     (receiver ReceivingFiles) = (Done keep_alive_frame, opened (receiver ReceivingFiles))"
    using opens_sealed [OF W_codec W_aes(1), of "replicate 16 0" "receiver ReceivingFiles" aes_key mac] by simp
  from open_authentic [OF this] show ?thesis by blast
qed

text \<open>In \<open>W\<close> nothing fails, so a connection with keys sends.\<close>

lemma W_send:
  assumes "rq_encrypt_key_aes r = Some k" and "rq_send_hmac r = Some h"
  shows "encrypt_and_send W f r = (Done (), (sealing W k f r)\<lparr>
    rq_out := rq_out r @ framed (seal W k (hc_key h) (os_rand W (rq_draws r) 16) (is_server_seq (rq_st r) + 1) f),
    rq_encode_buf := seal W k (hc_key h) (os_rand W (rq_draws r) 16) (is_server_seq (rq_st r) + 1) f\<rparr>)"
  using seals [OF W_aes(2) assms, of f]
  by (simp add: Let_def send_frame_no_faults [OF W_no_faults(1)] andthen_Done modify_exec sealing_def)

lemma W_pad_length: "length (pad pt) \<le> length pt + 16"
proof -
  have "length (pad pt) = length pt div 16 * 16 + 16" by (simp add: length_pad)
  then show ?thesis using div_times_less_eq_dividend [of "length pt" 16] by linarith
qed

lemma W_gcm_length: "length (gcm_metadata_encoded W) = 65"
  by (simp add: gcm_metadata_encoded_def W_fields encode_def gcm_metadata_ser_def ser_length)

lemma W_seal_fits:
  assumes "length iv = 16" and "length (enc_offline W f) \<le> 600000"
  shows "fits_frame (seal W k m iv q f)"
proof -
  have body: "length (sealed_body W k iv q f) \<le> 2 * length (enc_offline W f) + 51"
    using W_pad_length [of "enc_d2d W \<lparr>d2d_message_bytes = Some (enc_offline W f), d2d_sequence = Some q\<rparr>"]
    by (simp add: sealed_body_def W_fields encode_def d2d_message_ser_def ser_length)
  have hb: "length (enc_header_body W \<lparr>hb_header = message_header W iv, hb_body = b\<rparr>) = 2 * length b + 231" for b
    using assms(1)
    by (simp add: message_header_def W_gcm_length W_fields encode_def header_and_body_ser_def
        msg_header_ser_def ser_length)
  have "length (enc_secure W \<lparr>sm_header_and_body = a, sm_signature = b\<rparr>)
      = 2 * length a + 2 * length b + 2" for a b
    by (simp add: W_fields encode_def secure_message_ser_def ser_length)
  then show ?thesis
    using body assms(2)
    by (simp add: fits_frame_def seal_def sealed_message_def Let_def hb sane_frame_length_def W_fields(13))
qed

lemma W_rand_16: "length (os_rand W k 16) = 16"
  by (simp add: W_fields)

lemma W_framed_fits:
  "length (enc_offline W f) \<le> 600000 \<Longrightarrow> list_all fits_frame (framed (seal W k m (os_rand W n 16) q f))"
  using W_seal_fits [OF W_rand_16] by (simp add: framed_def fits_frame_def sane_frame_length_def)

lemma W_keep_alive_length: "length (enc_offline W keep_alive_frame) \<le> 600000"
  by (simp add: W_fields encode_def keep_alive_frame_def offline_v1_def v1_default_def offline_frame_ser_def
      v1_frame_ser_def ser_length)

lemma channel_delivers_witness:
  "\<exists>s' ws r'. for_each [keep_alive_frame] (encrypt_and_send W) (sender SendingFiles) = (Done (), s')
    \<and> rq_out s' = ws
    \<and> receive_n 1 (receive_secure W) ((receiver ReceivingFiles)\<lparr>rq_in := concat ws\<rparr>)
        = (Done [keep_alive_frame], r')
    \<and> rq_in r' = [] \<and> linked s' r'"
proof -
  obtain s' where s': "encrypt_and_send W keep_alive_frame (sender SendingFiles) = (Done (), s')"
      "rq_out s' = framed (seal W aes_key (hc_key mac) (os_rand W 0 16) 1 keep_alive_frame)"
    using W_send [of "sender SendingFiles" aes_key mac keep_alive_frame] by simp
  let ?r = "(receiver ReceivingFiles)\<lparr>rq_in := concat (rq_out s')\<rparr>"
  have run: "for_each [keep_alive_frame] (encrypt_and_send W) (sender SendingFiles) = (Done (), s')"
    using s'(1) by (simp add: exec bind_Done)
  have "linked (sender SendingFiles) ?r" by (simp add: linked_def)
  moreover have "list_all fits_frame (rq_out s')"
    unfolding s'(2) by (rule W_framed_fits [OF W_keep_alive_length])
  ultimately have "\<exists>r'. receive_n (length [keep_alive_frame]) (receive_secure W) ?r
      = (Done [keep_alive_frame], r') \<and> rq_in r' = [] \<and> linked s' r'"
    by (intro channel_delivers [OF W_channel _ run]) simp_all
  with run show ?thesis by auto
qed

text \<open>A sharing frame on its way: two frames of the channel.\<close>

lemma W_data_length:
  "length (enc_offline W (data_transfer h \<lparr>pc_flags = Some a, pc_offset = Some b, pc_body = Some d\<rparr>))
     = 207 + length (fst payload_header_ser h) + 2 * length d"
  by (simp add: W_fields encode_def data_transfer_def offline_v1_def v1_default_def offline_frame_ser_def
      v1_frame_ser_def payload_transfer_frame_ser_def payload_chunk_ser_def ser_length)

lemma W_send_sharing:
  assumes "rq_encrypt_key_aes r = Some k" and "rq_send_hmac r = Some h"
    and "length (enc_sharing W g) \<le> 1000"
  shows "\<exists>t ws. send_encrypted_frame W g r = (Done (), t) \<and> rq_out t = rq_out r @ ws
    \<and> list_all fits_frame ws \<and> rq_encrypt_key_aes t = Some k \<and> rq_send_hmac t = Some (hmac_reset h)
    \<and> rq_draws t = rq_draws r + 3"
proof -
  let ?d = "enc_sharing W g"
  let ?h = "bytes_header (os_rand_i64 W (rq_draws r)) (length ?d)"
  let ?c1 = "data_transfer ?h \<lparr>pc_flags = Some 0, pc_offset = Some 0, pc_body = Some ?d\<rparr>"
  let ?c2 = "data_transfer ?h \<lparr>pc_flags = Some 1, pc_offset = Some (word_of_nat (length ?d)), pc_body = Some []\<rparr>"
  let ?m = "\<lambda>n q. seal W k (hc_key h) (os_rand W n 16) q"
  let ?r = "r\<lparr>rq_draws := Suc (rq_draws r)\<rparr>"
  obtain t1 where t1: "encrypt_and_send W ?c1 ?r = (Done (), t1)"
      "rq_out t1 = rq_out r @ framed (?m (Suc (rq_draws r)) (is_server_seq (rq_st r) + 1) ?c1)"
      "rq_encrypt_key_aes t1 = Some k" "rq_send_hmac t1 = Some (hmac_reset h)" "rq_draws t1 = rq_draws r + 2"
    using W_send [of ?r k h ?c1] assms by (simp add: sealing_def)
  obtain t where t: "encrypt_and_send W ?c2 t1 = (Done (), t)"
      "rq_out t = rq_out t1 @ framed (?m (rq_draws t1) (is_server_seq (rq_st t1) + 1) ?c2)"
      "rq_encrypt_key_aes t = Some k" "rq_send_hmac t = Some (hmac_reset h)" "rq_draws t = rq_draws r + 3"
    using W_send [of t1 k "hmac_reset h" ?c2] t1(3-5) by (simp add: sealing_def hmac_reset_def)
  have hl: "length (fst payload_header_ser ?h) = 166"
    by (simp add: bytes_header_def payload_header_ser_def ser_length)
  have "length (enc_offline W ?c1) \<le> 600000" "length (enc_offline W ?c2) \<le> 600000"
    using assms(3) by (simp_all only: W_data_length hl) simp_all
  then have "list_all fits_frame (framed (?m (Suc (rq_draws r)) (is_server_seq (rq_st r) + 1) ?c1)
      @ framed (?m (rq_draws t1) (is_server_seq (rq_st t1) + 1) ?c2))"
    by (simp add: W_framed_fits)
  moreover have "send_encrypted_frame W g r = (Done (), t)"
    using t1(1) t(1) by (simp add: send_encrypted_frame_def Let_def draw_def bind_Done andthen_Done)
  ultimately show ?thesis using t1(2) t(2-5) by auto
qed

lemma sharing_frame_delivered_witness:
  "\<exists>s' ws t. send_encrypted_frame W paired_key_result (sender SentPairedKeyResult) = (Done (), s')
    \<and> rq_out s' = ws
    \<and> andthen (handle W OnSocket) (handle W OnSocket) ((receiver SentPairedKeyResult)\<lparr>rq_in := concat ws\<rparr>)
        = process_transfer_setup W paired_key_result t
    \<and> rq_in t = [] \<and> conn t = SentPairedKeyResult \<and> linked s' t"
proof -
  have small: "length (enc_sharing W paired_key_result) \<le> 1000"
    by (simp add: W_fields encode_def paired_key_result_def sharing_v1_frame_def sv_default_def
        sharing_frame_ser_def sharing_v1_ser_def ser_length)
  then obtain s' ws where s': "send_encrypted_frame W paired_key_result (sender SentPairedKeyResult) = (Done (), s')"
      "rq_out s' = rq_out (sender SentPairedKeyResult) @ ws" "list_all fits_frame ws"
    using W_send_sharing [of "sender SentPairedKeyResult" aes_key mac paired_key_result] by auto
  let ?r = "(receiver SentPairedKeyResult)\<lparr>rq_in := concat ws\<rparr>"
  have "\<exists>t. andthen (handle W OnSocket) (handle W OnSocket) ?r
      = process_transfer_setup W paired_key_result t
    \<and> rq_in t = [] \<and> conn t = conn ?r \<and> linked s' t"
    by (rule sharing_frame_delivered [OF W_channel _ s'(1,2,3)])
       (use small in \<open>simp_all add: linked_def conn_def [of "r\<lparr>rq_in := i\<rparr>" for r i]
          conn_def [symmetric] secured_def hm_lookup_def sane_frame_length_def\<close>)
  moreover have "conn ?r = SentPairedKeyResult" by (simp add: receiver_def conn_def)
  ultimately show ?thesis using s'(1,2) by auto
qed

section \<open>The state machines\<close>

definition cancel_message :: channel_message where
  "cancel_message = cm_default\<lparr>cm_id := ''10.0.0.7:4444'', cm_action := Some CancelTransfer\<rparr>"

lemma handle_moves_witness:
  "conn (snd (handle W (OnChannel 0 (RecvOk cancel_message)) (receiver ReceivingFiles))) = ReceivingFiles
   \<or> user_move CancelTransfer (conn (snd (handle W (OnChannel 0 (RecvOk cancel_message)) (receiver ReceivingFiles))))"
  using handle_moves [of W "OnChannel 0 (RecvOk cancel_message)" "receiver ReceivingFiles"]
  by (cases "handle W (OnChannel 0 (RecvOk cancel_message)) (receiver ReceivingFiles)")
     (auto simp: cancel_message_def)

lemma out_handle_moves_witness:
  "conn (snd (out_handle W 9 OnSocket ((sender SentIntroduction)\<lparr>rq_in := [0, 0, 0, 1, 77]\<rparr>))) = SentIntroduction
   \<or> out_move SentIntroduction
       (conn (snd (out_handle W 9 OnSocket ((sender SentIntroduction)\<lparr>rq_in := [0, 0, 0, 1, 77]\<rparr>))))"
proof -
  let ?r = "(sender SentIntroduction)\<lparr>rq_in := [0, 0, 0, 1, 77]\<rparr>"
  have "conn ?r = SentIntroduction" by (simp add: sender_def conn_def)
  then show ?thesis
    using out_handle_moves [of W 9 OnSocket ?r]
    by (cases "out_handle W 9 OnSocket ?r") auto
qed

lemma no_write_before_consent_witness:
  "rq_fs (snd (for_each [OnSocket, OnChannel 0 (RecvOk cancel_message)] (handle W)
     (new_inbound ''10.0.0.7:4444'' empty_disk None [0, 0, 0, 1, 77]))) = empty_disk"
proof (rule no_write_before_consent)
  show "for_each [OnSocket, OnChannel 0 (RecvOk cancel_message)] (handle W)
     (new_inbound ''10.0.0.7:4444'' empty_disk None [0, 0, 0, 1, 77])
     = (fst (for_each [OnSocket, OnChannel 0 (RecvOk cancel_message)] (handle W)
     (new_inbound ''10.0.0.7:4444'' empty_disk None [0, 0, 0, 1, 77])), snd (for_each [OnSocket, OnChannel 0 (RecvOk cancel_message)] (handle W)
     (new_inbound ''10.0.0.7:4444'' empty_disk None [0, 0, 0, 1, 77])))"
    by (rule prod.collapse [symmetric])
qed (simp add: accepts_def cancel_message_def cm_default_def)

lemma sender_keeps_files_witness:
  "rq_fs (snd (for_each [OnSocket, OnChannel 0 RecvClosed] (out_handle W 9)
     ((sender SentIntroduction)\<lparr>rq_in := [0, 0, 0, 1, 77]\<rparr>))) = [''/home/a.txt'' \<mapsto> FileNode [7, 8]]"
proof -
  let ?r = "(sender SentIntroduction)\<lparr>rq_in := [0, 0, 0, 1, 77]\<rparr>"
  have "rq_fs ?r = [''/home/a.txt'' \<mapsto> FileNode [7, 8]]" by simp
  then show ?thesis
    using sender_keeps_files [of "[OnSocket, OnChannel 0 RecvClosed]" W 9 ?r]
    by (metis prod.collapse)
qed

section \<open>Receiving files\<close>

definition file_entry :: "bytes \<Rightarrow> internal_file_info" where
  "file_entry c = \<lparr>ifi_payload_id = 5, ifi_file_url = ''/downloads/a.txt'',
     ifi_bytes_transferred = word_of_nat (length c), ifi_total_size = 4,
     ifi_file = Some \<lparr>fh_path = ''/downloads/a.txt'', fh_pos = length c\<rparr>\<rparr>"

definition accepted :: "bytes \<Rightarrow> inbound" where
  "accepted c = (receiver ReceivingFiles)\<lparr>rq_fs := empty_disk(''/downloads/a.txt'' \<mapsto> FileNode c),
     rq_st := (rq_st (receiver ReceivingFiles))\<lparr>is_transferred_files := [(5, file_entry c)]\<rparr>\<rparr>"

definition announced_only :: inbound where
  "announced_only = (receiver WaitingForUserConsent)\<lparr>
     rq_st := (rq_st (receiver WaitingForUserConsent))\<lparr>
       is_transferred_files := [(5, (file_entry [])\<lparr>ifi_file := None\<rparr>)]\<rparr>\<rparr>"

definition file_payload :: payload_header where
  "file_payload = \<lparr>ph_id = Some 5, ph_type = Some 2, ph_total_size = Some 4,
     ph_is_sensitive = Some False, ph_file_name = Some ''a.txt''\<rparr>"

lemma file_payload_id [simp]: "header_id file_payload = 5"
  by (simp add: header_id_def file_payload_def)

lemma accepted_receiving: "length c \<le> 4 \<Longrightarrow>
    receiving (header_id file_payload) (file_entry c) ''/downloads/a.txt'' c (accepted c)"
  by (simp add: receiving_def accepted_def file_entry_def hm_lookup_def)

lemma file_content_received_witness:
  "\<exists>t. for_each (file_chunks (word_of_nat (length [1::byte])) [[2], [3, 4]])
        (process_file_payload W file_payload) (accepted [1]) = (Done (), t)
    \<and> rq_fs t = (rq_fs (accepted [1]))(''/downloads/a.txt'' \<mapsto> FileNode [1, 2, 3, 4])"
proof -
  have "receiving (header_id file_payload) (file_entry [1]) ''/downloads/a.txt'' [1] (accepted [1])"
    by (rule accepted_receiving) simp
  then show ?thesis
    using file_content_received [of file_payload "file_entry [1]" "''/downloads/a.txt''" "[1]" "accepted [1]"
        "[[2], [3, 4]]" W] W_no_faults(4)
    by (auto simp: file_entry_def)
qed

lemma file_size_bounded_witness:
  "\<exists>n. rq_fs (snd (process_file_payload W file_payload
        \<lparr>pc_flags = Some 0, pc_offset = Some 1, pc_body = Some [2, 3, 4, 5, 6]\<rparr> (accepted [1]))) ''/downloads/a.txt''
      = Some (FileNode ([1] @ take n [2, 3, 4, 5, 6])) \<and> length ([1::byte] @ take n [2, 3, 4, 5, 6]) \<le> 4"
proof -
  let ?c = "\<lparr>pc_flags = Some 0, pc_offset = Some 1, pc_body = Some [2, 3, 4, 5, 6]\<rparr>"
  have "receiving (header_id file_payload) (file_entry [1]) ''/downloads/a.txt'' [1] (accepted [1])"
    by (rule accepted_receiving) simp
  then show ?thesis
    using file_size_bounded [of file_payload "file_entry [1]" "''/downloads/a.txt''" "[1]" "accepted [1]" ?c W]
    by (cases "process_file_payload W file_payload ?c (accepted [1])")
       (auto simp: file_entry_def chunk_body_def)
qed

lemma bytes_payload_reassembled_witness:
  "andthen (for_each (bytes_chunks 0 [[1], [2, 3]]) (process_bytes_payload W (bytes_header 9 3)))
      (process_bytes_payload W (bytes_header 9 3) \<lparr>pc_flags = Some 1, pc_offset = Some 3, pc_body = Some []\<rparr>)
      (receiver SentPairedKeyResult)
    = deliver_buffer W 9 [1, 2, 3] (with_buffer 9 [1, 2, 3] (receiver SentPairedKeyResult))"
proof -
  have "sane_header (bytes_header 9 3)" "header_id (bytes_header 9 3) = 9"
    by (simp_all add: sane_header_def bytes_header_def header_total_size_def header_id_def sane_frame_length_def)
  then show ?thesis
    using bytes_payload_reassembled [of "bytes_header 9 3" "receiver SentPairedKeyResult"
        "\<lparr>pc_flags = Some 1, pc_offset = Some 3, pc_body = Some []\<rparr>" "[[1], [2, 3]]" W]
    by (simp add: hm_lookup_def chunk_offset_def chunk_flags_def chunk_body_def)
qed

lemma chunk_before_consent_panics_witness:
  "process_file_payload W file_payload \<lparr>pc_flags = Some 0, pc_offset = Some 0, pc_body = Some [1]\<rparr>
     announced_only = (Panic ''file.as_mut()'', announced_only)"
  by (rule chunk_before_consent_panics [where info = "(file_entry [])\<lparr>ifi_file := None\<rparr>"])
     (simp_all add: announced_only_def file_entry_def hm_lookup_def chunk_body_def chunk_offset_def word_sless_alt)

lemma negative_size_panics_witness:
  "process_bytes_payload W (bytes_header 9 3 \<lparr>ph_total_size := Some (- 1)\<rparr>)
     \<lparr>pc_flags = Some 0, pc_offset = Some 0, pc_body = Some [1]\<rparr> (receiver SentConnectionResponse)
   = (Panic ''capacity overflow'', receiver SentConnectionResponse)"
  by (rule negative_size_panics)
     (simp_all add: header_total_size_def hm_lookup_def word_sless_alt)

lemma last_chunk_finishes_witness:
  "conn (snd (process_file_payload W file_payload
     \<lparr>pc_flags = Some 1, pc_offset = Some 1, pc_body = Some []\<rparr> (accepted [1]))) = Finished"
  by (rule last_chunk_finishes [where info = "file_entry [1]"])
     (simp_all add: accepted_def file_entry_def chunk_body_def chunk_flags_def chunk_offset_def)

definition text_waiting :: inbound where
  "text_waiting = (receiver WaitingForUserConsent)\<lparr>rq_st := (rq_st (receiver WaitingForUserConsent))\<lparr>
     is_text_payload := Some (TpText 3), is_transfer_metadata := Some tm_default\<rparr>\<rparr>"

lemma text_needs_no_consent_witness:
  "\<exists>ws res t tm' m. handle W OnSocket (text_waiting\<lparr>rq_in := ws\<rparr>) = (res, t)
    \<and> conn text_waiting = WaitingForUserConsent \<and> conn t = Finished
    \<and> is_transfer_metadata (rq_st t) = Some tm' \<and> tm_text_payload tm' = Some ''hi''
    \<and> rq_chan t = rq_chan text_waiting @ [m] \<and> cm_state m = Some Finished \<and> cm_meta m = Some tm'"
proof -
  let ?h = "bytes_header 3 2" and ?c = "\<lparr>pc_flags = Some 1, pc_offset = Some 0, pc_body = Some [104, 105]\<rparr>"
  let ?s = "sender SendingFiles"
  obtain s' where s': "encrypt_and_send W (data_transfer ?h ?c) ?s = (Done (), s')"
      "rq_out s' = rq_out ?s @ framed (seal W aes_key (hc_key mac) (os_rand W 0 16) 1 (data_transfer ?h ?c))"
    using W_send [of ?s aes_key mac "data_transfer ?h ?c"] by simp
  have fits: "list_all fits_frame (framed (seal W aes_key (hc_key mac) (os_rand W 0 16) 1 (data_transfer ?h ?c)))"
    by (rule W_framed_fits)
      (simp add: W_data_length bytes_header_def payload_header_ser_def ser_length)
  let ?r = "text_waiting\<lparr>rq_in := concat (framed (seal W aes_key (hc_key mac) (os_rand W 0 16) 1 (data_transfer ?h ?c))) @ []\<rparr>"
  have "linked ?s ?r" by (simp add: linked_def text_waiting_def)
  from channel_delivers_one [OF W_channel this s' fits] obtain u where
    u: "receive_secure W ?r = (Done (data_transfer ?h ?c), u)" by auto
  have r: "conn ?r = WaitingForUserConsent" "is_text_payload (rq_st ?r) = Some (TpText 3)"
      "is_transfer_metadata (rq_st ?r) = Some tm_default" "buffered 3 ?r = []" "rq_chan ?r = rq_chan text_waiting"
      "conn text_waiting = WaitingForUserConsent"
    by (simp_all add: text_waiting_def receiver_def fresh_def new_inbound_def is_default_def conn_def buffered_def hm_lookup_def)
  have "utf8_valid (as_bytes ''hi'')" by (simp add: as_bytes_def utf8_valid.simps)
  then have "from_utf8 (as_bytes ''hi'') = Some ''hi''" by (rule from_utf8_as_bytes)
  then have hi: "text_of_buffer [104, 105] = Some ''hi''"
    by (simp add: text_of_buffer_def as_bytes_def)
  have chunk: "secured (conn ?r)" "header_type ?h = PtBytes" "header_id ?h = get_i64_value (TpText 3)"
      "sane_header ?h" "chunk_flags ?c AND 1 = 1"
      "chunk_offset ?c = word_of_nat (length (buffered (header_id ?h) ?r))"
      "text_of_buffer (buffered (header_id ?h) ?r @ chunk_body ?c) = Some ''hi''"
    using r hi bytes_header_ok [of 3 2] bytes_header_ok(3) [of 2 3]
    by (simp_all add: secured_def sane_frame_length_def chunk_flags_def chunk_offset_def chunk_body_def)
  from text_needs_no_consent [OF u chunk(1) r(2,3) chunk(2-7)] r(5,6) show ?thesis
    by (auto intro!: exI [of _ "concat (framed (seal W aes_key (hc_key mac) (os_rand W 0 16) 1 (data_transfer ?h ?c)))"])
qed

lemma pick_dest_returns_witness:
  "\<exists>dest. pick_dest (\<lambda>p. p \<in> {''/downloads/a'', ''/downloads/1_a''}) ''/downloads'' ''a'' = Some dest
    \<and> dest \<notin> {''/downloads/a'', ''/downloads/1_a''}"
proof -
  let ?ex = "\<lambda>p. p \<in> {''/downloads/a'', ''/downloads/1_a''}"
  have "plain_dir ''/downloads''" by (simp add: plain_dir_def body_segments_def before_body_def
        include_cur_dir_def is_absolute_def drop_skipped_def skipped_def)
  moreover have "plain_name ''a''" by (simp add: plain_name_def skipped_def)
  moreover have "finite {p. ?ex p}" "card {p. ?ex p} < 2 ^ 32"
    unfolding Collect_mem_eq by simp_all
  ultimately show ?thesis
    using pick_dest_returns [of "''/downloads''" "''a''" ?ex] by blast
qed

definition offered :: "i64 \<Rightarrow> file_metadata" where
  "offered i = \<lparr>fm_name = Some ''a.txt'', fm_type = Some 0, fm_payload_id = Some i, fm_size = Some 4,
     fm_mime_type = None\<rparr>"

definition offer :: "file_metadata list \<Rightarrow> sharing_v1" where
  "offer files = sv_default\<lparr>sv_introduction := Some \<lparr>in_files = files, in_texts = [], in_wifis = []\<rparr>\<rparr>"

lemma download_printable: "utf8_valid (as_bytes (get_download_dir W None))"
  by (simp add: get_download_dir_def W_def as_bytes_def utf8_valid.simps)

lemma offered_destination: "destination_of W (receiver st) (offered i) \<noteq> None"
  by (simp add: destination_of_def pick_dest_def path_exists_def empty_disk_def Let_def)

lemma introduction_registers_witness:
  "\<exists>t. process_introduction W (offer [offered 5]) (receiver ReceivedPairedKeyResult) = (Done (), t)
    \<and> conn t = WaitingForUserConsent \<and> rq_fs t = empty_disk"
  using introduction_registers [of "offer [offered 5]" "\<lparr>in_files = [offered 5], in_texts = [], in_wifis = []\<rparr>"
      W "receiver ReceivedPairedKeyResult"] offered_destination download_printable
  by (auto simp: offer_def)

lemma same_name_same_destination_witness:
  "\<exists>t a b. process_introduction W (offer [offered 5, offered 6]) (receiver ReceivedPairedKeyResult) = (Done (), t)
    \<and> hm_lookup (is_transferred_files (rq_st t)) 5 = Some a
    \<and> hm_lookup (is_transferred_files (rq_st t)) 6 = Some b \<and> ifi_file_url a = ifi_file_url b"
proof -
  let ?v = "offer [offered 5, offered 6]"
  have v: "sv_introduction ?v = Some \<lparr>in_files = [offered 5, offered 6], in_texts = [], in_wifis = []\<rparr>"
    by (simp add: offer_def)
  obtain t where t: "process_introduction W ?v (receiver ReceivedPairedKeyResult) = (Done (), t)"
    using introduction_runs [OF v, of W "receiver ReceivedPairedKeyResult"] offered_destination download_printable by auto
  moreover have ids: "file_payload_id (offered i) = i" "file_name_of (offered i) = ''a.txt''" for i
    by (simp_all add: offered_def Wire.file_payload_id_def file_name_of_def)
  ultimately show ?thesis
    using same_name_same_destination [OF v _ _ _ _ t] by simp
qed

lemma accept_announced_only: "\<exists>t. accept_transfer W announced_only = (Done (), t)"
proof -
  have small: "length (enc_sharing W (response_frame CsAccept)) \<le> 1000"
    by (simp add: W_fields encode_def response_frame_def sharing_v1_frame_def sv_default_def
        sharing_frame_ser_def sharing_v1_ser_def ser_length)
  have create: "\<not> os_create_error W p" for p by (simp add: W_def)
  obtain r1 where r1: "for_each [5] (open_destination W) announced_only = (Done (), r1)"
      "rq_encrypt_key_aes r1 = Some aes_key" "rq_send_hmac r1 = Some mac"
    using create
    by (simp add: open_destination_def exec bind_Done announced_only_def hm_lookup_def file_create_def
        upd_st_def empty_disk_def)
  obtain r2 where "send_encrypted_frame W (response_frame CsAccept) r1 = (Done (), r2)"
    using W_send_sharing [OF r1(2,3) small] by blast
  then show ?thesis
    using r1(1) by (simp add: accept_transfer_def exec W_fields hm_keys_def announced_only_def
        andthen_Done bind_Done draw_def update_state_def)
qed

lemma accept_creates_files_witness:
  "\<exists>t. accept_transfer W announced_only = (Done (), t)
    \<and> rq_fs t ''/downloads/a.txt'' = Some (FileNode []) \<and> conn t = ReceivingFiles"
proof -
  obtain t where t: "accept_transfer W announced_only = (Done (), t)"
    using accept_announced_only by blast
  have "''/downloads/a.txt'' \<in> registered_at announced_only UNIV"
    by (auto simp: registered_at_def announced_only_def hm_lookup_def file_entry_def)
  with t accept_creates_files [OF W_keys t] show ?thesis by auto
qed

lemma introduction_announces_witness:
  "\<exists>metas infos n t. collect_files W [''/home/a.txt'', ''/home/gone.txt''] [] [] 0 (sender SentPairedKeyResult)
      = (Done (metas, infos, n), t)
    \<and> map fm_name metas = [Some ''a.txt''] \<and> n = 2"
proof -
  have ok: "\<not> os_open_error W p" "\<not> os_metadata_error W p" for p by (simp_all add: W_def)
  have name: "path_file_name ''/home/a.txt'' = Some ''a.txt''"
    by (simp add: path_file_name_def body_segments_def before_body_def include_cur_dir_def
        is_absolute_def drop_skipped_def skipped_def)
  obtain metas infos n t where run: "collect_files W [''/home/a.txt'', ''/home/gone.txt''] [] [] 0
      (sender SentPairedKeyResult) = (Done (metas, infos, n), t)"
    using ok name by (simp add: exec is_file_def Let_def draw_def bind_Done)
  show ?thesis
    using introduction_announces [OF run] run ok name
    by (auto simp: announceable_def is_file_def content_size_def file_content_def)
qed

section \<open>Sending files\<close>

definition sending_entry :: "nat \<Rightarrow> internal_file_info" where
  "sending_entry n = \<lparr>ifi_payload_id = 5, ifi_file_url = ''/home/a.txt'', ifi_bytes_transferred = 0,
     ifi_total_size = word_of_nat n, ifi_file = Some \<lparr>fh_path = ''/home/a.txt'', fh_pos = 0\<rparr>\<rparr>"

definition ready_to_send :: "bytes \<Rightarrow> nat \<Rightarrow> outbound" where
  "ready_to_send content n = (sender SendingFiles)\<lparr>rq_fs := [''/home/a.txt'' \<mapsto> FileNode content],
     rq_st := (rq_st (sender SendingFiles))\<lparr>is_transferred_files := [(5, sending_entry n)]\<rparr>\<rparr>"

lemma ready_sending:
  "length c < 2 ^ 63 \<Longrightarrow>
     sending 5 (sending_entry (length c)) ''/home/a.txt'' [] c (ready_to_send c (length c))"
  by (simp add: sending_def ready_to_send_def sending_entry_def hm_lookup_def)

lemma ready_keys:
  "rq_encrypt_key_aes (ready_to_send c n) = Some aes_key" "rq_send_hmac (ready_to_send c n) = Some mac"
  "rq_out (ready_to_send c n) = []" "is_server_seq (rq_st (ready_to_send c n)) = 0"
  by (simp_all add: ready_to_send_def)

abbreviation some_file :: bytes where "some_file \<equiv> [7, 8, 9]"

lemma send_file_returns_witness:
  "fst (send_file W 4 5 file_payload (ifi_total_size (sending_entry (length some_file)))
     (ready_to_send some_file (length some_file))) \<noteq> NoFuel"
  by (rule send_file_returns [OF ready_sending]) simp_all

lemma send_file_completes_witness:
  "\<exists>t. send_file W 4 5 file_payload (ifi_total_size (sending_entry (length some_file)))
     (ready_to_send some_file (length some_file)) = (Done (), t)"
  by (rule send_file_completes [OF W_aes(2) W_no_faults(2,3) _ _ ready_sending])
     (simp_all add: ready_keys)

lemma truncated_file_never_ends_witness:
  "fst (send_file W 100 5 file_payload (ifi_total_size (sending_entry 4)) (ready_to_send [] 4)) = NoFuel"
  by (rule truncated_file_never_ends [OF W_aes(2) W_no_faults(2,3)])
     (simp_all add: stuck_def ready_keys, simp_all add: ready_to_send_def sending_entry_def hm_lookup_def
        file_content_def)

text \<open>What the loop writes fits into frames, because \<open>W\<close> reads two bytes at a time.\<close>

definition fits_rel :: "'x request_scheme \<Rightarrow> 'x request_scheme \<Rightarrow> bool" where
  "fits_rel r t \<longleftrightarrow> (\<exists>ws. rq_out t = rq_out r @ ws \<and> list_all fits_frame ws)"

interpretation fits: step_rel fits_rel
  by unfold_locales (auto simp: fits_rel_def list_all_append intro: exI [of _ "[]"])

lemma fits_modify [within_rules]: "(\<And>r. rq_out (f r) = rq_out r) \<Longrightarrow> within fits_rel (modify f)"
  by (simp add: within_def fits_rel_def exec)

lemma fits_update_state [within_rules]: "within fits_rel (update_state role f inform)"
  unfolding update_state_def by (intro within_rules) simp_all

lemma fits_send:
  assumes "length (enc_offline W f) \<le> 600000"
  shows "within fits_rel (encrypt_and_send W f :: ('x, unit) rio)"
  unfolding within_def
proof
  fix r :: "'x request_scheme"
  obtain res t where run: "encrypt_and_send W f r = (res, t)" by fastforce
  have "fits_rel r t"
  proof (cases "rq_encrypt_key_aes r = None \<or> rq_send_hmac r = None")
    case True
    with run show ?thesis
      by (cases "rq_encrypt_key_aes r"; cases "rq_send_hmac r")
         (auto simp: encrypt_and_send_def exec upd_st_def draw_def Let_def fits_rel_def
          encrypt_padded_mut_fits [OF W_aes(2)])
  next
    case False
    then obtain k h where kh: "rq_encrypt_key_aes r = Some k" "rq_send_hmac r = Some h" by auto
    show ?thesis
      using run W_framed_fits [OF assms] unfolding W_send [OF kh] by (auto simp: fits_rel_def)
  qed
  with run show "fits_rel r (snd (encrypt_and_send W f r))" by simp
qed

lemma fits_read:
  assumes "\<And>d. length d \<le> 2 \<Longrightarrow> within fits_rel (k d)"
  shows "within fits_rel (bind (file_read W i info h) k)"
  unfolding within_def
proof
  fix r
  obtain d where "length d \<le> 2" and read: "file_read W i info h r
      = (Done d, put_handle i info (h\<lparr>fh_pos := fh_pos h + length d\<rparr>) r)"
    using W_no_faults(3) by (simp add: file_read_def Let_def W_fields read_buffer_size_def)
  with assms have "fits_rel (put_handle i info (h\<lparr>fh_pos := fh_pos h + length d\<rparr>) r)
      (snd (k d (put_handle i info (h\<lparr>fh_pos := fh_pos h + length d\<rparr>) r)))"
    by (simp add: within_def)
  then show "fits_rel r (snd (bind (file_read W i info h) k r))"
    by (simp add: bind_Done read fits_rel_def put_handle_def upd_st_def)
qed

lemma fits_send_file:
  assumes "length (fst payload_header_ser header) \<le> 1000"
  shows "within fits_rel (send_file W fuel i header n)"
proof (induction fuel)
  case 0
  show ?case by (simp add: within_rules)
next
  case (Suc fuel)
  have send: "within fits_rel (encrypt_and_send W (data_transfer header
      \<lparr>pc_flags = Some a, pc_offset = Some b, pc_body = Some d\<rparr>))" if "length d \<le> 2" for a b d
    using that assms by (intro fits_send) (simp add: W_data_length)
  then show ?case
    unfolding send_file.simps count_sent_def Let_def
    by (intro fits_read send within_rules Suc.IH allI impI) simp_all
qed

lemma file_delivered_witness:
  "\<exists>s' ws n res r'.
    send_file W 4 5 (file_header 5 (sending_entry 3)) (ifi_total_size (sending_entry 3))
      (ready_to_send some_file 3) = (Done (), s')
    \<and> rq_out s' = ws
    \<and> for_each (replicate n OnSocket) (handle W)
        ((accepted [])\<lparr>rq_in := concat ws, rq_st := (rq_st (accepted []))\<lparr>is_transferred_files :=
           [(5, (file_entry [])\<lparr>ifi_total_size := 3\<rparr>)]\<rparr>\<rparr>) = (res, r')
    \<and> rq_fs r' ''/downloads/a.txt'' = Some (FileNode some_file) \<and> conn r' = Finished"
proof -
  let ?s = "ready_to_send some_file 3"
  let ?h = "file_header 5 (sending_entry 3)"
  let ?ri = "(file_entry [])\<lparr>ifi_total_size := 3\<rparr>"
  have s: "sending 5 (sending_entry 3) ''/home/a.txt'' [] some_file ?s"
    using ready_sending [of some_file] by (simp add: numeral_3_eq_3)
  obtain s' where s': "send_file W 4 5 ?h (ifi_total_size (sending_entry 3)) ?s = (Done (), s')"
    using send_file_succeeds [OF W_aes(2) W_no_faults(2,3) _ _ s, of 4 ?h] ready_keys by auto
  have "length (fst payload_header_ser ?h) \<le> 1000"
    by (simp add: file_header_def payload_header_ser_def ser_length sending_entry_def path_file_name_def
        body_segments_def before_body_def include_cur_dir_def is_absolute_def drop_skipped_def skipped_def)
  from withinD [OF fits_send_file [OF this] s'] obtain ws where ws: "rq_out s' = rq_out ?s @ ws"
      "list_all fits_frame ws" by (auto simp: fits_rel_def)
  let ?r = "(accepted [])\<lparr>rq_in := concat ws, rq_st := (rq_st (accepted []))\<lparr>is_transferred_files := [(5, ?ri)]\<rparr>\<rparr>"
  have "linked ?s ?r" by (simp add: linked_def ready_keys) (simp add: accepted_def)
  moreover have "secured (conn ?r)" by (simp add: secured_def conn_def accepted_def receiver_def)
  moreover have "receiving 5 ?ri ''/downloads/a.txt'' [] ?r"
    by (simp add: receiving_def accepted_def file_entry_def hm_lookup_def)
  moreover have "ifi_total_size ?ri = ifi_total_size (sending_entry 3)"
    by (simp add: sending_entry_def)
  moreover have "\<not> others_left 5 ?r" by (simp add: others_left_def hm_lookup_def)
  ultimately have "\<exists>n res r'. for_each (replicate n OnSocket) (handle W) ?r = (res, r')
    \<and> rq_fs r' = (rq_fs ?r)(''/downloads/a.txt'' \<mapsto> FileNode ([] @ some_file)) \<and> conn r' = Finished"
    using file_delivered [OF W_channel _ _ s _ _ _ _ _ s' ws, of ?r ?ri "''/downloads/a.txt''" "[]"]
      W_no_faults(4) by (simp add: read_buffer_size_def) blast
  then obtain n res r' where "for_each (replicate n OnSocket) (handle W) ?r = (res, r')"
      "rq_fs r' = (rq_fs ?r)(''/downloads/a.txt'' \<mapsto> FileNode ([] @ some_file))" "conn r' = Finished"
    by blast
  with s' ws(1) ready_keys(3) show ?thesis
    by (intro exI [of _ s'] exI [of _ ws] exI [of _ n] exI [of _ res] exI [of _ r']) simp
qed

lemma handshake_agrees_witness:
  "\<exists>c1 s2 m1 m2 m3 m4 s1 c2 pin.
    send_ukey2_client_init W fresh_out = (Done (), c1)
    \<and> serve_frame W m1 (fresh\<lparr>rq_st := (rq_st fresh)\<lparr>is_state := ReceivedConnectionRequest\<rparr>\<rparr>) = (Done (), s1)
    \<and> out_serve_frame W 9 m2 c1 = (Done (), c2) \<and> rq_out c2 = rq_out c1 @ framed m3 @ framed m4
    \<and> serve_frame W m3 s1 = (Done (), s2) \<and> linked c2 s2 \<and> linked s2 c2
    \<and> is_pin_code (rq_st c2) = Some pin \<and> is_pin_code (rq_st s2) = Some pin"
proof -
  let ?s = "fresh\<lparr>rq_st := (rq_st fresh)\<lparr>is_state := ReceivedConnectionRequest\<rparr>\<rparr>"
  have "conn ?s = ReceivedConnectionRequest" "is_client_seq (rq_st ?s) = is_server_seq (rq_st fresh_out)"
    "is_client_seq (rq_st fresh_out) = is_server_seq (rq_st ?s)"
    by (simp_all add: conn_def start_defs)
  from handshake_agrees [OF W_exchange W_no_faults(1) this(1) W_point W_long W_point W_long this(2,3), of 9]
  show ?thesis by blast
qed

end
