(* ===== verification/Discovery.thy ===== *)
theory Discovery
  imports Endpoint
begin

text \<open>
  \<open>hdl/mdns_discovery.rs\<close>: the task that browses for endpoints, probes whether they can be
  reached and tells the front end about those that appear and disappear; and
  \<open>is_not_self_ip\<close> and \<open>local_ipv4_addrs\<close> of \<open>utils.rs\<close>. What the mDNS daemon, the
  network interfaces and the TCP probe answer comes with each event.
\<close>

section \<open>Addresses\<close>

datatype ip_addr = V4 u32 | V6 "128 word"

definition octet :: "nat \<Rightarrow> u32 \<Rightarrow> nat" where
  "octet i ip = unat (drop_bit (8 * i) ip AND 0xFF)"

text \<open>\<open>Ipv4Addr\<close> as \<open>Display\<close> prints it.\<close>

definition show_ipv4 :: "u32 \<Rightarrow> string" where
  "show_ipv4 ip = dec (octet 3 ip) @ ''.'' @ dec (octet 2 ip) @ ''.''
     @ dec (octet 1 ip) @ ''.'' @ dec (octet 0 ip)"

definition ip_port :: "u32 \<Rightarrow> 16 word \<Rightarrow> string" where
  "ip_port ip port = show_ipv4 ip @ '':'' @ dec (unat port)"

definition is_loopback :: "u32 \<Rightarrow> bool" where
  "is_loopback ip \<longleftrightarrow> octet 3 ip = 127"

text \<open>\<open>None\<close> is a failed call of \<open>get_if_addrs\<close>.\<close>

definition local_ipv4_addrs :: "ip_addr list option \<Rightarrow> ip_addr list" where
  "local_ipv4_addrs if_addrs =
     filter (\<lambda>i. case i of V4 v4 \<Rightarrow> \<not> is_loopback v4 | V6 _ \<Rightarrow> False)
       (case if_addrs of None \<Rightarrow> [] | Some addrs \<Rightarrow> addrs)"

text \<open>The flag is the feature \<open>allow-self-discovery\<close>.\<close>

definition is_not_self_ip :: "bool \<Rightarrow> ip_addr list option \<Rightarrow> u32 \<Rightarrow> bool" where
  "is_not_self_ip allow_self_discovery if_addrs ip_address =
     (if allow_self_discovery then True
      else case if_addrs of
        None \<Rightarrow> True
      | Some addrs \<Rightarrow> list_all (\<lambda>if_addr. if_addr \<noteq> V4 ip_address) addrs)"

section \<open>Events\<close>

record endpoint_info =
  ei_fullname :: string
  ei_id :: string
  ei_name :: "string option"
  ei_ip :: "string option"
  ei_port :: "string option"
  ei_rtype :: "device_type option"
  ei_present :: "bool option"

definition ei_default :: endpoint_info where
  "ei_default = \<lparr>ei_fullname = [], ei_id = [], ei_name = None, ei_ip = None, ei_port = None,
     ei_rtype = None, ei_present = None\<rparr>"

text \<open>
  The part of \<open>mdns_sd::ResolvedService\<close> that is read: \<open>fullname\<close>, \<open>get_port\<close>,
  \<open>get_addresses_v4\<close> in the order of its iterator, and \<open>get_property\<close> with
  \<open>val_str\<close>.
\<close>

record resolved_service =
  rs_fullname :: string
  rs_port :: "16 word"
  rs_addresses_v4 :: "u32 list"
  rs_property :: "string \<Rightarrow> string option"

datatype service_event =
    ServiceResolved resolved_service
  | ServiceRemoved string string
  | ServiceFound string string
  | SearchStarted string
  | SearchStopped string
  | OtherEvent

text \<open>How \<open>timeout(TCP_CONNECT_TIMEOUT, TcpStream::connect(..))\<close> ends.\<close>

datatype probe = Reachable | ConnectFailed | TimedOut

record surroundings =
  sr_if_addrs :: "ip_addr list option"
  sr_probe :: probe

datatype discovery_event =
    DiscoveryCancelled
  | Received service_event surroundings
  | ReceiveError

section \<open>The task\<close>

text \<open>The cache and what was sent to the broadcast channel of the front end.\<close>

record discovery_state =
  ds_cache :: "(string, endpoint_info) hashmap"
  ds_sent :: "endpoint_info list"

definition new_discovery :: discovery_state where
  "new_discovery = \<lparr>ds_cache = [], ds_sent = []\<rparr>"

text \<open>\<open>MDnsDiscovery::new\<close> needs a daemon of its own.\<close>

definition mdns_discovery_new :: "bool \<Rightarrow> discovery_state outcome" where
  "mdns_discovery_new daemon_ok = (if daemon_ok then Done new_discovery else Fail (Error ''ServiceDaemon''))"

definition reachable_endpoint ::
  "string \<Rightarrow> u32 \<Rightarrow> 16 word \<Rightarrow> device_type \<Rightarrow> string \<Rightarrow> endpoint_info" where
  "reachable_endpoint fullname ip port dt dn =
     \<lparr>ei_fullname = fullname, ei_id = ip_port ip port, ei_name = Some dn,
      ei_ip = Some (show_ipv4 ip), ei_port = Some (dec (unat port)),
      ei_rtype = Some dt, ei_present = Some True\<rparr>"

definition service_resolved ::
  "env \<Rightarrow> bool \<Rightarrow> surroundings \<Rightarrow> resolved_service \<Rightarrow> discovery_state \<Rightarrow> discovery_state" where
  "service_resolved X allow_self around info d =
     (case rs_addresses_v4 info of
        [] \<Rightarrow> d
      | ip # _ \<Rightarrow>
     if \<not> is_not_self_ip allow_self (sr_if_addrs around) ip then d
     else case rs_property info ''n'' of
        None \<Rightarrow> d
      | Some n \<Rightarrow>
     (case parse_mdns_endpoint_info X n of
        Done (dt, dn) \<Rightarrow>
          (let fullname = rs_fullname info; port = rs_port info in
           if map_option ei_id (hm_lookup (ds_cache d) fullname) = Some (ip_port ip port) then d
           else case sr_probe around of
             Reachable \<Rightarrow>
               (let ei = reachable_endpoint fullname ip port dt dn in
                d\<lparr>ds_cache := hm_insert fullname ei (ds_cache d), ds_sent := ds_sent d @ [ei]\<rparr>)
           | ConnectFailed \<Rightarrow> d
           | TimedOut \<Rightarrow> d)
      | _ \<Rightarrow> d))"

definition service_removed :: "string \<Rightarrow> discovery_state \<Rightarrow> discovery_state" where
  "service_removed fullname d =
     (case hm_lookup (ds_cache d) fullname of
        None \<Rightarrow> d
      | Some ei \<Rightarrow> d\<lparr>ds_cache := hm_remove fullname (ds_cache d),
          ds_sent := ds_sent d @ [ei_default\<lparr>ei_id := ei_id ei\<rparr>]\<rparr>)"

definition discovery_step :: "env \<Rightarrow> bool \<Rightarrow> surroundings \<Rightarrow> service_event \<Rightarrow> discovery_state \<Rightarrow> discovery_state" where
  "discovery_step X allow_self around event d =
     (case event of
        ServiceResolved info \<Rightarrow> service_resolved X allow_self around info d
      | ServiceRemoved _ fullname \<Rightarrow> service_removed fullname d
      | ServiceFound _ _ \<Rightarrow> d
      | SearchStarted _ \<Rightarrow> d
      | SearchStopped _ \<Rightarrow> d
      | OtherEvent \<Rightarrow> d)"

text \<open>The main loop, and whether it was left; then the daemon is drained until it has stopped.\<close>

fun discovery_loop ::
  "env \<Rightarrow> bool \<Rightarrow> discovery_event list \<Rightarrow> discovery_state \<Rightarrow> discovery_state \<times> discovery_event list option" where
  "discovery_loop X allow_self [] d = (d, None)"
| "discovery_loop X allow_self (DiscoveryCancelled # evs) d = (d, Some evs)"
| "discovery_loop X allow_self (Received event around # evs) d =
     discovery_loop X allow_self evs (discovery_step X allow_self around event d)"
| "discovery_loop X allow_self (ReceiveError # evs) d = discovery_loop X allow_self evs d"

fun drained :: "discovery_event list \<Rightarrow> bool" where
  "drained [] = False"
| "drained (Received (SearchStopped _) _ # evs) = True"
| "drained (Received _ _ # evs) = drained evs"
| "drained (ReceiveError # evs) = True"
| "drained (DiscoveryCancelled # evs) = drained evs"

text \<open>\<open>run\<close>: the flag says whether \<open>browse\<close> succeeded. The result says whether it returned.\<close>

definition discovery_run ::
  "env \<Rightarrow> bool \<Rightarrow> bool \<Rightarrow> discovery_event list \<Rightarrow> discovery_state \<times> bool" where
  "discovery_run X allow_self browse_ok evs =
     (if \<not> browse_ok then (new_discovery, True)
      else case discovery_loop X allow_self evs new_discovery of
        (d, None) \<Rightarrow> (d, False)
      | (d, Some rest) \<Rightarrow> (d, drained rest))"

section \<open>What the front end is told\<close>

text \<open>\<open>handle_endpoint_info\<close> of \<open>state.rs\<close>, on the map it changes.\<close>

definition note_endpoint ::
  "endpoint_info \<Rightarrow> (string, endpoint_info) hashmap \<Rightarrow> (string, endpoint_info) hashmap" where
  "note_endpoint info devices =
     (if ei_present info = Some True \<and> ei_name info \<noteq> None
      then hm_insert (ei_id info) info devices
      else hm_remove (ei_id info) devices)"

definition noted :: "endpoint_info list \<Rightarrow> (string, endpoint_info) hashmap" where
  "noted infos = fold note_endpoint infos []"

lemma noted_snoc: "noted (infos @ [i]) = note_endpoint i (noted infos)"
  by (simp add: noted_def)

text \<open>An event in which every endpoint keeps the address it is given by a function.\<close>

fun at_address :: "(string \<Rightarrow> string) \<Rightarrow> discovery_event \<Rightarrow> bool" where
  "at_address address (Received (ServiceResolved info) around) \<longleftrightarrow>
     (case rs_addresses_v4 info of [] \<Rightarrow> True
      | ip # _ \<Rightarrow> ip_port ip (rs_port info) = address (rs_fullname info))"
| "at_address address _ \<longleftrightarrow> True"

text \<open>The devices shown are the cached ones, each under its address.\<close>

definition shows_cache :: "(string \<Rightarrow> string) \<Rightarrow> discovery_state \<Rightarrow> bool" where
  "shows_cache address d \<longleftrightarrow>
     (\<forall>n. hm_lookup (noted (ds_sent d)) (address n) = hm_lookup (ds_cache d) n) \<and>
     (\<forall>i. i \<notin> range address \<longrightarrow> hm_lookup (noted (ds_sent d)) i = None) \<and>
     (\<forall>n ei. hm_lookup (ds_cache d) n = Some ei \<longrightarrow> ei_id ei = address n)"

lemma shows_cache_new: "shows_cache address new_discovery"
  by (simp add: shows_cache_def new_discovery_def noted_def)

lemma service_removed_shows:
  assumes "inj address" and "shows_cache address d"
  shows "shows_cache address (service_removed n d)"
proof (cases "hm_lookup (ds_cache d) n")
  case None
  with assms show ?thesis by (simp add: service_removed_def)
next
  case (Some ei)
  with assms have i: "ei_id ei = address n"
    by (simp add: shows_cache_def)
  then have "service_removed n d = d\<lparr>ds_cache := hm_remove n (ds_cache d),
      ds_sent := ds_sent d @ [ei_default\<lparr>ei_id := address n\<rparr>]\<rparr>"
    and "noted (ds_sent d @ [ei_default\<lparr>ei_id := address n\<rparr>])
      = hm_remove (address n) (noted (ds_sent d))"
    using Some by (simp_all add: service_removed_def noted_snoc note_endpoint_def ei_default_def)
  with assms show ?thesis
    by (simp add: shows_cache_def inj_eq)
qed

lemma service_resolved_cases:
  obtains (same) "service_resolved X allow_self around info d = d"
  | (new) ip ips dt dn where "rs_addresses_v4 info = ip # ips"
    "service_resolved X allow_self around info d =
       (let ei = reachable_endpoint (rs_fullname info) ip (rs_port info) dt dn in
        d\<lparr>ds_cache := hm_insert (rs_fullname info) ei (ds_cache d), ds_sent := ds_sent d @ [ei]\<rparr>)"
proof -
  have "service_resolved X allow_self around info d = d \<or> (\<exists>ip ips dt dn.
      rs_addresses_v4 info = ip # ips \<and> service_resolved X allow_self around info d =
       (let ei = reachable_endpoint (rs_fullname info) ip (rs_port info) dt dn in
        d\<lparr>ds_cache := hm_insert (rs_fullname info) ei (ds_cache d), ds_sent := ds_sent d @ [ei]\<rparr>))"
    unfolding service_resolved_def Let_def
    by (simp split: list.split option.split outcome.split probe.split prod.split) blast
  then show thesis using that by iprover
qed

lemma service_resolved_shows:
  assumes "inj address" and "shows_cache address d"
    and "at_address address (Received (ServiceResolved info) around)"
  shows "shows_cache address (service_resolved X allow_self around info d)"
proof (cases rule: service_resolved_cases [of X allow_self around info d])
  case same
  with assms show ?thesis by simp
next
  case (new ip ips dt dn)
  let ?ei = "reachable_endpoint (rs_fullname info) ip (rs_port info) dt dn"
  have "ei_id ?ei = address (rs_fullname info)"
    using assms(3) new(1) by (simp add: reachable_endpoint_def)
  moreover have "noted (ds_sent d @ [?ei]) = hm_insert (ei_id ?ei) ?ei (noted (ds_sent d))"
    by (simp add: noted_snoc note_endpoint_def reachable_endpoint_def)
  ultimately show ?thesis
    using assms(1,2) by (simp add: new(2) Let_def shows_cache_def inj_eq)
qed

lemma discovery_step_shows:
  assumes "inj address" and "shows_cache address d" and "at_address address (Received event around)"
  shows "shows_cache address (discovery_step X allow_self around event d)"
  using assms service_resolved_shows [of address d _ around X allow_self] service_removed_shows
  by (cases event) (auto simp: discovery_step_def)

lemma discovery_loop_shows:
  assumes "inj address" and "list_all (at_address address) evs" and "shows_cache address d"
  shows "shows_cache address (fst (discovery_loop X allow_self evs d))"
  using assms(2,3)
proof (induction X allow_self evs d rule: discovery_loop.induct)
  case (3 X allow_self event around evs d)
  then show ?case using discovery_step_shows [OF assms(1)] by simp
qed simp_all

lemma discovery_run_shows:
  assumes "inj address" and "list_all (at_address address) evs"
  shows "shows_cache address (fst (discovery_run X allow_self browse_ok evs))"
proof (cases "discovery_loop X allow_self evs new_discovery")
  case (Pair d left)
  with discovery_loop_shows [OF assms shows_cache_new, of X allow_self] shows_cache_new
  show ?thesis by (cases left) (simp_all add: discovery_run_def)
qed

text \<open>
  As long as every endpoint keeps its address and no two share one, the devices the
  front end shows after any events are exactly the reachable endpoints of the discovery cache,
  each under its address.
\<close>

theorem devices_show_cache:
  assumes "inj address" and "list_all (at_address address) evs"
  shows "hm_lookup (noted (ds_sent (fst (discovery_run X allow_self browse_ok evs)))) i = Some ei \<longleftrightarrow>
    (\<exists>n. hm_lookup (ds_cache (fst (discovery_run X allow_self browse_ok evs))) n = Some ei
      \<and> i = address n)"
proof -
  have "shows_cache address (fst (discovery_run X allow_self browse_ok evs))"
    by (rule discovery_run_shows [OF assms])
  then show ?thesis
    by (cases "i \<in> range address") (auto simp: shows_cache_def inj_eq [OF assms(1)])
qed

text \<open>The device an endpoint had before it changed its address.\<close>

definition found_at :: "string \<Rightarrow> u32 \<Rightarrow> 16 word \<Rightarrow> string \<Rightarrow> discovery_event" where
  "found_at n ip port txt_n = Received
     (ServiceResolved \<lparr>rs_fullname = n, rs_port = port, rs_addresses_v4 = [ip],
        rs_property = (\<lambda>k. if k = ''n'' then Some txt_n else None)\<rparr>)
     \<lparr>sr_if_addrs = Some [], sr_probe = Reachable\<rparr>"

lemma service_found_at:
  assumes "parse_mdns_endpoint_info X n' = Done (dt, dn)"
    and "map_option ei_id (hm_lookup (ds_cache d) n) \<noteq> Some (ip_port ip port)"
  shows "discovery_loop X allow_self (found_at n ip port n' # evs) d =
    (let ei = reachable_endpoint n ip port dt dn in discovery_loop X allow_self evs
       (d\<lparr>ds_cache := hm_insert n ei (ds_cache d), ds_sent := ds_sent d @ [ei]\<rparr>))"
  using assms
  by (auto simp: found_at_def discovery_step_def service_resolved_def Let_def is_not_self_ip_def)

text \<open>
  An endpoint that comes back under another address and then goes away is still shown
  under its first address, although nothing is left in the cache: the old entry is replaced in
  the cache without telling the front end.
\<close>

theorem moved_endpoint_stays_shown:
  assumes "parse_mdns_endpoint_info X txt = Done (dt, dn)" and "ip_port ip1 port1 \<noteq> ip_port ip2 port2"
  shows "case discovery_run X allow_self True [found_at n ip1 port1 txt, found_at n ip2 port2 txt,
      Received (ServiceRemoved st n) around] of (d, returned) \<Rightarrow>
    ds_cache d = [] \<and>
    hm_lookup (noted (ds_sent d)) (ip_port ip1 port1) = Some (reachable_endpoint n ip1 port1 dt dn)"
proof -
  have id: "ei_id (reachable_endpoint n ip port dt dn) = ip_port ip port" for ip port
    by (simp add: reachable_endpoint_def)
  have new: "note_endpoint (reachable_endpoint n ip port dt dn) m
      = hm_insert (ip_port ip port) (reachable_endpoint n ip port dt dn) m" for ip port m
    by (simp add: note_endpoint_def reachable_endpoint_def)
  have gone: "note_endpoint (ei_default\<lparr>ei_id := i\<rparr>) m = hm_remove i m" for i m
    by (simp add: note_endpoint_def ei_default_def)
  show ?thesis
    using assms by (simp add: discovery_run_def service_found_at new_discovery_def id Let_def
        discovery_step_def service_removed_def noted_def new gone)
      (simp add: hm_remove_def hm_insert_def)
qed

end
