(* ===== verification/MdnsServer.thy ===== *)
theory MdnsServer
  imports Discovery
begin

text \<open>
  \<open>hdl/mdns.rs\<close>: the visibility of this device and the task that advertises it. The watch
  channel carries a version, as \<open>tokio::sync::watch\<close> does; time is in seconds, and the
  timers are the deadlines of their next ticks. A step of the task is one branch of its
  \<open>select!\<close>.
\<close>

section \<open>Visibility\<close>

datatype visibility = Visible | Invisible | Temporarily

definition visibility_num :: "visibility \<Rightarrow> byte" where
  "visibility_num v = (case v of Visible \<Rightarrow> 0 | Invisible \<Rightarrow> 1 | Temporarily \<Rightarrow> 2)"

definition visibility_from_raw :: "u64 \<Rightarrow> visibility outcome" where
  "visibility_from_raw value =
     (if value = 0 then Done Visible else if value = 1 then Done Invisible
      else if value = 2 then Done Temporarily else Panic ''unreachable'')"

section \<open>The advertised service\<close>

record service_info =
  si_type :: string
  si_name :: string
  si_hostname :: string
  si_addresses :: "ip_addr list"
  si_port :: "16 word"
  si_properties :: "(string \<times> string) list"

definition mdns_hostname :: "string \<Rightarrow> string" where
  "mdns_hostname raw_hostname =
     (if drop (length raw_hostname - 7) raw_hostname = ''.local.'' then raw_hostname
      else raw_hostname @ ''.local.'')"

text \<open>What \<open>build_service\<close> hands to \<open>ServiceInfo::new\<close>, for the draw of random bytes.\<close>

definition build_service ::
  "env \<Rightarrow> nat \<Rightarrow> ip_addr list option \<Rightarrow> bytes \<Rightarrow> 16 word \<Rightarrow> device_type \<Rightarrow> service_info" where
  "build_service X k if_addrs endpoint_id service_port device_type =
     \<lparr>si_type = ''_FC9F5ED42C8A._tcp.local.'',
      si_name = gen_mdns_name X endpoint_id,
      si_hostname = mdns_hostname (os_hostname X),
      si_addresses = local_ipv4_addrs if_addrs,
      si_port = service_port,
      si_properties = [(''n'', gen_mdns_endpoint_info X k (device_num device_type) (os_hostname X))]\<rparr>"

text \<open>
  \<open>new\<close> keeps the service it built, always that of a laptop; \<open>info_ok\<close> says whether
  \<open>ServiceInfo::new\<close> takes it.
\<close>

definition mdns_server_new ::
  "bool \<Rightarrow> env \<Rightarrow> nat \<Rightarrow> ip_addr list option \<Rightarrow> bytes \<Rightarrow> 16 word \<Rightarrow> service_info outcome" where
  "mdns_server_new info_ok X k if_addrs endpoint_id service_port =
     (if info_ok then Done (build_service X k if_addrs endpoint_id service_port DevLaptop)
      else Fail (Error ''ServiceInfo''))"

section \<open>The task\<close>

record watch =
  wt_value :: visibility
  wt_version :: nat

definition watch_send :: "visibility \<Rightarrow> watch \<Rightarrow> watch" where
  "watch_send v w = \<lparr>wt_value = v, wt_version = wt_version w + 1\<rparr>"

text \<open>
  The task, the channel it shares with the rest of the program, and whether the service is
  registered with the daemon.
\<close>

record mdns =
  md_visibility :: visibility
  md_seen :: nat
  md_interval :: nat
  md_reannounce :: nat
  md_channel :: watch
  md_registered :: bool

definition tick_interval :: nat where "tick_interval = 60"
definition reannounce_interval :: nat where "reannounce_interval = 15"

datatype loop_step = Continues | Breaks | Errs

text \<open>Calls of the daemon, which can fail to take the command.\<close>

definition register :: "bool \<Rightarrow> mdns \<Rightarrow> loop_step \<times> mdns" where
  "register daemon_ok m = (if daemon_ok then (Continues, m\<lparr>md_registered := True\<rparr>) else (Errs, m))"

definition unregister :: "bool \<Rightarrow> mdns \<Rightarrow> loop_step \<times> mdns" where
  "unregister daemon_ok m = (if daemon_ok then (Continues, m\<lparr>md_registered := False\<rparr>) else (Errs, m))"

definition step_then :: "loop_step \<times> mdns \<Rightarrow> (mdns \<Rightarrow> mdns) \<Rightarrow> loop_step \<times> mdns" where
  "step_then r f = (case r of (Continues, m) \<Rightarrow> (Continues, f m) | _ \<Rightarrow> r)"

text \<open>Up to the loop. The receiver was cloned from one that saw the version \<open>seen\<close>.\<close>

definition mdns_start :: "nat \<Rightarrow> bool \<Rightarrow> nat \<Rightarrow> watch \<Rightarrow> loop_step \<times> mdns" where
  "mdns_start now daemon_ok seen channel =
     (let m = \<lparr>md_visibility = wt_value channel, md_seen = seen, md_interval = now + tick_interval,
        md_reannounce = now + reannounce_interval, md_channel = channel, md_registered = False\<rparr>
      in if md_visibility m = Visible \<or> md_visibility m = Temporarily then register daemon_ok m
         else (Continues, m))"

datatype mdns_event =
    SetVisibility visibility   \<comment> \<open>the rest of the program: \<open>change_visibility\<close>\<close>
  | MonitorEvent bool
  | Changed
  | BleSeen
  | Reannounce
  | Tick

definition enabled :: "nat \<Rightarrow> mdns_event \<Rightarrow> mdns \<Rightarrow> bool" where
  "enabled now ev m =
     (case ev of
        Changed \<Rightarrow> md_seen m \<noteq> wt_version (md_channel m)
      | Reannounce \<Rightarrow> md_reannounce m \<le> now
      | Tick \<Rightarrow> md_interval m \<le> now
      | _ \<Rightarrow> True)"

definition visibility_changed :: "nat \<Rightarrow> bool \<Rightarrow> mdns \<Rightarrow> loop_step \<times> mdns" where
  "visibility_changed now daemon_ok m0 =
     (let m = m0\<lparr>md_visibility := wt_value (md_channel m0), md_seen := wt_version (md_channel m0)\<rparr>
      in if md_visibility m = Visible then register daemon_ok m
         else if md_visibility m = Invisible then unregister daemon_ok m
         else step_then (register daemon_ok m) (\<lambda>m. m\<lparr>md_interval := now + tick_interval\<rparr>))"

definition mdns_step :: "nat \<Rightarrow> bool \<Rightarrow> mdns_event \<Rightarrow> mdns \<Rightarrow> loop_step \<times> mdns" where
  "mdns_step now daemon_ok ev m =
     (case ev of
        SetVisibility v \<Rightarrow> (Continues, m\<lparr>md_channel := watch_send v (md_channel m)\<rparr>)
      | MonitorEvent ok \<Rightarrow> (if ok then Continues else Errs, m)
      | Changed \<Rightarrow> visibility_changed now daemon_ok m
      | BleSeen \<Rightarrow>
          if md_visibility m = Invisible then (Continues, m) else register daemon_ok m
      | Reannounce \<Rightarrow>
          (let m = m\<lparr>md_reannounce := md_reannounce m + reannounce_interval\<rparr> in
           if md_visibility m = Visible \<or> md_visibility m = Temporarily then register daemon_ok m
           else (Continues, m))
      | Tick \<Rightarrow>
          (let m = m\<lparr>md_interval := md_interval m + tick_interval\<rparr> in
           if md_visibility m \<noteq> Temporarily then (Continues, m)
           else step_then (unregister daemon_ok m)
             (\<lambda>m. m\<lparr>md_channel := watch_send Invisible (md_channel m)\<rparr>)))"

text \<open>The token was cancelled: the loop is left and the service unregistered.\<close>

definition mdns_stop :: "bool \<Rightarrow> mdns \<Rightarrow> loop_step \<times> mdns" where
  "mdns_stop daemon_ok m = (case unregister daemon_ok m of
     (Continues, m') \<Rightarrow> (Breaks, m') | r \<Rightarrow> r)"

section \<open>Runs\<close>

text \<open>A step of the running task at a time not before the last one.\<close>

inductive mdns_move :: "mdns_event \<Rightarrow> mdns \<times> nat \<Rightarrow> mdns \<times> nat \<Rightarrow> bool" where
  "t \<le> t' \<Longrightarrow> enabled t' ev m \<Longrightarrow> mdns_step t' daemon_ok ev m = (Continues, m')
   \<Longrightarrow> mdns_move ev (m, t) (m', t')"

inductive serving :: "mdns \<Rightarrow> nat \<Rightarrow> bool" where
  started: "seen \<le> wt_version channel \<Longrightarrow> mdns_start t daemon_ok seen channel = (Continues, m)
     \<Longrightarrow> serving m t"
| moved: "serving m t \<Longrightarrow> mdns_move ev (m, t) (m', t') \<Longrightarrow> serving m' t'"

inductive_cases mdns_moveE: "mdns_move ev (m, t) (m', t')"

lemmas mdns_defs = mdns_step_def visibility_changed_def register_def unregister_def
  step_then_def watch_send_def enabled_def

text \<open>The service is registered as the channel says, unless a change waits to be handled.\<close>

definition advertised :: "mdns \<Rightarrow> bool" where
  "advertised m \<longleftrightarrow> md_seen m \<le> wt_version (md_channel m) \<and>
     (md_seen m = wt_version (md_channel m) \<longrightarrow> md_visibility m = wt_value (md_channel m)
        \<and> (md_registered m \<longleftrightarrow> md_visibility m \<noteq> Invisible))"

lemma advertised_start:
  "seen \<le> wt_version channel \<Longrightarrow> mdns_start t daemon_ok seen channel = (Continues, m)
   \<Longrightarrow> advertised m"
  by (cases "wt_value channel")
    (auto simp: mdns_start_def Let_def advertised_def mdns_defs split: if_splits)

lemma advertised_step:
  assumes "advertised m" and "enabled t ev m" and "mdns_step t daemon_ok ev m = (Continues, m')"
  shows "advertised m'"
proof (cases ev)
  case Changed
  then show ?thesis using assms
    by (cases "wt_value (md_channel m)")
      (auto simp: mdns_defs advertised_def Let_def split: if_splits prod.splits loop_step.splits)
next
  case Tick
  then show ?thesis using assms
    by (auto simp: mdns_defs advertised_def Let_def split: if_splits prod.splits loop_step.splits)
next
  case Reannounce
  then show ?thesis using assms
    by (auto simp: mdns_defs advertised_def Let_def split: if_splits)
qed (use assms in \<open>auto simp: mdns_defs advertised_def split: if_splits\<close>)

lemma serving_advertised: "serving m t \<Longrightarrow> advertised m"
proof (induction rule: serving.induct)
  case (started seen channel t daemon_ok m)
  then show ?case by (rule advertised_start)
next
  case (moved m t ev m' t')
  from moved.hyps(2) show ?case
    by (rule mdns_moveE) (rule advertised_step [OF moved.IH])
qed

text \<open>A step that is not the user's changes the channel only to end a temporary visibility.\<close>

lemma channel_changed:
  assumes "mdns_move ev (m, t) (m', t')" and "\<forall>v. ev \<noteq> SetVisibility v" and "md_channel m' \<noteq> md_channel m"
  shows "ev = Tick \<and> md_visibility m = Temporarily \<and> md_interval m \<le> t'
    \<and> wt_value (md_channel m') = Invisible \<and> \<not> md_registered m'"
  using assms(1)
proof (rule mdns_moveE)
  fix daemon_ok
  assume "enabled t' ev m" and "mdns_step t' daemon_ok ev m = (Continues, m')"
  then show ?thesis
    using assms(2,3)
    by (cases ev) (auto simp: mdns_defs Let_def split: if_splits prod.splits loop_step.splits)
qed

text \<open>
  C27. In every state the running task reaches, whatever the order of its timers and events: once it
  has handled every change of the visibility, the service is registered with the mDNS daemon exactly
  when the visibility is not \<open>Invisible\<close>. And the visibility the channel holds is changed, except by
  the rest of the program, in one case only: the timer has fired while the task's visibility is
  temporary. Then it becomes \<open>Invisible\<close> and the service is not registered any more.
\<close>

theorem advertised_iff_visible:
  assumes "serving m t"
  shows "(md_seen m = wt_version (md_channel m) \<longrightarrow>
      (md_registered m \<longleftrightarrow> wt_value (md_channel m) \<noteq> Invisible))
    \<and> (\<forall>ev m' t'. mdns_move ev (m, t) (m', t') \<and> (\<forall>v. ev \<noteq> SetVisibility v)
        \<and> md_channel m' \<noteq> md_channel m \<longrightarrow>
      ev = Tick \<and> md_visibility m = Temporarily \<and> md_interval m \<le> t'
        \<and> wt_value (md_channel m') = Invisible \<and> \<not> md_registered m')"
proof (intro conjI allI impI)
  assume "md_seen m = wt_version (md_channel m)"
  with serving_advertised [OF assms] show "md_registered m \<longleftrightarrow> wt_value (md_channel m) \<noteq> Invisible"
    by (auto simp: advertised_def)
next
  fix ev m' t'
  assume "mdns_move ev (m, t) (m', t') \<and> (\<forall>v. ev \<noteq> SetVisibility v) \<and> md_channel m' \<noteq> md_channel m"
  with channel_changed [of ev m t m' t']
  show "ev = Tick" "md_visibility m = Temporarily" "md_interval m \<le> t'"
    "wt_value (md_channel m') = Invisible" "\<not> md_registered m'" by blast+
qed

subsection \<open>The temporary visibility\<close>

inductive quiet_moves :: "mdns \<times> nat \<Rightarrow> mdns \<times> nat \<Rightarrow> bool" where
  none: "quiet_moves a a"
| more: "quiet_moves a b \<Longrightarrow> mdns_move ev b c \<Longrightarrow> (\<And>v. ev \<noteq> SetVisibility v) \<Longrightarrow> quiet_moves a c"

definition temporary_until :: "nat \<Rightarrow> mdns \<Rightarrow> bool" where
  "temporary_until d m \<longleftrightarrow> md_visibility m = Temporarily \<and> md_seen m = wt_version (md_channel m)
     \<and> wt_value (md_channel m) = Temporarily \<and> md_interval m = d \<and> md_registered m"

lemma temporary_until_step:
  assumes "temporary_until d m" and "t < d" and "enabled t ev m"
    and "mdns_step t daemon_ok ev m = (Continues, m')" and "\<And>v. ev \<noteq> SetVisibility v"
  shows "temporary_until d m'"
proof (cases ev)
  case (SetVisibility v)
  with assms(5) show ?thesis by blast
qed (use assms in \<open>auto simp: mdns_defs temporary_until_def Let_def split: if_splits\<close>)

lemma mdns_move_later: "mdns_move ev b c \<Longrightarrow> snd b \<le> snd c"
  by (cases b; cases c) (auto elim: mdns_moveE)

lemma temporary_until_moves:
  "quiet_moves a c \<Longrightarrow> temporary_until d (fst a) \<Longrightarrow> snd c < d \<Longrightarrow> temporary_until d (fst c)"
proof (induction rule: quiet_moves.induct)
  case (more a b ev c)
  then have b: "temporary_until d (fst b)"
    using mdns_move_later [OF more.hyps(2)] by simp
  obtain m t m' t' where bc: "b = (m, t)" "c = (m', t')"
    by (cases b; cases c)
  from more.hyps(2) show ?case
    unfolding bc
    by (rule mdns_moveE)
      (use temporary_until_step [of d m t'] b bc more in auto)
qed simp

text \<open>
  A visibility that was set to \<open>Temporarily\<close> lasts: while the user does not change it, the
  service stays registered and the timer that ends it cannot fire for 60 seconds after the
  change was handled.
\<close>

theorem temporary_visibility_lasts:
  assumes "wt_value (md_channel m) = Temporarily"
    and "mdns_step t daemon_ok Changed m = (Continues, m1)"
    and "quiet_moves (m1, t) (m2, t2)" and "t2 < t + 60"
  shows "md_registered m2 \<and> wt_value (md_channel m2) = Temporarily \<and> \<not> enabled t2 Tick m2"
proof -
  have "temporary_until (t + 60) m1"
    using assms(1,2) by (auto simp: mdns_defs temporary_until_def Let_def tick_interval_def
        split: if_splits prod.splits loop_step.splits)
  from temporary_until_moves [OF assms(3)] this assms(4) show ?thesis
    by (simp add: temporary_until_def enabled_def)
qed

text \<open>
  When the timer of a temporary visibility fires, the task ends up invisible, whatever the
  channel says: a choice of the user that was not handled yet, such as \<open>Visible\<close>, is
  overwritten and lost.
\<close>

theorem expiry_overwrites_choice:
  assumes "md_visibility m = Temporarily" and "md_interval m \<le> t"
    and "md_seen m \<le> wt_version (md_channel m)"
  shows "enabled t Tick m \<and> (\<exists>m1 m2. mdns_step t True Tick m = (Continues, m1) \<and>
    enabled t Changed m1 \<and> mdns_step t True Changed m1 = (Continues, m2) \<and>
    \<not> md_registered m2 \<and> md_visibility m2 = Invisible \<and> wt_value (md_channel m2) = Invisible)"
  using assms by (simp add: mdns_defs Let_def)

text \<open>
  C32. What one device advertises is what another one finds: the properties of the built service
  are parsed to this device's type and name, and the endpoint is announced with the first
  address, as long as it is not the finder's own and can be reached.
\<close>

theorem advertised_service_found:
  assumes "base64_ok X" and "rand_ok X" and "os_hostname X \<noteq> []" and "length (os_hostname X) < 256"
    and "utf8_valid (as_bytes (os_hostname X))"
    and "si = build_service X k if_addrs endpoint_id port d" and "si_addresses si = V4 ip # addrs"
    and "rs_fullname info = n" and "rs_port info = si_port si"
    and "rs_addresses_v4 info = ip # ips" and "rs_property info = map_of (si_properties si)"
    and "is_not_self_ip allow_self (sr_if_addrs around) ip" and "sr_probe around = Reachable"
    and "hm_lookup (ds_cache ds) n = None"
  shows "ds_sent (discovery_step X allow_self around (ServiceResolved info) ds)
    = ds_sent ds @ [reachable_endpoint n ip port d (os_hostname X)]"
proof -
  have "parse_mdns_endpoint_info X (gen_mdns_endpoint_info X k (device_num d) (os_hostname X))
      = Done (d, os_hostname X)"
    using mdns_info_read [OF assms(1,2), of k d "os_hostname X"] assms(3-5)
    by (simp add: from_utf8_as_bytes)
  with assms show ?thesis
    by (simp add: discovery_step_def service_resolved_def build_service_def Let_def)
qed

end
