(* ===== verification/Lifecycle.thy ===== *)
theory Lifecycle
  imports MdnsServer
begin

text \<open>
  \<open>RQS\<close> of \<open>lib.rs\<close>: the service as the front end starts, changes and stops it. A
  \<open>CancellationToken\<close> is a number; the tokens that were cancelled, the tasks that run
  and the trackers they were spawned on are part of the state. Cancelling a token tells the tasks
  that watch it to end; when a task ends, told or by itself, is an event of its own. The tasks of
  incoming connections are on no tracker and watch no token.
\<close>

section \<open>State\<close>

text \<open>\<open>SendInfo\<close> of \<open>manager.rs\<close>: a request of the front end to send files to a device.\<close>

record send_info =
  snd_id :: string
  snd_name :: string
  snd_addr :: string
  snd_files :: "string list"     \<comment> \<open>\<open>OutboundPayload::Files\<close>\<close>

datatype task_kind = TcpServerTask | BleListenerTask | MdnsServerTask | BleAdvertiserTask | DiscoveryTask

record spawned =
  sp_kind :: task_kind
  sp_tracker :: nat
  sp_token :: nat

record rqs =
  rqs_tracker :: "nat option"
  rqs_ctoken :: "nat option"
  rqs_discovery_ctk :: "nat option"
  rqs_visibility :: watch
  rqs_visibility_seen :: nat      \<comment> \<open>the version \<open>visibility_receiver\<close> has seen\<close>
  rqs_mdns_daemon :: bool
  rqs_port_number :: "u32 option"
  rqs_bound_addr :: "(u32 \<times> 16 word) option"
  rqs_custom_download :: "path option"
  rqs_tasks :: "spawned list"     \<comment> \<open>spawned on a tracker and not ended\<close>
  rqs_quit :: "spawned list"      \<comment> \<open>ended though nothing had told them to; no operation reads it\<close>
  rqs_connections :: nat          \<comment> \<open>tasks of incoming connections, from \<open>tokio::spawn\<close>\<close>
  rqs_cancelled :: "nat list"
  rqs_closed :: "nat list"        \<comment> \<open>the closed trackers\<close>
  rqs_fresh :: nat                \<comment> \<open>the number of the next token or tracker\<close>

text \<open>
  \<open>RQS::new\<close>. The watch channel starts as \<open>Invisible\<close>, version 0, which the receiver has
  seen; sending the visibility makes version 1.
\<close>

definition new_rqs :: "visibility \<Rightarrow> u32 option \<Rightarrow> path option \<Rightarrow> rqs" where
  "new_rqs visibility port_number download_path =
     \<lparr>rqs_tracker = None, rqs_ctoken = None, rqs_discovery_ctk = None,
      rqs_visibility = watch_send visibility \<lparr>wt_value = Invisible, wt_version = 0\<rparr>,
      rqs_visibility_seen = 0, rqs_mdns_daemon = False, rqs_port_number = port_number,
      rqs_bound_addr = None, rqs_custom_download = download_path, rqs_tasks = [],
      rqs_quit = [], rqs_connections = 0, rqs_cancelled = [], rqs_closed = [], rqs_fresh = 0\<rparr>"

definition rqs_default :: rqs where
  "rqs_default = new_rqs Visible None None"

definition fresh_number :: "(rqs, nat) io" where
  "fresh_number r = (Done (rqs_fresh r), r\<lparr>rqs_fresh := rqs_fresh r + 1\<rparr>)"

definition spawn :: "task_kind \<Rightarrow> nat \<Rightarrow> nat \<Rightarrow> (rqs, unit) io" where
  "spawn kind tracker token = modify (\<lambda>r. r\<lparr>rqs_tasks :=
     rqs_tasks r @ [\<lparr>sp_kind = kind, sp_tracker = tracker, sp_token = token\<rparr>]\<rparr>)"

section \<open>Operations\<close>

text \<open>
  How the calls that start the service answer: the bound address, the BLE listener, the mDNS
  daemon, the service record; and the build: the feature \<open>experimental\<close>, the system Linux.
\<close>

record startup =
  su_bind :: "(u32 \<times> 16 word) option"
  su_local_addr :: bool
  su_experimental :: bool
  su_linux :: bool
  su_ble :: bool
  su_daemon :: bool
  su_service :: bool

definition run :: "startup \<Rightarrow> (rqs, unit) io" where
  "run u =
     bind fresh_number (\<lambda>tracker.
     bind fresh_number (\<lambda>ctoken.
     andthen (modify (\<lambda>r. r\<lparr>rqs_tracker := Some tracker, rqs_ctoken := Some ctoken\<rparr>))
     (bind (ok_or IoError (su_bind u)) (\<lambda>addr.
     andthen (fail_if (\<not> su_local_addr u) IoError)
     (andthen (modify (\<lambda>r. r\<lparr>rqs_bound_addr := Some addr\<rparr>))
     (andthen (spawn TcpServerTask tracker ctoken)
     (andthen (if su_experimental u \<and> su_ble u then spawn BleListenerTask tracker ctoken
               else ret ())
     (andthen (fail_if (\<not> su_daemon u) (Error ''ServiceDaemon''))
     (andthen (modify (\<lambda>r. r\<lparr>rqs_mdns_daemon := True\<rparr>))
     (andthen (fail_if (\<not> su_service u) (Error ''ServiceInfo''))
     (andthen (spawn MdnsServerTask tracker ctoken)
     (andthen (if su_experimental u \<and> su_linux u then spawn BleAdvertiserTask tracker ctoken
               else ret ())
     (modify (\<lambda>r. r\<lparr>rqs_closed := tracker # rqs_closed r\<rparr>))))))))))))))"

text \<open>The flag is the answer of \<open>MDnsDiscovery::new\<close>.\<close>

definition discovery :: "bool \<Rightarrow> (rqs, unit) io" where
  "discovery daemon_ok =
     bind (bind (get rqs_tracker) (ok_or (Error ''The service wasn't first started''))) (\<lambda>tracker.
     bind fresh_number (\<lambda>ctk.
     andthen (modify (\<lambda>r. r\<lparr>rqs_discovery_ctk := Some ctk\<rparr>))
     (andthen (fail_if (\<not> daemon_ok) (Error ''ServiceDaemon''))
     (spawn DiscoveryTask tracker ctk))))"

definition cancel_token :: "nat option \<Rightarrow> rqs \<Rightarrow> rqs" where
  "cancel_token ctk r = (case ctk of None \<Rightarrow> r | Some k \<Rightarrow> r\<lparr>rqs_cancelled := k # rqs_cancelled r\<rparr>)"

definition stop_discovery :: "rqs \<Rightarrow> rqs" where
  "stop_discovery r =
     (case rqs_discovery_ctk r of
        None \<Rightarrow> r
      | Some k \<Rightarrow> (cancel_token (Some k) r)\<lparr>rqs_discovery_ctk := None\<rparr>)"

definition change_visibility :: "visibility \<Rightarrow> rqs \<Rightarrow> rqs" where
  "change_visibility nv r = r\<lparr>rqs_visibility := watch_send nv (rqs_visibility r)\<rparr>"

definition set_download_path :: "path option \<Rightarrow> rqs \<Rightarrow> rqs" where
  "set_download_path p r = r\<lparr>rqs_custom_download := p\<rparr>"

text \<open>
  What happens around the calls: a task ends, by itself or because it was told; the TCP server
  accepts a connection, whose task is spawned without the tracker; such a task ends; the mDNS server
  ends a temporary visibility, for which it sends \<open>Invisible\<close> to the channel it shares with
  \<open>RQS\<close>.
\<close>

datatype happening = TaskEnds spawned | ConnectionAccepted | ConnectionEnds | TemporaryExpires

definition runs :: "task_kind \<Rightarrow> rqs \<Rightarrow> bool" where
  "runs kind r \<longleftrightarrow> list_ex (\<lambda>p. sp_kind p = kind) (rqs_tasks r)"

definition told_to_end :: "rqs \<Rightarrow> spawned \<Rightarrow> bool" where
  "told_to_end r p \<longleftrightarrow> sp_token p \<in> set (rqs_cancelled r)"

fun happens :: "happening \<Rightarrow> rqs \<Rightarrow> rqs" where
  "happens (TaskEnds p) r =
     (if p \<in> set (rqs_tasks r) then
        r\<lparr>rqs_tasks := removeAll p (rqs_tasks r),
          rqs_quit := (if told_to_end r p then rqs_quit r else p # rqs_quit r)\<rparr>
      else r)"
| "happens ConnectionAccepted r =
     (if runs TcpServerTask r then r\<lparr>rqs_connections := rqs_connections r + 1\<rparr> else r)"
| "happens ConnectionEnds r = r\<lparr>rqs_connections := rqs_connections r - 1\<rparr>"
| "happens TemporaryExpires r =
     (if runs MdnsServerTask r then change_visibility Invisible r else r)"

abbreviation after :: "happening list \<Rightarrow> rqs \<Rightarrow> rqs" where
  "after hs r \<equiv> fold happens hs r"

text \<open>
  \<open>stop\<close>: the tokens are cancelled; \<open>tracker.wait()\<close> returns when the tracker was closed and none
  of its tasks is left; the tracker and the token are dropped. What happens while it waits is an
  argument; None: it still waits then.
\<close>

definition stop_ask :: "rqs \<Rightarrow> rqs" where
  "stop_ask r = cancel_token (rqs_ctoken r) (stop_discovery r)"

definition wait_returns :: "rqs \<Rightarrow> bool" where
  "wait_returns r = (case rqs_tracker r of
     None \<Rightarrow> True
   | Some t \<Rightarrow> t \<in> set (rqs_closed r) \<and> list_all (\<lambda>p. sp_tracker p \<noteq> t) (rqs_tasks r))"

definition stop :: "happening list \<Rightarrow> rqs \<Rightarrow> rqs option" where
  "stop meanwhile r =
     (let r1 = after meanwhile (stop_ask r) in
      if wait_returns r1 then Some (r1\<lparr>rqs_ctoken := None, rqs_tracker := None\<rparr>) else None)"

section \<open>Use of the service\<close>

text \<open>
  A program that starts the service when it is stopped, and discovery when it is not running.
\<close>

inductive used :: "rqs \<Rightarrow> bool" where
  created: "used (new_rqs v port path)"
| started: "used r \<Longrightarrow> rqs_tracker r = None \<Longrightarrow> run u r = (Done (), r') \<Longrightarrow> used r'"
| discovering: "used r \<Longrightarrow> rqs_discovery_ctk r = None \<Longrightarrow> discovery ok r = (res, r') \<Longrightarrow> used r'"
| undiscovered: "used r \<Longrightarrow> used (stop_discovery r)"
| shown: "used r \<Longrightarrow> used (change_visibility v r)"
| placed: "used r \<Longrightarrow> used (set_download_path p r)"
| around: "used r \<Longrightarrow> used (happens h r)"
| stopped: "used r \<Longrightarrow> stop hs r = Some r' \<Longrightarrow> used r'"

text \<open>
  The tasks and tokens of a service in use: every task is on the current tracker, and it was told to
  end or watches one of the two current tokens; the servers of a running service were not told to
  end, so they run or have ended by themselves.
\<close>

definition numbered :: "rqs \<Rightarrow> bool" where
  "numbered r \<longleftrightarrow> (\<forall>k \<in> set (rqs_cancelled r) \<union> set (rqs_closed r). k < rqs_fresh r) \<and>
     (\<forall>k. rqs_discovery_ctk r = Some k \<longrightarrow> k < rqs_fresh r \<and> k \<notin> set (rqs_cancelled r))"

definition owned :: "rqs \<Rightarrow> bool" where
  "owned r \<longleftrightarrow> (\<forall>p \<in> set (rqs_tasks r). rqs_tracker r = Some (sp_tracker p) \<and>
     (told_to_end r p \<or> (if sp_kind p = DiscoveryTask then rqs_discovery_ctk r = Some (sp_token p)
      else rqs_ctoken r = Some (sp_token p))))"

definition ran :: "rqs \<Rightarrow> spawned set" where
  "ran r = set (rqs_tasks r) \<union> set (rqs_quit r)"

definition running :: "rqs \<Rightarrow> bool" where
  "running r \<longleftrightarrow> (case rqs_tracker r of
     None \<Rightarrow> rqs_ctoken r = None
   | Some t \<Rightarrow> t \<in> set (rqs_closed r) \<and>
       (\<exists>c. rqs_ctoken r = Some c \<and> c \<notin> set (rqs_cancelled r) \<and> c < rqs_fresh r \<and>
         rqs_discovery_ctk r \<noteq> Some c \<and>
         \<lparr>sp_kind = TcpServerTask, sp_tracker = t, sp_token = c\<rparr> \<in> ran r \<and>
         \<lparr>sp_kind = MdnsServerTask, sp_tracker = t, sp_token = c\<rparr> \<in> ran r))"

definition in_order :: "rqs \<Rightarrow> bool" where
  "in_order r \<longleftrightarrow> numbered r \<and> owned r \<and> running r"

lemmas in_order_defs = in_order_def numbered_def owned_def running_def told_to_end_def ran_def

lemma in_order_new: "in_order (new_rqs v port path)"
  by (simp add: in_order_defs new_rqs_def)

lemma in_order_same:
  assumes "in_order r" and "rqs_tracker r' = rqs_tracker r" "rqs_ctoken r' = rqs_ctoken r"
    "rqs_discovery_ctk r' = rqs_discovery_ctk r" "rqs_tasks r' = rqs_tasks r" "rqs_quit r' = rqs_quit r"
    "rqs_cancelled r' = rqs_cancelled r" "rqs_closed r' = rqs_closed r" "rqs_fresh r' = rqs_fresh r"
  shows "in_order r'"
proof -
  have "in_order r' \<longleftrightarrow> in_order r" by (simp only: in_order_defs assms(2-9))
  with assms(1) show ?thesis by simp
qed

lemma numberedD:
  assumes "numbered r" and "rqs_fresh r \<le> k"
  shows "k \<notin> set (rqs_cancelled r)" and "k \<notin> set (rqs_closed r)" and "rqs_discovery_ctk r \<noteq> Some k"
  using assms unfolding numbered_def by (blast dest: leD)+

text \<open>A start that succeeded.\<close>

definition launched :: "nat \<Rightarrow> spawned list \<Rightarrow> bool" where
  "launched f xs \<longleftrightarrow> (\<forall>p \<in> set xs. sp_kind p \<noteq> DiscoveryTask \<and> sp_tracker p = f \<and> sp_token p = f + 1)
     \<and> \<lparr>sp_kind = TcpServerTask, sp_tracker = f, sp_token = f + 1\<rparr> \<in> set xs
     \<and> \<lparr>sp_kind = MdnsServerTask, sp_tracker = f, sp_token = f + 1\<rparr> \<in> set xs"

lemma optional_spawn:
  "spawn k tracker token r = (Done (), r\<lparr>rqs_tasks := rqs_tasks r @
     [\<lparr>sp_kind = k, sp_tracker = tracker, sp_token = token\<rparr>]\<rparr>)"
  "(if c then spawn k tracker token else ret ()) r = (Done (), r\<lparr>rqs_tasks := rqs_tasks r @
     (if c then [\<lparr>sp_kind = k, sp_tracker = tracker, sp_token = token\<rparr>] else [])\<rparr>)"
  by (simp_all add: spawn_def exec)

lemma run_Done:
  assumes "run u r = (Done (), r')"
  obtains addr xs where "launched (rqs_fresh r) xs"
    "r' = r\<lparr>rqs_tracker := Some (rqs_fresh r), rqs_ctoken := Some (rqs_fresh r + 1),
       rqs_bound_addr := Some addr, rqs_mdns_daemon := True, rqs_tasks := rqs_tasks r @ xs,
       rqs_closed := rqs_fresh r # rqs_closed r, rqs_fresh := rqs_fresh r + 2\<rparr>"
proof (cases "su_bind u")
  case None
  with assms show ?thesis by (simp add: run_def fresh_number_def exec)
next
  case (Some addr)
  have local_addr: "su_local_addr u"
    by (rule ccontr) (use assms Some in \<open>simp add: run_def fresh_number_def exec\<close>)
  have daemon: "su_daemon u"
    by (rule ccontr) (use assms Some local_addr in \<open>simp add: run_def fresh_number_def optional_spawn exec\<close>)
  have "su_service u"
    by (rule ccontr)
      (use assms Some local_addr daemon in \<open>simp add: run_def fresh_number_def optional_spawn exec\<close>)
  note ok = local_addr daemon this
  let ?p = "\<lambda>k. \<lparr>sp_kind = k, sp_tracker = rqs_fresh r, sp_token = rqs_fresh r + 1\<rparr>"
  let ?xs = "[?p TcpServerTask] @ (if su_experimental u \<and> su_ble u then [?p BleListenerTask] else [])
    @ [?p MdnsServerTask] @ (if su_experimental u \<and> su_linux u then [?p BleAdvertiserTask] else [])"
  have xs: "launched (rqs_fresh r) ?xs"
    by (auto simp: launched_def)
  have run: "run u r = (Done (), r\<lparr>rqs_tracker := Some (rqs_fresh r),
       rqs_ctoken := Some (rqs_fresh r + 1),
       rqs_bound_addr := Some addr, rqs_mdns_daemon := True, rqs_tasks := rqs_tasks r @ ?xs,
       rqs_closed := rqs_fresh r # rqs_closed r, rqs_fresh := rqs_fresh r + 2\<rparr>)"
    using Some ok by (simp add: run_def fresh_number_def optional_spawn exec)
  from assms [unfolded run prod.inject, THEN conjunct2, symmetric] show ?thesis
    by (rule that [OF xs])
qed

lemma in_order_run:
  assumes "in_order r" and "rqs_tracker r = None" and "run u r = (Done (), r')"
  shows "in_order r'"
proof -
  obtain addr xs where xs: "launched (rqs_fresh r) xs"
    and r': "r' = r\<lparr>rqs_tracker := Some (rqs_fresh r), rqs_ctoken := Some (rqs_fresh r + 1),
       rqs_bound_addr := Some addr, rqs_mdns_daemon := True, rqs_tasks := rqs_tasks r @ xs,
       rqs_closed := rqs_fresh r # rqs_closed r, rqs_fresh := rqs_fresh r + 2\<rparr>"
    by (rule run_Done [OF assms(3)])
  have none: "rqs_tasks r = []"
    using assms(1,2) by (cases "rqs_tasks r") (auto simp: in_order_def owned_def)
  have "numbered r'"
    using assms(1) by (auto simp: r' in_order_def numbered_def less_Suc_eq)
  moreover have "owned r'"
    using none xs by (auto simp: r' owned_def launched_def)
  moreover have "running r'"
    using numberedD [of r "rqs_fresh r + 1"] assms(1) xs
    by (simp add: r' in_order_def running_def launched_def ran_def)
  ultimately show ?thesis by (simp add: in_order_def)
qed

lemma in_order_discovery:
  assumes "in_order r" and "rqs_discovery_ctk r = None" and run: "discovery ok r = (res, r')"
  shows "in_order r'"
proof (cases "rqs_tracker r")
  case None
  with run have "r' = r" by (simp add: discovery_def exec)
  with assms(1) show ?thesis by simp
next
  case (Some t)
  let ?p = "\<lparr>sp_kind = DiscoveryTask, sp_tracker = t, sp_token = rqs_fresh r\<rparr>"
  have r': "r' = r\<lparr>rqs_discovery_ctk := Some (rqs_fresh r), rqs_fresh := rqs_fresh r + 1,
      rqs_tasks := rqs_tasks r @ (if ok then [?p] else [])\<rparr>"
    using run Some by (cases ok) (auto simp: discovery_def fresh_number_def spawn_def exec)
  have "numbered r'"
    using assms(1) by (auto simp: r' in_order_def numbered_def less_Suc_eq)
  moreover have "owned r'"
    using assms(1,2) Some by (auto simp: r' in_order_def owned_def told_to_end_def)
  moreover have "running r'"
    using assms(1) Some by (auto simp: r' in_order_def running_def ran_def)
  ultimately show ?thesis by (simp add: in_order_def)
qed

lemma in_order_stop_discovery:
  assumes "in_order r"
  shows "in_order (stop_discovery r)"
proof (cases "rqs_discovery_ctk r")
  case None
  with assms show ?thesis by (simp add: stop_discovery_def)
next
  case (Some k)
  then have r': "stop_discovery r = r\<lparr>rqs_cancelled := k # rqs_cancelled r, rqs_discovery_ctk := None\<rparr>"
    by (simp add: stop_discovery_def cancel_token_def)
  have "numbered (stop_discovery r)"
    using assms Some by (auto simp: r' in_order_def numbered_def less_Suc_eq)
  moreover have "owned (stop_discovery r)"
    using assms Some by (auto simp: r' in_order_def owned_def told_to_end_def split: if_splits)
  moreover have "running (stop_discovery r)"
    using assms Some by (auto simp: r' in_order_def running_def ran_def split: option.splits)
  ultimately show ?thesis by (simp add: in_order_def)
qed

text \<open>What happens around the calls leaves the tokens and trackers alone, and starts no task.\<close>

lemma happens_keeps [simp]:
  "rqs_tracker (happens h r) = rqs_tracker r" "rqs_ctoken (happens h r) = rqs_ctoken r"
  "rqs_discovery_ctk (happens h r) = rqs_discovery_ctk r" "rqs_cancelled (happens h r) = rqs_cancelled r"
  "rqs_closed (happens h r) = rqs_closed r" "rqs_fresh (happens h r) = rqs_fresh r"
  "rqs_custom_download (happens h r) = rqs_custom_download r"
  by (cases h; simp add: change_visibility_def)+

lemma happens_tasks:
  "set (rqs_tasks (happens h r)) = {p \<in> set (rqs_tasks r). h \<noteq> TaskEnds p}"
  by (cases h) (auto simp: change_visibility_def)

lemma happens_ran:
  assumes "\<not> told_to_end r p"
  shows "p \<in> ran (happens h r) \<longleftrightarrow> p \<in> ran r"
  using assms by (cases h) (auto simp: ran_def change_visibility_def)

lemma after_keeps [simp]:
  "rqs_tracker (after hs r) = rqs_tracker r" "rqs_ctoken (after hs r) = rqs_ctoken r"
  "rqs_discovery_ctk (after hs r) = rqs_discovery_ctk r" "rqs_cancelled (after hs r) = rqs_cancelled r"
  "rqs_closed (after hs r) = rqs_closed r" "rqs_fresh (after hs r) = rqs_fresh r"
  by (induction hs arbitrary: r; simp)+

lemma after_tasks: "set (rqs_tasks (after hs r)) = {p \<in> set (rqs_tasks r). TaskEnds p \<notin> set hs}"
  by (induction hs arbitrary: r) (auto simp: happens_tasks)

lemma in_order_happens:
  assumes "in_order r"
  shows "in_order (happens h r)"
proof -
  have "numbered (happens h r)" "owned (happens h r)"
    using assms by (auto simp: in_order_def numbered_def owned_def told_to_end_def happens_tasks)
  moreover have "\<lparr>sp_kind = k, sp_tracker = t, sp_token = c\<rparr> \<in> ran (happens h r)"
    if "c \<notin> set (rqs_cancelled r)" "\<lparr>sp_kind = k, sp_tracker = t, sp_token = c\<rparr> \<in> ran r" for k t c
    using that by (subst happens_ran) (simp_all add: told_to_end_def)
  then have "running (happens h r)"
    using assms by (auto simp: in_order_def running_def split: option.splits)
  ultimately show ?thesis by (simp add: in_order_def)
qed

text \<open>After the first half of \<open>stop\<close> every task was told to end.\<close>

lemma stop_ask_keeps:
  "rqs_tracker (stop_ask r) = rqs_tracker r" "rqs_closed (stop_ask r) = rqs_closed r"
  "rqs_tasks (stop_ask r) = rqs_tasks r" "rqs_connections (stop_ask r) = rqs_connections r"
  "rqs_fresh (stop_ask r) = rqs_fresh r" "rqs_discovery_ctk (stop_ask r) = None"
  by (auto simp: stop_ask_def stop_discovery_def cancel_token_def split: option.split)

lemma stop_ask_tells:
  "set (rqs_cancelled (stop_ask r)) = set (rqs_cancelled r) \<union> set_option (rqs_ctoken r)
    \<union> set_option (rqs_discovery_ctk r)"
  by (auto simp: stop_ask_def stop_discovery_def cancel_token_def split: option.split)

lemma stop_ask_tells_all:
  assumes "in_order r" and "p \<in> set (rqs_tasks r)"
  shows "told_to_end (stop_ask r) p"
  using assms by (auto simp: in_order_def owned_def told_to_end_def stop_ask_tells split: if_splits)

lemma stop_returns:
  assumes "in_order r"
  shows "stop hs r = (if \<forall>p \<in> set (rqs_tasks r). TaskEnds p \<in> set hs
    then Some ((after hs (stop_ask r))\<lparr>rqs_ctoken := None, rqs_tracker := None\<rparr>) else None)"
proof -
  have "wait_returns (after hs (stop_ask r)) \<longleftrightarrow> (\<forall>p \<in> set (rqs_tasks r). TaskEnds p \<in> set hs)"
  proof (cases "rqs_tracker r")
    case None
    with assms have "rqs_tasks r = []"
      by (cases "rqs_tasks r") (auto simp: in_order_def owned_def)
    then show ?thesis by (simp add: wait_returns_def stop_ask_keeps None)
  next
    case (Some t)
    with assms have "t \<in> set (rqs_closed r)" "\<forall>p \<in> set (rqs_tasks r). sp_tracker p = t"
      by (auto simp: in_order_def running_def owned_def)
    then show ?thesis
      by (auto simp: wait_returns_def stop_ask_keeps Some list_all_iff after_tasks)
  qed
  then show ?thesis by (simp add: stop_def Let_def)
qed

lemma stopped_empty:
  assumes "in_order r" and "stop hs r = Some r'"
  shows "rqs_tasks r' = [] \<and> rqs_tracker r' = None \<and> rqs_ctoken r' = None \<and> rqs_discovery_ctk r' = None
    \<and> rqs_connections r' = rqs_connections (after hs (stop_ask r)) \<and> in_order r'"
proof -
  have all: "\<forall>p \<in> set (rqs_tasks r). TaskEnds p \<in> set hs"
    and r': "r' = (after hs (stop_ask r))\<lparr>rqs_ctoken := None, rqs_tracker := None\<rparr>"
    using assms(2) by (simp_all add: stop_returns [OF assms(1)] split: if_splits)
  have "set (rqs_tasks r') = {}"
    using all by (auto simp: r' after_tasks stop_ask_keeps)
  then have none: "rqs_tasks r' = []" by simp
  have "numbered r'"
    using assms(1) by (auto simp: r' numbered_def in_order_def stop_ask_keeps stop_ask_tells running_def
        split: option.splits)
  then have "in_order r'"
    using none by (simp add: in_order_def owned_def running_def r')
  then show ?thesis using none by (simp add: r' stop_ask_keeps)
qed

lemma used_in_order: "used r \<Longrightarrow> in_order r"
proof (induction rule: used.induct)
  case (created v port path)
  show ?case by (rule in_order_new)
next
  case (started r u r')
  show ?case by (rule in_order_run [OF started.IH started.hyps(2,3)])
next
  case (discovering r ok res r')
  show ?case by (rule in_order_discovery [OF discovering.IH discovering.hyps(2,3)])
next
  case (undiscovered r)
  show ?case by (rule in_order_stop_discovery [OF undiscovered.IH])
next
  case (shown r v)
  show ?case by (rule in_order_same [OF shown.IH]) (simp_all add: change_visibility_def)
next
  case (placed r p)
  show ?case by (rule in_order_same [OF placed.IH]) (simp_all add: set_download_path_def)
next
  case (around r h)
  show ?case by (rule in_order_happens [OF around.IH])
next
  case (stopped r hs r')
  show ?case using stopped_empty [OF stopped.IH stopped.hyps(2)] by simp
qed

section \<open>Starting and stopping\<close>

text \<open>
  C28. Stopping a service that is started when it is stopped, and asked for one discovery at a time:
  first every task on its tracker is told to end. Then, whatever happens meanwhile, \<open>stop\<close> returns
  exactly when each of these tasks has ended. It leaves no tracked task, no tracker and no token; but
  nothing tells the tasks of incoming connections, and those that run when it is called may all run
  when it has returned.
\<close>

theorem service_stops:
  assumes "used r"
  shows "(\<forall>p \<in> set (rqs_tasks r). told_to_end (stop_ask r) p)
    \<and> (stop hs r \<noteq> None \<longleftrightarrow> (\<forall>p \<in> set (rqs_tasks r). TaskEnds p \<in> set hs))
    \<and> (\<forall>r'. stop hs r = Some r' \<longrightarrow> rqs_tasks r' = [] \<and> rqs_tracker r' = None \<and> rqs_ctoken r' = None)
    \<and> (\<exists>hs r'. stop hs r = Some r' \<and> rqs_connections r' = rqs_connections r)"
proof (intro conjI)
  note r = used_in_order [OF assms]
  show "\<forall>p \<in> set (rqs_tasks r). told_to_end (stop_ask r) p"
    using stop_ask_tells_all [OF r] by blast
  show "stop hs r \<noteq> None \<longleftrightarrow> (\<forall>p \<in> set (rqs_tasks r). TaskEnds p \<in> set hs)"
    by (simp add: stop_returns [OF r])
  show "\<forall>r'. stop hs r = Some r' \<longrightarrow> rqs_tasks r' = [] \<and> rqs_tracker r' = None \<and> rqs_ctoken r' = None"
    using stopped_empty [OF r] by blast
  have same: "rqs_connections (after (map TaskEnds ps) q) = rqs_connections q" for ps q
    by (induction ps arbitrary: q) simp_all
  have "stop (map TaskEnds (rqs_tasks r)) r
      = Some ((after (map TaskEnds (rqs_tasks r)) (stop_ask r))\<lparr>rqs_ctoken := None, rqs_tracker := None\<rparr>)"
    by (simp add: stop_returns [OF r])
  then show "\<exists>hs r'. stop hs r = Some r' \<and> rqs_connections r' = rqs_connections r"
    by (intro exI conjI) (assumption, simp add: same stop_ask_keeps)
qed

text \<open>
  Nothing but \<open>stop\<close> tells the servers to end, and \<open>stop_discovery\<close> tells every discovery.
\<close>

lemma servers_not_told:
  assumes "used r" and "rqs_tracker r = Some t"
  shows "(\<exists>c. rqs_ctoken r = Some c \<and> c \<notin> set (rqs_cancelled r)
      \<and> (\<forall>kind \<in> {TcpServerTask, MdnsServerTask}.
          \<lparr>sp_kind = kind, sp_tracker = t, sp_token = c\<rparr> \<in> set (rqs_tasks r) \<union> set (rqs_quit r)))
    \<and> (\<forall>p \<in> set (rqs_tasks r). sp_kind p = DiscoveryTask \<longrightarrow> told_to_end (stop_discovery r) p)"
proof
  show "\<exists>c. rqs_ctoken r = Some c \<and> c \<notin> set (rqs_cancelled r)
      \<and> (\<forall>kind \<in> {TcpServerTask, MdnsServerTask}.
          \<lparr>sp_kind = kind, sp_tracker = t, sp_token = c\<rparr> \<in> set (rqs_tasks r) \<union> set (rqs_quit r))"
    using used_in_order [OF assms(1)] assms(2) by (auto simp: in_order_def running_def ran_def)
  have "owned (stop_discovery r)" and "rqs_discovery_ctk (stop_discovery r) = None"
    and "rqs_tasks (stop_discovery r) = rqs_tasks r"
    using in_order_stop_discovery [OF used_in_order [OF assms(1)]]
    by (simp_all add: in_order_def stop_discovery_def cancel_token_def split: option.split)
  then show "\<forall>p \<in> set (rqs_tasks r). sp_kind p = DiscoveryTask \<longrightarrow> told_to_end (stop_discovery r) p"
    by (auto simp: owned_def)
qed

lemma discovery_Some:
  assumes "rqs_tracker r = Some t"
  shows "discovery True r = (Done (), r\<lparr>rqs_discovery_ctk := Some (rqs_fresh r),
    rqs_fresh := rqs_fresh r + 1, rqs_tasks := rqs_tasks r @
      [\<lparr>sp_kind = DiscoveryTask, sp_tracker = t, sp_token = rqs_fresh r\<rparr>]\<rparr>)"
  using assms by (simp add: discovery_def fresh_number_def spawn_def exec)

lemma stop_waits:
  assumes "rqs_tracker r = Some t"
    and "t \<notin> set (rqs_closed r) \<or> (\<exists>p \<in> set (rqs_tasks r). sp_tracker p = t \<and> TaskEnds p \<notin> set hs)"
  shows "stop hs r = None"
  using assms
  by (auto simp: stop_def wait_returns_def Let_def stop_ask_keeps list_all_iff after_tasks)

text \<open>
  Asking for a discovery while one runs leaks the first: its token is overwritten, so that neither
  \<open>stop_discovery\<close> nor \<open>stop\<close> tells it to end, and \<open>stop\<close> waits as long as it runs.
\<close>

theorem second_discovery_leaks:
  assumes "used r" and "rqs_tracker r = Some t"
    and "andthen (discovery True) (discovery True) r = (Done (), r')"
  shows "\<exists>p \<in> set (rqs_tasks r'). sp_kind p = DiscoveryTask \<and> \<not> told_to_end (stop_discovery r') p
    \<and> \<not> told_to_end (stop_ask r') p \<and> (\<forall>hs. TaskEnds p \<notin> set hs \<longrightarrow> stop hs r' = None)"
proof -
  let ?p = "\<lparr>sp_kind = DiscoveryTask, sp_tracker = t, sp_token = rqs_fresh r\<rparr>"
  have n: "rqs_fresh r \<notin> set (rqs_cancelled r)" "rqs_ctoken r \<noteq> Some (rqs_fresh r)"
    using used_in_order [OF assms(1)] assms(2)
    by (auto simp: in_order_def running_def dest: numberedD(1))
  let ?r1 = "r\<lparr>rqs_discovery_ctk := Some (rqs_fresh r), rqs_fresh := rqs_fresh r + 1,
    rqs_tasks := rqs_tasks r @ [?p]\<rparr>"
  have "discovery True ?r1 = (Done (), r')"
    using assms(3) discovery_Some [OF assms(2)] by (simp add: exec)
  then have r': "r' = r\<lparr>rqs_discovery_ctk := Some (rqs_fresh r + 1), rqs_fresh := rqs_fresh r + 2,
    rqs_tasks := rqs_tasks r @ [?p, ?p\<lparr>sp_token := rqs_fresh r + 1\<rparr>]\<rparr>"
    using discovery_Some [of ?r1 t] assms(2) by simp
  have "stop hs r' = None" if "TaskEnds ?p \<notin> set hs" for hs
    by (rule stop_waits [of _ t]) (use that assms(2) in \<open>simp_all add: r'\<close>)
  then show ?thesis
    by (intro bexI [of _ ?p])
      (use n in \<open>auto simp: r' told_to_end_def stop_ask_tells stop_discovery_def cancel_token_def\<close>)
qed

lemma run_Fail:
  assumes "run u r = (Fail e, r')"
  shows "rqs_tracker r' = Some (rqs_fresh r) \<and> rqs_closed r' = rqs_closed r"
proof (cases "su_bind u")
  case None
  with assms show ?thesis by (auto simp: run_def fresh_number_def exec)
next
  case (Some addr)
  consider "\<not> su_local_addr u" | "su_local_addr u" "\<not> su_daemon u"
    | "su_local_addr u" "su_daemon u" "\<not> su_service u"
    | "su_local_addr u" "su_daemon u" "su_service u" by blast
  then show ?thesis
  proof cases
    case 1
    with Some show ?thesis using assms by (auto simp: run_def fresh_number_def exec)
  next
    case 2
    with Some have "rqs_tracker (snd (run u r)) = Some (rqs_fresh r)
        \<and> rqs_closed (snd (run u r)) = rqs_closed r"
      by (simp add: run_def fresh_number_def optional_spawn exec)
    then show ?thesis by (simp add: assms)
  next
    case 3
    with Some have "rqs_tracker (snd (run u r)) = Some (rqs_fresh r)
        \<and> rqs_closed (snd (run u r)) = rqs_closed r"
      by (simp add: run_def fresh_number_def optional_spawn exec)
    then show ?thesis by (simp add: assms)
  next
    case 4
    with Some have "fst (run u r) = Done ()"
      by (simp add: run_def fresh_number_def optional_spawn exec)
    then show ?thesis by (simp add: assms)
  qed
qed

text \<open>
  A start that failed cannot be cleaned up with \<open>stop\<close>: the tracker is kept but was never
  closed, so \<open>stop\<close> waits without end, whatever tasks end.
\<close>

theorem failed_start_blocks_stop:
  assumes "used r" and "run u r = (Fail e, r')"
  shows "stop hs r' = None"
  using run_Fail [OF assms(2)] used_in_order [OF assms(1)]
  by (intro stop_waits [of _ "rqs_fresh r"]) (auto simp: in_order_def dest: numberedD(2))

end
