(* ===== verification/Manager.thy ===== *)
theory Manager
  imports Lifecycle InboundSafety OutboundStates FileSending
begin

text \<open>
  \<open>TcpServer\<close> of \<open>manager.rs\<close>: the task that serves an incoming connection, and
  \<open>connect\<close>, which runs an outgoing one. A task calls \<open>handle\<close> until it returns an
  error and tells the front end when the connection broke. The model takes the events that
  \<open>handle\<close> meets as a list, so every interleaving of channel messages and frames is one list.
\<close>

section \<open>Tasks\<close>

text \<open>
  How a task stands after a list of events: it still runs, it ended, it panicked (the process
  aborts in the release profile), or the sending loop has not come to an end in the rounds given.
\<close>

datatype task_end = Running | Ended | Panicked | Looping

definition disconnected_message :: "string \<Rightarrow> channel_message" where
  "disconnected_message i = cm_default\<lparr>cm_id := i, cm_direction := LibToFront,
     cm_state := Some Disconnected\<rparr>"

definition tell :: "channel_message \<Rightarrow> 'x request_scheme \<Rightarrow> 'x request_scheme" where
  "tell m r = r\<lparr>rq_chan := rq_chan r @ [m]\<rparr>"

text \<open>The answer of the accepting task to an error of \<open>handle\<close>.\<close>

definition inbound_error :: "string \<Rightarrow> error \<Rightarrow> inbound \<Rightarrow> inbound" where
  "inbound_error remote_addr e ir =
     (case e of
        NotAnError \<Rightarrow> ir
      | _ \<Rightarrow>
          if conn ir = Initial then ir
          else if conn ir \<noteq> Finished then tell (disconnected_message remote_addr) ir
          else ir)"

fun inbound_task :: "env \<Rightarrow> string \<Rightarrow> event list \<Rightarrow> inbound \<Rightarrow> task_end \<times> inbound" where
  "inbound_task X remote_addr [] ir = (Running, ir)"
| "inbound_task X remote_addr (ev # evs) ir =
     (case handle X ev ir of
        (Done u, t) \<Rightarrow> inbound_task X remote_addr evs t
      | (Fail e, t) \<Rightarrow> (Ended, inbound_error remote_addr e t)
      | (Panic p, t) \<Rightarrow> (Panicked, t)
      | (NoFuel, t) \<Rightarrow> (Looping, t))"

definition inbound_connection ::
  "env \<Rightarrow> string \<Rightarrow> (path \<Rightarrow> fs_node option) \<Rightarrow> path option option \<Rightarrow> bytes \<Rightarrow> event list
     \<Rightarrow> task_end \<times> inbound" where
  "inbound_connection X remote_addr fs custom_download socket evs =
     inbound_task X remote_addr evs (new_inbound remote_addr fs custom_download socket)"

text \<open>
  The loop of \<open>connect\<close>. The identifier of the message is the address the program connected
  to, while all other messages of the connection carry the identifier of the \<open>SendInfo\<close>.
\<close>

definition outbound_error :: "string \<Rightarrow> error \<Rightarrow> outbound \<Rightarrow> outbound" where
  "outbound_error addr e r =
     (case e of
        NotAnError \<Rightarrow> r
      | _ \<Rightarrow>
          if conn r = Initial then r
          else if conn r \<noteq> Finished \<and> conn r \<noteq> Cancelled then tell (disconnected_message addr) r
          else r)"

datatype task_event = TaskCancelled | Handle event

fun outbound_task ::
  "env \<Rightarrow> nat \<Rightarrow> string \<Rightarrow> task_event list \<Rightarrow> outbound \<Rightarrow> task_end \<times> outbound" where
  "outbound_task X fuel addr [] r = (Running, r)"
| "outbound_task X fuel addr (TaskCancelled # evs) r = (Ended, r)"
| "outbound_task X fuel addr (Handle ev # evs) r =
     (case out_handle X fuel ev r of
        (Done u, t) \<Rightarrow> outbound_task X fuel addr evs t
      | (Fail e, t) \<Rightarrow> (Ended, outbound_error addr e t)
      | (Panic p, t) \<Rightarrow> (Panicked, t)
      | (NoFuel, t) \<Rightarrow> (Looping, t))"

text \<open>
  \<open>connect\<close>: the TCP connection may fail, the two first messages may fail; both end it with an
  error that \<open>run\<close> only logs. \<open>None\<close> is a failed TCP connection: nothing was created.
\<close>

definition connect ::
  "env \<Rightarrow> nat \<Rightarrow> bytes \<Rightarrow> (path \<Rightarrow> fs_node option) \<Rightarrow> bytes option \<Rightarrow> send_info \<Rightarrow> task_event list
     \<Rightarrow> (task_end \<times> outbound) option" where
  "connect X fuel endpoint_id fs socket si evs =
     (case socket of
        None \<Rightarrow> None
      | Some bs \<Rightarrow>
          let r = new_outbound endpoint_id (snd_id si) (snd_files si)
                \<lparr>rdi_name = snd_name si, rdi_type = DevUnknown\<rparr> fs bs in
          Some (case andthen (send_connection_request X) (send_ukey2_client_init X) r of
              (Done u, t) \<Rightarrow> outbound_task X fuel (snd_addr si) evs t
            | (Fail e, t) \<Rightarrow> (Ended, t)
            | (Panic p, t) \<Rightarrow> (Panicked, t)
            | (NoFuel, t) \<Rightarrow> (Looping, t)))"

text \<open>
  \<open>TcpServer::run\<close>, in the order the loop takes its events. It awaits \<open>connect\<close> itself: while a
  sending runs, no other event is served, and its panic is one of the server. A request of the front
  end comes with what \<open>connect\<close> meets, the disk, the TCP connection and its events. An incoming
  connection gets a task of its own. An error of \<open>accept\<close> leaves the loop.
\<close>

datatype server_event =
    ServerCancelled
  | SendRequest send_info "path \<Rightarrow> fs_node option" "bytes option" "task_event list"
  | Accepted string
  | AcceptFailed

record server_log =
  sl_connected :: "send_info list"
  sl_accepted :: "string list"

fun server_run :: "env \<Rightarrow> nat \<Rightarrow> bytes \<Rightarrow> server_event list \<Rightarrow> server_log \<Rightarrow> task_end \<times> server_log" where
  "server_run X fuel endpoint_id [] s = (Running, s)"
| "server_run X fuel endpoint_id (ServerCancelled # evs) s = (Ended, s)"
| "server_run X fuel endpoint_id (SendRequest i fs socket cevs # evs) s =
     (let s' = s\<lparr>sl_connected := sl_connected s @ [i]\<rparr> in
      case connect X fuel endpoint_id fs socket i cevs of
        None \<Rightarrow> server_run X fuel endpoint_id evs s'
      | Some (Ended, t) \<Rightarrow> server_run X fuel endpoint_id evs s'
      | Some (e, t) \<Rightarrow> (e, s'))"
| "server_run X fuel endpoint_id (Accepted remote_addr # evs) s =
     server_run X fuel endpoint_id evs (s\<lparr>sl_accepted := sl_accepted s @ [remote_addr]\<rparr>)"
| "server_run X fuel endpoint_id (AcceptFailed # evs) s = (Ended, s)"

section \<open>A final state was told\<close>

definition terminal :: "conn_state \<Rightarrow> bool" where
  "terminal s \<longleftrightarrow> s \<in> {Disconnected, Rejected, Cancelled, Finished}"

definition told :: "'x request_scheme \<Rightarrow> bool" where
  "told r \<longleftrightarrow> rq_chan r \<noteq> [] \<and> (\<exists>s. cm_state (last (rq_chan r)) = Some s \<and> terminal s)"

text \<open>A connection in a final state has told the front end so, and said nothing else since.\<close>

definition truthful :: "'x request_scheme \<Rightarrow> 'x request_scheme \<Rightarrow> bool" where
  "truthful r t \<longleftrightarrow> ((terminal (conn r) \<longrightarrow> told r) \<longrightarrow> terminal (conn t) \<longrightarrow> told t)"

interpretation truth: step_rel truthful
  by unfold_locales (auto simp: truthful_def)

lemma truth_modify [within_rules]:
  "(\<And>r. conn (f r) = conn r) \<Longrightarrow> (\<And>r. rq_chan (f r) = rq_chan r) \<Longrightarrow> within truthful (modify f)"
  by (simp add: within_def truthful_def told_def exec)

lemma truth_core: "within (same_rel core) m \<Longrightarrow> within truthful m"
proof (erule within_mono)
  fix s t :: "'a request_scheme"
  assume "same_rel core s t"
  then have c: "core t = core s" by (simp add: same_rel_def)
  then show "truthful s t"
    using coreD(2) [OF c] core_conn [OF c] by (simp add: truthful_def told_def)
qed

lemmas truth_senders [within_rules] =
  core_basic [THEN truth_core] send_frame_core [THEN truth_core]
  encrypt_and_send_core [THEN truth_core] senders_core [THEN truth_core]

lemma truth_update_state [within_rules]:
  assumes "inform \<or> (\<forall>e. terminal (is_state (f e)) \<longrightarrow> is_state (f e) = is_state e)"
  shows "within truthful (update_state role f inform)"
proof (rule withinI)
  fix s res t
  assume run: "update_state role f inform s = (res, t)"
  show "truthful s t"
  proof (cases inform)
    case True
    with run have "rq_chan t = rq_chan s @ [state_message role (f (rq_st s))]" "conn t = is_state (f (rq_st s))"
      by (auto simp: update_state_def exec upd_st_def conn_def)
    then show ?thesis by (simp add: truthful_def told_def state_message_def)
  next
    case False
    with run have "rq_chan t = rq_chan s" "conn t = is_state (f (rq_st s))"
      by (auto simp: update_state_def exec upd_st_def conn_def)
    with assms False show ?thesis by (auto simp: truthful_def told_def conn_def)
  qed
qed

lemma truth_set_state [within_rules]:
  "inform \<or> \<not> terminal s \<Longrightarrow> within truthful (set_state role s inform)"
  unfolding set_state_def by (rule truth_update_state) auto

lemma truth_finish [within_rules]: "within truthful (finish X role s)"
  unfolding finish_def by (intro within_rules) simp

lemma truth_read [within_rules]: "within truthful (stream_read_exact n)"
  by (simp add: within_def truthful_def told_def stream_read_exact_def conn_def)

lemma truth_same: "within (same_rel conn) m \<Longrightarrow> within (same_rel rq_chan) m \<Longrightarrow> within truthful m"
  by (simp add: within_def same_rel_def truthful_def told_def)

lemma truth_files [within_rules]:
  "within truthful (file_write_all X i info h d)" "within truthful (file_create X p)"
  "within truthful (file_read X j info h)"
  by (auto simp: within_def truthful_def told_def file_write_all_def file_create_def file_read_def
      put_handle_def put_bytes_def upd_st_def conn_def Let_def split: option.split)

lemma truth_channel [within_rules]:
  "within truthful (open_secure_message X m)" "within truthful (read_message lb)"
  unfolding open_secure_message_def get_client_seq_inc_def read_message_def Let_def case_prod_beta
  by (intro within_rules; simp add: conn_def upd_st_def)+

lemma truth_keys [within_rules]:
  "within truthful (alert_and_fail X a e)"
  "within truthful (client_finalize_key_exchange X k)"
  "within truthful (server_finalize_key_exchange X k)"
  unfolding alert_and_fail_def client_finalize_key_exchange_def server_finalize_key_exchange_def
    session_secrets_def aes_key_of_def new_hmac_def Let_def case_prod_beta
  by (intro within_rules allI impI; simp add: conn_def upd_st_def)+

lemma truth_ukey2 [within_rules]:
  "within truthful (process_ukey2_client_init X m)"
  "within truthful (process_ukey2_client_finish X m f)"
  "within truthful (process_ukey2_server_init X m)"
  "within truthful (send_ukey2_client_init X)"
  unfolding process_ukey2_client_init_def process_ukey2_client_finish_def
    process_ukey2_server_init_def send_ukey2_client_init_def Let_def case_prod_beta
  by (intro within_rules allI impI; simp add: conn_def upd_st_def terminal_def)+

subsection \<open>The receiving side\<close>

lemma truth_payload_parts [within_rules]:
  "within truthful (entry_buffer i sz)" "within truthful (remove_buffer i)"
  "within truthful (drop_partial_length k)"
  unfolding entry_buffer_def remove_buffer_def drop_partial_length_def
  by (intro within_rules; simp add: conn_def upd_st_def)+

lemma truth_inbound_parts [within_rules]:
  "within truthful (offer_text p d)"
  "within truthful (reject_transfer X reason)"
  "within truthful (count_acknowledged n)"
  "within truthful (process_paired_key_encryption_frame X v)"
  "within truthful (process_paired_key_result v)"
  "within truthful (process_connection_response X f)"
  "within truthful (open_destination X i)"
  unfolding offer_text_def reject_transfer_def count_acknowledged_def
    process_paired_key_encryption_frame_def process_paired_key_result_def
    process_connection_response_def open_destination_def Let_def
  by (intro within_rules; simp add: conn_def upd_st_def)+

lemma truth_introduce [within_rules]: "within truthful (introduce_files X files names sz)"
proof (induction files arbitrary: names sz)
  case Nil
  show ?case by (simp add: within_rules)
next
  case (Cons f fs)
  then show ?case unfolding introduce_files.simps Let_def
    by (intro within_rules; simp add: conn_def upd_st_def)
qed

lemma truth_setup [within_rules]:
  "within truthful (process_introduction X v)" "within truthful (process_transfer_setup X frame)"
proof -
  show 1: "within truthful (process_introduction X v)" for v
    unfolding process_introduction_def case_prod_beta
    by (intro within_rules; simp add: terminal_def split: text_type.split; intro conjI impI within_rules)
  show "within truthful (process_transfer_setup X frame)"
    unfolding process_transfer_setup_def
    by (intro within_rules 1; simp add: terminal_def)
qed

lemma truth_payloads [within_rules]:
  "within truthful (process_bytes_payload X header chunk)"
  "within truthful (process_file_payload X header chunk)"
  unfolding process_bytes_payload_def process_file_payload_def deliver_buffer_def finish_text_def
    complete_file_def Let_def
  by (intro within_rules; simp add: conn_def upd_st_def store_text_def)+

lemma truth_frames [within_rules]:
  "within truthful (process_payload_transfer X p)" "within truthful (process_offline_frame X f)"
  "within truthful (decrypt_and_process_secure_message X m)"
proof -
  show 1: "within truthful (process_payload_transfer X p)" for p
    unfolding process_payload_transfer_def
    by (intro within_rules; simp split: payload_type.split; intro conjI impI within_rules)
  show 2: "within truthful (process_offline_frame X f)" for f
    unfolding process_offline_frame_def
    by (intro within_rules 1; simp split: frame_type.split; intro conjI impI within_rules 1)
  show "within truthful (decrypt_and_process_secure_message X m)"
    unfolding decrypt_and_process_secure_message_def by (intro within_rules 2)
qed

lemma truth_serve [within_rules]: "within truthful (serve_frame X d)"
  unfolding serve_frame_def Let_def
  by (intro within_rules; simp add: terminal_def)

lemma handle_truthful: "within truthful (handle X ev)"
proof -
  have "within truthful (accept_transfer X)"
    unfolding accept_transfer_def by (intro within_rules; simp)
  then have "within truthful (handle_action X action)" for action
    unfolding handle_action_def
    by (cases action; simp; cases "the action"; simp; intro within_rules; simp)
  moreover have "within truthful (handle_frame X lb)" for lb
    unfolding handle_frame_def Let_def by (intro within_rules; simp add: conn_def)
  ultimately show ?thesis
    unfolding handle_def by (cases ev) (auto intro!: within_rules split: recv_result.split)
qed

subsection \<open>The sending side\<close>

lemma truth_out_parts [within_rules]:
  "within truthful (count_sent i n)"
  "within truthful (answer_paired_key_encryption X v)"
  "within truthful (check_connection_response X f)"
  unfolding count_sent_def answer_paired_key_encryption_def check_connection_response_def Let_def
  by (intro within_rules; simp)+

lemma truth_send_file [within_rules]: "within truthful (send_file X fuel i header sz)"
proof (induction fuel)
  case 0
  show ?case by (simp add: within_rules)
next
  case (Suc fuel)
  then show ?case unfolding send_file.simps Let_def by (intro within_rules; simp)
qed

lemma truth_send_files [within_rules]: "within truthful (send_files X fuel ids)"
proof (induction ids)
  case Nil
  show ?case unfolding send_files.simps by (intro within_rules; simp)
next
  case (Cons i ids)
  then show ?case unfolding send_files.simps by (intro within_rules; simp add: conn_def)
qed

lemma truth_collect [within_rules]: "within truthful (collect_files X fs metas infos sz)"
proof (induction fs arbitrary: metas infos sz)
  case Nil
  show ?case by (simp add: within_rules)
next
  case (Cons f fs)
  then show ?case unfolding collect_files.simps Let_def by (intro within_rules; simp)
qed

lemma truth_out_setup [within_rules]: "within truthful (process_setup X fuel frame)"
proof -
  have "within truthful (send_introduction X v)" for v
    unfolding send_introduction_def case_prod_beta by (intro within_rules; simp)
  moreover have "within truthful (process_consent X fuel v)" for v
    unfolding process_consent_def by (intro within_rules; simp)
  ultimately show ?thesis
    unfolding process_setup_def by (intro within_rules; simp add: terminal_def)
qed

lemma truth_out_frames [within_rules]: "within truthful (out_offline_frame X fuel f)"
proof -
  have 1: "within truthful (out_bytes_payload X fuel header chunk)" for header chunk
    unfolding out_bytes_payload_def Let_def by (intro within_rules; simp add: conn_def upd_st_def)
  have 2: "within truthful (out_payload_transfer X fuel p)" for p
    unfolding out_payload_transfer_def
    by (intro within_rules 1; simp split: payload_type.split; intro conjI impI within_rules 1)
  show ?thesis
    unfolding out_offline_frame_def
    by (intro within_rules 2; simp split: frame_type.split; intro conjI impI within_rules 2)
qed

lemma out_handle_truthful: "within truthful (out_handle X fuel ev)"
proof -
  have serve: "within truthful (out_serve_frame X fuel d)" for d
    unfolding out_serve_frame_def out_secure_message_def Let_def
    by (intro within_rules; simp add: terminal_def)
  have "within truthful (out_handle_frame X fuel lb)" for lb
    unfolding out_handle_frame_def by (intro within_rules serve)
  moreover have "within truthful (out_handle_action X action)" for action
    unfolding out_handle_action_def
    by (cases action; simp; cases "the action"; simp; intro within_rules; simp)
  ultimately show ?thesis
    unfolding out_handle_def by (cases ev) (auto intro!: within_rules split: recv_result.split)
qed

section \<open>A deliberate end\<close>

text \<open>
  \<open>NotAnError\<close> is only returned with the connection in a final state. For the computations
  that never return it, \<open>R\<close> below is true of nothing.
\<close>

named_theorems deliberate_rules \<open>rules that show where a computation can end deliberately\<close>

definition deliberate :: "('s \<Rightarrow> bool) \<Rightarrow> ('s, 'a) io \<Rightarrow> bool" where
  "deliberate R m \<longleftrightarrow> (\<forall>s. fst (m s) = Fail NotAnError \<longrightarrow> R (snd (m s)))"

definition mistake :: "'a outcome \<Rightarrow> bool" where
  "mistake r \<longleftrightarrow> r \<noteq> Fail NotAnError"

lemma deliberateD: "deliberate R m \<Longrightarrow> m s = (Fail NotAnError, t) \<Longrightarrow> R t"
  by (auto simp: deliberate_def dest: spec [of _ s])

lemma mistake_rules [deliberate_rules]:
  "mistake (Done a)" "e \<noteq> NotAnError \<Longrightarrow> mistake (Fail e)" "mistake (Panic p)" "mistake NoFuel"
  "e \<noteq> NotAnError \<Longrightarrow> mistake (o_or e x)" "mistake (o_unwrap p x)"
  "mistake r \<Longrightarrow> (\<And>a. mistake (f a)) \<Longrightarrow> mistake (obind r f)"
  "(c \<Longrightarrow> mistake r) \<Longrightarrow> (\<not> c \<Longrightarrow> mistake r') \<Longrightarrow> mistake (if c then r else r')"
  "mistake r' \<Longrightarrow> (\<And>a. mistake (g a)) \<Longrightarrow> mistake (case x of None \<Rightarrow> r' | Some a \<Rightarrow> g a)"
  by (auto simp: mistake_def o_or_def o_unwrap_def obind_def split: option.split outcome.splits)

lemma deliberate_basic [deliberate_rules]:
  "deliberate R (ret a)" "deliberate R (panic p)" "deliberate R no_fuel" "deliberate R (get f)"
  "deliberate R (modify g)" "e \<noteq> NotAnError \<Longrightarrow> deliberate R (fail e)"
  "e \<noteq> NotAnError \<Longrightarrow> deliberate R (fail_if c e)" "e \<noteq> NotAnError \<Longrightarrow> deliberate R (ok_or e x)"
  "deliberate R (unwrap p x)" "mistake r \<Longrightarrow> deliberate R (lift_outcome r)"
  by (auto simp: deliberate_def mistake_def exec ok_or_def unwrap_def split: option.split)

lemma deliberate_bind [deliberate_rules]:
  "deliberate R m \<Longrightarrow> (\<And>a. deliberate R (f a)) \<Longrightarrow> deliberate R (bind m f)"
  unfolding deliberate_def bind_def by (auto split: prod.splits outcome.splits) (metis fst_conv snd_conv)+

lemma deliberate_andthen [deliberate_rules]:
  "deliberate R m \<Longrightarrow> deliberate R k \<Longrightarrow> deliberate R (andthen m k)"
  unfolding andthen_def by (rule deliberate_bind)

lemma deliberate_if [deliberate_rules]:
  "(c \<Longrightarrow> deliberate R m) \<Longrightarrow> (\<not> c \<Longrightarrow> deliberate R k) \<Longrightarrow> deliberate R (if c then m else k)"
  by simp

lemma deliberate_case [deliberate_rules]:
  "deliberate R m \<Longrightarrow> (\<And>a. deliberate R (f a)) \<Longrightarrow> deliberate R (case x of None \<Rightarrow> m | Some a \<Rightarrow> f a)"
  "deliberate R m \<Longrightarrow> (\<And>y ys. deliberate R (g y ys)) \<Longrightarrow> deliberate R (case xs of [] \<Rightarrow> m | y # ys \<Rightarrow> g y ys)"
  by (cases x; simp) (cases xs; simp)

lemma deliberate_for_each [deliberate_rules]:
  "(\<And>x. deliberate R (f x)) \<Longrightarrow> deliberate R (for_each xs f)"
  by (induction xs) (auto intro!: deliberate_rules)

text \<open>The library of the connection never ends deliberately by itself.\<close>

lemma deliberate_senders [deliberate_rules]:
  "deliberate R (write_all X d)" "deliberate R draw" "deliberate R (stream_read_exact n)"
  "deliberate R (file_write_all X i info h d)" "deliberate R (file_create X p)"
  by (auto simp: deliberate_def write_all_def draw_def stream_read_exact_def file_write_all_def
      file_create_def split: option.split)

lemma deliberate_file_read [deliberate_rules]: "deliberate R (file_read X j info h)"
  by (auto simp: deliberate_def file_read_def Let_def split: option.split)

lemma deliberate_update [deliberate_rules]:
  "deliberate R (update_state role f inform)" "deliberate R (set_state role st inform)"
  unfolding set_state_def update_state_def by (intro deliberate_rules)+

lemma deliberate_send [deliberate_rules]:
  "deliberate R (send_frame X d)" "deliberate R (encrypt_and_send X f)"
proof -
  show 1: "deliberate R (send_frame X d)" for d
    unfolding send_frame_def Let_def by (intro deliberate_rules)
  show "deliberate R (encrypt_and_send X f)"
    unfolding encrypt_and_send_def Let_def case_prod_beta
    by (intro deliberate_rules 1 error.distinct)
qed

lemma deliberate_channel [deliberate_rules]:
  "deliberate R (send_encrypted_frame X g)" "deliberate R (send_by_encryption X f)"
  "deliberate R (disconnection X)" "deliberate R (send_keepalive X ack)"
  "deliberate R (send_ukey2_alert X a)" "deliberate R (open_secure_message X m)"
  "deliberate R (read_message lb)"
  unfolding send_encrypted_frame_def send_by_encryption_def
    disconnection_def send_keepalive_def send_ukey2_alert_def open_secure_message_def
    get_client_seq_inc_def read_message_def Let_def case_prod_beta
  by (intro deliberate_rules error.distinct)+

lemma mistake_keys [deliberate_rules]:
  "mistake (hkdf_extract_expand X salt ikm info n)" "mistake (encode_point X u)"
  by (auto simp: mistake_def hkdf_extract_expand_def encode_point_def split: option.split)

lemma mistake_parts [deliberate_rules]:
  "mistake (peer_point X k)" "mistake (derive_keys X s i)" "mistake (own_public_key X pk)"
  "mistake (process_connection_request f)"
  unfolding peer_point_def derive_keys_def own_public_key_def process_connection_request_def Let_def
  by (intro deliberate_rules error.distinct)+

lemma deliberate_keys [deliberate_rules]:
  "deliberate R (alert_and_fail X a (e :: string))"
  "deliberate R (client_finalize_key_exchange X k)"
  "deliberate R (server_finalize_key_exchange X k)"
  unfolding alert_and_fail_def client_finalize_key_exchange_def server_finalize_key_exchange_def
    session_secrets_def aes_key_of_def new_hmac_def Let_def case_prod_beta
  by (intro deliberate_rules error.distinct)+

lemma deliberate_ukey2 [deliberate_rules]:
  "deliberate R (process_ukey2_client_init X m)"
  "deliberate R (process_ukey2_client_finish X m f)"
  "deliberate R (process_ukey2_server_init X m)"
  "deliberate R (send_ukey2_client_init X)"
  unfolding process_ukey2_client_init_def process_ukey2_client_finish_def
    process_ukey2_server_init_def send_ukey2_client_init_def Let_def case_prod_beta
  by (intro deliberate_rules error.distinct)+

abbreviation at_end :: "'x request_scheme \<Rightarrow> bool" where
  "at_end r \<equiv> terminal (conn r)"

lemma deliberate_after:
  fixes k :: "('x, unit) rio"
  assumes "within (same_rel conn) k" and "terminal s"
  shows "deliberate at_end (andthen (set_state role s inform) (andthen k (fail NotAnError :: ('x, unit) rio)))"
proof -
  have "at_end (snd (andthen (set_state role s inform) (andthen k (fail NotAnError :: ('x, unit) rio)) r))" for r
  proof -
    obtain u where u: "set_state role s inform r = (Done (), u)" "conn u = s"
      by (cases inform) (simp_all add: set_state_def update_state_def exec conn_def upd_st_def)
    have "within (same_rel conn) (andthen k (fail NotAnError :: ('x, unit) rio))"
      by (intro within_rules assms(1))
    from within_at [OF this, of u] u assms(2) show ?thesis
      by (simp add: andthen_Done same_rel_def)
  qed
  then show ?thesis by (simp add: deliberate_def)
qed

lemma deliberate_finish [deliberate_rules]: "terminal s \<Longrightarrow> deliberate at_end (finish X role s)"
  unfolding finish_def by (intro deliberate_after within_rules deliberate_rules)

lemma deliberate_inbound_parts [deliberate_rules]:
  "deliberate R (entry_buffer i sz)" "deliberate R (remove_buffer i)"
  "deliberate R (drop_partial_length k)"
  unfolding entry_buffer_def remove_buffer_def drop_partial_length_def
  by (intro deliberate_rules)+

lemma deliberate_inbound [deliberate_rules]:
  "deliberate R (offer_text p d)" "deliberate R (reject_transfer X reason)"
  "deliberate R (count_acknowledged n)" "deliberate R (process_paired_key_encryption_frame X v)"
  "deliberate R (process_paired_key_result v)" "deliberate R (process_connection_response X f)"
  "deliberate R (open_destination X i)"
  unfolding offer_text_def reject_transfer_def count_acknowledged_def
    process_paired_key_encryption_frame_def process_paired_key_result_def
    process_connection_response_def open_destination_def Let_def
  by (intro deliberate_rules error.distinct)+

lemma deliberate_introduce [deliberate_rules]: "deliberate R (introduce_files X files names sz)"
  by (induction files arbitrary: names sz) (auto simp: Let_def intro!: deliberate_rules)

lemma deliberate_setup [deliberate_rules]: "deliberate at_end (process_transfer_setup X frame)"
proof -
  have "deliberate R (process_introduction X v)" for R v
    unfolding process_introduction_def case_prod_beta
    by (intro deliberate_rules error.distinct; simp split: text_type.split;
        intro conjI impI deliberate_rules)
  then show ?thesis
    unfolding process_transfer_setup_def
    by (intro deliberate_rules error.distinct; simp add: terminal_def)
qed

lemma deliberate_payloads [deliberate_rules]:
  "deliberate at_end (process_bytes_payload X header chunk)"
  "deliberate at_end (process_file_payload X header chunk)"
  unfolding process_bytes_payload_def process_file_payload_def deliver_buffer_def finish_text_def
    complete_file_def Let_def
  by (intro deliberate_rules error.distinct; simp add: terminal_def)+

lemma deliberate_frames [deliberate_rules]: "deliberate at_end (process_offline_frame X f)"
proof -
  have 1: "deliberate at_end (process_payload_transfer X p)" for p
    unfolding process_payload_transfer_def
    by (intro deliberate_rules error.distinct; simp split: payload_type.split;
        intro conjI impI deliberate_rules)
  show ?thesis
    unfolding process_offline_frame_def
    by (intro deliberate_rules error.distinct 1; simp split: frame_type.split;
        intro conjI impI deliberate_rules error.distinct 1)
qed

lemma handle_deliberate: "deliberate at_end (handle X ev)"
proof -
  have "deliberate at_end (serve_frame X d)" for d
    unfolding serve_frame_def decrypt_and_process_secure_message_def Let_def
    by (intro deliberate_rules error.distinct)
  then have frame: "deliberate at_end (handle_frame X lb)" for lb
    unfolding handle_frame_def Let_def by (intro deliberate_rules error.distinct)
  have "deliberate at_end (accept_transfer X)"
    unfolding accept_transfer_def by (intro deliberate_rules)
  then have "deliberate at_end (handle_action X action)" for action
    unfolding handle_action_def
    by (cases action; simp; cases "the action"; simp; intro deliberate_rules deliberate_after within_rules;
        simp add: terminal_def)
  with frame show ?thesis
    unfolding handle_def by (cases ev) (auto intro!: deliberate_rules split: recv_result.split)
qed

lemma deliberate_out_parts [deliberate_rules]:
  "deliberate R (count_sent i n)" "deliberate R (answer_paired_key_encryption X v)"
  "deliberate R (check_connection_response X f)"
  unfolding count_sent_def answer_paired_key_encryption_def check_connection_response_def Let_def
  by (intro deliberate_rules error.distinct)+

lemma deliberate_send_file [deliberate_rules]: "deliberate R (send_file X fuel i header sz)"
proof (induction fuel)
  case 0
  show ?case by (simp add: deliberate_rules)
next
  case (Suc fuel)
  then show ?case unfolding send_file.simps Let_def by (intro deliberate_rules error.distinct)
qed

lemma deliberate_send_files [deliberate_rules]: "deliberate at_end (send_files X fuel ids)"
proof (induction ids)
  case Nil
  show ?case unfolding send_files.simps
    by (intro deliberate_rules deliberate_after within_rules; simp add: terminal_def)
next
  case (Cons i ids)
  then show ?case unfolding send_files.simps by (intro deliberate_rules error.distinct)
qed

lemma deliberate_collect [deliberate_rules]: "deliberate R (collect_files X fs metas infos sz)"
  by (induction fs arbitrary: metas infos sz) (auto simp: Let_def intro!: deliberate_rules)

lemma deliberate_out_setup [deliberate_rules]: "deliberate at_end (process_setup X fuel frame)"
proof -
  have "deliberate R (send_introduction X v)" for R v
    unfolding send_introduction_def case_prod_beta by (intro deliberate_rules error.distinct)
  moreover have "deliberate at_end (process_consent X fuel v)" for v
    unfolding process_consent_def by (intro deliberate_rules error.distinct; simp add: terminal_def)
  ultimately show ?thesis
    unfolding process_setup_def by (intro deliberate_rules error.distinct; simp add: terminal_def)
qed

lemma out_handle_deliberate: "deliberate at_end (out_handle X fuel ev)"
proof -
  have 1: "deliberate at_end (out_bytes_payload X fuel header chunk)" for header chunk
    unfolding out_bytes_payload_def Let_def by (intro deliberate_rules error.distinct)
  have 2: "deliberate at_end (out_payload_transfer X fuel p)" for p
    unfolding out_payload_transfer_def
    by (intro deliberate_rules error.distinct 1; simp split: payload_type.split;
        intro conjI impI deliberate_rules 1)
  have "deliberate at_end (out_offline_frame X fuel f)" for f
    unfolding out_offline_frame_def
    by (intro deliberate_rules error.distinct 2; simp split: frame_type.split;
        intro conjI impI deliberate_rules error.distinct 2)
  then have "deliberate at_end (out_serve_frame X fuel d)" for d
    unfolding out_serve_frame_def out_secure_message_def Let_def
    by (intro deliberate_rules error.distinct)
  then have frame: "deliberate at_end (out_handle_frame X fuel lb)" for lb
    unfolding out_handle_frame_def by (intro deliberate_rules error.distinct)
  have "deliberate at_end (out_handle_action X action)" for action
    unfolding out_handle_action_def
    by (cases action; simp; cases "the action"; simp; intro deliberate_rules deliberate_after within_rules;
        simp add: terminal_def)
  with frame show ?thesis
    unfolding out_handle_def by (cases ev) (auto intro!: deliberate_rules split: recv_result.split)
qed

section \<open>What the front end learns\<close>

lemma told_disconnected: "told (tell (disconnected_message i) r)"
  by (simp add: told_def tell_def disconnected_message_def cm_default_def terminal_def)

text \<open>
  As long as a receiving connection is \<open>Initial\<close>, it knows nothing of the other device and the front
  end knows nothing of it.
\<close>

definition untouched :: "'x request_scheme \<Rightarrow> 'x request_scheme \<Rightarrow> bool" where
  "untouched r t \<longleftrightarrow> (conn t = Initial \<longrightarrow> conn r = Initial \<and> rq_chan t = rq_chan r
     \<and> is_remote_device_info (rq_st t) = is_remote_device_info (rq_st r))"

interpretation untouched: step_rel untouched
  by unfold_locales (auto simp: untouched_def)

lemma untouched_core: "within (same_rel core) m \<Longrightarrow> within untouched m"
proof (erule within_mono)
  fix s t :: "'a request_scheme"
  assume "same_rel core s t"
  then have c: "core t = core s" by (simp add: same_rel_def)
  then show "untouched s t"
    using coreD(2) [OF c] core_conn [OF c] coreD(8) [OF c, THEN arg_cong, of is_remote_device_info]
    by (simp add: untouched_def)
qed

lemma untouched_modify [within_rules]:
  "(\<And>r. conn (f r) = conn r) \<Longrightarrow> (\<And>r. rq_chan (f r) = rq_chan r)
    \<Longrightarrow> (\<And>r. is_remote_device_info (rq_st (f r)) = is_remote_device_info (rq_st r)) \<Longrightarrow> within untouched (modify f)"
  by (simp add: within_def untouched_def exec)

lemma untouched_left [within_rules]:
  "(\<And>e. is_state (f e) \<noteq> Initial) \<Longrightarrow> within untouched (update_state role f inform)"
  by (simp add: within_def untouched_def update_state_def exec upd_st_def conn_def)

lemmas untouched_senders [within_rules] =
  core_basic [THEN untouched_core] send_frame_core [THEN untouched_core]
  encrypt_and_send_core [THEN untouched_core] senders_core [THEN untouched_core]

lemma untouched_files [within_rules]:
  "within untouched (file_create X p)" "within untouched (stream_read_exact n)"
  by (simp_all add: within_def untouched_def file_create_def stream_read_exact_def conn_def)

lemma untouched_action: "within untouched (handle_action X action)"
proof -
  have state: "within untouched (set_state role s inform)" if "s \<noteq> Initial" for role s inform
    unfolding set_state_def by (rule untouched_left) (simp add: that)
  have "within untouched (open_destination X i)" for i
    unfolding open_destination_def by (intro within_rules) (simp_all add: conn_def upd_st_def)
  then show ?thesis
    unfolding handle_action_def accept_transfer_def finish_def reject_transfer_def Let_def
    by (cases action; simp; (cases "the action"; simp)?; intro within_rules state; simp)
qed

lemma untouched_handle: "handle X ev r = (res, t) \<Longrightarrow> untouched r t"
proof (cases "conn r = Initial")
  case False
  assume "handle X ev r = (res, t)"
  from handle_step [OF this] False have "conn t \<noteq> Initial"
    by (auto split: event.splits recv_result.splits elim: frame_moveE user_move.cases)
  then show ?thesis by (simp add: untouched_def)
next
  case True
  assume run: "handle X ev r = (res, t)"
  show ?thesis
  proof (cases ev)
    case (OnChannel k received)
    have "within untouched (handle X ev)"
      unfolding handle_def drop_partial_length_def OnChannel event.case
      by (intro within_rules untouched_action; simp add: conn_def)
    then show ?thesis using run by (rule withinD)
  next
    case OnSocket
    have request: "untouched q (snd (serve_frame X d q))" if "conn q = Initial" for q d
    proof -
      have "serve_frame X d q = bind (ok_or DecodeError (dec_offline X d)) (\<lambda>frame.
          bind (lift_outcome (process_connection_request frame)) (\<lambda>rdi.
          update_state Inbound (\<lambda>e. e\<lparr>is_state := ReceivedConnectionRequest,
            is_remote_device_info := Some rdi\<rparr>) False)) q"
        using that by (simp add: serve_frame_def bind_get conn_def)
      moreover have "within untouched (bind (ok_or DecodeError (dec_offline X d)) (\<lambda>frame.
          bind (lift_outcome (process_connection_request frame)) (\<lambda>rdi.
          update_state Inbound (\<lambda>e. e\<lparr>is_state := ReceivedConnectionRequest,
            is_remote_device_info := Some rdi\<rparr>) False)) :: unit inb)"
        by (intro within_rules) simp
      ultimately show ?thesis by (simp add: within_at)
    qed
    obtain res1 q where frame: "stream_read_exact 4 r = (res1, q)" by fastforce
    have q: "untouched r q" "conn q = Initial"
      using withinD [OF untouched_files(2) frame] frame True
      by (auto simp: stream_read_exact_def conn_def split: if_splits)
    show ?thesis
    proof (cases res1)
      case (Done lb)
      let ?n = "unat (from_be32 lb)"
      define q1 where "q1 = q\<lparr>ib_recv_buf := take ?n (ib_recv_buf q) @ replicate (?n - length (ib_recv_buf q)) 0\<rparr>"
      obtain res2 q2 where data: "stream_read_exact ?n q1 = (res2, q2)" by fastforce
      have same: "untouched q q1" by (simp add: q1_def untouched_def conn_def)
      have q2: "untouched r q2" "conn q2 = Initial"
        using untouched.trans [OF untouched.trans [OF q(1) same] withinD [OF untouched_files(2) data]] data q(2)
        by (auto simp: stream_read_exact_def conn_def q1_def split: if_splits)
      show ?thesis
      proof (cases "?n > sane_frame_length")
        case True
        then show ?thesis
          using run frame Done OnSocket q(1) by (simp add: handle_def handle_frame_def Let_def exec bind_Done)
      next
        case small: False
        show ?thesis
        proof (cases res2)
          case (Done d)
          let ?q = "q2\<lparr>ib_recv_buf := d @ drop ?n (ib_recv_buf q2)\<rparr>"
          have "untouched q2 ?q" by (simp add: untouched_def conn_def)
          moreover have "conn ?q = Initial" using q2(2) by (simp add: conn_def)
          moreover have "handle X OnSocket r = serve_frame X (take ?n (ib_recv_buf ?q)) ?q"
            using frame \<open>res1 = Done lb\<close> small data Done
            by (simp add: handle_def handle_frame_def Let_def exec bind_Done q1_def)
          ultimately show ?thesis
            using untouched.trans [OF untouched.trans [OF q2(1)] request] run OnSocket by (metis snd_conv)
        qed (use run frame \<open>res1 = Done lb\<close> small data OnSocket q2(1) in
            \<open>simp_all add: handle_def handle_frame_def Let_def exec bind_Done q1_def [symmetric] bind_Fail bind_Panic bind_NoFuel\<close>)
      qed
    qed (use run frame OnSocket q(1) in \<open>simp_all add: handle_def bind_Fail bind_Panic bind_NoFuel\<close>)
  qed
qed

text \<open>
  C15. A receiving task that ends, because \<open>handle\<close> returned an error of whatever kind, does not end
  in silence: the last message to the front end carries a final state. The only exception is a task
  whose peer never sent a connection request that was accepted, be it that nothing came or that the
  first frame was malformed: then the front end was never told of the connection at all. (A task
  that panics says nothing; the panics are classified in \<open>Panics\<close>.)
\<close>

theorem inbound_end_is_told:
  assumes "inbound_connection X remote_addr fs custom_download socket evs = (Ended, t)"
  shows "told t \<or> conn t = Initial \<and> is_remote_device_info (rq_st t) = None \<and> rq_chan t = []"
proof -
  let ?silent = "\<lambda>r. conn r = Initial \<longrightarrow> is_remote_device_info (rq_st r) = None \<and> rq_chan r = []"
  have "?silent t \<and> (conn t = Initial \<or> told t)"
    if "inbound_task X remote_addr evs r = (Ended, t)" "terminal (conn r) \<longrightarrow> told r" "?silent r" for r
    using that
  proof (induction X remote_addr evs r rule: inbound_task.induct)
    case (1 X remote_addr ir)
    then show ?case by simp
  next
    case (2 X remote_addr ev evs ir)
    obtain res u where run: "handle X ev ir = (res, u)" by (cases "handle X ev ir")
    have truth: "terminal (conn u) \<longrightarrow> told u"
      using withinD [OF handle_truthful run] "2.prems"(2) by (simp add: truthful_def)
    have silent: "?silent u"
      using untouched_handle [OF run] "2.prems"(3) by (auto simp: untouched_def)
    show ?case
    proof (cases res)
      case (Done x)
      then show ?thesis using "2.IH" "2.prems"(1) run truth silent by simp
    next
      case (Fail e)
      then have t: "t = inbound_error remote_addr e u" using "2.prems"(1) run by simp
      have "?silent t"
        using silent by (cases e) (auto simp: t inbound_error_def tell_def conn_def)
      moreover have "conn t = Initial \<or> told t"
      proof (cases "e = NotAnError")
        case True
        with run Fail have "terminal (conn u)" using deliberateD [OF handle_deliberate] by blast
        with truth show ?thesis by (simp add: t True inbound_error_def)
      next
        case False
        then show ?thesis
          using truth by (cases e) (auto simp: t inbound_error_def told_disconnected terminal_def)
      qed
      ultimately show ?thesis by blast
    qed (use "2.prems"(1) run in simp_all)
  qed
  moreover have "conn (new_inbound remote_addr fs custom_download socket) = Initial"
      "?silent (new_inbound remote_addr fs custom_download socket)"
    by (simp_all add: new_inbound_def conn_def is_default_def)
  ultimately show ?thesis
    using assms by (auto simp: inbound_connection_def terminal_def)
qed

lemma out_handle_begun: "out_handle X fuel ev r = (res, t) \<Longrightarrow> conn r \<noteq> Initial \<Longrightarrow> conn t \<noteq> Initial"
  by (drule out_handle_step) (auto split: event.splits recv_result.splits elim: out_moveE)

lemma outbound_task_told:
  assumes "outbound_task X fuel addr evs r = (Ended, t)" and "TaskCancelled \<notin> set evs"
    and "terminal (conn r) \<longrightarrow> told r" and "conn r \<noteq> Initial"
  shows "told t"
  using assms
proof (induction X fuel addr evs r rule: outbound_task.induct)
  case (3 X fuel addr ev evs r)
  obtain res u where run: "out_handle X fuel ev r = (res, u)" by (cases "out_handle X fuel ev r")
  have truth: "terminal (conn u) \<longrightarrow> told u"
    using withinD [OF out_handle_truthful run] "3.prems"(3) by (simp add: truthful_def)
  have begun: "conn u \<noteq> Initial" using out_handle_begun [OF run] "3.prems"(4) by simp
  show ?case
  proof (cases res)
    case (Done x)
    then show ?thesis using "3.IH" "3.prems" run truth begun by simp
  next
    case (Fail e)
    then have t: "t = outbound_error addr e u" using "3.prems"(1) run by simp
    show ?thesis
    proof (cases "e = NotAnError")
      case True
      with run Fail have "terminal (conn u)" using deliberateD [OF out_handle_deliberate] by blast
      with truth show ?thesis by (simp add: t True outbound_error_def)
    next
      case False
      then show ?thesis
        using truth begun by (cases e) (auto simp: t outbound_error_def told_disconnected terminal_def)
    qed
  qed (use "3.prems"(1) run in simp_all)
qed simp_all

lemma same_chan: "within (same_rel core) m \<Longrightarrow> within (same_rel rq_chan) m"
  by (erule within_mono, unfold same_rel_def, erule coreD(2))

lemmas chan_rules = core_basic [THEN same_chan] send_frame_core [THEN same_chan]

lemma update_silently [within_rules]: "within (same_rel rq_chan) (update_state role f False)"
  by (simp add: within_def same_rel_def update_state_def exec upd_st_def)

lemma first_messages_begun:
  assumes "andthen (send_connection_request X) (send_ukey2_client_init X) r = (Done (), t)"
  shows "conn t = SentUkeyClientInit"
proof -
  obtain u where "send_ukey2_client_init X u = (Done (), t)"
    using assms by (auto simp: eq_Done)
  then show ?thesis
    by (auto simp: send_ukey2_client_init_def eq_Done Let_def update_state_def exec case_prod_beta)
qed


section \<open>The end of the servers\<close>

definition ended_by :: "env \<Rightarrow> nat \<Rightarrow> bytes \<Rightarrow> server_event list \<Rightarrow> task_end \<Rightarrow> bool" where
  "ended_by X fuel endpoint_id evs e \<longleftrightarrow>
     (e = Ended \<longrightarrow> ServerCancelled \<in> set evs \<or> AcceptFailed \<in> set evs)
     \<and> (e = Panicked \<longrightarrow> (\<exists>i fs socket cevs t. SendRequest i fs socket cevs \<in> set evs
         \<and> connect X fuel endpoint_id fs socket i cevs = Some (Panicked, t)))"

lemma ended_by_Cons: "ended_by X fuel endpoint_id evs e \<Longrightarrow> ended_by X fuel endpoint_id (ev # evs) e"
  unfolding ended_by_def by (meson list.set_intros(2))

lemma server_run_ends: "ended_by X fuel endpoint_id evs (fst (server_run X fuel endpoint_id evs s))"
proof (induction evs arbitrary: s)
  case Nil
  show ?case by (simp add: ended_by_def)
next
  case (Cons ev evs)
  show ?case
  proof (cases ev)
    case (SendRequest i fs socket cevs)
    show ?thesis
    proof (cases "connect X fuel endpoint_id fs socket i cevs")
      case None
      then show ?thesis by (simp add: SendRequest Let_def ended_by_Cons Cons.IH)
    next
      case (Some et)
      obtain e t where et: "et = (e, t)" by fastforce
      have "ended_by X fuel endpoint_id (ev # evs) Panicked" if "e = Panicked"
        using Some et that unfolding ended_by_def SendRequest by (auto intro!: exI [of _ i] exI [of _ fs] exI [of _ socket] exI [of _ cevs])
      then show ?thesis
        using Some et by (cases e) (simp_all add: SendRequest Let_def ended_by_Cons Cons.IH, simp_all add: ended_by_def)
    qed
  next
    case (Accepted remote_addr)
    then show ?thesis by (simp add: ended_by_Cons Cons.IH)
  qed (simp_all add: ended_by_def)
qed

lemma mdns_step_ends:
  assumes "fst (mdns_step now daemon_ok ev m) \<noteq> Continues"
  shows "ev = MonitorEvent False \<or> \<not> daemon_ok"
  using assms by (cases ev) (auto simp: mdns_defs Let_def split: if_splits bool.splits)

text \<open>
  C29. The servers of a started service end by a failure of their own only. While the service is
  started, whatever discovery and the user do, the token that the TCP server and the mDNS server
  watch is not cancelled, and each of them runs or has ended untold. The TCP server leaves its loop
  untold only when \<open>accept\<close> fails, and panics only when the connection of a sending, which it serves
  itself, panics; the mDNS server leaves its loop untold only when its daemon fails. And
  \<open>stop_discovery\<close> tells every discovery that runs to end.
\<close>

theorem service_keeps_running:
  assumes "used r" and "rqs_tracker r = Some t"
  shows "(\<exists>c. rqs_ctoken r = Some c \<and> c \<notin> set (rqs_cancelled r)
      \<and> (\<forall>kind \<in> {TcpServerTask, MdnsServerTask}.
          \<lparr>sp_kind = kind, sp_tracker = t, sp_token = c\<rparr> \<in> set (rqs_tasks r) \<union> set (rqs_quit r)))
    \<and> (\<forall>e s'. server_run X fuel endpoint_id evs s = (e, s') \<longrightarrow>
        (e = Ended \<longrightarrow> ServerCancelled \<in> set evs \<or> AcceptFailed \<in> set evs)
        \<and> (e = Panicked \<longrightarrow> (\<exists>i fs socket cevs u. SendRequest i fs socket cevs \<in> set evs
            \<and> connect X fuel endpoint_id fs socket i cevs = Some (Panicked, u))))
    \<and> (fst (mdns_step now daemon_ok ev m) \<noteq> Continues \<longrightarrow> ev = MonitorEvent False \<or> \<not> daemon_ok)
    \<and> (\<forall>p \<in> set (rqs_tasks r). sp_kind p = DiscoveryTask \<longrightarrow> told_to_end (stop_discovery r) p)"
proof (intro conjI allI impI)
  show "\<exists>c. rqs_ctoken r = Some c \<and> c \<notin> set (rqs_cancelled r)
      \<and> (\<forall>kind \<in> {TcpServerTask, MdnsServerTask}.
          \<lparr>sp_kind = kind, sp_tracker = t, sp_token = c\<rparr> \<in> set (rqs_tasks r) \<union> set (rqs_quit r))"
    and "\<forall>p \<in> set (rqs_tasks r). sp_kind p = DiscoveryTask \<longrightarrow> told_to_end (stop_discovery r) p"
    using servers_not_told [OF assms] by blast+
next
  fix e s'
  assume "server_run X fuel endpoint_id evs s = (e, s')"
  with server_run_ends [of X fuel endpoint_id evs s] have ends: "ended_by X fuel endpoint_id evs e" by simp
  show "e = Ended \<Longrightarrow> ServerCancelled \<in> set evs \<or> AcceptFailed \<in> set evs" using ends by (simp add: ended_by_def)
  show "e = Panicked \<Longrightarrow> \<exists>i fs socket cevs u. SendRequest i fs socket cevs \<in> set evs
      \<and> connect X fuel endpoint_id fs socket i cevs = Some (Panicked, u)" using ends by (simp add: ended_by_def)
next
  show "fst (mdns_step now daemon_ok ev m) \<noteq> Continues \<Longrightarrow> ev = MonitorEvent False \<or> \<not> daemon_ok"
    by (rule mdns_step_ends)
qed

end
