(* ===== verification/Settings.thy ===== *)
theory Settings
  imports MdnsServer
begin

text \<open>
  \<open>crates/settings/src/lib.rs\<close>: the settings of the user, kept as a JSON file. The JSON
  library, the directory of the platform and failing calls are a record of parameters; what
  \<open>#[derive(Deserialize)]\<close> with its default attributes does with the fields of a JSON object
  is written out.
\<close>

section \<open>The data\<close>

record settings =
  st_autostart :: bool
  st_realclose :: bool
  st_startminimized :: bool
  st_visibility :: byte
  st_port :: "u32 option"
  st_download_path :: "path option"
  st_debug_level :: "string option"

definition default_true :: bool where "default_true = True"

definition settings_default :: settings where
  "settings_default = \<lparr>st_autostart = True, st_realclose = False, st_startminimized = False,
     st_visibility = 0, st_port = None, st_download_path = None, st_debug_level = None\<rparr>"

text \<open>The fields that a JSON object has; a field that is \<open>null\<close> is \<open>Some None\<close>.\<close>

record json_fields =
  jf_autostart :: "bool option"
  jf_realclose :: "bool option"
  jf_startminimized :: "bool option"
  jf_visibility :: "byte option"
  jf_port :: "u32 option option"
  jf_download_path :: "path option option"
  jf_debug_level :: "string option option"

definition or_default :: "'a \<Rightarrow> 'a option \<Rightarrow> 'a" where
  "or_default d x = (case x of None \<Rightarrow> d | Some a \<Rightarrow> a)"

definition deserialize :: "json_fields \<Rightarrow> settings" where
  "deserialize j = \<lparr>st_autostart = or_default default_true (jf_autostart j),
     st_realclose = or_default False (jf_realclose j),
     st_startminimized = or_default False (jf_startminimized j),
     st_visibility = or_default 0 (jf_visibility j),
     st_port = or_default None (jf_port j),
     st_download_path = or_default None (jf_download_path j),
     st_debug_level = or_default None (jf_debug_level j)\<rparr>"

definition all_fields :: "settings \<Rightarrow> json_fields" where
  "all_fields s = \<lparr>jf_autostart = Some (st_autostart s), jf_realclose = Some (st_realclose s),
     jf_startminimized = Some (st_startminimized s), jf_visibility = Some (st_visibility s),
     jf_port = Some (st_port s), jf_download_path = Some (st_download_path s),
     jf_debug_level = Some (st_debug_level s)\<rparr>"

section \<open>Loading and saving\<close>

text \<open>\<open>se_parse\<close> reads a JSON object of these fields; \<open>se_print\<close> fails for a path that is
  not UTF-8.\<close>

record settings_env =
  se_config_dir :: "path option"
  se_parse :: "string \<Rightarrow> json_fields option"
  se_print :: "json_fields \<Rightarrow> string option"
  se_mkdir_ok :: "path \<Rightarrow> bool"
  se_write_fault :: "path \<Rightarrow> nat option"       \<comment> \<open>how much was written before it failed\<close>

type_synonym text_files = "path \<Rightarrow> string option"

definition config_path :: "settings_env \<Rightarrow> path outcome" where
  "config_path E = (case se_config_dir E of
     None \<Rightarrow> Fail (Error ''Could not determine config directory'')
   | Some dir \<Rightarrow> Done (path_push dir ''settings.json''))"

definition load :: "settings_env \<Rightarrow> text_files \<Rightarrow> settings" where
  "load E fs =
     (case config_path E of
        Done path \<Rightarrow>
          (case fs path of
             None \<Rightarrow> settings_default
           | Some content \<Rightarrow>
               (case se_parse E content of
                  None \<Rightarrow> settings_default
                | Some j \<Rightarrow> deserialize j))
      | _ \<Rightarrow> settings_default)"

definition save :: "settings_env \<Rightarrow> settings \<Rightarrow> text_files \<Rightarrow> unit outcome \<times> text_files" where
  "save E s fs =
     (case config_path E of
        Done path \<Rightarrow>
          if \<not> (case path_parent path of None \<Rightarrow> True | Some parent \<Rightarrow> se_mkdir_ok E parent)
          then (Fail IoError, fs)
          else (case se_print E (all_fields s) of
             None \<Rightarrow> (Fail (Error ''json''), fs)
           | Some content \<Rightarrow>
               (case se_write_fault E path of
                  None \<Rightarrow> (Done (), fs(path \<mapsto> content))
                | Some n \<Rightarrow> (Fail IoError, fs(path \<mapsto> take n content))))
      | Fail e \<Rightarrow> (Fail e, fs)
      | Panic p \<Rightarrow> (Panic p, fs)
      | NoFuel \<Rightarrow> (NoFuel, fs))"

text \<open>\<open>serde_json\<close>: what was printed is parsed back.\<close>

definition json_ok :: "settings_env \<Rightarrow> bool" where
  "json_ok E \<longleftrightarrow> (\<forall>j c. se_print E j = Some c \<longrightarrow> se_parse E c = Some j)"

lemma deserialize_all_fields [simp]: "deserialize (all_fields s) = s"
  by (simp add: deserialize_def all_fields_def or_default_def)

text \<open>
  Settings that were saved are loaded unchanged, and saving touches no file but the
  settings file, whether it succeeds or not.
\<close>

theorem settings_roundtrip:
  assumes "json_ok E" and "save E s fs = (res, fs')"
  shows "(res = Done () \<longrightarrow> load E fs' = s) \<and>
    (\<forall>p. config_path E \<noteq> Done p \<longrightarrow> fs' p = fs p)"
  using assms
  by (cases "config_path E")
    (auto simp: save_def load_def json_ok_def split: if_splits option.splits)

text \<open>
  The two ways to write the defaults down agree: an empty settings object means the same
  as no settings file.
\<close>

theorem serde_defaults_agree:
  "deserialize \<lparr>jf_autostart = None, jf_realclose = None, jf_startminimized = None,
     jf_visibility = None, jf_port = None, jf_download_path = None, jf_debug_level = None\<rparr>
   = settings_default"
  by (simp add: deserialize_def settings_default_def or_default_def default_true_def)

text \<open>\<open>AppState::visibility\<close> of \<open>state.rs\<close>, and the same expression in \<open>main\<close>.\<close>

definition settings_visibility :: "settings \<Rightarrow> visibility outcome" where
  "settings_visibility s = visibility_from_raw (ucast (st_visibility s))"

lemma ucast_byte_eq: "(ucast (b :: byte) :: u64) = ucast c \<longleftrightarrow> b = c"
  by transfer simp

lemma settings_visibility_alt:
  "settings_visibility s = (if st_visibility s = 0 then Done Visible else if st_visibility s = 1 then Done Invisible
     else if st_visibility s = 2 then Done Temporarily else Panic ''unreachable'')"
  using ucast_byte_eq [of "st_visibility s" 0] ucast_byte_eq [of "st_visibility s" 1]
    ucast_byte_eq [of "st_visibility s" 2]
  by (simp add: settings_visibility_def visibility_from_raw_def)

lemma byte_le_2: "(b :: byte) \<le> 2 \<longleftrightarrow> b = 0 \<or> b = 1 \<or> b = 2"
proof
  assume "b \<le> 2"
  then have "unat b = unat (0 :: byte) \<or> unat b = unat (1 :: byte) \<or> unat b = unat (2 :: byte)"
    by (auto simp: word_le_nat_alt)
  then show "b = 0 \<or> b = 1 \<or> b = 2"
    using unsigned_word_eqI by blast
qed auto

text \<open>
  A settings file that parses can still stop the program from starting: a visibility above
  2 panics, because any byte is accepted when the file is read and the conversion takes other
  values for impossible. Every visibility the program saves itself is read back.
\<close>

theorem settings_visibility_cases:
  "(2 < st_visibility s \<longrightarrow> settings_visibility s = Panic ''unreachable'') \<and>
   (st_visibility s \<le> 2 \<longrightarrow> (\<exists>v. settings_visibility s = Done v \<and> visibility_num v = st_visibility s)) \<and>
   settings_visibility (s\<lparr>st_visibility := visibility_num v\<rparr>) = Done v"
proof (intro conjI impI)
  assume "2 < st_visibility s"
  then have "\<not> st_visibility s \<le> 2" by simp
  then show "settings_visibility s = Panic ''unreachable''"
    by (simp add: settings_visibility_alt byte_le_2)
next
  assume "st_visibility s \<le> 2"
  then show "\<exists>v. settings_visibility s = Done v \<and> visibility_num v = st_visibility s"
    by (auto simp: settings_visibility_alt byte_le_2 visibility_num_def)
next
  show "settings_visibility (s\<lparr>st_visibility := visibility_num v\<rparr>) = Done v"
    by (cases v) (simp_all add: settings_visibility_alt visibility_num_def)
qed

end
