(* ===== verification/AppState.thy ===== *)
theory AppState
  imports Lifecycle Settings
begin

text \<open>
  \<open>AppState\<close> of \<open>state.rs\<close>, the state behind the window, with the notifications of
  \<open>notification.rs\<close>: how it follows the messages of the library and what the buttons do.
  Messages and send requests that leave the front end, and notifications shown, are lists in the
  order they were made.
\<close>

section \<open>State\<close>

datatype content_mode = Idle | Discovering | Transfers   \<comment> \<open>\<open>ContentMode\<close>\<close>

text \<open>
  \<open>speed\<close> is an \<open>f64\<close> that is only displayed; it is kept as the two operands of its
  division, the bytes and the elapsed nanoseconds. Instants are nanoseconds.
\<close>

datatype speed = NoSpeed | Speed u64 nat

record transfer_item =
  ti_id :: string
  ti_direction :: transfer_type      \<comment> \<open>\<open>TransferDirection\<close>\<close>
  ti_state :: conn_state
  ti_device_name :: string
  ti_device_type :: device_type
  ti_pin_code :: "string option"
  ti_files :: "string list"
  ti_destination :: "string option"
  ti_text_payload :: "string option"
  ti_total_bytes :: u64
  ti_ack_bytes :: u64
  ti_speed :: speed
  ti_transfer_start :: "nat option"

record notification =
  nt_body :: string
  nt_icon :: string

record app_state =
  as_settings :: settings
  as_hostname :: string
  as_transfers :: "(string, transfer_item) hashmap"
  as_discovered_devices :: "(string, endpoint_info) hashmap"
  as_files_to_send :: "path list"
  as_content_mode :: content_mode
  as_show_settings :: bool
  as_sender_file :: bool             \<comment> \<open>whether the option is \<open>Some\<close>\<close>
  as_message_sender :: bool
  as_rqs :: "rqs option"
  as_sent :: "channel_message list"  \<comment> \<open>to the broadcast channel of the library\<close>
  as_send_infos :: "send_info list"  \<comment> \<open>to the TCP server\<close>
  as_notified :: "notification list"
  as_config :: text_files            \<comment> \<open>the files of the configuration directory\<close>

definition new_app_state :: "settings \<Rightarrow> string \<Rightarrow> text_files \<Rightarrow> app_state" where
  "new_app_state s hostname config = \<lparr>as_settings = s, as_hostname = hostname, as_transfers = [],
     as_discovered_devices = [], as_files_to_send = [], as_content_mode = Idle,
     as_show_settings = False, as_sender_file = False, as_message_sender = False, as_rqs = None,
     as_sent = [], as_send_infos = [], as_notified = [], as_config = config\<rparr>"

section \<open>Notifications\<close>

fun join_names :: "string list \<Rightarrow> string" where
  "join_names [] = []"
| "join_names [n] = n"
| "join_names (n # m # ns) = n @ '', '' @ join_names (m # ns)"

definition notify_incoming_transfer :: "string \<Rightarrow> string list \<Rightarrow> notification" where
  "notify_incoming_transfer device_name file_names =
     \<lparr>nt_body = (if file_names = [] then device_name @ '' wants to share with you''
        else device_name @ '' wants to send: '' @ join_names file_names),
      nt_icon = ''document-send''\<rparr>"

definition notify_transfer_complete :: "string list \<Rightarrow> string option \<Rightarrow> notification" where
  "notify_transfer_complete file_names destination =
     \<lparr>nt_body = (case destination of
        Some dest \<Rightarrow> ''Received '' @ dec (length file_names) @ '' file(s) to '' @ dest
      | None \<Rightarrow> ''Received '' @ dec (length file_names) @ '' file(s)''),
      nt_icon = ''document-save''\<rparr>"

definition show_notification :: "notification \<Rightarrow> app_state \<Rightarrow> app_state" where
  "show_notification n s = s\<lparr>as_notified := as_notified s @ [n]\<rparr>"

section \<open>Messages of the library\<close>

definition new_transfer :: "string \<Rightarrow> transfer_type option \<Rightarrow> transfer_item" where
  "new_transfer i rtype = \<lparr>ti_id = i,
     ti_direction = (case rtype of Some Outbound \<Rightarrow> Outbound | _ \<Rightarrow> Inbound),
     ti_state = Initial, ti_device_name = [], ti_device_type = DevUnknown, ti_pin_code = None,
     ti_files = [], ti_destination = None, ti_text_payload = None, ti_total_bytes = 0,
     ti_ack_bytes = 0, ti_speed = NoSpeed, ti_transfer_start = None\<rparr>"

text \<open>\<open>now\<close> and \<open>later\<close> are the instants read by \<open>Instant::now\<close> and \<open>elapsed\<close>.\<close>

definition note_progress :: "nat \<Rightarrow> nat \<Rightarrow> u64 \<Rightarrow> transfer_item \<Rightarrow> transfer_item" where
  "note_progress now later ack t =
     (if ack = ti_ack_bytes t then t
      else let start = (case ti_transfer_start t of Some i \<Rightarrow> i | None \<Rightarrow> now);
               elapsed = later - start;
               t = t\<lparr>ti_transfer_start := Some start\<rparr>;
               t = (if 0 < elapsed then t\<lparr>ti_speed := Speed ack elapsed\<rparr> else t)
           in t\<lparr>ti_ack_bytes := ack\<rparr>)"

definition note_metadata :: "nat \<Rightarrow> nat \<Rightarrow> transfer_metadata \<Rightarrow> transfer_item \<Rightarrow> transfer_item" where
  "note_metadata now later meta t =
     (let t = (case tm_source meta of None \<Rightarrow> t
                 | Some src \<Rightarrow> t\<lparr>ti_device_name := rdi_name src, ti_device_type := rdi_type src\<rparr>);
          t = (case tm_pin_code meta of None \<Rightarrow> t | Some pin \<Rightarrow> t\<lparr>ti_pin_code := Some pin\<rparr>);
          t = (case tm_files meta of None \<Rightarrow> t | Some files \<Rightarrow> t\<lparr>ti_files := files\<rparr>);
          t = (case tm_destination meta of None \<Rightarrow> t | Some dest \<Rightarrow> t\<lparr>ti_destination := Some dest\<rparr>);
          t = (case tm_text_payload meta of None \<Rightarrow> t | Some w \<Rightarrow> t\<lparr>ti_text_payload := Some w\<rparr>);
          t = t\<lparr>ti_total_bytes := tm_total_bytes meta\<rparr>
      in note_progress now later (tm_ack_bytes meta) t)"

definition state_of :: "channel_message \<Rightarrow> conn_state" where
  "state_of msg = (case cm_state msg of Some st \<Rightarrow> st | None \<Rightarrow> Initial)"

definition updated_transfer ::
  "nat \<Rightarrow> nat \<Rightarrow> channel_message \<Rightarrow> transfer_item option \<Rightarrow> transfer_item" where
  "updated_transfer now later msg entry =
     (let t = (case entry of Some t \<Rightarrow> t | None \<Rightarrow> new_transfer (cm_id msg) (cm_rtype msg));
          t = t\<lparr>ti_state := state_of msg\<rparr>
      in case cm_meta msg of None \<Rightarrow> t | Some meta \<Rightarrow> note_metadata now later meta t)"

definition active :: "conn_state \<Rightarrow> bool" where
  "active st \<longleftrightarrow> st \<notin> {Finished, Cancelled, Rejected, Disconnected}"

definition show_transfers :: "app_state \<Rightarrow> app_state" where
  "show_transfers s =
     (if as_transfers s \<noteq> [] \<and> list_ex (\<lambda>t. active (ti_state (snd t))) (as_transfers s)
         \<and> as_content_mode s \<noteq> Discovering
      then s\<lparr>as_content_mode := Transfers\<rparr> else s)"

definition handle_channel_message :: "nat \<Rightarrow> nat \<Rightarrow> channel_message \<Rightarrow> app_state \<Rightarrow> app_state" where
  "handle_channel_message now later msg s =
     (if cm_direction msg \<noteq> LibToFront then s
      else
        let t = updated_transfer now later msg (hm_lookup (as_transfers s) (cm_id msg));
            s = s\<lparr>as_transfers := hm_insert (cm_id msg) t (as_transfers s)\<rparr>;
            s = (if state_of msg = WaitingForUserConsent
                 then show_notification (notify_incoming_transfer (ti_device_name t) (ti_files t)) s
                 else s);
            s = (if state_of msg = Finished \<and> ti_direction t = Inbound
                 then show_notification (notify_transfer_complete (ti_files t) (ti_destination t)) s
                 else s)
        in show_transfers s)"

definition handle_endpoint_info :: "endpoint_info \<Rightarrow> app_state \<Rightarrow> app_state" where
  "handle_endpoint_info info s =
     s\<lparr>as_discovered_devices := note_endpoint info (as_discovered_devices s)\<rparr>"

section \<open>What the user does\<close>

definition send_action :: "string \<Rightarrow> channel_action \<Rightarrow> app_state \<Rightarrow> app_state" where
  "send_action i action s =
     (if as_message_sender s then
        s\<lparr>as_sent := as_sent s @ [\<lparr>cm_id = i, cm_direction = FrontToLib, cm_action = Some action,
          cm_rtype = None, cm_state = None, cm_meta = None\<rparr>]\<rparr>
      else s)"

definition clear_transfer :: "string \<Rightarrow> app_state \<Rightarrow> app_state" where
  "clear_transfer i s =
     (let s = s\<lparr>as_transfers := hm_remove i (as_transfers s)\<rparr>
      in if hm_is_empty (as_transfers s) \<and> as_content_mode s = Transfers
         then s\<lparr>as_content_mode := Idle\<rparr> else s)"

text \<open>The flag is the answer of \<open>MDnsDiscovery::new\<close>; a failure is only logged.\<close>

definition start_discovery :: "bool \<Rightarrow> app_state \<Rightarrow> app_state" where
  "start_discovery daemon_ok s =
     (case as_rqs s of None \<Rightarrow> s
      | Some r \<Rightarrow> s\<lparr>as_rqs := Some (snd (discovery daemon_ok r))\<rparr>)"

definition app_stop_discovery :: "app_state \<Rightarrow> app_state" where
  "app_stop_discovery s =
     s\<lparr>as_rqs := map_option stop_discovery (as_rqs s), as_discovered_devices := []\<rparr>"

definition send_to_device :: "endpoint_info \<Rightarrow> app_state \<Rightarrow> app_state" where
  "send_to_device device s =
     (if as_files_to_send s = [] then s
      else if \<not> as_sender_file s then s
      else
        let addr = or_default [] (ei_ip device) @ '':'' @ or_default [] (ei_port device);
            file_paths = filter (\<lambda>p. utf8_valid (as_bytes p)) (as_files_to_send s);
            info = \<lparr>snd_id = ei_id device, snd_name = or_default [] (ei_name device),
              snd_addr = addr, snd_files = file_paths\<rparr>;
            s = s\<lparr>as_send_infos := as_send_infos s @ [info]\<rparr>;
            s = app_stop_discovery (s\<lparr>as_files_to_send := []\<rparr>)
        in s\<lparr>as_content_mode := Transfers\<rparr>)"

definition select_files :: "bool \<Rightarrow> path list \<Rightarrow> app_state \<Rightarrow> app_state" where
  "select_files daemon_ok files s =
     (let s = s\<lparr>as_files_to_send := files\<rparr>
      in if files \<noteq> [] then start_discovery daemon_ok (s\<lparr>as_content_mode := Discovering\<rparr>) else s)"

definition cancel_send :: "app_state \<Rightarrow> app_state" where
  "cancel_send s =
     (let s = app_stop_discovery (s\<lparr>as_files_to_send := []\<rparr>)
      in s\<lparr>as_content_mode := (if hm_is_empty (as_transfers s) then Idle else Transfers)\<rparr>)"

definition save_settings :: "settings_env \<Rightarrow> settings \<Rightarrow> app_state \<Rightarrow> app_state" where
  "save_settings E st s = s\<lparr>as_settings := st, as_config := snd (save E st (as_config s))\<rparr>"

definition app_change_visibility :: "settings_env \<Rightarrow> visibility \<Rightarrow> app_state \<Rightarrow> app_state" where
  "app_change_visibility E v s =
     save_settings E ((as_settings s)\<lparr>st_visibility := visibility_num v\<rparr>)
       (s\<lparr>as_rqs := map_option (change_visibility v) (as_rqs s)\<rparr>)"

definition app_set_download_path :: "settings_env \<Rightarrow> path option \<Rightarrow> app_state \<Rightarrow> app_state" where
  "app_set_download_path E path s =
     save_settings E ((as_settings s)\<lparr>st_download_path := path\<rparr>)
       (s\<lparr>as_rqs := map_option (set_download_path path) (as_rqs s)\<rparr>)"

section \<open>The transfers shown\<close>

lemma app_frame [simp]:
  "as_transfers (show_notification n s) = as_transfers s"
  "as_transfers (show_transfers s) = as_transfers s"
  "as_files_to_send (show_notification n s) = as_files_to_send s"
  "as_files_to_send (show_transfers s) = as_files_to_send s"
  "as_content_mode (show_notification n s) = as_content_mode s"
  by (simp_all add: show_notification_def show_transfers_def)

lemma note_metadata_keeps [simp]:
  "ti_id (note_metadata now later meta t) = ti_id t"
  "ti_state (note_metadata now later meta t) = ti_state t"
  "ti_direction (note_metadata now later meta t) = ti_direction t"
  by (simp_all add: note_metadata_def note_progress_def Let_def split: option.split)

lemma note_metadata_ack [simp]:
  "ti_ack_bytes (note_metadata now later meta t) = tm_ack_bytes meta"
  "ti_total_bytes (note_metadata now later meta t) = tm_total_bytes meta"
  by (simp_all add: note_metadata_def note_progress_def Let_def split: option.split)

text \<open>The messages about a transfer, and the item as a function of them alone.\<close>

definition about :: "string \<Rightarrow> (nat \<times> nat \<times> channel_message) list \<Rightarrow> (nat \<times> nat \<times> channel_message) list" where
  "about i msgs = filter (\<lambda>(now, later, m). cm_direction m = LibToFront \<and> cm_id m = i) msgs"

definition follow :: "transfer_item option \<Rightarrow> nat \<times> nat \<times> channel_message \<Rightarrow> transfer_item option" where
  "follow entry m = (case m of (now, later, msg) \<Rightarrow> Some (updated_transfer now later msg entry))"

definition receive_message :: "app_state \<Rightarrow> nat \<times> nat \<times> channel_message \<Rightarrow> app_state" where
  "receive_message s m = (case m of (now, later, msg) \<Rightarrow> handle_channel_message now later msg s)"

lemma lookup_handle_channel_message:
  "hm_lookup (as_transfers (handle_channel_message now later msg s)) i =
    (if cm_direction msg = LibToFront \<and> cm_id msg = i
     then Some (updated_transfer now later msg (hm_lookup (as_transfers s) i))
     else hm_lookup (as_transfers s) i)"
  by (auto simp: handle_channel_message_def Let_def)

lemma lookup_messages:
  "hm_lookup (as_transfers (foldl receive_message s msgs)) i
    = foldl follow (hm_lookup (as_transfers s) i) (about i msgs)"
proof (induction msgs rule: rev_induct)
  case Nil
  then show ?case by (simp add: about_def)
next
  case (snoc m msgs)
  obtain now later msg where m: "m = (now, later, msg)" by (cases m)
  have "foldl receive_message s (msgs @ [m])
      = handle_channel_message now later msg (foldl receive_message s msgs)"
    by (simp add: m receive_message_def)
  moreover have "about i (msgs @ [m]) = (if cm_direction msg = LibToFront \<and> cm_id msg = i
      then about i msgs @ [m] else about i msgs)"
    by (simp add: m about_def)
  ultimately show ?case
    by (simp only: lookup_handle_channel_message snoc.IH)
      (simp add: m follow_def)
qed

lemma updated_transfer_keeps:
  "ti_state (updated_transfer now later msg entry) = state_of msg"
  "ti_id (updated_transfer now later msg entry)
    = (case entry of Some t \<Rightarrow> ti_id t | None \<Rightarrow> cm_id msg)"
  "ti_direction (updated_transfer now later msg entry)
    = (case entry of Some t \<Rightarrow> ti_direction t | None \<Rightarrow> ti_direction (new_transfer (cm_id msg) (cm_rtype msg)))"
  by (auto simp: updated_transfer_def new_transfer_def Let_def split: option.split)

lemma follow_about:
  assumes "ms \<noteq> []" and "\<forall>m \<in> set ms. cm_id (snd (snd m)) = i"
  shows "\<exists>t. foldl follow None ms = Some t \<and> ti_id t = i
    \<and> ti_state t = state_of (snd (snd (last ms)))
    \<and> ti_direction t = ti_direction (new_transfer i (cm_rtype (snd (snd (hd ms)))))"
  using assms
proof (induction ms rule: rev_induct)
  case (snoc m ms)
  then show ?case
    by (cases "ms = []"; cases m) (auto simp: follow_def updated_transfer_keeps)
qed simp

text \<open>
  C30. The window follows the library: whatever other messages are mixed in, a transfer that was
  not shown before is shown exactly if a message about it came, under its own id, with the state
  of the last such message. It is an outgoing one exactly if the first such message said so; a
  message without a direction counts as incoming, one without a state as \<open>Initial\<close>.
\<close>

theorem window_follows_library:
  assumes "hm_lookup (as_transfers s) i = None" and "about i msgs = ms"
  shows "case hm_lookup (as_transfers (foldl receive_message s msgs)) i of
      None \<Rightarrow> ms = []
    | Some t \<Rightarrow> ms \<noteq> [] \<and> ti_id t = i
        \<and> ti_state t = or_default Initial (cm_state (snd (snd (last ms))))
        \<and> (ti_direction t = Outbound \<longleftrightarrow> cm_rtype (snd (snd (hd ms))) = Some Outbound)
        \<and> (ti_direction t = Inbound \<longleftrightarrow> cm_rtype (snd (snd (hd ms))) \<noteq> Some Outbound)"
proof (cases "ms = []")
  case True
  then show ?thesis using assms by (simp add: lookup_messages)
next
  case False
  have "\<forall>m \<in> set ms. cm_id (snd (snd m)) = i"
    using assms(2) by (auto simp: about_def)
  from follow_about [OF False this] obtain t where t: "foldl follow None ms = Some t" "ti_id t = i"
      "ti_state t = state_of (snd (snd (last ms)))"
      "ti_direction t = ti_direction (new_transfer i (cm_rtype (snd (snd (hd ms)))))" by blast
  have "ti_direction t = Outbound \<longleftrightarrow> cm_rtype (snd (snd (hd ms))) = Some Outbound"
    "ti_direction t = Inbound \<longleftrightarrow> cm_rtype (snd (snd (hd ms))) \<noteq> Some Outbound"
    unfolding t(4) by (simp_all add: new_transfer_def split: option.split transfer_type.split)
  then show ?thesis
    using False t(1-3) assms by (simp add: lookup_messages state_of_def or_default_def)
qed

text \<open>
  Sending to a device found by discovery asks the TCP server for a connection to the very
  address that was probed, under the id of the device, with the files that were selected; after
  that nothing is left to send and no device is shown.
\<close>

theorem send_goes_to_probed_address:
  assumes "as_files_to_send s = files" and "files \<noteq> []" and "as_sender_file s"
    and "list_all (\<lambda>p. utf8_valid (as_bytes p)) files"
    and "s' = send_to_device (reachable_endpoint n ip port dt dn) s"
  shows "as_send_infos s' = as_send_infos s @
      [\<lparr>snd_id = ip_port ip port, snd_name = dn, snd_addr = ip_port ip port, snd_files = files\<rparr>]
    \<and> as_files_to_send s' = [] \<and> as_discovered_devices s' = [] \<and> as_content_mode s' = Transfers"
  using assms
  by (auto simp: send_to_device_def reachable_endpoint_def or_default_def ip_port_def
      app_stop_discovery_def Let_def list_all_iff filter_id_conv)

end
