(* ===== verification/Views.thy ===== *)
theory Views
  imports AppState
begin

text \<open>
  The window of \<open>views/\<close>: which buttons it offers in a state of the application, and what they
  do. Layout, colours and texts that no operation depends on are left out, apart from the status
  line of a transfer. The file and folder dialogs are asynchronous: a button opens one, and its
  answer comes later, in whatever state the window is then.
\<close>

section \<open>What a transfer shows\<close>

definition state_name :: "conn_state \<Rightarrow> string" where
  "state_name st = (case st of
     Initial \<Rightarrow> ''Initial''
   | ReceivedConnectionRequest \<Rightarrow> ''ReceivedConnectionRequest''
   | SentUkeyServerInit \<Rightarrow> ''SentUkeyServerInit''
   | SentUkeyClientInit \<Rightarrow> ''SentUkeyClientInit''
   | SentUkeyClientFinish \<Rightarrow> ''SentUkeyClientFinish''
   | SentPairedKeyEncryption \<Rightarrow> ''SentPairedKeyEncryption''
   | ReceivedUkeyClientFinish \<Rightarrow> ''ReceivedUkeyClientFinish''
   | SentConnectionResponse \<Rightarrow> ''SentConnectionResponse''
   | SentPairedKeyResult \<Rightarrow> ''SentPairedKeyResult''
   | SentIntroduction \<Rightarrow> ''SentIntroduction''
   | ReceivedPairedKeyResult \<Rightarrow> ''ReceivedPairedKeyResult''
   | WaitingForUserConsent \<Rightarrow> ''WaitingForUserConsent''
   | ReceivingFiles \<Rightarrow> ''ReceivingFiles''
   | SendingFiles \<Rightarrow> ''SendingFiles''
   | Disconnected \<Rightarrow> ''Disconnected''
   | Rejected \<Rightarrow> ''Rejected''
   | Cancelled \<Rightarrow> ''Cancelled''
   | Finished \<Rightarrow> ''Finished'')"

definition shown_name :: "transfer_item \<Rightarrow> string" where
  "shown_name t = (if ti_device_name t = [] then ''Unknown'' else ti_device_name t)"

definition status_text :: "transfer_item \<Rightarrow> string" where
  "status_text t = (case ti_state t of
     WaitingForUserConsent \<Rightarrow> ''Waiting for approval''
   | SendingFiles \<Rightarrow> ''Sending...''
   | ReceivingFiles \<Rightarrow> ''Receiving...''
   | Finished \<Rightarrow> ''Completed''
   | Cancelled \<Rightarrow> ''Cancelled''
   | Rejected \<Rightarrow> ''Rejected''
   | Disconnected \<Rightarrow> ''Disconnected''
   | st \<Rightarrow> state_name st)"

section \<open>Buttons\<close>

datatype control =
    SelectFiles
  | Device endpoint_info
  | Accept string
  | Reject string
  | CancelButton string
  | Clear string
  | Open string
  | ChooseVisibility visibility
  | CancelSend
  | ToggleSettings
  | CloseSettings
  | SetAutostart bool
  | SetRealclose bool
  | SetStartminimized bool
  | ChangeDownloadPath

text \<open>\<open>render_consent\<close>, \<open>render_progress\<close>, \<open>render_finished\<close> and
  \<open>render_terminal\<close>\<close>

definition item_controls :: "transfer_item \<Rightarrow> control list" where
  "item_controls t =
     (case ti_state t of
        WaitingForUserConsent \<Rightarrow> [Accept (ti_id t), Reject (ti_id t)]
      | SendingFiles \<Rightarrow> [CancelButton (ti_id t)]
      | ReceivingFiles \<Rightarrow> [CancelButton (ti_id t)]
      | Finished \<Rightarrow> (case ti_destination t of None \<Rightarrow> [] | Some dest \<Rightarrow> [Open dest]) @ [Clear (ti_id t)]
      | _ \<Rightarrow> [Clear (ti_id t)])"

definition transfers_controls :: "app_state \<Rightarrow> control list" where
  "transfers_controls s = concat (map (\<lambda>t. item_controls (snd t)) (as_transfers s))"

definition content_controls :: "app_state \<Rightarrow> control list" where
  "content_controls s =
     (case as_content_mode s of
        Idle \<Rightarrow> [SelectFiles]
      | Discovering \<Rightarrow> map (\<lambda>d. Device (snd d)) (as_discovered_devices s) @ transfers_controls s
      | Transfers \<Rightarrow> transfers_controls s)"

definition sidebar_controls :: "app_state \<Rightarrow> control list" where
  "sidebar_controls s =
     (if as_files_to_send s = [] then map ChooseVisibility [Visible, Invisible, Temporarily]
      else [CancelSend])"

definition settings_controls :: "app_state \<Rightarrow> control list" where
  "settings_controls s =
     (if as_show_settings s then
        [CloseSettings, SetAutostart (\<not> st_autostart (as_settings s)),
         SetRealclose (\<not> st_realclose (as_settings s)),
         SetStartminimized (\<not> st_startminimized (as_settings s)), ChangeDownloadPath]
      else [])"

definition controls :: "app_state \<Rightarrow> control list" where
  "controls s = ToggleSettings # sidebar_controls s @ content_controls s @ settings_controls s"

section \<open>The window\<close>

record window =
  wi_app :: app_state
  wi_file_dialogs :: nat
  wi_folder_dialogs :: nat

definition on_app :: "(app_state \<Rightarrow> app_state) \<Rightarrow> window \<Rightarrow> window" where
  "on_app f w = w\<lparr>wi_app := f (wi_app w)\<rparr>"

definition press :: "settings_env \<Rightarrow> control \<Rightarrow> window \<Rightarrow> window" where
  "press E c w =
     (case c of
        SelectFiles \<Rightarrow> w\<lparr>wi_file_dialogs := wi_file_dialogs w + 1\<rparr>
      | Device d \<Rightarrow> on_app (send_to_device d) w
      | Accept i \<Rightarrow> on_app (send_action i AcceptTransfer) w
      | Reject i \<Rightarrow> on_app (send_action i RejectTransfer) w
      | CancelButton i \<Rightarrow> on_app (send_action i CancelTransfer) w
      | Clear i \<Rightarrow> on_app (clear_transfer i) w
      | Open dest \<Rightarrow> w
      | ChooseVisibility v \<Rightarrow> on_app (app_change_visibility E v) w
      | CancelSend \<Rightarrow> on_app cancel_send w
      | ToggleSettings \<Rightarrow> on_app (\<lambda>s. s\<lparr>as_show_settings := \<not> as_show_settings s\<rparr>) w
      | CloseSettings \<Rightarrow> on_app (\<lambda>s. s\<lparr>as_show_settings := False\<rparr>) w
      | SetAutostart b \<Rightarrow>
          on_app (\<lambda>s. save_settings E ((as_settings s)\<lparr>st_autostart := b\<rparr>) s) w
      | SetRealclose b \<Rightarrow>
          on_app (\<lambda>s. save_settings E ((as_settings s)\<lparr>st_realclose := b\<rparr>) s) w
      | SetStartminimized b \<Rightarrow>
          on_app (\<lambda>s. save_settings E ((as_settings s)\<lparr>st_startminimized := b\<rparr>) s) w
      | ChangeDownloadPath \<Rightarrow> w\<lparr>wi_folder_dialogs := wi_folder_dialogs w + 1\<rparr>)"

text \<open>The answer of a dialog; a dialog that is left gives \<open>None\<close>, others at least one file.\<close>

definition files_picked :: "bool \<Rightarrow> path list option \<Rightarrow> window \<Rightarrow> window" where
  "files_picked daemon_ok answer w =
     (let w = w\<lparr>wi_file_dialogs := wi_file_dialogs w - 1\<rparr> in
      case answer of None \<Rightarrow> w | Some paths \<Rightarrow> on_app (select_files daemon_ok paths) w)"

definition folder_picked :: "settings_env \<Rightarrow> path option \<Rightarrow> window \<Rightarrow> window" where
  "folder_picked E answer w =
     (let w = w\<lparr>wi_folder_dialogs := wi_folder_dialogs w - 1\<rparr> in
      case answer of None \<Rightarrow> w | Some p \<Rightarrow> on_app (app_set_download_path E (Some p)) w)"

text \<open>What the user can do, and what else can happen to the window.\<close>

inductive user_step :: "settings_env \<Rightarrow> window \<Rightarrow> window \<Rightarrow> bool" for E where
  pressed: "c \<in> set (controls (wi_app w)) \<Longrightarrow> user_step E w (press E c w)"
| files: "0 < wi_file_dialogs w \<Longrightarrow> answer \<noteq> Some [] \<Longrightarrow> user_step E w (files_picked ok answer w)"
| folder: "0 < wi_folder_dialogs w \<Longrightarrow> user_step E w (folder_picked E answer w)"

inductive window_step :: "settings_env \<Rightarrow> window \<Rightarrow> window \<Rightarrow> bool" for E where
  user: "user_step E w w' \<Longrightarrow> window_step E w w'"
| message: "window_step E w (on_app (handle_channel_message now later msg) w)"
| endpoint: "window_step E w (on_app (handle_endpoint_info info) w)"

inductive_cases user_stepE: "user_step E w w'"
inductive_cases window_stepE: "window_step E w w'"

section \<open>The mode of the window\<close>

definition mode_ok :: "app_state \<Rightarrow> bool" where
  "mode_ok s \<longleftrightarrow> (as_content_mode s = Discovering \<longleftrightarrow> as_files_to_send s \<noteq> [])"

lemmas app_defs = send_action_def clear_transfer_def app_stop_discovery_def send_to_device_def
  select_files_def start_discovery_def cancel_send_def save_settings_def app_change_visibility_def
  app_set_download_path_def handle_endpoint_info_def

lemma mode_ok_messages:
  "mode_ok s \<Longrightarrow> mode_ok (handle_channel_message now later msg s)"
  "mode_ok s \<Longrightarrow> mode_ok (handle_endpoint_info info s)"
  by (auto simp: mode_ok_def handle_channel_message_def handle_endpoint_info_def show_transfers_def
      show_notification_def Let_def)

lemma mode_ok_press: "mode_ok (wi_app w) \<Longrightarrow> mode_ok (wi_app (press E c w))"
  by (cases c) (auto simp: press_def on_app_def mode_ok_def app_defs Let_def)

lemma mode_ok_picked:
  "mode_ok (wi_app w) \<Longrightarrow> answer \<noteq> Some [] \<Longrightarrow> mode_ok (wi_app (files_picked ok answer w))"
  "mode_ok (wi_app w) \<Longrightarrow> mode_ok (wi_app (folder_picked E folder w))"
  by (auto simp: files_picked_def folder_picked_def on_app_def mode_ok_def app_defs Let_def
      split: option.split)

lemma mode_ok_user: "user_step E w w' \<Longrightarrow> mode_ok (wi_app w) \<Longrightarrow> mode_ok (wi_app w')"
  by (erule user_stepE) (simp_all add: mode_ok_press mode_ok_picked)

lemma mode_ok_window: "window_step E w w' \<Longrightarrow> mode_ok (wi_app w) \<Longrightarrow> mode_ok (wi_app w')"
  by (erule window_stepE) (auto simp: mode_ok_user mode_ok_messages on_app_def)

lemma cancel_send_offered: "CancelSend \<in> set (controls s) \<longleftrightarrow> as_files_to_send s \<noteq> []"
proof -
  have "CancelSend \<notin> set (item_controls t)" for t
    by (auto simp: item_controls_def split: conn_state.splits option.splits)
  then show ?thesis
    by (auto simp: controls_def sidebar_controls_def content_controls_def
        transfers_controls_def settings_controls_def split: content_mode.splits)
qed

lemma device_offered: "Device d \<in> set (controls s) \<Longrightarrow> as_content_mode s = Discovering"
proof -
  have "Device d \<notin> set (item_controls t)" for t
    by (auto simp: item_controls_def split: conn_state.splits option.splits)
  then show "Device d \<in> set (controls s) \<Longrightarrow> as_content_mode s = Discovering"
    by (auto simp: controls_def sidebar_controls_def content_controls_def
        transfers_controls_def settings_controls_def split: content_mode.splits if_splits)
qed

section \<open>A window without a way back\<close>

definition stranded :: "window \<Rightarrow> bool" where
  "stranded w \<longleftrightarrow> as_content_mode (wi_app w) = Transfers \<and> as_transfers (wi_app w) = []
     \<and> as_files_to_send (wi_app w) = [] \<and> wi_file_dialogs w = 0"

lemma stranded_controls:
  "stranded w \<Longrightarrow> c \<in> set (controls (wi_app w)) \<Longrightarrow>
    c \<in> range ChooseVisibility \<union> {ToggleSettings, CloseSettings, ChangeDownloadPath}
      \<union> range SetAutostart \<union> range SetRealclose \<union> range SetStartminimized"
  by (auto simp: stranded_def controls_def sidebar_controls_def content_controls_def
      transfers_controls_def settings_controls_def)

lemma stranded_user:
  assumes "stranded w" and "user_step E w w'"
  shows "stranded w'"
  using assms(2)
proof (rule user_stepE)
  fix c
  assume "w' = press E c w" and "c \<in> set (controls (wi_app w))"
  with stranded_controls [OF assms(1), of c] assms(1) show ?thesis
    by (auto simp: press_def on_app_def stranded_def app_defs)
qed (use assms(1) in \<open>auto simp: stranded_def folder_picked_def on_app_def app_defs Let_def split: option.split\<close>)

text \<open>
  Sending to a device when no transfer is shown leaves the window without a way to send
  again until the library reports something: it is in the mode that shows transfers, there is
  none to clear, and whatever the user does, the button that selects files stays away. A
  connection that fails before its first message is not reported at all.
\<close>

theorem no_way_back_after_silent_send:
  assumes "as_transfers s = []" and "as_files_to_send s \<noteq> []" and "as_sender_file s"
    and "(user_step E)\<^sup>*\<^sup>* \<lparr>wi_app = send_to_device d s, wi_file_dialogs = 0, wi_folder_dialogs = k\<rparr> w"
  shows "SelectFiles \<notin> set (controls (wi_app w)) \<and> as_content_mode (wi_app w) = Transfers"
proof -
  from assms(4) have "stranded w"
  proof (induction rule: rtranclp_induct)
    case base
    show ?case using assms(1-3) by (simp add: stranded_def app_defs Let_def)
  next
    case (step v w)
    show ?case using stranded_user [OF step.IH step.hyps(2)] .
  qed
  then show ?thesis using stranded_controls [of w SelectFiles] by (auto simp: stranded_def)
qed

end
