(* ===== verification/FrontEnd.thy ===== *)
theory FrontEnd
  imports Views InboundSafety
begin

text \<open>
  The library and the window together: an announcement of files reaches the user as an item with
  the right buttons, and the button that accepts it makes the connection it belongs to accept.
\<close>

definition item_of_introduction ::
  "env \<Rightarrow> inbound \<Rightarrow> file_metadata list \<Rightarrow> transfer_item \<Rightarrow> bool" where
  "item_of_introduction X r files t \<longleftrightarrow> ti_direction t = Inbound
     \<and> ti_state t = WaitingForUserConsent
     \<and> ti_files t = map file_name_of files
     \<and> ti_total_bytes t = sum_list (map file_size files)
     \<and> ti_destination t = Some (get_download_dir X (rq_custom_download r))
     \<and> (\<forall>pin. is_pin_code (rq_st r) = Some pin \<longrightarrow> ti_pin_code t = Some pin)
     \<and> (\<forall>src. is_remote_device_info (rq_st r) = Some src \<longrightarrow> ti_device_name t = rdi_name src)"

lemma item_of_new:
  assumes "is_transfer_metadata st = file_transfer_metadata X r (map file_name_of files)
      (sum_list (map file_size files))" and "is_transfer_metadata st \<noteq> None" and "is_state st = WaitingForUserConsent"
  shows "item_of_introduction X r files (updated_transfer now later (state_message Inbound st) None)"
proof -
  have p: "utf8_valid (as_bytes (get_download_dir X (rq_custom_download r)))"
    using assms(1,2) by (auto simp: file_transfer_metadata_def path_into_string_eq split: if_splits)
  show ?thesis
    using metadata_printable [OF p, of "map file_name_of files" "sum_list (map file_size files)"]
    by (simp add: item_of_introduction_def updated_transfer_def new_transfer_def note_metadata_def
        note_progress_def state_message_def cm_default_def state_of_def assms(1,3)
        tm_default_def Let_def split: option.split)
qed

text \<open>
  C14. Asking the user: the message that an announcement of files sends to the front end, on a
  connection not shown yet, makes the window show an item with the names, the size, the PIN code
  and the sender of this announcement, offer to accept or reject it, and raise a notification.
  The message that the accept button sends makes \<open>handle\<close> accept on the connection with that id,
  and is ignored by any other.
\<close>

theorem announcement_asks_user:
  assumes "sv_introduction v = Some intro" and "in_files intro \<noteq> []" and "in_texts intro = []"
    and "\<forall>f \<in> set (in_files intro). destination_of X r f \<noteq> None"
    and "process_introduction X v r = (Done (), t)"
    and "hm_lookup (as_transfers s) (is_id (rq_st t)) = None" and "as_message_sender s"
    and "s' = handle_channel_message now later (last (rq_chan t)) s"
  shows "\<exists>item accept. hm_lookup (as_transfers s') (is_id (rq_st t)) = Some item
    \<and> item_of_introduction X r (in_files intro) item
    \<and> item_controls item = [Accept (is_id (rq_st t)), Reject (is_id (rq_st t))]
    \<and> as_notified s' = as_notified s @ [notify_incoming_transfer (ti_device_name item) (ti_files item)]
    \<and> as_sent (send_action (is_id (rq_st t)) AcceptTransfer s') = as_sent s @ [accept]
    \<and> handle X (OnChannel 0 (RecvOk accept)) t = accept_transfer X t
    \<and> (is_id (rq_st q) \<noteq> is_id (rq_st t) \<longrightarrow> handle X (OnChannel 0 (RecvOk accept)) q = (Done (), q))"
proof -
  let ?i = "is_id (rq_st t)" and ?msg = "state_message Inbound (rq_st t)"
  let ?item = "updated_transfer now later ?msg None"
  let ?accept = "\<lparr>cm_id = ?i, cm_direction = FrontToLib, cm_action = Some AcceptTransfer,
    cm_rtype = None, cm_state = None, cm_meta = None\<rparr>"
  obtain st: "conn t = WaitingForUserConsent"
    and meta: "is_transfer_metadata (rq_st t) = file_transfer_metadata X r
        (map file_name_of (in_files intro)) (sum_list (map file_size (in_files intro)))"
    and msg: "last (rq_chan t) = ?msg"
    using introduction_runs [OF assms(1-4) introduction_printable [OF assms(1-5)]] assms(5) by auto
  have "is_transfer_metadata (rq_st t) \<noteq> None"
    using meta introduction_printable [OF assms(1-5)] by (simp add: file_transfer_metadata_def path_into_string_eq)
  have m: "cm_direction ?msg = LibToFront" "cm_id ?msg = ?i" "state_of ?msg = WaitingForUserConsent"
    using st by (simp_all add: state_message_def cm_default_def state_of_def conn_def)
  have item: "item_of_introduction X r (in_files intro) ?item"
    using meta \<open>is_transfer_metadata (rq_st t) \<noteq> None\<close> st by (intro item_of_new) (simp_all add: conn_def)
  then have "ti_state ?item = WaitingForUserConsent"
    by (simp add: item_of_introduction_def)
  moreover have "ti_id ?item = ?i" by (simp add: updated_transfer_keeps m)
  ultimately have "item_controls ?item = [Accept ?i, Reject ?i]"
    by (simp add: item_controls_def)
  moreover have "hm_lookup (as_transfers s') ?i = Some ?item"
    using assms(6,8) m by (simp add: msg lookup_handle_channel_message)
  moreover have "as_notified s' = as_notified s @ [notify_incoming_transfer (ti_device_name ?item) (ti_files ?item)]"
    and "as_sent s' = as_sent s" and "as_message_sender s' = as_message_sender s"
    using assms(6,8) m
    by (simp_all add: msg handle_channel_message_def show_transfers_def show_notification_def Let_def)
  moreover have "as_sent (send_action ?i AcceptTransfer s') = as_sent s' @ [?accept]"
    using assms(7) \<open>as_message_sender s' = as_message_sender s\<close> by (simp add: send_action_def)
  moreover have "handle X (OnChannel 0 (RecvOk ?accept)) t = accept_transfer X t"
    and "is_id (rq_st q) \<noteq> ?i \<longrightarrow> handle X (OnChannel 0 (RecvOk ?accept)) q = (Done (), q)"
    by (simp_all add: handle_def drop_partial_length_def handle_action_def exec)
  ultimately show ?thesis using item by (intro exI [of _ ?item] exI [of _ ?accept]) simp
qed

end
