(* ===== verification/Ble.thy ===== *)
theory Ble
  imports MdnsServer
begin

text \<open>
  The experimental Bluetooth tasks: \<open>hdl/ble.rs\<close>, which notices that a device nearby is
  sharing, and \<open>hdl/blea.rs\<close>, which advertises this one while it is visible. The adapters of
  \<open>btleplug\<close> and \<open>bluer\<close> answer with each event.
\<close>

section \<open>The listener\<close>

text \<open>
  Times are nanoseconds since the epoch as \<open>SystemTime::now\<close> reads them; the clock can be set
  back. An advertisement says whether its service data has the UUID of the sharing service.
\<close>

datatype ble_event =
    BleCancelled
  | ServiceData bool int bool     \<comment> \<open>has the UUID, the time, and whether \<open>send\<close> has a receiver\<close>
  | OtherBleEvent

record ble =
  bl_last_alert :: int
  bl_alerts :: "int list"         \<comment> \<open>the times at which an alert was sent\<close>

definition alert_gap :: int where "alert_gap = 30 * 10 ^ 9"

definition service_data :: "bool \<Rightarrow> int \<Rightarrow> bool \<Rightarrow> ble \<Rightarrow> loop_step \<times> ble" where
  "service_data has_uuid now receiver b =
     (if \<not> has_uuid then (Continues, b)
      else if now < bl_last_alert b then (Errs, b)
      else if now - bl_last_alert b \<le> alert_gap then (Continues, b)
      else if \<not> receiver then (Errs, b)
      else (Continues, b\<lparr>bl_alerts := bl_alerts b @ [now], bl_last_alert := now\<rparr>))"

fun ble_loop :: "ble_event list \<Rightarrow> ble \<Rightarrow> loop_step \<times> ble" where
  "ble_loop [] b = (Continues, b)"
| "ble_loop (BleCancelled # evs) b = (Breaks, b)"
| "ble_loop (OtherBleEvent # evs) b = ble_loop evs b"
| "ble_loop (ServiceData has_uuid now receiver # evs) b =
     (case service_data has_uuid now receiver b of
        (Continues, b') \<Rightarrow> ble_loop evs b'
      | r \<Rightarrow> r)"

text \<open>\<open>new\<close> takes the first adapter of the Bluetooth manager, if there is a manager and one adapter.\<close>

definition ble_listener_new :: "bool \<Rightarrow> 'a list option \<Rightarrow> 'a outcome" where
  "ble_listener_new manager_ok adapters =
     (if \<not> manager_ok then Fail IoError
      else case adapters of
        None \<Rightarrow> Fail IoError
      | Some [] \<Rightarrow> Fail (Error ''no bluetooth adapter'')
      | Some (adapter # _) \<Rightarrow> Done adapter)"

text \<open>\<open>run\<close>: the events of the adapter, or starting the scan, may fail.\<close>

definition ble_run :: "bool \<Rightarrow> bool \<Rightarrow> ble_event list \<Rightarrow> loop_step \<times> ble" where
  "ble_run events_ok scan_ok evs =
     (let b = \<lparr>bl_last_alert = 0, bl_alerts = []\<rparr> in
      if \<not> events_ok then (Errs, b) else if \<not> scan_ok then (Errs, b) else ble_loop evs b)"

definition spaced :: "ble \<Rightarrow> bool" where
  "spaced b \<longleftrightarrow> successively (\<lambda>s t. s + alert_gap < t) (0 # bl_alerts b)
     \<and> bl_last_alert b = last (0 # bl_alerts b)"

lemma service_data_spaced:
  "spaced b \<Longrightarrow> spaced (snd (service_data has_uuid now receiver b))"
  by (auto simp: service_data_def spaced_def successively_append_iff simp flip: append_Cons
      split: if_splits)

lemma ble_loop_spaced: "spaced b \<Longrightarrow> spaced (snd (ble_loop evs b))"
proof (induction evs b rule: ble_loop.induct)
  case (4 has_uuid now receiver evs b)
  obtain r b' where r: "service_data has_uuid now receiver b = (r, b')" by fastforce
  with service_data_spaced [OF "4.prems", of has_uuid now receiver] have "spaced b'" by simp
  with r "4.IH" show ?case by (cases r) simp_all
qed simp_all

text \<open>
  The listener does not spam: any two alerts in a row are more than 30 seconds apart,
  whatever the adapter reports and however the clock is set.
\<close>

theorem alerts_spaced:
  "successively (\<lambda>s t. s + alert_gap < t) (bl_alerts (snd (ble_run events_ok scan_ok evs)))"
proof -
  have "spaced \<lparr>bl_last_alert = 0, bl_alerts = []\<rparr>" by (simp add: spaced_def)
  then have "spaced (snd (ble_run events_ok scan_ok evs))"
    using ble_loop_spaced by (simp add: ble_run_def Let_def)
  then show ?thesis
    by (cases "bl_alerts (snd (ble_run events_ok scan_ok evs))") (simp_all add: spaced_def)
qed

text \<open>
  A clock that was set back ends the listener: the first sharing device seen after an alert
  in what is now the future makes \<open>duration_since\<close> fail, and the error leaves the loop.
\<close>

theorem clock_set_back_ends_listener:
  assumes "ble_loop evs \<lparr>bl_last_alert = 0, bl_alerts = []\<rparr> = (Continues, b)"
    and "now < bl_last_alert b"
  shows "ble_loop (evs @ ServiceData True now receiver # later)
    \<lparr>bl_last_alert = 0, bl_alerts = []\<rparr> = (Errs, b)"
proof -
  have "ble_loop (evs @ rest) b0 = ble_loop rest b" if "ble_loop evs b0 = (Continues, b)" for evs rest b0
    using that
    by (induction evs b0 rule: ble_loop.induct) (auto split: prod.splits loop_step.splits)
  from this [OF assms(1)] assms(2) show ?thesis by (simp add: service_data_def)
qed

section \<open>The advertiser\<close>

definition fast_init_header :: bytes where
  "fast_init_header = [0xFC, 0x12, 0x8E, 0x01, 0x42, 0, 0, 0, 0, 0, 0, 0, 0, 0]"

definition version_pcp :: byte where "version_pcp = push_bit 5 1 OR 2"

record advertisement =
  ad_uuid :: "16 word"
  ad_data :: bytes

definition build_fast_init_advertisement :: "env \<Rightarrow> nat \<Rightarrow> 16 word \<Rightarrow> advertisement" where
  "build_fast_init_advertisement X k service_uuid =
     \<lparr>ad_uuid = service_uuid, ad_data = fast_init_header @ os_rand X k 10\<rparr>"

definition build_nearby_conn_advertisement ::
  "env \<Rightarrow> nat \<Rightarrow> 16 word \<Rightarrow> bytes \<Rightarrow> advertisement" where
  "build_nearby_conn_advertisement X k service_uuid endpoint_id =
     \<lparr>ad_uuid = service_uuid, ad_data = [version_pcp] @ endpoint_id @ [17]
        @ [push_bit 1 (device_num DevLaptop)] @ os_rand X k 16\<rparr>"

text \<open>The task, the visibility it watches, the two running advertisements, the draws made.\<close>

record blea =
  ba_endpoint_id :: bytes
  ba_visibility :: visibility
  ba_seen :: nat
  ba_channel :: watch
  ba_fast_init :: "advertisement option"
  ba_nearby_conn :: "advertisement option"
  ba_draws :: nat

text \<open>\<open>advertise(..).await?\<close>, and the one whose error is only logged.\<close>

definition advertise_fast_init :: "env \<Rightarrow> bool \<Rightarrow> blea \<Rightarrow> loop_step \<times> blea" where
  "advertise_fast_init X ok b =
     (let ad = build_fast_init_advertisement X (ba_draws b) 0xFE2C;
          b = b\<lparr>ba_draws := ba_draws b + 1\<rparr>
      in if ok then (Continues, b\<lparr>ba_fast_init := Some ad\<rparr>) else (Errs, b))"

definition advertise_nearby_conn :: "env \<Rightarrow> bool \<Rightarrow> blea \<Rightarrow> blea" where
  "advertise_nearby_conn X ok b =
     (let ad = build_nearby_conn_advertisement X (ba_draws b) 0xFEF3 (ba_endpoint_id b);
          b = b\<lparr>ba_draws := ba_draws b + 1\<rparr>
      in if ok then b\<lparr>ba_nearby_conn := Some ad\<rparr> else b)"

definition bl_then :: "loop_step \<times> blea \<Rightarrow> (blea \<Rightarrow> blea) \<Rightarrow> loop_step \<times> blea" where
  "bl_then r f = (case r of (Continues, b) \<Rightarrow> (Continues, f b) | _ \<Rightarrow> r)"

definition blea_start :: "env \<Rightarrow> bytes \<Rightarrow> nat \<Rightarrow> watch \<Rightarrow> bool \<Rightarrow> bool \<Rightarrow> loop_step \<times> blea" where
  "blea_start X endpoint_id seen channel fast_ok nearby_ok =
     (let b = \<lparr>ba_endpoint_id = endpoint_id, ba_visibility = wt_value channel, ba_seen = seen,
        ba_channel = channel, ba_fast_init = None, ba_nearby_conn = None, ba_draws = 0\<rparr>
      in if ba_visibility b = Visible \<or> ba_visibility b = Temporarily
         then bl_then (advertise_fast_init X fast_ok b) (advertise_nearby_conn X nearby_ok)
         else (Continues, b))"

datatype blea_event =
    BleSetVisibility visibility      \<comment> \<open>the rest of the program\<close>
  | BleChanged bool bool             \<comment> \<open>whether the adapter takes the two advertisements\<close>
  | BleRotate bool bool

definition ble_changed :: "env \<Rightarrow> bool \<Rightarrow> bool \<Rightarrow> blea \<Rightarrow> loop_step \<times> blea" where
  "ble_changed X fast_ok nearby_ok b0 =
     (let b = b0\<lparr>ba_visibility := wt_value (ba_channel b0), ba_seen := wt_version (ba_channel b0)\<rparr>
      in case ba_visibility b of
           Invisible \<Rightarrow> (Continues, b\<lparr>ba_fast_init := None, ba_nearby_conn := None\<rparr>)
         | _ \<Rightarrow> bl_then
             (if ba_fast_init b = None then advertise_fast_init X fast_ok b else (Continues, b))
             (\<lambda>b. if ba_nearby_conn b = None then advertise_nearby_conn X nearby_ok b else b))"

definition ble_rotate :: "env \<Rightarrow> bool \<Rightarrow> bool \<Rightarrow> blea \<Rightarrow> loop_step \<times> blea" where
  "ble_rotate X fast_ok nearby_ok b =
     bl_then
       (if ba_fast_init b \<noteq> None then advertise_fast_init X fast_ok (b\<lparr>ba_fast_init := None\<rparr>)
        else (Continues, b))
       (\<lambda>b. if ba_nearby_conn b \<noteq> None
            then advertise_nearby_conn X nearby_ok (b\<lparr>ba_nearby_conn := None\<rparr>) else b)"

definition blea_step :: "env \<Rightarrow> blea_event \<Rightarrow> blea \<Rightarrow> loop_step \<times> blea" where
  "blea_step X ev b =
     (case ev of
        BleSetVisibility v \<Rightarrow> (Continues, b\<lparr>ba_channel := watch_send v (ba_channel b)\<rparr>)
      | BleChanged fast_ok nearby_ok \<Rightarrow> ble_changed X fast_ok nearby_ok b
      | BleRotate fast_ok nearby_ok \<Rightarrow> ble_rotate X fast_ok nearby_ok b)"

text \<open>
  \<open>new\<close> opens the default adapter and switches it on. \<open>run\<close> asks it for its address, starts, and
  serves the events until the token is cancelled; however it ends, the two handles are dropped and
  with them what they advertise.
\<close>

definition blea_new :: "bool \<Rightarrow> 'a option \<Rightarrow> bool \<Rightarrow> bytes \<Rightarrow> ('a \<times> bytes) outcome" where
  "blea_new session_ok default_adapter powered endpoint_id =
     (if \<not> session_ok then Fail IoError
      else case default_adapter of
        None \<Rightarrow> Fail IoError
      | Some adapter \<Rightarrow> if powered then Done (adapter, endpoint_id) else Fail IoError)"

fun blea_loop :: "env \<Rightarrow> blea_event list \<Rightarrow> blea \<Rightarrow> loop_step \<times> blea" where
  "blea_loop X [] b = (Breaks, b)"
| "blea_loop X (ev # evs) b =
     (case blea_step X ev b of (Continues, b') \<Rightarrow> blea_loop X evs b' | r \<Rightarrow> r)"

definition blea_drop :: "blea \<Rightarrow> blea" where
  "blea_drop b = b\<lparr>ba_fast_init := None, ba_nearby_conn := None\<rparr>"

definition blea_run ::
  "env \<Rightarrow> bool \<Rightarrow> bytes \<Rightarrow> nat \<Rightarrow> watch \<Rightarrow> bool \<Rightarrow> bool \<Rightarrow> blea_event list \<Rightarrow> (loop_step \<times> blea) option" where
  "blea_run X address_ok endpoint_id seen channel fast_ok nearby_ok evs =
     (if \<not> address_ok then None
      else Some (case blea_start X endpoint_id seen channel fast_ok nearby_ok of
          (Continues, b) \<Rightarrow> map_prod id blea_drop (blea_loop X evs b)
        | r \<Rightarrow> map_prod id blea_drop r))"

text \<open>A running advertiser; \<open>changed\<close> returns only when there is a new version.\<close>

inductive advertising :: "env \<Rightarrow> blea \<Rightarrow> bool" for X where
  begun: "seen \<le> wt_version channel \<Longrightarrow> length endpoint_id = 4
    \<Longrightarrow> blea_start X endpoint_id seen channel f n = (Continues, b) \<Longrightarrow> advertising X b"
| step: "advertising X b \<Longrightarrow> (\<And>f n. ev = BleChanged f n \<Longrightarrow> ba_seen b \<noteq> wt_version (ba_channel b))
    \<Longrightarrow> blea_step X ev b = (Continues, b') \<Longrightarrow> advertising X b'"

lemmas ble_defs = blea_step_def ble_changed_def ble_rotate_def bl_then_def advertise_fast_init_def
  advertise_nearby_conn_def build_fast_init_advertisement_def build_nearby_conn_advertisement_def
  watch_send_def

text \<open>
  What is advertised: as the visibility the task knows says, and the payloads have the sizes
  that the specification of the advertisement asks for.
\<close>

definition ad_sizes :: "blea \<Rightarrow> bool" where
  "ad_sizes b \<longleftrightarrow> (\<forall>ad. ba_fast_init b = Some ad \<longrightarrow> length (ad_data ad) = 24) \<and>
     (\<forall>ad. ba_nearby_conn b = Some ad \<longrightarrow> length (ad_data ad) = 23)"

definition ads_ok :: "blea \<Rightarrow> bool" where
  "ads_ok b \<longleftrightarrow> length (ba_endpoint_id b) = 4 \<and> ad_sizes b \<and>
     (ba_fast_init b \<noteq> None \<longleftrightarrow> ba_visibility b \<noteq> Invisible) \<and>
     (ba_visibility b = Invisible \<longrightarrow> ba_nearby_conn b = None) \<and>
     ba_seen b \<le> wt_version (ba_channel b) \<and>
     (ba_seen b = wt_version (ba_channel b) \<longrightarrow> ba_visibility b = wt_value (ba_channel b))"

lemma ads_ok_start:
  assumes "rand_ok X" and "seen \<le> wt_version channel" and "length endpoint_id = 4"
    and "blea_start X endpoint_id seen channel f n = (Continues, b)"
  shows "ads_ok b"
  using assms
  by (cases "wt_value channel")
    (auto simp: blea_start_def ads_ok_def ad_sizes_def ble_defs rand_ok_def fast_init_header_def
      Let_def split: if_splits)

lemma ads_ok_step:
  assumes "rand_ok X" and "ads_ok b" and "blea_step X ev b = (Continues, b')"
  shows "ads_ok b'"
proof (cases ev)
  case (BleSetVisibility v)
  with assms show ?thesis by (auto simp: ble_defs ads_ok_def ad_sizes_def)
next
  case (BleChanged f n)
  with assms show ?thesis
    by (cases "wt_value (ba_channel b)")
      (auto simp: ble_defs ads_ok_def ad_sizes_def rand_ok_def fast_init_header_def Let_def
        split: if_splits)
next
  case (BleRotate f n)
  with assms show ?thesis
    by (auto simp: ble_defs ads_ok_def ad_sizes_def rand_ok_def fast_init_header_def Let_def
        split: if_splits)
qed

text \<open>
  C35. While this device is invisible, and the task has seen that, it advertises nothing over
  Bluetooth; while it is visible it always has its FastInit advertisement. The payloads have the
  24 and 23 bytes they must have, fresh ones included.
\<close>

theorem advertises_iff_visible:
  assumes "rand_ok X" and "advertising X b" and "ba_seen b = wt_version (ba_channel b)"
  shows "(if wt_value (ba_channel b) = Invisible then ba_fast_init b = None \<and> ba_nearby_conn b = None
      else ba_fast_init b \<noteq> None) \<and> ad_sizes b"
proof -
  from assms(2) have "ads_ok b"
  proof (induction rule: advertising.induct)
    case (begun seen channel endpoint_id f n b)
    show ?case by (rule ads_ok_start [OF assms(1) begun.hyps])
  next
    case (step b ev b')
    show ?case by (rule ads_ok_step [OF assms(1) step.IH step.hyps(3)])
  qed
  with assms(3) show ?thesis by (auto simp: ads_ok_def)
qed

text \<open>
  A rotation that fails once ends the NearbyConnections advertisement: later rotations do
  not start it again, although the device stays visible.
\<close>

theorem failed_rotation_is_final:
  assumes "ble_rotate X True False b = (Continues, b')"
    and "foldl (\<lambda>r fn. case r of (Continues, b) \<Rightarrow> ble_rotate X (fst fn) (snd fn) b | _ \<Rightarrow> r)
      (Continues, b') flags = (Continues, b'')"
  shows "ba_nearby_conn b'' = None \<and> ba_visibility b'' = ba_visibility b"
proof -
  have once: "ba_nearby_conn c' = None \<and> ba_visibility c' = ba_visibility c"
    if "ble_rotate X f n c = (Continues, c')" "n = False \<or> ba_nearby_conn c = None" for f n c c'
    using that by (auto simp: ble_defs Let_def split: if_splits)
  have "ba_nearby_conn d = None \<and> ba_visibility d = ba_visibility b"
    if "foldl (\<lambda>r fn. case r of (Continues, b) \<Rightarrow> ble_rotate X (fst fn) (snd fn) b | _ \<Rightarrow> r)
      (Continues, b') flags = (Continues, d)" for d
    using that
  proof (induction flags arbitrary: d rule: rev_induct)
    case Nil
    then show ?case using once [OF assms(1)] by simp
  next
    case (snoc fn flags)
    then obtain c where "foldl (\<lambda>r fn. case r of (Continues, b) \<Rightarrow> ble_rotate X (fst fn) (snd fn) b | _ \<Rightarrow> r)
      (Continues, b') flags = (Continues, c)" and "ble_rotate X (fst fn) (snd fn) c = (Continues, d)"
      by (auto split: prod.splits loop_step.splits)
    with snoc.IH once show ?case by metis
  qed
  with assms(2) show ?thesis by blast
qed

text \<open>However the advertiser ends, it advertises nothing any more.\<close>

lemma blea_run_ends_silent:
  "blea_run X address_ok endpoint_id seen channel fast_ok nearby_ok evs = Some (r, b)
     \<Longrightarrow> ba_fast_init b = None \<and> ba_nearby_conn b = None"
  by (auto simp: blea_run_def blea_drop_def map_prod_def split: if_splits prod.splits loop_step.splits)

lemma blea_loop_ends: "fst (blea_loop X evs b) \<noteq> Continues"
  by (induction X evs b rule: blea_loop.induct) (auto split: prod.splits loop_step.splits)

end
