(* ===== verification/AppWitnesses.thy ===== *)
theory AppWitnesses
  imports Witnesses FrontEnd Manager Ble Handshake
begin

text \<open>
  For every property of the service, the discovery and the window that has hypotheses, a
  concrete case that satisfies them.
\<close>

section \<open>Discovery and advertising\<close>

definition laptop_record :: string where
  "laptop_record = gen_mdns_endpoint_info W 1 (device_num DevLaptop) ''host''"

lemma laptop_record_parsed: "parse_mdns_endpoint_info W laptop_record = Done (DevLaptop, ''host'')"
  unfolding laptop_record_def
  by (simp add: mdns_info_read [OF W_base64 W_rand] from_utf8_def) (simp add: as_bytes_def utf8_valid.simps chars_def of_char_def char_of_def)

definition lan :: u32 where "lan = 0xC0A80002"

definition name_address :: "string \<Rightarrow> string" where
  "name_address n = ip_port lan 80 @ n"

lemma found_run:
  "discovery_run W False True (found_at n lan 80 laptop_record # evs)
    = (case discovery_loop W False evs \<lparr>ds_cache = [(n, reachable_endpoint n lan 80 DevLaptop ''host'')],
         ds_sent = [reachable_endpoint n lan 80 DevLaptop ''host'']\<rparr> of
        (d, None) \<Rightarrow> (d, False) | (d, Some rest) \<Rightarrow> (d, drained rest))"
  by (simp add: discovery_run_def service_found_at [OF laptop_record_parsed] new_discovery_def
      Let_def hm_insert_def)

lemma devices_show_cache_witness:
  "hm_lookup (noted (ds_sent (fst (discovery_run W False True [found_at [] lan 80 laptop_record]))))
     (ip_port lan 80) = Some (reachable_endpoint [] lan 80 DevLaptop ''host'')"
proof -
  have "inj name_address" by (simp add: inj_def name_address_def)
  moreover have "list_all (at_address name_address) [found_at [] lan 80 laptop_record]"
    by (simp add: found_at_def name_address_def)
  ultimately show ?thesis
    by (simp add: devices_show_cache) (simp add: found_run name_address_def hm_lookup_def)
qed

lemma moved_endpoint_stays_shown_witness:
  "hm_lookup (noted (ds_sent (fst (discovery_run W False True
     [found_at ''x'' lan 80 laptop_record, found_at ''x'' lan 81 laptop_record,
      Received (ServiceRemoved ''t'' ''x'') \<lparr>sr_if_addrs = None, sr_probe = TimedOut\<rparr>]))))
     (ip_port lan 80) = Some (reachable_endpoint ''x'' lan 80 DevLaptop ''host'')"
proof -
  have "ip_port lan 80 \<noteq> ip_port lan 81"
    by (simp add: ip_port_def dec_inj)
  from moved_endpoint_stays_shown [OF laptop_record_parsed this] show ?thesis
    by (simp add: case_prod_beta)
qed

definition laptop_channel :: watch where
  "laptop_channel = \<lparr>wt_value = Visible, wt_version = 1\<rparr>"

definition shown_mdns :: mdns where
  "shown_mdns = \<lparr>md_visibility = Visible, md_seen = 1, md_interval = 60, md_reannounce = 15,
     md_channel = laptop_channel, md_registered = True\<rparr>"

lemma shown_serving: "serving shown_mdns 0"
  by (rule serving.started [of 1 laptop_channel 0 True])
    (simp_all add: mdns_start_def laptop_channel_def register_def tick_interval_def
      reannounce_interval_def shown_mdns_def)

text \<open>The user makes the visibility temporary after ten seconds; it ends a minute later.\<close>

definition shown_for_a_minute :: mdns where
  "shown_for_a_minute = shown_mdns\<lparr>md_visibility := Temporarily, md_seen := 2, md_interval := 70,
     md_channel := \<lparr>wt_value = Temporarily, wt_version = 2\<rparr>\<rparr>"

lemma minute_serving: "serving shown_for_a_minute 10"
proof (rule serving.moved, rule serving.moved, rule shown_serving)
  let ?m = "shown_mdns\<lparr>md_channel := \<lparr>wt_value = Temporarily, wt_version = 2\<rparr>\<rparr>"
  show "mdns_move (SetVisibility Temporarily) (shown_mdns, 0) (?m, 10)"
    by (rule mdns_move.intros [of _ _ _ _ True]) (simp_all add: mdns_defs shown_mdns_def laptop_channel_def)
  show "mdns_move Changed (?m, 10) (shown_for_a_minute, 10)"
    by (rule mdns_move.intros [of _ _ _ _ True])
      (simp_all add: mdns_defs shown_for_a_minute_def shown_mdns_def tick_interval_def Let_def)
qed

lemma advertised_iff_visible_witness:
  "md_registered shown_for_a_minute
    \<and> (\<exists>m'. mdns_move Tick (shown_for_a_minute, 10) (m', 70) \<and> wt_value (md_channel m') = Invisible
        \<and> \<not> md_registered m')"
proof -
  obtain m' where m': "mdns_step 70 True Tick shown_for_a_minute = (Continues, m')"
      "md_channel m' \<noteq> md_channel shown_for_a_minute"
    by (simp add: mdns_defs shown_for_a_minute_def shown_mdns_def Let_def)
  have move: "mdns_move Tick (shown_for_a_minute, 10) (m', 70)"
    by (rule mdns_move.intros [OF _ _ m'(1)]) (simp_all add: enabled_def shown_for_a_minute_def)
  have "md_seen shown_for_a_minute = wt_version (md_channel shown_for_a_minute)"
      "wt_value (md_channel shown_for_a_minute) \<noteq> Invisible"
    by (simp_all add: shown_for_a_minute_def)
  with advertised_iff_visible [OF minute_serving] move m'(2) show ?thesis by blast
qed

definition temporary_mdns :: mdns where
  "temporary_mdns = shown_mdns\<lparr>md_channel := \<lparr>wt_value = Temporarily, wt_version = 2\<rparr>\<rparr>"

lemma temporary_visibility_lasts_witness:
  "\<exists>m. mdns_step 100 True Changed temporary_mdns = (Continues, m) \<and> md_registered m \<and> \<not> enabled 100 Tick m"
proof -
  have v: "wt_value (md_channel temporary_mdns) = Temporarily" by (simp add: temporary_mdns_def)
  obtain m where m: "mdns_step 100 True Changed temporary_mdns = (Continues, m)"
    by (simp add: mdns_defs temporary_mdns_def Let_def)
  from temporary_visibility_lasts [OF v m quiet_moves.none] m show ?thesis by auto
qed

lemma expiry_overwrites_choice_witness:
  "\<exists>m. mdns_step 60 True Tick (shown_mdns\<lparr>md_visibility := Temporarily\<rparr>) = (Continues, m)
    \<and> wt_value (md_channel m) = Invisible"
  using expiry_overwrites_choice [of "shown_mdns\<lparr>md_visibility := Temporarily\<rparr>" 60]
  by (auto simp: shown_mdns_def laptop_channel_def mdns_defs Let_def)

lemma advertised_service_found_witness:
  "\<exists>info. ds_sent (discovery_step W False \<lparr>sr_if_addrs = Some [], sr_probe = Reachable\<rparr>
      (ServiceResolved info) new_discovery) = [reachable_endpoint ''x'' lan 80 DevLaptop ''host'']"
proof -
  define si where "si = build_service W 1 (Some [V4 lan]) [1, 2, 3, 4] 80 DevLaptop"
  define info where "info = \<lparr>rs_fullname = ''x'', rs_port = si_port si, rs_addresses_v4 = [lan],
    rs_property = map_of (si_properties si)\<rparr>"
  have "\<not> is_loopback lan" by (simp add: is_loopback_def octet_def lan_def)
  then have "si_addresses si = V4 lan # []" by (simp add: si_def build_service_def local_ipv4_addrs_def)
  moreover have "utf8_valid (as_bytes (os_hostname W))"
    by (simp add: W_def as_bytes_def utf8_valid.simps)
  moreover have "os_hostname W = ''host''" by (simp add: W_def)
  ultimately have "ds_sent (discovery_step W False \<lparr>sr_if_addrs = Some [], sr_probe = Reachable\<rparr>
      (ServiceResolved info) new_discovery) = ds_sent new_discovery @ [reachable_endpoint ''x'' lan 80 DevLaptop ''host'']"
    using advertised_service_found [OF W_base64 W_rand _ _ _ si_def, of lan "[]" info "''x''" "[]" False
        "\<lparr>sr_if_addrs = Some [], sr_probe = Reachable\<rparr>" new_discovery]
    by (simp add: info_def is_not_self_ip_def new_discovery_def)
  then show ?thesis by (auto simp: new_discovery_def)
qed


section \<open>The service\<close>

definition good_start :: startup where
  "good_start = \<lparr>su_bind = Some (0, 80), su_local_addr = True, su_experimental = True, su_linux = True,
     su_ble = True, su_daemon = True, su_service = True\<rparr>"

definition started_service :: rqs where
  "started_service = snd (run good_start (new_rqs Visible None None))"

lemma started_run: "run good_start (new_rqs Visible None None) = (Done (), started_service)"
  by (simp add: started_service_def run_def good_start_def fresh_number_def spawn_def exec)

lemma started_used: "used started_service"
  by (rule used.started [OF used.created _ started_run]) (simp add: new_rqs_def)

lemma started_tracker: "rqs_tracker started_service = Some 0"
  by (simp add: started_service_def run_def good_start_def fresh_number_def spawn_def new_rqs_def exec)

text \<open>A service that has accepted a connection.\<close>

lemma service_stops_witness:
  "\<exists>hs r'. stop hs (happens ConnectionAccepted started_service) = Some r' \<and> rqs_tasks r' = []
    \<and> rqs_connections r' = 1"
proof -
  have busy: "used (happens ConnectionAccepted started_service)"
    by (rule used.around [OF started_used])
  have "rqs_connections (happens ConnectionAccepted started_service) = 1"
    by (simp add: started_service_def run_def good_start_def fresh_number_def spawn_def new_rqs_def runs_def exec)
  with service_stops [OF busy] show ?thesis by metis
qed

text \<open>Its servers, when a connection could not be accepted.\<close>

lemma service_keeps_running_witness:
  "\<exists>c. \<lparr>sp_kind = TcpServerTask, sp_tracker = 0, sp_token = c\<rparr>
      \<in> set (rqs_tasks started_service) \<union> set (rqs_quit started_service)
    \<and> c \<notin> set (rqs_cancelled started_service)"
  using service_keeps_running [OF started_used started_tracker, of W 9 "[]" "[AcceptFailed]"] by blast

lemma second_discovery_leaks_witness:
  "\<exists>r' p. andthen (discovery True) (discovery True) started_service = (Done (), r') \<and> p \<in> set (rqs_tasks r')
    \<and> sp_kind p = DiscoveryTask \<and> \<not> told_to_end (stop_ask r') p"
proof -
  obtain r' where r': "andthen (discovery True) (discovery True) started_service = (Done (), r')"
    using started_tracker by (simp add: discovery_def fresh_number_def spawn_def exec)
  from second_discovery_leaks [OF started_used started_tracker r'] r' show ?thesis by blast
qed

lemma failed_start_blocks_stop_witness:
  "\<exists>e r'. run (good_start\<lparr>su_bind := None\<rparr>) (new_rqs Visible None None) = (Fail e, r') \<and> stop [] r' = None"
proof -
  obtain e r' where r': "run (good_start\<lparr>su_bind := None\<rparr>) (new_rqs Visible None None) = (Fail e, r')"
    by (simp add: run_def good_start_def fresh_number_def exec)
  from failed_start_blocks_stop [OF used.created r'] r' show ?thesis by blast
qed

section \<open>The settings\<close>

definition home_env :: settings_env where
  "home_env = \<lparr>se_config_dir = Some ''/home/u/.config'',
     se_parse = (\<lambda>c. if c = ''{}'' then Some (all_fields settings_default) else None),
     se_print = (\<lambda>j. if j = all_fields settings_default then Some ''{}'' else None),
     se_mkdir_ok = (\<lambda>_. True), se_write_fault = (\<lambda>_. None)\<rparr>"

lemma home_env_simps [simp]:
  "se_config_dir home_env = Some ''/home/u/.config''" "se_mkdir_ok home_env p"
  "se_print home_env (all_fields settings_default) = Some ''{}''" "se_write_fault home_env p = None"
  by (simp_all add: home_env_def)

lemma settings_roundtrip_witness:
  "\<exists>fs'. save home_env settings_default (\<lambda>_. None) = (Done (), fs') \<and> load home_env fs' = settings_default"
proof -
  have "json_ok home_env" by (simp add: json_ok_def home_env_def)
  moreover have "fst (save home_env settings_default (\<lambda>_. None)) = Done ()"
    by (simp add: save_def config_path_def split: option.split)
  then obtain fs' where "save home_env settings_default (\<lambda>_. None) = (Done (), fs')"
    by (metis prod.collapse)
  ultimately show ?thesis using settings_roundtrip by blast
qed

section \<open>The window\<close>

definition opened_app :: app_state where
  "opened_app = new_app_state settings_default ''host'' (\<lambda>_. None)"

definition incoming :: channel_message where
  "incoming = cm_default\<lparr>cm_id := ''c1'', cm_direction := LibToFront,
     cm_state := Some ReceivedConnectionRequest, cm_rtype := Some Inbound\<rparr>"

lemma window_follows_library_witness:
  "\<exists>t. hm_lookup (as_transfers (foldl receive_message opened_app [(0, 1, incoming)])) ''c1'' = Some t
    \<and> ti_state t = ReceivedConnectionRequest \<and> ti_direction t = Inbound"
proof -
  have "hm_lookup (as_transfers opened_app) ''c1'' = None"
    by (simp add: opened_app_def new_app_state_def hm_lookup_def)
  moreover have "about ''c1'' [(0, 1, incoming)] = [(0, 1, incoming)]"
    by (simp add: about_def incoming_def)
  ultimately show ?thesis
    using window_follows_library [of opened_app "''c1''" "[(0, 1, incoming)]"]
    by (auto simp: incoming_def or_default_def split: option.splits)
qed

definition ready_app :: app_state where
  "ready_app = opened_app\<lparr>as_files_to_send := [''/home/a.txt''], as_sender_file := True,
     as_message_sender := True\<rparr>"

lemma no_way_back_after_silent_send_witness:
  "SelectFiles \<notin> set (controls (send_to_device (reachable_endpoint ''n'' lan 80 DevLaptop ''host'') ready_app))"
proof -
  have "as_transfers ready_app = []" "as_files_to_send ready_app \<noteq> []" "as_sender_file ready_app"
    by (simp_all add: ready_app_def opened_app_def new_app_state_def)
  from no_way_back_after_silent_send [OF this rtranclp.rtrancl_refl] show ?thesis by simp
qed

lemma send_goes_to_probed_address_witness:
  "as_send_infos (send_to_device (reachable_endpoint ''n'' lan 80 DevLaptop ''host'') ready_app)
    = [\<lparr>snd_id = ip_port lan 80, snd_name = ''host'', snd_addr = ip_port lan 80, snd_files = [''/home/a.txt'']\<rparr>]"
proof -
  have "utf8_valid (as_bytes ''/home/a.txt'')" by (simp add: as_bytes_def utf8_valid.simps)
  then show ?thesis
    using send_goes_to_probed_address [of ready_app "[''/home/a.txt'']" _ "''n''" lan 80 DevLaptop "''host''"]
    by (simp add: ready_app_def opened_app_def new_app_state_def)
qed

lemma announcement_asks_user_witness:
  "\<exists>t item. process_introduction W (offer [offered 5]) (receiver ReceivedPairedKeyResult) = (Done (), t)
    \<and> hm_lookup (as_transfers (handle_channel_message 0 1 (last (rq_chan t)) ready_app)) (is_id (rq_st t)) = Some item
    \<and> ti_files item = [''a.txt''] \<and> item_controls item = [Accept (is_id (rq_st t)), Reject (is_id (rq_st t))]"
proof -
  let ?intro = "\<lparr>in_files = [offered 5], in_texts = [], in_wifis = []\<rparr>"
  have v: "sv_introduction (offer [offered 5]) = Some ?intro" by (simp add: offer_def)
  have d: "\<forall>f \<in> set (in_files ?intro). destination_of W (receiver ReceivedPairedKeyResult) f \<noteq> None"
    using offered_destination by simp
  obtain t where t: "process_introduction W (offer [offered 5]) (receiver ReceivedPairedKeyResult) = (Done (), t)"
    using introduction_runs [OF v _ _ d] download_printable by auto
  have "hm_lookup (as_transfers ready_app) (is_id (rq_st t)) = None" "as_message_sender ready_app"
    by (simp_all add: ready_app_def opened_app_def new_app_state_def hm_lookup_def)
  then obtain item where item:
      "hm_lookup (as_transfers (handle_channel_message 0 1 (last (rq_chan t)) ready_app)) (is_id (rq_st t)) = Some item"
      "item_of_introduction W (receiver ReceivedPairedKeyResult) (in_files ?intro) item"
      "item_controls item = [Accept (is_id (rq_st t)), Reject (is_id (rq_st t))]"
    using announcement_asks_user [OF v _ _ d t, of ready_app _ 0 1 fresh] by auto
  from item(2) have "ti_files item = [''a.txt'']"
    by (simp add: item_of_introduction_def offered_def file_name_of_def)
  with t item(1,3) show ?thesis by blast
qed

section \<open>Bluetooth\<close>

definition advertiser :: blea where
  "advertiser = snd (blea_start W [65, 66, 67, 68] 1 laptop_channel True True)"

lemma advertiser_starts:
  "blea_start W [65, 66, 67, 68] 1 laptop_channel True True = (Continues, advertiser)"
  by (simp add: advertiser_def blea_start_def laptop_channel_def ble_defs Let_def)

lemma advertises_iff_visible_witness: "ba_fast_init advertiser \<noteq> None \<and> ad_sizes advertiser"
proof -
  have "advertising W advertiser"
    by (rule advertising.begun [OF _ _ advertiser_starts]) (simp_all add: laptop_channel_def)
  moreover have "ba_seen advertiser = wt_version (ba_channel advertiser)"
    and "wt_value (ba_channel advertiser) = Visible"
    by (simp_all add: advertiser_def blea_start_def laptop_channel_def ble_defs Let_def)
  ultimately show ?thesis using advertises_iff_visible [OF W_rand] by force
qed

lemma clock_set_back_ends_listener_witness:
  "\<exists>b. ble_loop ([ServiceData True (10 ^ 11) True] @ ServiceData True (10 ^ 10) True # [])
    \<lparr>bl_last_alert = 0, bl_alerts = []\<rparr> = (Errs, b)"
proof -
  obtain b where b: "ble_loop [ServiceData True (10 ^ 11) True] \<lparr>bl_last_alert = 0, bl_alerts = []\<rparr> = (Continues, b)"
      "bl_last_alert b = 10 ^ 11"
    by (simp add: service_data_def alert_gap_def)
  from clock_set_back_ends_listener [OF b(1), of "10 ^ 10" True "[]"] b(2) show ?thesis by auto
qed

lemma failed_rotation_is_final_witness:
  "\<exists>b'. ble_rotate W True False advertiser = (Continues, b') \<and> ba_nearby_conn b' = None"
proof -
  obtain b' where b': "ble_rotate W True False advertiser = (Continues, b')"
    by (cases "ba_fast_init advertiser") (simp_all add: ble_defs Let_def)
  from failed_rotation_is_final [OF b', of "[]"] b' show ?thesis by simp
qed

section \<open>The end of a connection\<close>

text \<open>Here the peer closes the connection after the two first messages.\<close>

definition request_to_send :: send_info where
  "request_to_send = \<lparr>snd_id = ''10.0.0.9:80'', snd_name = ''Pixel'', snd_addr = ''10.0.0.9:80'',
     snd_files = [''/home/a.txt'']\<rparr>"

lemma W_first_messages:
  "\<exists>u. andthen (send_connection_request W) (send_ukey2_client_init W) r = (Done (), u) \<and> rq_in u = rq_in r"
proof -
  obtain g where g: "own_public_key W (public_of W (gen_secret W (Suc (rq_draws r)))) = Done g"
    using own_public_key_read [OF W_bigint W_point W_long] by blast
  then show ?thesis
    by (simp add: send_connection_request_def send_ukey2_client_init_def draw_def bind_Done
        gen_ecdsa_keypair_def lift_outcome_exec Let_def andthen_Done send_frame_no_faults [OF W_no_faults(1)]
        update_state_def exec upd_st_def gen_random_def)
qed


end
