(* ===== verification/Session.thy ===== *)
theory Session
  imports Delivery Handshake FileSending OutboundStates InboundSafety
begin

text \<open>
  A whole session from the first byte to the question to the user: the connection request, the
  key exchange, the paired key frames and the introduction, with both sides run by their
  \<open>handle\<close> on the bytes the other side wrote.
\<close>

section \<open>The sending side receives\<close>

definition out_takes_frames :: "outbound \<Rightarrow> bool" where
  "out_takes_frames r \<longleftrightarrow> conn r \<noteq> SentUkeyClientInit \<and> conn r \<noteq> SentUkeyClientFinish"

lemma stream_read_conn: "stream_read_exact n r = (Done d, t) \<Longrightarrow> conn t = conn r"
  by (auto simp: stream_read_exact_def conn_def split: if_splits)

lemma out_handle_secured:
  assumes "receive_secure X r = (Done f, t)" and "out_takes_frames r"
  shows "out_handle X fuel OnSocket r = out_offline_frame X fuel f t"
proof -
  obtain lb r1 where lb: "stream_read_exact 4 r = (Done lb, r1)"
    and rest: "bind (read_message lb) (\<lambda>data.
      bind (ok_or DecodeError (dec_secure X data)) (open_secure_message X)) r1 = (Done f, t)"
    using assms(1) by (auto simp: receive_secure_def bind_eq_Done)
  obtain data r2 m where data: "read_message lb r1 = (Done data, r2)"
    and m: "dec_secure X data = Some m" "open_secure_message X m r2 = (Done f, t)"
    using rest by (auto simp: eq_Done)
  have "conn r2 = conn r1"
    using data by (auto simp: read_message_def Let_def eq_Done dest: stream_read_conn)
  then have "is_state (rq_st r2) \<noteq> SentUkeyClientInit" "is_state (rq_st r2) \<noteq> SentUkeyClientFinish"
    using assms(2) stream_read_conn [OF lb] by (simp_all add: out_takes_frames_def conn_def)
  with lb data m show ?thesis
    by (simp add: out_handle_def out_handle_frame_def out_serve_frame_def out_secure_message_def exec)
qed

lemma out_bytes_chunk:
  assumes "sane_header header"
    and "chunk_offset chunk = word_of_nat (length (buffered (header_id header) r))"
  shows "out_bytes_payload X fuel header chunk r =
    (let b = buffered (header_id header) r @ chunk_body chunk in
     (if chunk_flags chunk AND 1 = 1 then bind (ok_or DecodeError (dec_sharing X b)) (process_setup X fuel)
      else ret ()) (with_buffer (header_id header) b r))"
proof -
  have n: "\<not> word_of_nat sane_frame_length <s header_total_size header" "\<not> header_total_size header <s 0"
    using assms(1) by (simp_all add: sane_header_def word_sless_alt sane_frame_length_def)
  show ?thesis
    using assms(2) n
    by (cases "hm_lookup (is_payload_buffers (rq_st r)) (header_id header)")
       (simp_all add: out_bytes_payload_def Let_def exec entry_buffer_def buffered_def with_buffer_def upd_st_def)
qed

lemma out_data_transfer:
  assumes "header_type header = PtBytes"
  shows "out_offline_frame X fuel (data_transfer header chunk) r = out_bytes_payload X fuel header chunk r"
proof -
  have "v1_frame_type (v1_default\<lparr>v1_type := Some (enum_num frame_type_table FrPayloadTransfer),
      v1_payload_transfer := p\<rparr>) = FrPayloadTransfer" for p
    using enum_roundtrip(1) [of FrPayloadTransfer] by (simp add: v1_frame_type_def)
  then show ?thesis
    using assms
    by (simp add: out_offline_frame_def data_transfer_def offline_v1_def exec out_payload_transfer_def)
qed

interpretation sharing_out: sharing_receiver X "out_handle X fuel OnSocket" "process_setup X fuel"
  out_takes_frames ob_payload for X fuel
proof
  fix r t :: outbound and header chunk b
  assume r: "receive_secure X r = (Done (data_transfer header chunk), t)" "out_takes_frames r"
    and h: "header_type header = PtBytes" "sane_header header"
      "chunk_offset chunk = word_of_nat (length (buffered (header_id header) t))"
      "b = buffered (header_id header) t @ chunk_body chunk"
  obtain v where v: "t = opened (r\<lparr>rq_in := v\<rparr>)"
    using receive_secure_state [OF r(1)] by blast
  let ?u = "with_buffer (header_id header) b t"
  have "out_takes_frames ?u" "ob_payload ?u = ob_payload r"
    using r(2) by (simp_all add: out_takes_frames_def conn_def v opened_def with_buffer_def upd_st_def)
  moreover have "out_handle X fuel OnSocket r = (if chunk_flags chunk AND 1 = 1
      then bind (ok_or DecodeError (dec_sharing X b)) (process_setup X fuel) ?u else (Done (), ?u))"
    using h by (simp add: out_handle_secured [OF r] out_data_transfer out_bytes_chunk Let_def exec)
  ultimately show "\<exists>u. request.truncate u = request.truncate (with_buffer (header_id header) b t)
      \<and> out_takes_frames u \<and> ob_payload u = ob_payload r
      \<and> out_handle X fuel OnSocket r = (if chunk_flags chunk AND 1 = 1
          then bind (ok_or DecodeError (dec_sharing X b)) (process_setup X fuel) u else (Done (), u))"
    by blast
qed

section \<open>Sending a sharing frame succeeds\<close>

text \<open>
  A sharing frame small enough for the channel, whatever keys, numbers and payload id it is sent
  with.
\<close>

definition sendable :: "env \<Rightarrow> sharing_frame \<Rightarrow> bool" where
  "sendable X g \<longleftrightarrow> length (enc_sharing X g) \<le> sane_frame_length \<and>
     (\<forall>k m iv q i. length iv = 16 \<longrightarrow>
       fits_frame (seal X k m iv q (data_transfer (bytes_header i (length (enc_sharing X g)))
         \<lparr>pc_flags = Some 0, pc_offset = Some 0, pc_body = Some (enc_sharing X g)\<rparr>)) \<and>
       fits_frame (seal X k m iv q (data_transfer (bytes_header i (length (enc_sharing X g)))
         \<lparr>pc_flags = Some 1, pc_offset = Some (word_of_nat (length (enc_sharing X g))), pc_body = Some []\<rparr>)))"

definition armed :: "'x request_scheme \<Rightarrow> bool" where
  "armed r \<longleftrightarrow> rq_encrypt_key_aes r \<noteq> None \<and> rq_send_hmac r \<noteq> None"

lemma sends_fitting:
  assumes X: "channel_env X" "no_faults X" and "armed r"
    and fits: "\<And>k m iv q. length iv = 16 \<Longrightarrow> fits_frame (seal X k m iv q f)"
  shows "\<exists>t ws. encrypt_and_send X f r = (Done (), t) \<and> rq_out t = rq_out r @ ws
    \<and> list_all fits_frame ws \<and> armed t \<and> rq_draws t = Suc (rq_draws r) \<and> core t = core r"
proof -
  obtain k h where kh: "rq_encrypt_key_aes r = Some k" "rq_send_hmac r = Some h"
    using assms(3) by (auto simp: armed_def)
  let ?m = "seal X k (hc_key h) (os_rand X (rq_draws r) 16) (is_server_seq (rq_st r) + 1) f"
  have "length (os_rand X (rq_draws r) 16) = 16" using X(1) by (simp add: channel_env_def rand_ok_def)
  then have "list_all fits_frame (framed ?m)"
    using fits by (simp add: framed_def) (simp add: fits_frame_def sane_frame_length_def)
  moreover obtain t where t: "encrypt_and_send X f r = (Done (), t)" "rq_out t = rq_out r @ framed ?m"
      "armed t" "rq_draws t = Suc (rq_draws r)"
    using seals [of X r k h f] X kh
    by (auto simp: channel_env_def aes_ok_def Let_def send_frame_no_faults andthen_Done modify_exec
        sealing_def armed_def)
  moreover have "core t = core r"
    using withinD [OF encrypt_and_send_core t(1)] by (simp add: same_rel_def)
  ultimately show ?thesis by blast
qed

lemma sends_sharing:
  assumes X: "channel_env X" "no_faults X" and "armed r" and g: "sendable X g"
  shows "\<exists>t ws. send_encrypted_frame X g r = (Done (), t) \<and> rq_out t = rq_out r @ ws
    \<and> list_all fits_frame ws \<and> armed t \<and> rq_draws t = rq_draws r + 3 \<and> core t = core r"
proof -
  let ?d = "enc_sharing X g"
  let ?h = "bytes_header (os_rand_i64 X (rq_draws r)) (length ?d)"
  let ?c1 = "data_transfer ?h \<lparr>pc_flags = Some 0, pc_offset = Some 0, pc_body = Some ?d\<rparr>"
  let ?c2 = "data_transfer ?h \<lparr>pc_flags = Some 1, pc_offset = Some (word_of_nat (length ?d)), pc_body = Some []\<rparr>"
  let ?r = "r\<lparr>rq_draws := Suc (rq_draws r)\<rparr>"
  have "armed ?r" using assms(3) by (simp add: armed_def)
  from sends_fitting [OF X this, of ?c1] g obtain t1 ws1 where
    t1: "encrypt_and_send X ?c1 ?r = (Done (), t1)" "rq_out t1 = rq_out r @ ws1"
      "list_all fits_frame ws1" "armed t1" "rq_draws t1 = rq_draws r + 2" "core t1 = core ?r"
    by (auto simp: sendable_def)
  from sends_fitting [OF X t1(4), of ?c2] g obtain t ws2 where
    t: "encrypt_and_send X ?c2 t1 = (Done (), t)" "rq_out t = rq_out t1 @ ws2"
      "list_all fits_frame ws2" "armed t" "rq_draws t = Suc (rq_draws t1)" "core t = core t1"
    by (auto simp: sendable_def)
  have "send_encrypted_frame X g r = (Done (), t)"
    using t1(1) t(1) by (simp add: send_encrypted_frame_def Let_def draw_def bind_Done andthen_Done)
  moreover have "core t = core r" using t(6) t1(6) by (simp add: core_def)
  ultimately show ?thesis using t1 t by (intro exI [of _ t] exI [of _ "ws1 @ ws2"]) simp
qed

section \<open>Reading a plain frame\<close>

lemma handle_plain:
  assumes "rq_in r = concat (framed d) @ rest" and "fits_frame d"
  shows "\<exists>b. handle X OnSocket r = serve_frame X d (set_recv_buf b (r\<lparr>rq_in := rest\<rparr>))"
proof -
  have d: "length d \<le> sane_frame_length" "unat (word_of_nat (length d) :: u32) = length d"
    using assms(2) by (simp_all add: fits_frame_def sane_frame_length_def unat_of_nat take_bit_nat_eq_self_iff)
  define b where "b = d @ drop (length d) (take (length d) (ib_recv_buf r) @ replicate (length d - length (ib_recv_buf r)) 0)"
  have "handle X OnSocket r = serve_frame X d (set_recv_buf b (r\<lparr>rq_in := rest\<rparr>))"
    using assms(1) d
    by (simp add: handle_def handle_frame_def framed_def stream_read_exact_def bind_Done Let_def exec
        set_recv_buf_def b_def)
  then show ?thesis by blast
qed

lemma out_handle_plain:
  assumes "rq_in r = concat (framed d) @ rest" and "fits_frame d"
  shows "out_handle X fuel OnSocket r = out_serve_frame X fuel d (r\<lparr>rq_in := rest\<rparr>)"
proof -
  have "rq_in r = to_be32 (word_of_nat (length d)) @ d @ rest"
    using assms(1) by (simp add: framed_def)
  then show ?thesis
    using read_message_frame [of d r rest] assms(2)
    by (simp add: fits_frame_def out_handle_def out_handle_frame_def bind_Done)
qed

section \<open>Both sides together\<close>

text \<open>
  The network: when one side has its turn, everything the other side has written so far arrives,
  and it serves that many frames.
\<close>

datatype turn = ClientTurn nat | ServerTurn nat

definition take_turn :: "env \<Rightarrow> nat \<Rightarrow> turn \<Rightarrow> (outbound \<times> inbound, unit) io" where
  "take_turn X fuel turn sides =
     (let (c, s) = sides in
      case turn of
        ClientTurn n \<Rightarrow>
          (case for_each (replicate n OnSocket) (out_handle X fuel)
              (c\<lparr>rq_in := rq_in c @ concat (rq_out s)\<rparr>) of
             (res, c') \<Rightarrow> (res, (c', s\<lparr>rq_out := []\<rparr>)))
      | ServerTurn n \<Rightarrow>
          (case for_each (replicate n OnSocket) (handle X)
              (s\<lparr>rq_in := rq_in s @ concat (rq_out c)\<rparr>) of
             (res, s') \<Rightarrow> (res, (c\<lparr>rq_out := []\<rparr>, s'))))"

lemma server_turn:
  "for_each (replicate n OnSocket) (handle X) (s\<lparr>rq_in := rq_in s @ concat (rq_out c)\<rparr>) = (Done (), s')
    \<Longrightarrow> take_turn X fuel (ServerTurn n) (c, s) = (Done (), (c\<lparr>rq_out := []\<rparr>, s'))"
  and client_turn:
  "for_each (replicate n OnSocket) (out_handle X fuel) (c\<lparr>rq_in := rq_in c @ concat (rq_out s)\<rparr>) = (Done (), c')
    \<Longrightarrow> take_turn X fuel (ClientTurn n) (c, s) = (Done (), (c', s\<lparr>rq_out := []\<rparr>))"
  by (simp_all add: take_turn_def)

text \<open>What the handshake needs of the environment, and that its messages fit into frames.\<close>

definition session_env :: "env \<Rightarrow> bool" where
  "session_env X \<longleftrightarrow> exchange_env X \<and> channel_env X \<and> no_faults X"

definition handshake_fits :: "env \<Rightarrow> bytes \<Rightarrow> bool" where
  "handshake_fits X endpoint_id \<longleftrightarrow>
     (\<forall>k. fits_frame (enc_offline X (connection_request X endpoint_id k))) \<and>
     fits_frame (enc_offline X (connection_response_accept X)) \<and>
     (\<forall>g j. own_public_key X (public_of X (gen_secret X j)) = Done g \<longrightarrow>
        fits_frame (enc_ukey2 X (client_finish_frame X g)) \<and>
        (\<forall>r. length r = 32 \<longrightarrow>
          fits_frame (enc_ukey2 X (client_init_frame X r (sha512 X (enc_ukey2 X (client_finish_frame X g))))) \<and>
          fits_frame (enc_ukey2 X (server_init_frame X r g))))"

lemma handshake_fitsD:
  assumes "handshake_fits X endpoint_id" and "own_public_key X (public_of X (gen_secret X j)) = Done g"
  shows "fits_frame (enc_ukey2 X (client_finish_frame X g))"
    and "length r = 32 \<Longrightarrow> fits_frame (enc_ukey2 X
      (client_init_frame X r (sha512 X (enc_ukey2 X (client_finish_frame X g)))))"
    and "length r = 32 \<Longrightarrow> fits_frame (enc_ukey2 X (server_init_frame X r g))"
  using assms unfolding handshake_fits_def by blast+

text \<open>A generated key pair has a usable public key.\<close>

definition usable_key :: "env \<Rightarrow> nat \<Rightarrow> bool" where
  "usable_key X k \<longleftrightarrow> point_ok X (public_of X (gen_secret X k)) \<and> long_coordinates X (public_of X (gen_secret X k))"

lemma connection_request_read_by_server:
  assumes "rand_ok X" and "from_utf8 (take 255 (as_bytes (os_hostname X))) = Some name"
  shows "process_connection_request (connection_request X e k) = Done \<lparr>rdi_name = name, rdi_type = DevLaptop\<rparr>"
proof -
  have "process_connection_request (connection_request X e k)
      = process_connection_request (request_frame (serialize X k \<lparr>rdi_name = os_hostname X, rdi_type = DevLaptop\<rparr>))"
    by (simp add: process_connection_request_def connection_request_def request_frame_def offline_v1_def
        v1_frame_type_def)
  then show ?thesis
    using assms connection_request_read [of X k "\<lparr>rdi_name = os_hostname X, rdi_type = DevLaptop\<rparr>"] by simp
qed

section \<open>The key exchange over the network\<close>

definition fresh_client :: "bytes \<Rightarrow> string \<Rightarrow> string list \<Rightarrow> remote_device_info \<Rightarrow> (path \<Rightarrow> fs_node option) \<Rightarrow> outbound" where
  "fresh_client endpoint_id i files rdi fs = new_outbound endpoint_id i files rdi fs []"

definition fresh_server :: "string \<Rightarrow> (path \<Rightarrow> fs_node option) \<Rightarrow> path option option \<Rightarrow> inbound" where
  "fresh_server i fs dl = new_inbound i fs dl []"

lemma request_served:
  assumes "codec_ok X" "rand_ok X" and "from_utf8 (take 255 (as_bytes (os_hostname X))) = Some name"
    and "conn s = Initial"
  shows "serve_frame X (enc_offline X (connection_request X e k)) s
    = (Done (), upd_st (\<lambda>e. e\<lparr>is_state := ReceivedConnectionRequest,
        is_remote_device_info := Some \<lparr>rdi_name = name, rdi_type = DevLaptop\<rparr>\<rparr>) s)"
  using assms(4) connection_request_read_by_server [OF assms(2,3)] codec_okD(1) [OF assms(1)]
  by (simp add: serve_frame_def exec conn_def update_state_def)

lemma set_recv_buf_simps [simp]:
  "rq_in (set_recv_buf b r) = rq_in r" "rq_out (set_recv_buf b r) = rq_out r"
  "rq_st (set_recv_buf b r) = rq_st r" "conn (set_recv_buf b r) = conn r"
  "rq_draws (set_recv_buf b r) = rq_draws r" "rq_fs (set_recv_buf b r) = rq_fs r"
  "rq_custom_download (set_recv_buf b r) = rq_custom_download r" "aside (set_recv_buf b r) = aside r"
  by (simp_all add: set_recv_buf_def conn_def aside_def)

lemma conn_in [simp]: "conn (r\<lparr>rq_in := i\<rparr>) = conn r" "conn (r\<lparr>rq_out := ws\<rparr>) = conn r"
  by (simp_all add: conn_def)

text \<open>The server takes in the connection request and the client's first message.\<close>

lemma server_begins:
  assumes E: "session_env X" "handshake_fits X endpoint_id"
    and name: "from_utf8 (take 255 (as_bytes (os_hostname X))) = Some name"
    and s: "s = (fresh_server i fs dl)\<lparr>rq_in := concat (framed (enc_offline X (connection_request X endpoint_id k)) @ framed m1)\<rparr>"
    and m1: "m1 = enc_ukey2 X (client_init_frame X rnd commitment)" "length rnd = 32" "fits_frame m1"
    and key: "own_public_key X (public_of X (gen_secret X 0)) = Done g"
  shows "\<exists>s2. for_each (replicate 2 OnSocket) (handle X) s = (Done (), s2)
    \<and> rq_out s2 = framed (enc_ukey2 X (server_init_frame X (os_rand X 1 32) g))
    \<and> conn s2 = SentUkeyServerInit \<and> is_private_key (rq_st s2) = Some (gen_secret X 0)
    \<and> is_client_init_msg_data (rq_st s2) = Some m1
    \<and> is_server_init_data (rq_st s2) = Some (enc_ukey2 X (server_init_frame X (os_rand X 1 32) g))
    \<and> map_option cc_commitment (is_cipher_commitment (rq_st s2)) = Some (Some commitment)
    \<and> is_server_seq (rq_st s2) = 0 \<and> is_client_seq (rq_st s2) = 0 \<and> rq_draws s2 = 2
    \<and> aside s2 = ([], fs, dl, i, Some \<lparr>rdi_name = name, rdi_type = DevLaptop\<rparr>, [], None, [])"
proof -
  have e: "no_faults X" "codec_ok X" "rand_ok X"
    using E(1) by (simp_all add: session_env_def exchange_env_def)
  note start = fresh_server_def new_inbound_def is_default_def
  have "rq_in s = concat (framed (enc_offline X (connection_request X endpoint_id k))) @ concat (framed m1)"
    by (simp add: s)
  moreover have "fits_frame (enc_offline X (connection_request X endpoint_id k))"
    using E(2) by (simp add: handshake_fits_def)
  ultimately obtain b where h1: "handle X OnSocket s
      = serve_frame X (enc_offline X (connection_request X endpoint_id k)) (set_recv_buf b (s\<lparr>rq_in := concat (framed m1)\<rparr>))"
    using handle_plain by blast
  define s1 where "s1 = upd_st (\<lambda>e. e\<lparr>is_state := ReceivedConnectionRequest,
    is_remote_device_info := Some \<lparr>rdi_name = name, rdi_type = DevLaptop\<rparr>\<rparr>)
    (set_recv_buf b (s\<lparr>rq_in := concat (framed m1)\<rparr>))"
  have "conn (set_recv_buf b (s\<lparr>rq_in := concat (framed m1)\<rparr>)) = Initial"
    by (simp add: s start conn_def)
  from request_served [OF e(2,3) name this] h1 have h1: "handle X OnSocket s = (Done (), s1)"
    by (simp add: s1_def)
  have s1: "rq_in s1 = concat (framed m1) @ []"
    by (simp add: s1_def upd_st_def)
  obtain b' where h2: "handle X OnSocket s1 = serve_frame X m1 (set_recv_buf b' (s1\<lparr>rq_in := []\<rparr>))"
    using handle_plain [OF s1 m1(3)] by blast
  let ?s = "set_recv_buf b' (s1\<lparr>rq_in := []\<rparr>)"
  have q: "conn ?s = ReceivedConnectionRequest" "rq_draws ?s = 0" "rq_out ?s = []"
      "is_server_seq (rq_st ?s) = 0" "is_client_seq (rq_st ?s) = 0"
      "aside ?s = ([], fs, dl, i, Some \<lparr>rdi_name = name, rdi_type = DevLaptop\<rparr>, [], None, [])"
    by (simp_all add: s1_def s start upd_st_def conn_def aside_def set_recv_buf_def)
  then have "own_public_key X (public_of X (gen_secret X (rq_draws ?s))) = Done g"
    using key by simp
  from server_answers [OF e m1(2) this q(1), of commitment] q
  obtain s2 where "serve_frame X m1 ?s = (Done (), s2)"
    "rq_out s2 = framed (enc_ukey2 X (server_init_frame X (os_rand X 1 32) g))"
    "conn s2 = SentUkeyServerInit" "is_private_key (rq_st s2) = Some (gen_secret X 0)"
    "is_client_init_msg_data (rq_st s2) = Some m1"
    "is_server_init_data (rq_st s2) = Some (enc_ukey2 X (server_init_frame X (os_rand X 1 32) g))"
    "map_option cc_commitment (is_cipher_commitment (rq_st s2)) = Some (Some commitment)"
    "is_server_seq (rq_st s2) = 0" "is_client_seq (rq_st s2) = 0" "rq_draws s2 = 2" "aside s2 = aside ?s"
    unfolding m1(1) by auto
  then show ?thesis
    using h1 h2 q(6) by (intro exI [of _ s2]) (simp add: numeral_2_eq_2 exec)
qed

text \<open>
  After the key exchange: both sides linked, the same PIN, and the client's response to the
  connection still unread in the server's socket.
\<close>

definition keys_agreed ::
  "env \<Rightarrow> remote_device_info \<Rightarrow> string \<Rightarrow> string list \<Rightarrow> outbound \<Rightarrow> inbound \<Rightarrow> bool" where
  "keys_agreed X dev pin files c s \<longleftrightarrow>
     conn c = SentUkeyClientFinish \<and> conn s = ReceivedUkeyClientFinish \<and>
     linked c s \<and> linked s c \<and>
     is_pin_code (rq_st c) = Some pin \<and> is_pin_code (rq_st s) = Some pin \<and>
     rq_in c = [] \<and> rq_out c = [] \<and> rq_out s = [] \<and>
     rq_in s = concat (framed (enc_offline X (connection_response_accept X))) \<and>
     rq_draws c = 3 \<and> rq_draws s = 2 \<and> ob_payload c = files \<and> is_encryption_done (rq_st c) \<and>
     is_remote_device_info (rq_st s) = Some dev \<and>
     is_payload_buffers (rq_st c) = [] \<and> is_payload_buffers (rq_st s) = [] \<and>
     is_text_payload (rq_st s) = None \<and> is_transferred_files (rq_st s) = [] \<and> pin \<noteq> []"

lemma pin_of_nonempty: "pin_of k \<noteq> []"
  by (auto simp: pin_of_def to_four_digit_string_def dec_pad_def Let_def)

definition connecting :: "env \<Rightarrow> unit outb" where
  "connecting X = andthen (send_connection_request X) (send_ukey2_client_init X)"

lemma linked_streams [simp]:
  "linked (c\<lparr>rq_in := i\<rparr>) s = linked c s" "linked (c\<lparr>rq_out := ws\<rparr>) s = linked c s"
  "linked c (s\<lparr>rq_in := i'\<rparr>) = linked c s" "linked c (s\<lparr>rq_out := ws'\<rparr>) = linked c s"
  by (simp_all add: linked_def)

text \<open>The client's two first messages.\<close>

lemma client_begins:
  assumes "no_faults X" and key: "own_public_key X (public_of X (gen_secret X 1)) = Done g"
    and fin: "fin = enc_ukey2 X (client_finish_frame X g)"
    and m1: "m1 = enc_ukey2 X (client_init_frame X (os_rand X 2 32) (sha512 X fin))"
  shows "\<exists>c1. connecting X (fresh_client endpoint_id i files rdi fs) = (Done (), c1)
    \<and> rq_out c1 = framed (enc_offline X (connection_request X endpoint_id 0)) @ framed m1
    \<and> conn c1 = SentUkeyClientInit \<and> is_private_key (rq_st c1) = Some (gen_secret X 1)
    \<and> is_client_init_msg_data (rq_st c1) = Some m1 \<and> is_ukey_client_finish_msg_data (rq_st c1) = Some fin
    \<and> is_server_seq (rq_st c1) = 0 \<and> is_client_seq (rq_st c1) = 0 \<and> rq_draws c1 = 3
    \<and> aside c1 = ([], fs, None, i, None, [], None, []) \<and> ob_payload c1 = files"
proof -
  let ?c0 = "fresh_client endpoint_id i files rdi fs"
  define ca where "ca = ?c0\<lparr>rq_draws := 1, rq_out := framed (enc_offline X (connection_request X endpoint_id 0))\<rparr>"
  have "send_connection_request X ?c0 = (Done (), ca)"
    by (simp add: send_connection_request_def draw_def exec send_frame_no_faults [OF assms(1)] ca_def
        fresh_client_def new_outbound_def)
  moreover have ca: "rq_draws ca = 1" "rq_out ca = framed (enc_offline X (connection_request X endpoint_id 0))"
      "is_server_seq (rq_st ca) = 0" "is_client_seq (rq_st ca) = 0"
      "aside ca = ([], fs, None, i, None, [], None, [])" "ob_payload ca = files"
    by (simp_all add: ca_def fresh_client_def new_outbound_def aside_def is_default_def)
  ultimately show ?thesis
    using client_starts [OF assms(1), of ca g] key
    by (auto simp: connecting_def exec fin m1 numeral_2_eq_2 [symmetric])
qed

text \<open>The client takes in the server's message.\<close>

lemma client_keyed:
  assumes e: "no_faults X" "codec_ok X" and m2: "m2 = enc_ukey2 X (server_init_frame X rnd g)" "length rnd = 32"
      "fits_frame m2"
    and c1: "conn c1 = SentUkeyClientInit" "is_private_key (rq_st c1) = Some sk"
      "is_client_init_msg_data (rq_st c1) = Some m1" "is_ukey_client_finish_msg_data (rq_st c1) = Some fin"
      "rq_in c1 = concat (framed m2)" "rq_out c1 = []"
    and g: "peer_point X g = Done pk"
    and k: "derive_keys X (sha256 X (diffie_hellman X sk pk)) (m1 @ m2) = Done k" "good_keys X k"
  shows "\<exists>c2. out_handle X fuel OnSocket c1 = (Done (), c2)
    \<and> rq_out c2 = framed fin @ framed (enc_offline X (connection_response_accept X))
    \<and> conn c2 = SentUkeyClientFinish
    \<and> rq_encrypt_key_aes c2 = Some (sk_client_key k) \<and> rq_decrypt_key_aes c2 = Some (sk_server_key k)
    \<and> rq_send_hmac c2 = Some (hmac_of (sk_client_hmac_key k))
    \<and> rq_recv_hmac c2 = Some (hmac_of (sk_server_hmac_key k))
    \<and> is_pin_code (rq_st c2) = Some (pin_of k)
    \<and> is_server_seq (rq_st c2) = is_server_seq (rq_st c1) \<and> is_client_seq (rq_st c2) = is_client_seq (rq_st c1)
    \<and> rq_draws c2 = rq_draws c1 \<and> aside c2 = aside (c1\<lparr>rq_in := []\<rparr>) \<and> ob_payload c2 = ob_payload c1
    \<and> is_encryption_done (rq_st c2)"
proof -
  have "out_handle X fuel OnSocket c1 = out_serve_frame X fuel m2 (c1\<lparr>rq_in := []\<rparr>)"
    using out_handle_plain [of c1 m2 "[]"] c1(5) m2(3) by simp
  then show ?thesis
    using client_finishes [OF e m2(2), of "c1\<lparr>rq_in := []\<rparr>" g pk sk m1 fin k fuel] c1 g k
    by (simp add: m2(1))
qed

text \<open>The server takes in the client's last message of the key exchange.\<close>

lemma server_keyed:
  assumes e: "codec_ok X" and fin: "fin = enc_ukey2 X (client_finish_frame X g)" "fits_frame fin"
    and s: "conn s = SentUkeyServerInit" "is_private_key (rq_st s) = Some sk"
      "is_client_init_msg_data (rq_st s) = Some m1" "is_server_init_data (rq_st s) = Some m2"
      "map_option cc_commitment (is_cipher_commitment (rq_st s)) = Some (Some (sha512 X fin))"
      "rq_in s = concat (framed fin) @ rest"
    and g: "peer_point X g = Done pk"
    and k: "derive_keys X (sha256 X (diffie_hellman X sk pk)) (m1 @ m2) = Done k" "good_keys X k"
  shows "\<exists>t. handle X OnSocket s = (Done (), t) \<and> rq_out t = rq_out s \<and> conn t = ReceivedUkeyClientFinish
    \<and> rq_encrypt_key_aes t = Some (sk_server_key k) \<and> rq_decrypt_key_aes t = Some (sk_client_key k)
    \<and> rq_send_hmac t = Some (hmac_of (sk_server_hmac_key k))
    \<and> rq_recv_hmac t = Some (hmac_of (sk_client_hmac_key k)) \<and> is_pin_code (rq_st t) = Some (pin_of k)
    \<and> is_server_seq (rq_st t) = is_server_seq (rq_st s) \<and> is_client_seq (rq_st t) = is_client_seq (rq_st s)
    \<and> rq_draws t = rq_draws s \<and> aside t = aside (s\<lparr>rq_in := rest\<rparr>)"
proof -
  obtain b where "handle X OnSocket s = serve_frame X fin (set_recv_buf b (s\<lparr>rq_in := rest\<rparr>))"
    using handle_plain [OF s(6) fin(2)] by blast
  then show ?thesis
    using server_finishes [OF e, of "set_recv_buf b (s\<lparr>rq_in := rest\<rparr>)" g pk sk m1 m2 k] s g k
    by (simp add: fin(1))
qed

lemma keys_exchanged:
  assumes E: "session_env X" "handshake_fits X endpoint_id"
    and name: "from_utf8 (take 255 (as_bytes (os_hostname X))) = Some name"
    and keys: "usable_key X 1" "usable_key X 0"
  shows "\<exists>c1 c s pin. connecting X (fresh_client endpoint_id ci files rdi cfs) = (Done (), c1)
    \<and> for_each [ServerTurn 2, ClientTurn 1, ServerTurn 1] (take_turn X fuel) (c1, fresh_server si sfs dl)
        = (Done (), (c, s))
    \<and> keys_agreed X \<lparr>rdi_name = name, rdi_type = DevLaptop\<rparr> pin files c s
    \<and> rq_fs c = cfs \<and> rq_fs s = sfs \<and> rq_custom_download s = dl"
proof -
  let ?c0 = "fresh_client endpoint_id ci files rdi cfs" and ?a = "gen_secret X 1" and ?b = "gen_secret X 0"
  have e: "no_faults X" "codec_ok X" "rand_ok X" "bigint_ok X" "kdf_ok X" "dh_ok X"
    using E(1) by (simp_all add: session_env_def exchange_env_def)
  obtain gc where gc: "own_public_key X (public_of X ?a) = Done gc" "peer_point X gc = Done (public_of X ?a)"
    using own_public_key_read [OF e(4)] keys(1) unfolding usable_key_def by blast
  obtain gs where gs: "own_public_key X (public_of X ?b) = Done gs" "peer_point X gs = Done (public_of X ?b)"
    using own_public_key_read [OF e(4)] keys(2) unfolding usable_key_def by blast
  define fin where "fin = enc_ukey2 X (client_finish_frame X gc)"
  define m1 where "m1 = enc_ukey2 X (client_init_frame X (os_rand X 2 32) (sha512 X fin))"
  define m2 where "m2 = enc_ukey2 X (server_init_frame X (os_rand X 1 32) gs)"
  define m0 where "m0 = enc_offline X (connection_request X endpoint_id 0)"
  define m4 where "m4 = enc_offline X (connection_response_accept X)"
  have r32: "length (os_rand X k 32) = 32" for k using e(3) by (simp add: rand_ok_def)
  have fits: "fits_frame m1" "fits_frame m2" "fits_frame fin" "fits_frame m4"
    unfolding m1_def m2_def fin_def
    by (rule handshake_fitsD [OF E(2) gc(1)] handshake_fitsD [OF E(2) gs(1)] r32)+
      (use E(2) in \<open>simp add: handshake_fits_def m4_def\<close>)
  obtain k where k: "derive_keys X (sha256 X (diffie_hellman X ?a (public_of X ?b))) (m1 @ m2) = Done k"
      "good_keys X k"
    using derive_keys_Done [OF e(5)] by blast
  have k': "derive_keys X (sha256 X (diffie_hellman X ?b (public_of X ?a))) (m1 @ m2) = Done k"
    using k(1) e(6) by (simp add: dh_ok_def)
  obtain c1 where c1: "connecting X ?c0 = (Done (), c1)" "rq_out c1 = framed m0 @ framed m1"
      "conn c1 = SentUkeyClientInit" "is_private_key (rq_st c1) = Some ?a"
      "is_client_init_msg_data (rq_st c1) = Some m1" "is_ukey_client_finish_msg_data (rq_st c1) = Some fin"
      "is_server_seq (rq_st c1) = 0" "is_client_seq (rq_st c1) = 0" "rq_draws c1 = 3"
      "aside c1 = ([], cfs, None, ci, None, [], None, [])" "ob_payload c1 = files"
    using client_begins [OF e(1) gc(1) fin_def m1_def] unfolding m0_def by blast
  obtain s2 where s2: "for_each (replicate 2 OnSocket) (handle X)
        ((fresh_server si sfs dl)\<lparr>rq_in := concat (framed m0 @ framed m1)\<rparr>) = (Done (), s2)"
      "rq_out s2 = framed m2" "conn s2 = SentUkeyServerInit" "is_private_key (rq_st s2) = Some ?b"
      "is_client_init_msg_data (rq_st s2) = Some m1" "is_server_init_data (rq_st s2) = Some m2"
      "map_option cc_commitment (is_cipher_commitment (rq_st s2)) = Some (Some (sha512 X fin))"
      "is_server_seq (rq_st s2) = 0" "is_client_seq (rq_st s2) = 0" "rq_draws s2 = 2"
      "aside s2 = ([], sfs, dl, si, Some \<lparr>rdi_name = name, rdi_type = DevLaptop\<rparr>, [], None, [])"
    using server_begins [where i = si and fs = sfs and dl = dl and k = 0,
        OF E name refl m1_def r32 fits(1) gs(1)]
    unfolding m0_def m2_def by blast
  have t1: "take_turn X fuel (ServerTurn 2) (c1, fresh_server si sfs dl) = (Done (), (c1\<lparr>rq_out := []\<rparr>, s2))"
    using s2(1) c1(2) by (intro server_turn) (simp add: fresh_server_def new_inbound_def)
  let ?c1 = "c1\<lparr>rq_out := [], rq_in := concat (framed m2)\<rparr>"
  obtain c2 where c2: "out_handle X fuel OnSocket ?c1 = (Done (), c2)"
      "rq_out c2 = framed fin @ framed m4" "conn c2 = SentUkeyClientFinish"
      "rq_encrypt_key_aes c2 = Some (sk_client_key k)" "rq_decrypt_key_aes c2 = Some (sk_server_key k)"
      "rq_send_hmac c2 = Some (hmac_of (sk_client_hmac_key k))" "rq_recv_hmac c2 = Some (hmac_of (sk_server_hmac_key k))"
      "is_pin_code (rq_st c2) = Some (pin_of k)" "is_server_seq (rq_st c2) = 0" "is_client_seq (rq_st c2) = 0"
      "rq_draws c2 = 3" "aside c2 = ([], cfs, None, ci, None, [], None, [])" "ob_payload c2 = files"
      "is_encryption_done (rq_st c2)"
    using client_keyed [OF e(1,2) m2_def r32 fits(2), of ?c1 ?a m1 fin "public_of X ?b" k fuel] c1 gs(2) k
    unfolding m4_def by (auto simp: aside_def)
  have t2: "take_turn X fuel (ClientTurn 1) (c1\<lparr>rq_out := []\<rparr>, s2) = (Done (), (c2, s2\<lparr>rq_out := []\<rparr>))"
    using c2(1) c1(10) s2(2) by (intro client_turn) (simp add: exec aside_def)
  let ?s2 = "s2\<lparr>rq_out := [], rq_in := concat (framed fin @ framed m4)\<rparr>"
  obtain s3 where s3: "handle X OnSocket ?s2 = (Done (), s3)" "rq_out s3 = []" "conn s3 = ReceivedUkeyClientFinish"
      "rq_encrypt_key_aes s3 = Some (sk_server_key k)" "rq_decrypt_key_aes s3 = Some (sk_client_key k)"
      "rq_send_hmac s3 = Some (hmac_of (sk_server_hmac_key k))" "rq_recv_hmac s3 = Some (hmac_of (sk_client_hmac_key k))"
      "is_pin_code (rq_st s3) = Some (pin_of k)" "is_server_seq (rq_st s3) = 0" "is_client_seq (rq_st s3) = 0"
      "rq_draws s3 = 2"
      "aside s3 = (concat (framed m4), sfs, dl, si, Some \<lparr>rdi_name = name, rdi_type = DevLaptop\<rparr>, [], None, [])"
    using server_keyed [OF e(2) fin_def fits(3), of ?s2 ?b m1 m2 "concat (framed m4)" "public_of X ?a" k]
      s2 gc(2) k' k(2) by (auto simp: aside_def)
  have t3: "take_turn X fuel (ServerTurn 1) (c2, s2\<lparr>rq_out := []\<rparr>) = (Done (), (c2\<lparr>rq_out := []\<rparr>, s3))"
    using s3(1) c2(2) s2(11) by (intro server_turn) (simp add: exec aside_def)
  have "keys_agreed X \<lparr>rdi_name = name, rdi_type = DevLaptop\<rparr> (pin_of k) files (c2\<lparr>rq_out := []\<rparr>) s3"
    using c2 s3 by (auto simp: keys_agreed_def linked_def aside_def m4_def pin_of_nonempty)
  moreover note c1(1)
  moreover have "for_each [ServerTurn 2, ClientTurn 1, ServerTurn 1] (take_turn X fuel) (c1, fresh_server si sfs dl)
      = (Done (), (c2\<lparr>rq_out := []\<rparr>, s3))"
    using t1 t2 t3 by (simp add: exec)
  ultimately show ?thesis
    using c2(12) s3(12) by (intro exI) (auto simp: aside_def)
qed

section \<open>Sharing frames on their way\<close>

text \<open>What a request writes with, what it reads with, and what sharing frames leave alone.\<close>

definition writer where
  "writer r = (rq_encrypt_key_aes r, rq_send_hmac r, is_server_seq (rq_st r))"

definition reader where
  "reader r = (rq_decrypt_key_aes r, rq_recv_hmac r, is_client_seq (rq_st r))"

definition standing where
  "standing r = (rq_fs r, rq_custom_download r, is_id (rq_st r), is_remote_device_info (rq_st r),
     is_pin_code (rq_st r), is_text_payload (rq_st r), is_encryption_done (rq_st r))"

lemma linked_writer:
  fixes s q :: "'x request_scheme" and r :: "'y request_scheme"
  shows "writer s = writer q \<Longrightarrow> linked s r = linked q r"
  by (simp add: writer_def linked_def)

lemma linked_reader:
  fixes s :: "'x request_scheme" and r t :: "'y request_scheme"
  shows "reader r = reader t \<Longrightarrow> linked s r = linked s t"
  by (simp add: reader_def linked_def)

lemma linked_armed: "linked s r \<Longrightarrow> armed s"
  by (simp add: linked_def armed_def)

lemma coreD_st:
  assumes "core t = core r"
  shows "is_client_seq (rq_st t) = is_client_seq (rq_st r)" "is_id (rq_st t) = is_id (rq_st r)"
    "is_remote_device_info (rq_st t) = is_remote_device_info (rq_st r)"
    "is_pin_code (rq_st t) = is_pin_code (rq_st r)" "is_text_payload (rq_st t) = is_text_payload (rq_st r)"
    "is_payload_buffers (rq_st t) = is_payload_buffers (rq_st r)"
    "is_transferred_files (rq_st t) = is_transferred_files (rq_st r)" "is_state (rq_st t) = is_state (rq_st r)"
    "is_encryption_done (rq_st t) = is_encryption_done (rq_st r)"
  using coreD(8) [OF assms, THEN arg_cong, of is_encryption_done] coreD(8) [OF assms, THEN arg_cong, of is_client_seq] coreD(8) [OF assms, THEN arg_cong, of is_id]
    coreD(8) [OF assms, THEN arg_cong, of is_remote_device_info] coreD(8) [OF assms, THEN arg_cong, of is_pin_code]
    coreD(8) [OF assms, THEN arg_cong, of is_text_payload] coreD(8) [OF assms, THEN arg_cong, of is_payload_buffers]
    coreD(8) [OF assms, THEN arg_cong, of is_transferred_files] coreD(8) [OF assms, THEN arg_cong, of is_state]
  by simp_all

lemma core_views:
  assumes "core t = core r"
  shows "reader t = reader r" "standing t = standing r"
  using coreD [OF assms] coreD_st [OF assms] by (simp_all add: reader_def standing_def)

lemma ashore_views:
  assumes "ashore t = ashore r"
  shows "writer t = writer r" "standing t = standing r" "is_transferred_files (rq_st t) = is_transferred_files (rq_st r)"
  using ashoreD(1-8) [OF assms] ashoreD(9) [OF assms, THEN arg_cong, of is_id]
    ashoreD(9) [OF assms, THEN arg_cong, of is_server_seq] ashoreD(9) [OF assms, THEN arg_cong, of is_encryption_done]
    ashoreD(9) [OF assms, THEN arg_cong, of is_remote_device_info]
    ashoreD(9) [OF assms, THEN arg_cong, of is_pin_code] ashoreD(9) [OF assms, THEN arg_cong, of is_text_payload]
    ashoreD(9) [OF assms, THEN arg_cong, of is_transferred_files]
  by (simp_all add: writer_def standing_def)

text \<open>
  The bytes of a sharing frame, sent under a payload id by a request that wrote as \<open>s\<close> before
  and writes as \<open>s'\<close> after.
\<close>

definition in_transit ::
  "env \<Rightarrow> sharing_frame \<Rightarrow> i64 \<Rightarrow> 'x request_scheme \<Rightarrow> 'x request_scheme \<Rightarrow> bytes \<Rightarrow> bool" where
  "in_transit X g i s s' bs \<longleftrightarrow> (\<exists>(q :: 'x request_scheme) q' ws. writer q = writer s \<and> os_rand_i64 X (rq_draws q) = i
     \<and> send_encrypted_frame X g q = (Done (), q') \<and> rq_out q' = rq_out q @ ws
     \<and> list_all fits_frame ws \<and> bs = concat ws \<and> writer q' = writer s')"

lemma in_transit_writer:
  fixes r s :: "'x request_scheme"
  assumes "in_transit X g i s s' bs" and "writer r = writer s" and "writer r' = writer s'"
  shows "in_transit X g i r r' bs"
  using assms by (simp add: in_transit_def)

lemma sends:
  assumes "channel_env X" "no_faults X" "armed r" "sendable X g"
  shows "\<exists>t bs. send_encrypted_frame X g r = (Done (), t) \<and> in_transit X g (os_rand_i64 X (rq_draws r)) r t bs
    \<and> concat (rq_out t) = concat (rq_out r) @ bs \<and> armed t \<and> rq_draws t = rq_draws r + 3 \<and> core t = core r"
  using sends_sharing [OF assms] by (force simp: in_transit_def)

context sharing_receiver
begin

lemma receives_sent:
  fixes s s' :: "'y request_scheme"
  assumes X: "channel_env X" and l: "linked s r" and sent: "in_transit X g i s s' bs"
    and r: "rq_in r = bs @ rest" "ready r" "hm_lookup (is_payload_buffers (rq_st r)) i = None"
    and g: "sendable X g"
  shows "\<exists>t. andthen step step r = deliver g t \<and> rq_in t = rest \<and> linked s' t
    \<and> ashore t = ashore r \<and> kept t = kept r
    \<and> (\<forall>j. j \<noteq> i \<longrightarrow> hm_lookup (is_payload_buffers (rq_st t)) j = hm_lookup (is_payload_buffers (rq_st r)) j)"
proof -
  obtain q q' :: "'y request_scheme" and ws where q: "writer q = writer s" "os_rand_i64 X (rq_draws q) = i"
      "send_encrypted_frame X g q = (Done (), q')" "rq_out q' = rq_out q @ ws" "list_all fits_frame ws"
      "bs = concat ws" "writer q' = writer s'"
    using sent by (auto simp: in_transit_def)
  have "linked q r" using l linked_writer [OF q(1), of r] by simp
  from delivers_sharing [OF X this q(3,4,5), of rest] r q(2,6) g
  show ?thesis by (auto simp: sendable_def linked_writer [OF q(7)])
qed

end

section \<open>The two sides, step by step\<close>

lemma handshake_frames [simp]:
  "v1_frame_type (the (of_v1 (connection_response_accept X))) = FrConnectionResponse"
  "of_v1 (connection_response_accept X) \<noteq> None"
  "response_of (the (v1_connection_response (the (of_v1 (connection_response_accept X))))) = RsAccept"
  "v1_connection_response (the (of_v1 (connection_response_accept X))) \<noteq> None"
  using enum_roundtrip(1) [of FrConnectionResponse] enum_roundtrip(3) [of RsAccept]
  by (simp_all add: connection_response_accept_def offline_v1_def v1_frame_type_def response_of_def)

lemma response_parts:
  "\<exists>v c. of_v1 (connection_response_accept X) = Some v \<and> v1_frame_type v = FrConnectionResponse
    \<and> v1_connection_response v = Some c \<and> response_of c = RsAccept"
  using handshake_frames [of X] by (metis option.collapse)

lemma paired_key_frames:
  "\<exists>v. sf_v1 (paired_key_encryption X k1 k2) = Some v \<and> sv_frame_type v = ShPairedKeyEncryption
    \<and> sv_paired_key_encryption v \<noteq> None"
  "\<exists>v. sf_v1 paired_key_result = Some v \<and> sv_frame_type v = ShPairedKeyResult
    \<and> sv_paired_key_result v \<noteq> None"
  "\<exists>v. sf_v1 (introduction_frame_of metas) = Some v \<and> sv_frame_type v = ShIntroduction
    \<and> sv_introduction v = Some \<lparr>in_files = metas, in_texts = [], in_wifis = []\<rparr>"
  using enum_roundtrip(6) [of ShPairedKeyEncryption] enum_roundtrip(6) [of ShPairedKeyResult]
    enum_roundtrip(6) [of ShIntroduction]
  by (simp_all add: paired_key_encryption_def paired_key_result_def introduction_frame_of_def
      sharing_v1_frame_def sv_frame_type_def)

lemmas view_defs = writer_def reader_def standing_def armed_def

text \<open>What a step of a side keeps, apart from what it sends and reads.\<close>

definition keeps_views :: "'x request_scheme \<Rightarrow> 'x request_scheme \<Rightarrow> bool" where
  "keeps_views r t \<longleftrightarrow> reader t = reader r \<and> standing t = standing r \<and>
     is_payload_buffers (rq_st t) = is_payload_buffers (rq_st r) \<and>
     is_transferred_files (rq_st t) = is_transferred_files (rq_st r)"

lemma keeps_core: "core t = core r \<Longrightarrow> keeps_views r t"
  using coreD_st [of t r] core_views [of t r] by (simp add: keeps_views_def)

lemma process_connection_response_runs:
  assumes "no_faults X" and "of_v1 frame = Some v" and "v1_frame_type v = FrConnectionResponse"
  shows "process_connection_response X frame r
    = send_encrypted_frame X (paired_key_encryption X (rq_draws r) (rq_draws r + 1))
        (r\<lparr>rq_out := rq_out r @ framed (enc_offline X (connection_response_accept X)),
           rq_draws := rq_draws r + 2\<rparr>)"
  by (simp add: process_connection_response_def assms(2,3) bind_ok_or andthen_fail_if
      andthen_Done [OF send_frame_no_faults [OF assms(1)]] draw_def bind_Done)

lemma andthen_eq: "m r = m' q \<Longrightarrow> andthen m k r = andthen m' k q"
  by (simp add: andthen_def bind_def)

lemma then_set_state:
  "m r = (Done (), t) \<Longrightarrow> andthen m (set_state role x False) r
    = (Done (), upd_st (\<lambda>e. e\<lparr>is_state := x\<rparr>) t)"
  by (simp add: andthen_Done set_state_def update_state_def exec)

text \<open>Every step of the paired key exchange: send a sharing frame, move on.\<close>

lemma sends_and_moves:
  fixes r :: "'x request_scheme"
  assumes E: "session_env X" and r: "armed r" and g: "sendable X g"
  shows "\<exists>t bs. andthen (send_encrypted_frame X g) (set_state role x False) r = (Done (), t) \<and> conn t = x
    \<and> in_transit X g (os_rand_i64 X (rq_draws r)) r t bs \<and> concat (rq_out t) = concat (rq_out r) @ bs
    \<and> armed t \<and> rq_draws t = rq_draws r + 3 \<and> keeps_views r t \<and> rq_in t = rq_in r
    \<and> request.more t = request.more r"
proof -
  have e: "channel_env X" "no_faults X" using E by (simp_all add: session_env_def)
  obtain t bs where t: "send_encrypted_frame X g r = (Done (), t)"
      "in_transit X g (os_rand_i64 X (rq_draws r)) r t bs" "concat (rq_out t) = concat (rq_out r) @ bs"
      "armed t" "rq_draws t = rq_draws r + 3" "core t = core r"
    using sends [OF e r g] by blast
  let ?t = "upd_st (\<lambda>e. e\<lparr>is_state := x\<rparr>) t"
  have "in_transit X g (os_rand_i64 X (rq_draws r)) r ?t bs"
    by (rule in_transit_writer [OF t(2)]) (simp_all add: writer_def upd_st_def)
  moreover have "keeps_views r ?t"
    using keeps_core [OF t(6)] by (simp add: keeps_views_def view_defs upd_st_def)
  moreover have "request.more ?t = request.more r"
    using arg_cong [OF t(6), of request.more] by (simp add: upd_st_def core_def)
  moreover have "andthen (send_encrypted_frame X g) (set_state role x False) r = (Done (), ?t)"
    by (rule then_set_state) (rule t(1))
  ultimately show ?thesis
    using t(3-5) coreD(1) [OF t(6)]
    by (intro exI [of _ ?t] exI [of _ bs]) (simp add: armed_def upd_st_def conn_def)
qed

lemma keeps_views_trans: "keeps_views r s \<Longrightarrow> keeps_views s t \<Longrightarrow> keeps_views r t"
  by (simp add: keeps_views_def)

lemma server_responds:
  assumes E: "session_env X" "handshake_fits X endpoint_id" and g: "\<And>k1 k2. sendable X (paired_key_encryption X k1 k2)"
    and s: "conn s = ReceivedUkeyClientFinish" "armed s" "rq_out s = []"
      "rq_in s = concat (framed (enc_offline X (connection_response_accept X)))"
  shows "\<exists>t bs. handle X OnSocket s = (Done (), t) \<and> conn t = SentConnectionResponse
    \<and> concat (rq_out t) = concat (framed (enc_offline X (connection_response_accept X))) @ bs
    \<and> in_transit X (paired_key_encryption X (rq_draws s) (rq_draws s + 1)) (os_rand_i64 X (rq_draws s + 2)) s t bs
    \<and> rq_in t = [] \<and> rq_draws t = rq_draws s + 5 \<and> armed t \<and> keeps_views s t"
proof -
  let ?m = "enc_offline X (connection_response_accept X)"
    and ?g = "paired_key_encryption X (rq_draws s) (rq_draws s + 1)"
  have e: "no_faults X" "codec_ok X" using E(1) by (simp_all add: session_env_def exchange_env_def)
  have "fits_frame ?m" using E(2) by (simp add: handshake_fits_def)
  then obtain b where h: "handle X OnSocket s = serve_frame X ?m (set_recv_buf b (s\<lparr>rq_in := []\<rparr>))"
    using handle_plain [of s ?m "[]"] s(4) by auto
  let ?s = "set_recv_buf b (s\<lparr>rq_in := []\<rparr>)"
  define q where "q = ?s\<lparr>rq_out := framed ?m, rq_draws := rq_draws s + 2\<rparr>"
  have q: "armed q" "writer q = writer s" "rq_draws q = rq_draws s + 2" "rq_out q = framed ?m"
      "keeps_views s q" "rq_in q = []"
    using s(2) by (simp_all add: q_def view_defs keeps_views_def set_recv_buf_def)
  obtain v where v: "of_v1 (connection_response_accept X) = Some v" "v1_frame_type v = FrConnectionResponse"
    using response_parts by blast
  have "process_connection_response X (connection_response_accept X) ?s = send_encrypted_frame X ?g q"
    using process_connection_response_runs [OF e(1) v, of ?s] s(3) by (simp add: q_def set_recv_buf_def)
  then have "handle X OnSocket s
      = andthen (send_encrypted_frame X ?g) (set_state Inbound SentConnectionResponse False) q"
    using h s(1) codec_okD(1) [OF e(2)]
    by (simp add: serve_frame_def bind_get conn_def bind_ok_or) (rule andthen_eq)
  moreover obtain t bs where t: "andthen (send_encrypted_frame X ?g) (set_state Inbound SentConnectionResponse False) q = (Done (), t)"
      "conn t = SentConnectionResponse" "in_transit X ?g (os_rand_i64 X (rq_draws q)) q t bs"
      "concat (rq_out t) = concat (rq_out q) @ bs" "armed t" "rq_draws t = rq_draws q + 3" "keeps_views q t" "rq_in t = rq_in q"
    using sends_and_moves [OF E(1) q(1) g] by blast
  moreover have "in_transit X ?g (os_rand_i64 X (rq_draws s + 2)) s t bs"
    by (rule in_transit_writer [OF t(3) [unfolded q(3)]]) (simp_all add: q(2))
  ultimately show ?thesis
    using q(3,4,6) keeps_views_trans [OF q(5)] by (intro exI [of _ t] exI [of _ bs]) simp
qed

lemma check_connection_response_runs:
  "check_connection_response X (connection_response_accept X) r
    = send_encrypted_frame X (paired_key_encryption X (rq_draws r) (rq_draws r + 1)) (r\<lparr>rq_draws := rq_draws r + 2\<rparr>)"
proof -
  obtain v c where "of_v1 (connection_response_accept X) = Some v" "v1_frame_type v = FrConnectionResponse"
      "v1_connection_response v = Some c" "response_of c = RsAccept"
    using response_parts by blast
  then show ?thesis
    by (simp add: check_connection_response_def bind_ok_or andthen_fail_if draw_def bind_Done)
qed

lemma client_checks:
  assumes E: "session_env X" "handshake_fits X endpoint_id" and g: "\<And>k1 k2. sendable X (paired_key_encryption X k1 k2)"
    and c: "conn c = SentUkeyClientFinish" "armed c" "rq_out c = []"
      "rq_in c = concat (framed (enc_offline X (connection_response_accept X))) @ rest" "is_encryption_done (rq_st c)"
  shows "\<exists>t bs. out_handle X fuel OnSocket c = (Done (), t) \<and> conn t = SentPairedKeyEncryption
    \<and> concat (rq_out t) = bs
    \<and> in_transit X (paired_key_encryption X (rq_draws c) (rq_draws c + 1)) (os_rand_i64 X (rq_draws c + 2)) c t bs
    \<and> rq_in t = rest \<and> rq_draws t = rq_draws c + 5 \<and> armed t \<and> keeps_views c t \<and> ob_payload t = ob_payload c"
proof -
  let ?m = "enc_offline X (connection_response_accept X)"
    and ?g = "paired_key_encryption X (rq_draws c) (rq_draws c + 1)"
  have e: "channel_env X" "no_faults X" "codec_ok X"
    using E(1) by (simp_all add: session_env_def exchange_env_def)
  have "fits_frame ?m" using E(2) by (simp add: handshake_fits_def)
  then have h: "out_handle X fuel OnSocket c = out_serve_frame X fuel ?m (c\<lparr>rq_in := rest\<rparr>)"
    using out_handle_plain c(4) by blast
  define q where "q = c\<lparr>rq_in := rest, rq_draws := rq_draws c + 2\<rparr>"
  have q: "armed q" "writer q = writer c" "rq_draws q = rq_draws c + 2" "rq_out q = []"
      "keeps_views c q" "rq_in q = rest" "ob_payload q = ob_payload c"
    using c(2,3) by (simp_all add: q_def view_defs keeps_views_def)
  obtain t bs where t: "send_encrypted_frame X ?g q = (Done (), t)"
      "in_transit X ?g (os_rand_i64 X (rq_draws q)) q t bs" "concat (rq_out t) = concat (rq_out q) @ bs"
      "armed t" "rq_draws t = rq_draws q + 3" "core t = core q"
    using sends [OF e(1,2) q(1) g] by blast
  let ?t = "upd_st (\<lambda>e. e\<lparr>is_state := SentPairedKeyEncryption, is_server_init_data := Some ?m,
    is_encryption_done := True\<rparr>) t"
  have "check_connection_response X (connection_response_accept X) (c\<lparr>rq_in := rest\<rparr>) = (Done (), t)"
    using check_connection_response_runs [of X "c\<lparr>rq_in := rest\<rparr>"] t(1) by (simp add: q_def)
  then have "out_handle X fuel OnSocket c = (Done (), ?t)"
    using c(1) codec_okD(1) [OF e(3)]
    by (simp add: h out_serve_frame_def bind_get conn_def bind_ok_or andthen_Done update_state_def exec)
  moreover have "in_transit X ?g (os_rand_i64 X (rq_draws c + 2)) c ?t bs"
    by (rule in_transit_writer [OF t(2) [unfolded q(3)]]) (simp_all add: q(2), simp add: writer_def upd_st_def)
  moreover have "keeps_views c ?t"
    using keeps_views_trans [OF q(5) keeps_core [OF t(6)]] c(5) by (simp add: keeps_views_def view_defs upd_st_def)
  moreover have "ob_payload ?t = ob_payload c" "rq_in ?t = rest"
    using arg_cong [OF t(6), of ob_payload] coreD(1) [OF t(6)] q(6,7) by (simp_all add: upd_st_def core_def)
  ultimately show ?thesis
    using t(3-5) q(3,4) by (intro exI [of _ ?t] exI [of _ bs]) (simp add: armed_def upd_st_def conn_def)
qed

text \<open>A side that answers a sharing frame with another one and moves on.\<close>

context sharing_receiver
begin

lemma replies:
  fixes s s' :: "'y request_scheme"
  assumes E: "session_env X" and l: "linked s r" and sent: "in_transit X g i s s' bs"
    and r: "rq_in r = bs @ rest" "ready r" "hm_lookup (is_payload_buffers (rq_st r)) i = None" "armed r"
    and g: "sendable X g" "sendable X h"
    and answer: "\<And>t. conn t = conn r \<Longrightarrow>
      deliver g t = andthen (send_encrypted_frame X h) (set_state role x False) t"
  shows "\<exists>t u bs'. andthen step step r = (Done (), u) \<and> rq_in u = rest \<and> linked s' u \<and> conn u = x
    \<and> in_transit X h (os_rand_i64 X (rq_draws r)) r u bs' \<and> concat (rq_out u) = concat (rq_out r) @ bs'
    \<and> armed u \<and> rq_draws u = rq_draws r + 3 \<and> standing u = standing r
    \<and> is_transferred_files (rq_st u) = is_transferred_files (rq_st r)
    \<and> (\<forall>j. j \<noteq> i \<longrightarrow> hm_lookup (is_payload_buffers (rq_st u)) j = hm_lookup (is_payload_buffers (rq_st r)) j)
    \<and> kept t = kept r \<and> request.more u = request.more t"
proof -
  have "channel_env X" using E by (simp add: session_env_def)
  from receives_sent [OF this l sent r(1-3) g(1)] obtain t where
    t: "andthen step step r = deliver g t" "rq_in t = rest" "linked s' t" "ashore t = ashore r" "kept t = kept r"
      "\<forall>j. j \<noteq> i \<longrightarrow> hm_lookup (is_payload_buffers (rq_st t)) j = hm_lookup (is_payload_buffers (rq_st r)) j"
    by blast
  note v = ashore_views [OF t(4)] ashoreD(1,2) [OF t(4)]
  have "armed t" using r(4) v(1) by (simp add: armed_def writer_def)
  from sends_and_moves [OF E this g(2), of role x] obtain u bs' where
    u: "andthen (send_encrypted_frame X h) (set_state role x False) t = (Done (), u)" "conn u = x"
      "in_transit X h (os_rand_i64 X (rq_draws t)) t u bs'" "concat (rq_out u) = concat (rq_out t) @ bs'"
      "armed u" "rq_draws u = rq_draws t + 3" "keeps_views t u" "rq_in u = rq_in t" "request.more u = request.more t"
    by blast
  have "andthen step step r = (Done (), u)"
    using t(1) u(1) answer [OF ashore_conn [OF t(4)]] by simp
  moreover have "linked s' u"
    using t(3) linked_reader [of u t s'] u(7) by (simp add: keeps_views_def)
  moreover have "in_transit X h (os_rand_i64 X (rq_draws r)) r u bs'"
    by (rule in_transit_writer [OF u(3) [unfolded v(5)]]) (simp_all add: v(1))
  ultimately show ?thesis
    using t(2,5,6) u v by (intro exI [of _ t] exI [of _ u] exI [of _ bs']) (simp add: keeps_views_def)
qed

end

section \<open>What the introduction contains\<close>

fun announcements :: "env \<Rightarrow> (path \<Rightarrow> fs_node option) \<Rightarrow> nat \<Rightarrow> path list \<Rightarrow> (file_metadata \<times> path) list" where
  "announcements X fs k [] = []"
| "announcements X fs k (f # ps) =
     (if announceable X fs f then
        (\<lparr>fm_name = path_file_name f, fm_type = Some (enum_num file_type_table (meta_type (os_mime X f) f)),
         fm_payload_id = Some (os_rand_i64 X k), fm_size = Some (content_size fs f),
         fm_mime_type = Some (os_mime X f)\<rparr>, f) # announcements X fs (Suc k) ps
      else announcements X fs k ps)"

definition introduced :: "env \<Rightarrow> (path \<Rightarrow> fs_node option) \<Rightarrow> nat \<Rightarrow> path list \<Rightarrow> file_metadata list" where
  "introduced X fs k ps = map fst (announcements X fs k ps)"

definition note_outgoing ::
  "(i64, internal_file_info) hashmap \<Rightarrow> file_metadata \<times> path \<Rightarrow> (i64, internal_file_info) hashmap" where
  "note_outgoing m a = hm_insert (file_payload_id (fst a)) (outgoing_info (fst a) (snd a)) m"

lemma introduced_views:
  "map fm_name (introduced X fs k ps) = map path_file_name (filter (announceable X fs) ps)"
  "map file_size (introduced X fs k ps) = map (content_size fs) (filter (announceable X fs) ps)"
  "length (introduced X fs k ps) = length (filter (announceable X fs) ps)"
  by (induction ps arbitrary: k) (simp_all add: introduced_def file_size_def)

lemma introduced_names:
  "\<forall>f \<in> set ps. announceable X fs f \<longrightarrow> path_file_name f \<noteq> None \<Longrightarrow>
     map file_name_of (introduced X fs k ps) = map (\<lambda>f. the (path_file_name f)) (filter (announceable X fs) ps)"
  by (induction ps arbitrary: k) (auto simp: introduced_def file_name_of_def)

lemma collects:
  assumes "\<forall>f \<in> set ps. announceable X (rq_fs r) f \<longrightarrow> path_file_name f \<noteq> None"
  shows "collect_files X ps metas infos n r
    = (Done (metas @ introduced X (rq_fs r) (rq_draws r) ps,
         foldl note_outgoing infos (announcements X (rq_fs r) (rq_draws r) ps),
         n + sum_list (map (content_size (rq_fs r)) (filter (announceable X (rq_fs r)) ps))),
       r\<lparr>rq_draws := rq_draws r + length (announcements X (rq_fs r) (rq_draws r) ps)\<rparr>)"
  using assms
proof (induction ps arbitrary: metas infos n r)
  case (Cons f ps)
  show ?case
  proof (cases "announceable X (rq_fs r) f")
    case True
    let ?m = "fst (hd (announcements X (rq_fs r) (rq_draws r) (f # ps)))" and ?r = "r\<lparr>rq_draws := Suc (rq_draws r)\<rparr>"
    have "collect_files X (f # ps) metas infos n r = collect_files X ps (metas @ [?m])
        (note_outgoing infos (?m, f)) (n + content_size (rq_fs r) f) ?r"
      using True Cons.prems
      by (auto simp: announceable_def exec Let_def draw_def bind_Done content_size_def note_outgoing_def)
    also have "\<dots> = (Done ((metas @ [?m]) @ introduced X (rq_fs r) (Suc (rq_draws r)) ps,
         foldl note_outgoing (note_outgoing infos (?m, f)) (announcements X (rq_fs r) (Suc (rq_draws r)) ps),
         n + content_size (rq_fs r) f + sum_list (map (content_size (rq_fs r)) (filter (announceable X (rq_fs r)) ps))),
       r\<lparr>rq_draws := Suc (rq_draws r) + length (announcements X (rq_fs r) (Suc (rq_draws r)) ps)\<rparr>)"
      using Cons.IH [of ?r] Cons.prems by simp
    finally show ?thesis using True by (simp add: introduced_def del: collect_files.simps)
  next
    case False
    then have "collect_files X (f # ps) metas infos n r = collect_files X ps metas infos n r"
      by (auto simp: announceable_def exec)
    with Cons False show ?thesis by (simp add: introduced_def del: collect_files.simps)
  qed
qed (simp add: ret_exec introduced_def)

section \<open>The paired keys and the introduction\<close>

lemma client_answers_keys:
  "conn t = SentPairedKeyEncryption \<Longrightarrow> process_setup X fuel (paired_key_encryption X k1 k2) t
    = andthen (send_encrypted_frame X paired_key_result) (set_state Outbound SentPairedKeyResult False) t"
proof -
  obtain v where "sf_v1 (paired_key_encryption X k1 k2) = Some v" "sv_frame_type v = ShPairedKeyEncryption"
      "sv_paired_key_encryption v \<noteq> None"
    using paired_key_frames(1) by blast
  then show "conn t = SentPairedKeyEncryption \<Longrightarrow> ?thesis"
    by (simp add: process_setup_def bind_ok_or bind_get conn_def answer_paired_key_encryption_def)
      (rule andthen_eq, auto simp: andthen_fail_if)
qed

lemma server_answers_keys:
  "conn t = SentConnectionResponse \<Longrightarrow> process_transfer_setup X (paired_key_encryption X k1 k2) t
    = andthen (send_encrypted_frame X paired_key_result) (set_state Inbound SentPairedKeyResult False) t"
proof -
  obtain v where "sf_v1 (paired_key_encryption X k1 k2) = Some v" "sv_frame_type v = ShPairedKeyEncryption"
      "sv_paired_key_encryption v \<noteq> None"
    using paired_key_frames(1) by blast
  then show "conn t = SentConnectionResponse \<Longrightarrow> ?thesis"
    by (simp add: process_transfer_setup_def bind_ok_or bind_get conn_def process_paired_key_encryption_frame_def)
      (rule andthen_eq, auto simp: andthen_fail_if)
qed

lemma server_takes_result:
  "conn t = SentPairedKeyResult \<Longrightarrow> process_transfer_setup X paired_key_result t
    = (Done (), upd_st (\<lambda>e. e\<lparr>is_state := ReceivedPairedKeyResult\<rparr>) t)"
proof -
  obtain v where "sf_v1 paired_key_result = Some v" "sv_frame_type v = ShPairedKeyResult"
      "sv_paired_key_result v \<noteq> None"
    using paired_key_frames(2) by blast
  then show "conn t = SentPairedKeyResult \<Longrightarrow> ?thesis"
    by (simp add: process_transfer_setup_def bind_ok_or bind_get conn_def process_paired_key_result_def)
      (rule then_set_state, auto simp: fail_if_def ret_exec)
qed

lemma server_introduced:
  "conn t = ReceivedPairedKeyResult \<Longrightarrow> \<exists>v. process_transfer_setup X (introduction_frame_of metas) t
    = process_introduction X v t \<and> sv_introduction v = Some \<lparr>in_files = metas, in_texts = [], in_wifis = []\<rparr>"
  using paired_key_frames(3) [of metas]
  by (auto simp: process_transfer_setup_def bind_ok_or bind_get conn_def)

lemma client_introduces:
  fixes t :: outbound
  assumes E: "session_env X" and t: "conn t = SentPairedKeyResult" "armed t"
    and names: "\<forall>f \<in> set (ob_payload t). announceable X (rq_fs t) f \<longrightarrow> path_file_name f \<noteq> None"
    and metas: "metas = introduced X (rq_fs t) (rq_draws t) (ob_payload t)" "sendable X (introduction_frame_of metas)"
  shows "\<exists>u bs. process_setup X fuel paired_key_result t = (Done (), u) \<and> conn u = SentIntroduction
    \<and> in_transit X (introduction_frame_of metas) (os_rand_i64 X (rq_draws t + length metas)) t u bs
    \<and> concat (rq_out u) = concat (rq_out t) @ bs \<and> reader u = reader t \<and> standing u = standing t
    \<and> rq_in u = rq_in t \<and> is_payload_buffers (rq_st u) = is_payload_buffers (rq_st t)
    \<and> is_transferred_files (rq_st u)
        = foldl note_outgoing [] (announcements X (rq_fs t) (rq_draws t) (ob_payload t))
    \<and> last (rq_chan u) = state_message Outbound (rq_st u)"
proof -
  let ?g = "introduction_frame_of metas"
  have e: "channel_env X" "no_faults X" using E by (simp_all add: session_env_def)
  obtain v where v: "sf_v1 paired_key_result = Some v" "sv_frame_type v = ShPairedKeyResult"
      "sv_paired_key_result v \<noteq> None"
    using paired_key_frames(2) by blast
  define infos where "infos = foldl note_outgoing [] (announcements X (rq_fs t) (rq_draws t) (ob_payload t))"
  obtain n where c: "collect_files X (ob_payload t) [] [] 0 t
      = (Done (metas, infos, n), t\<lparr>rq_draws := rq_draws t + length metas\<rparr>)"
    using collects [OF names, of "[]" "[]" 0] by (simp add: metas(1) introduced_def infos_def)
  define q where "q = upd_st (\<lambda>e. e\<lparr>is_transfer_metadata :=
      map_option (\<lambda>tmd. tmd\<lparr>tm_total_bytes := n\<rparr>) (is_transfer_metadata e), is_transferred_files := infos\<rparr>)
    (t\<lparr>rq_draws := rq_draws t + length metas\<rparr>)"
  have q: "armed q" "writer q = writer t" "reader q = reader t" "standing q = standing t"
      "rq_out q = rq_out t" "rq_draws q = rq_draws t + length metas" "rq_in q = rq_in t"
      "is_payload_buffers (rq_st q) = is_payload_buffers (rq_st t)" "is_transferred_files (rq_st q) = infos"
    using t(2) by (simp_all add: q_def view_defs upd_st_def)
  obtain u bs where u: "send_encrypted_frame X ?g q = (Done (), u)"
      "in_transit X ?g (os_rand_i64 X (rq_draws q)) q u bs" "concat (rq_out u) = concat (rq_out q) @ bs"
      "core u = core q"
    using sends [OF e q(1) metas(2)] by blast
  obtain w where w: "set_state Outbound SentIntroduction True u = (Done (), w)" "conn w = SentIntroduction"
      "rq_out w = rq_out u" "writer w = writer u" "reader w = reader u" "standing w = standing u" "rq_in w = rq_in u"
      "is_payload_buffers (rq_st w) = is_payload_buffers (rq_st u)"
      "is_transferred_files (rq_st w) = is_transferred_files (rq_st u)"
      "last (rq_chan w) = state_message Outbound (rq_st w)"
    by (simp add: set_state_def update_state_def exec conn_def view_defs upd_st_def)
  have "send_introduction X v t = (Done (), u)"
    using v(3) u(1) c
    by (simp add: send_introduction_def bind_get andthen_fail_if bind_Done update_state_def exec
        q_def [symmetric])
  then have "process_setup X fuel paired_key_result t = (Done (), w)"
    using v(1,2) t(1) w(1) by (simp add: process_setup_def bind_ok_or bind_get conn_def andthen_Done)
  moreover have "in_transit X ?g (os_rand_i64 X (rq_draws t + length metas)) t w bs"
    by (rule in_transit_writer [OF u(2) [unfolded q(6)]]) (simp_all add: q(2) w(4))
  ultimately show ?thesis
    using w u(3) q core_views [OF u(4)] coreD(1) [OF u(4)] coreD_st(6,7) [OF u(4)]
    by (intro exI [of _ w] exI [of _ bs]) (simp add: infos_def)
qed

lemma introduction_views:
  assumes "sv_introduction v = Some intro" and "in_files intro \<noteq> []" and "in_texts intro = []"
    and "\<forall>f \<in> set (in_files intro). destination_of X r f \<noteq> None"
    and "process_introduction X v r = (Done (), t)"
  shows "writer t = writer r" "reader t = reader r" "standing t = standing r" "rq_in t = rq_in r"
    "rq_draws t = rq_draws r"
proof -
  let ?r = "upd_st (\<lambda>e. e\<lparr>is_state := WaitingForUserConsent\<rparr>) r"
  define u where "u = upd_st (\<lambda>s. s\<lparr>is_transferred_files :=
    register X ?r (in_files intro) (is_transferred_files s)\<rparr>) ?r"
  have p: "utf8_valid (as_bytes (get_download_dir X (rq_custom_download r)))"
    using introduction_printable [OF assms] .
  define w where "w = upd_st (\<lambda>e. e\<lparr>is_transfer_metadata := file_transfer_metadata X u
    (map file_name_of (in_files intro)) (sum_list (map file_size (in_files intro)))\<rparr>) u"
  have "file_transfer_metadata X u n m \<noteq> None" for n m
    using p by (simp add: file_transfer_metadata_def path_into_string_eq u_def upd_st_def)
  then obtain meta where meta: "file_transfer_metadata X u (map file_name_of (in_files intro))
      (sum_list (map file_size (in_files intro))) = Some meta" by blast
  have "set_state Inbound WaitingForUserConsent False r = (Done (), ?r)"
    by (simp add: set_state_def update_state_def exec)
  moreover have "introduce_files X (in_files intro) [] 0 ?r
      = (Done (map file_name_of (in_files intro), sum_list (map file_size (in_files intro))), u)"
    using introduce_files_Done [of "in_files intro" X ?r "[]" 0] assms(4) by (simp add: u_def)
  ultimately have "process_introduction X v r
      = (Done (), w\<lparr>rq_chan := rq_chan w @ [state_message Inbound (rq_st w)]\<rparr>)"
    using assms(1-3)
    by (simp add: process_introduction_def bind_ok_or andthen_Done bind_Done bind_get update_state_def
        andthen_modify modify_exec w_def meta)
  then have "t = w\<lparr>rq_chan := rq_chan w @ [state_message Inbound (rq_st w)]\<rparr>"
    using assms(5) by simp
  then have "writer t = writer r \<and> reader t = reader r \<and> standing t = standing r \<and> rq_in t = rq_in r
      \<and> rq_draws t = rq_draws r"
    by (simp add: w_def u_def view_defs upd_st_def)
  then show "writer t = writer r" "reader t = reader r" "standing t = standing r" "rq_in t = rq_in r"
      "rq_draws t = rq_draws r" by simp_all
qed

lemma more_payload: "request.more u = request.more t \<Longrightarrow> ob_payload u = ob_payload t"
  by (cases u, cases t) simp

lemma serves_two:
  "andthen (f a) (f a) r = (Done (), t) \<Longrightarrow> for_each (replicate 2 a) f r = (Done (), t)"
  by (auto simp: numeral_eq_Suc andthen_eq_Done exec)

lemma serves_three:
  "f a r = (Done (), s) \<Longrightarrow> andthen (f a) (f a) s = (Done (), t) \<Longrightarrow> for_each (replicate 3 a) f r = (Done (), t)"
  by (auto simp: numeral_eq_Suc andthen_eq_Done exec)

lemma serves_four:
  "andthen (f a) (f a) r = (Done (), s) \<Longrightarrow> andthen (f a) (f a) s = (Done (), t)
    \<Longrightarrow> for_each (replicate 4 a) f r = (Done (), t)"
  by (auto simp: numeral_eq_Suc andthen_eq_Done exec)

section \<open>The connection is introduced\<close>

lemma linked_view [simp]:
  "writer (r\<lparr>rq_in := bs\<rparr>) = writer r" "writer (r\<lparr>rq_out := ws\<rparr>) = writer r"
  "reader (r\<lparr>rq_in := bs\<rparr>) = reader r" "reader (r\<lparr>rq_out := ws\<rparr>) = reader r"
  "standing (r\<lparr>rq_in := bs\<rparr>) = standing r" "standing (r\<lparr>rq_out := ws\<rparr>) = standing r"
  "armed (r\<lparr>rq_in := bs\<rparr>) = armed r" "armed (r\<lparr>rq_out := ws\<rparr>) = armed r"
  by (simp_all add: view_defs)

lemma keeps_views_linked:
  fixes s :: "'x request_scheme" and r t :: "'y request_scheme"
  shows "keeps_views r t \<Longrightarrow> linked s t = linked s r"
  using linked_reader [of t r s] by (simp add: keeps_views_def)

text \<open>
  The responses and the paired key frames cross: the server waits for the introduction, and the
  client has the server's result still unread.
\<close>

lemma client_side_paired:
  fixes c :: outbound
  assumes E: "session_env X" "handshake_fits X endpoint_id"
    and g: "\<And>k1 k2. sendable X (paired_key_encryption X k1 k2)" "sendable X paired_key_result"
    and c: "conn c = SentUkeyClientFinish" "armed c" "rq_out c = []" "is_payload_buffers (rq_st c) = []"
      "rq_in c = concat (framed (enc_offline X (connection_response_accept X))) @ bs" "is_encryption_done (rq_st c)"
    and l: "linked s c" and sent: "in_transit X (paired_key_encryption X k1 k2) i s s' bs"
  shows "\<exists>c1 c2 d1 d2. for_each (replicate 3 OnSocket) (out_handle X fuel) c = (Done (), c2)
    \<and> conn c2 = SentPairedKeyResult \<and> rq_in c2 = [] \<and> linked s' c2 \<and> armed c2
    \<and> in_transit X (paired_key_encryption X (rq_draws c) (rq_draws c + 1)) (os_rand_i64 X (rq_draws c + 2)) c c1 d1
    \<and> in_transit X paired_key_result (os_rand_i64 X (rq_draws c + 5)) c1 c2 d2
    \<and> concat (rq_out c2) = d1 @ d2 \<and> rq_draws c2 = rq_draws c + 8 \<and> standing c2 = standing c
    \<and> ob_payload c2 = ob_payload c
    \<and> (\<forall>j. j \<noteq> i \<longrightarrow> hm_lookup (is_payload_buffers (rq_st c2)) j = None)"
proof -
  obtain c1 d1 where c1: "out_handle X fuel OnSocket c = (Done (), c1)" "conn c1 = SentPairedKeyEncryption"
      "concat (rq_out c1) = d1"
      "in_transit X (paired_key_encryption X (rq_draws c) (rq_draws c + 1)) (os_rand_i64 X (rq_draws c + 2)) c c1 d1"
      "rq_in c1 = bs" "rq_draws c1 = rq_draws c + 5" "armed c1" "keeps_views c c1" "ob_payload c1 = ob_payload c"
    using client_checks [OF E g(1) c(1-3,5,6)] by blast
  have k: "is_payload_buffers (rq_st c1) = []" "standing c1 = standing c"
    using c1(8) c(4) by (simp_all add: keeps_views_def)
  have r: "rq_in c1 = bs @ []" "out_takes_frames c1" "hm_lookup (is_payload_buffers (rq_st c1)) i = None"
    using c1(2,5) k(1) by (simp_all add: out_takes_frames_def hm_lookup_def)
  have "linked s c1" using l keeps_views_linked [OF c1(8), of s] by simp
  from sharing_out.replies [OF E(1) this sent r c1(7) g(1,2) client_answers_keys, of fuel] c1(2)
  obtain t c2 d2 where c2: "andthen (out_handle X fuel OnSocket) (out_handle X fuel OnSocket) c1 = (Done (), c2)"
      "rq_in c2 = []" "linked s' c2" "conn c2 = SentPairedKeyResult"
      "in_transit X paired_key_result (os_rand_i64 X (rq_draws c1)) c1 c2 d2"
      "concat (rq_out c2) = concat (rq_out c1) @ d2" "armed c2" "rq_draws c2 = rq_draws c1 + 3"
      "standing c2 = standing c1"
      "\<forall>j. j \<noteq> i \<longrightarrow> hm_lookup (is_payload_buffers (rq_st c2)) j = hm_lookup (is_payload_buffers (rq_st c1)) j"
      "ob_payload t = ob_payload c1" "request.more c2 = request.more t"
    by auto
  have "for_each (replicate 3 OnSocket) (out_handle X fuel) c = (Done (), c2)"
    using c1(1) c2(1) by (rule serves_three)
  moreover have "ob_payload c2 = ob_payload c"
    using more_payload [OF c2(12)] c2(11) c1(9) by simp
  moreover have "concat (rq_out c2) = d1 @ d2" "rq_draws c2 = rq_draws c + 8" "standing c2 = standing c"
    using c2(6,8,9) c1(3,6) k(2) by simp_all
  moreover have "\<forall>j. j \<noteq> i \<longrightarrow> hm_lookup (is_payload_buffers (rq_st c2)) j = None"
    using c2(10) k(1) by (simp add: hm_lookup_def)
  moreover have "in_transit X paired_key_result (os_rand_i64 X (rq_draws c + 5)) c1 c2 d2"
    using c2(5) c1(6) by simp
  ultimately show ?thesis using c2(2,3,4,7) c1(4) by blast
qed

lemma server_side_paired:
  fixes s :: inbound
  assumes E: "session_env X"
    and g: "\<And>k1 k2. sendable X (paired_key_encryption X k1 k2)" "sendable X paired_key_result"
    and s: "conn s = SentConnectionResponse" "armed s" "rq_in s = d1 @ d2" "is_payload_buffers (rq_st s) = []"
      "is_text_payload (rq_st s) = None" "is_transferred_files (rq_st s) = []"
    and l: "linked c s" and sent: "in_transit X (paired_key_encryption X k1 k2) i c c1 d1"
      "in_transit X paired_key_result j c1 c2 d2" "i \<noteq> j"
  shows "\<exists>t b. for_each (replicate 4 OnSocket) (handle X) s = (Done (), t)
    \<and> conn t = ReceivedPairedKeyResult \<and> rq_in t = [] \<and> linked c2 t
    \<and> in_transit X paired_key_result (os_rand_i64 X (rq_draws s)) s t b
    \<and> concat (rq_out t) = concat (rq_out s) @ b \<and> standing t = standing s
    \<and> is_transferred_files (rq_st t) = [] \<and> rq_draws t = rq_draws s + 3
    \<and> (\<forall>k. k \<noteq> i \<longrightarrow> k \<noteq> j \<longrightarrow> hm_lookup (is_payload_buffers (rq_st t)) k = None)"
proof -
  have X: "channel_env X" using E by (simp add: session_env_def)
  have r: "takes_frames s" "hm_lookup (is_payload_buffers (rq_st s)) i = None"
    using s(1,4,5) by (simp_all add: takes_frames_def secured_def hm_lookup_def)
  from sharing_in.replies [OF E l sent(1) s(3) r s(2) g(1,2) server_answers_keys] s(1)
  obtain s1 b where s1: "andthen (handle X OnSocket) (handle X OnSocket) s = (Done (), s1)"
      "rq_in s1 = d2" "linked c1 s1" "conn s1 = SentPairedKeyResult"
      "in_transit X paired_key_result (os_rand_i64 X (rq_draws s)) s s1 b"
      "concat (rq_out s1) = concat (rq_out s) @ b" "standing s1 = standing s" "rq_draws s1 = rq_draws s + 3"
      "is_transferred_files (rq_st s1) = is_transferred_files (rq_st s)"
      "\<forall>k. k \<noteq> i \<longrightarrow> hm_lookup (is_payload_buffers (rq_st s1)) k = hm_lookup (is_payload_buffers (rq_st s)) k"
    by auto
  have r1: "rq_in s1 = d2 @ []" "takes_frames s1" "hm_lookup (is_payload_buffers (rq_st s1)) j = None"
    using s1(2,4,7,10) s(4,5) sent(3) by (simp_all add: takes_frames_def secured_def hm_lookup_def standing_def)
  from sharing_in.receives_sent [OF X s1(3) sent(2) r1 g(2)] obtain u where
    u: "andthen (handle X OnSocket) (handle X OnSocket) s1 = process_transfer_setup X paired_key_result u"
      "rq_in u = []" "linked c2 u" "ashore u = ashore s1"
      "\<forall>k. k \<noteq> j \<longrightarrow> hm_lookup (is_payload_buffers (rq_st u)) k = hm_lookup (is_payload_buffers (rq_st s1)) k"
    by blast
  let ?t = "upd_st (\<lambda>e. e\<lparr>is_state := ReceivedPairedKeyResult\<rparr>) u"
  note v = ashore_views [OF u(4)] ashoreD(1) [OF u(4)] ashore_conn [OF u(4)] ashoreD(2) [OF u(4)]
  have "process_transfer_setup X paired_key_result u = (Done (), ?t)"
    using s1(4) v(5) by (intro server_takes_result) simp
  then have "for_each (replicate 4 OnSocket) (handle X) s = (Done (), ?t)"
    using s1(1) u(1) by (intro serves_four) simp_all
  moreover have "in_transit X paired_key_result (os_rand_i64 X (rq_draws s)) s ?t b"
    by (rule in_transit_writer [OF s1(5)]) (use v(1) in \<open>simp_all add: writer_def upd_st_def\<close>)
  moreover have "conn ?t = ReceivedPairedKeyResult" "rq_in ?t = []" "linked c2 ?t"
      "concat (rq_out ?t) = concat (rq_out s) @ b" "standing ?t = standing s" "is_transferred_files (rq_st ?t) = []"
      "rq_draws ?t = rq_draws s + 3"
    using u(2,3) s1(6-9) s(6) v(2,3,4,6) by (simp_all add: conn_def upd_st_def linked_def standing_def)
  moreover have "\<forall>k. k \<noteq> i \<longrightarrow> k \<noteq> j \<longrightarrow> hm_lookup (is_payload_buffers (rq_st ?t)) k = None"
    using u(5) s1(10) s(4) by (simp add: hm_lookup_def upd_st_def)
  ultimately show ?thesis by blast
qed

lemma client_side_introduces:
  fixes c :: outbound
  assumes E: "session_env X" and g: "sendable X paired_key_result"
    and c: "conn c = SentPairedKeyResult" "armed c" "rq_in c = b" "hm_lookup (is_payload_buffers (rq_st c)) i = None"
    and l: "linked s c" and sent: "in_transit X paired_key_result i s s' b"
    and names: "\<forall>f \<in> set (ob_payload c). announceable X (rq_fs c) f \<longrightarrow> path_file_name f \<noteq> None"
    and metas: "metas = introduced X (rq_fs c) (rq_draws c) (ob_payload c)" "sendable X (introduction_frame_of metas)"
  shows "\<exists>t d. for_each (replicate 2 OnSocket) (out_handle X fuel) c = (Done (), t)
    \<and> conn t = SentIntroduction \<and> linked s' t
    \<and> in_transit X (introduction_frame_of metas) (os_rand_i64 X (rq_draws c + length metas)) c t d
    \<and> concat (rq_out t) = concat (rq_out c) @ d \<and> rq_in t = [] \<and> standing t = standing c
    \<and> (\<forall>j. j \<noteq> i \<longrightarrow> hm_lookup (is_payload_buffers (rq_st t)) j = hm_lookup (is_payload_buffers (rq_st c)) j)
    \<and> is_transferred_files (rq_st t)
        = foldl note_outgoing [] (announcements X (rq_fs c) (rq_draws c) (ob_payload c))
    \<and> last (rq_chan t) = state_message Outbound (rq_st t)"
proof -
  have X: "channel_env X" using E by (simp add: session_env_def)
  have r: "rq_in c = b @ []" "out_takes_frames c" using c(1,3) by (simp_all add: out_takes_frames_def)
  from sharing_out.receives_sent [OF X l sent r c(4) g, of fuel] obtain u where
    u: "andthen (out_handle X fuel OnSocket) (out_handle X fuel OnSocket) c = process_setup X fuel paired_key_result u"
      "rq_in u = []" "linked s' u" "ashore u = ashore c" "ob_payload u = ob_payload c"
      "\<forall>j. j \<noteq> i \<longrightarrow> hm_lookup (is_payload_buffers (rq_st u)) j = hm_lookup (is_payload_buffers (rq_st c)) j"
    by blast
  note v = ashore_views [OF u(4)] ashoreD(1,2,3) [OF u(4)] ashore_conn [OF u(4)]
  have "conn u = SentPairedKeyResult" "armed u"
    using c(1,2) v(1,7) by (simp_all add: armed_def writer_def)
  moreover have "\<forall>f \<in> set (ob_payload u). announceable X (rq_fs u) f \<longrightarrow> path_file_name f \<noteq> None"
      "metas = introduced X (rq_fs u) (rq_draws u) (ob_payload u)"
    using names metas(1) u(5) v(5,6) by simp_all
  ultimately obtain t d where t: "process_setup X fuel paired_key_result u = (Done (), t)"
      "conn t = SentIntroduction"
      "in_transit X (introduction_frame_of metas) (os_rand_i64 X (rq_draws u + length metas)) u t d"
      "concat (rq_out t) = concat (rq_out u) @ d" "reader t = reader u" "standing t = standing u" "rq_in t = rq_in u"
      "is_payload_buffers (rq_st t) = is_payload_buffers (rq_st u)"
      "is_transferred_files (rq_st t) = foldl note_outgoing [] (announcements X (rq_fs u) (rq_draws u) (ob_payload u))"
      "last (rq_chan t) = state_message Outbound (rq_st t)"
    using client_introduces [OF E, of u metas fuel] metas(2) by blast
  have "for_each (replicate 2 OnSocket) (out_handle X fuel) c = (Done (), t)"
    using u(1) t(1) by (intro serves_two) simp
  moreover have "linked s' t" using u(3) linked_reader [OF t(5), of s'] by simp
  moreover have "in_transit X (introduction_frame_of metas) (os_rand_i64 X (rq_draws c + length metas)) c t d"
    by (rule in_transit_writer [OF t(3) [unfolded v(5)]]) (simp_all add: v(1))
  ultimately show ?thesis using t(2,4,6-10) u(2,5,6) v(2,4,5,6) by (intro exI [of _ t] exI [of _ d]) simp
qed

lemma destination_of_standing:
  assumes "standing t = standing r"
  shows "destination_of X t f = destination_of X r f" "register X t = register X r"
proof -
  have d: "destination_of X t = destination_of X r"
    using assms by (intro ext) (simp add: destination_of_def standing_def)
  then show "destination_of X t f = destination_of X r f" by simp
  have "announced X t = announced X r" using d by (intro ext) (simp add: announced_def)
  then show "register X t = register X r" by (intro ext) (simp add: register_def)
qed

lemma server_side_asks:
  fixes s :: inbound
  assumes E: "session_env X" and g: "sendable X (introduction_frame_of metas)"
    and s: "conn s = ReceivedPairedKeyResult" "rq_in s = d" "hm_lookup (is_payload_buffers (rq_st s)) i = None"
      "is_text_payload (rq_st s) = None"
    and l: "linked c s" and sent: "in_transit X (introduction_frame_of metas) i c c' d"
    and metas: "metas \<noteq> []" "\<forall>f \<in> set metas. destination_of X s f \<noteq> None"
      "utf8_valid (as_bytes (get_download_dir X (rq_custom_download s)))"
  shows "\<exists>t. for_each (replicate 2 OnSocket) (handle X) s = (Done (), t)
    \<and> conn t = WaitingForUserConsent \<and> linked c' t \<and> writer t = writer s \<and> standing t = standing s
    \<and> is_transfer_metadata (rq_st t) = file_transfer_metadata X s
        (map file_name_of metas) (sum_list (map file_size metas))
    \<and> last (rq_chan t) = state_message Inbound (rq_st t) \<and> rq_out t = rq_out s
    \<and> is_transferred_files (rq_st t) = register X s metas (is_transferred_files (rq_st s))
    \<and> rq_in t = [] \<and> rq_draws t = rq_draws s"
proof -
  let ?intro = "\<lparr>in_files = metas, in_texts = [], in_wifis = []\<rparr>"
  have X: "channel_env X" using E by (simp add: session_env_def)
  have r: "rq_in s = d @ []" "takes_frames s" using s(1,2,4) by (simp_all add: takes_frames_def secured_def)
  from sharing_in.receives_sent [OF X l sent r s(3) g] obtain u where
    u: "andthen (handle X OnSocket) (handle X OnSocket) s = process_transfer_setup X (introduction_frame_of metas) u"
      "linked c' u" "ashore u = ashore s" "rq_in u = []"
    by blast
  note v = ashore_views [OF u(3)] ashoreD(1) [OF u(3)] ashore_conn [OF u(3)] ashoreD(2) [OF u(3)]
  obtain vi where vi: "process_transfer_setup X (introduction_frame_of metas) u = process_introduction X vi u"
      "sv_introduction vi = Some ?intro"
    using server_introduced [of u X metas] s(1) v(5) by auto
  have d: "\<forall>f \<in> set (in_files ?intro). destination_of X u f \<noteq> None"
    using metas(2) destination_of_standing [OF v(2)] by simp
  have i: "in_files ?intro \<noteq> []" "in_texts ?intro = []" using metas(1) by simp_all
  have p: "utf8_valid (as_bytes (get_download_dir X (rq_custom_download u)))"
    using metas(3) v(2) by (simp add: standing_def)
  obtain t where t: "process_introduction X vi u = (Done (), t)" "conn t = WaitingForUserConsent"
      "is_transfer_metadata (rq_st t) = file_transfer_metadata X u
        (map file_name_of metas) (sum_list (map file_size metas))"
      "rq_chan t = rq_chan u @ [state_message Inbound (rq_st t)]" "rq_out t = rq_out u"
      "is_transferred_files (rq_st t) = register X u metas (is_transferred_files (rq_st u))"
    using introduction_runs [OF vi(2) i d p] by auto
  note w = introduction_views [OF vi(2) i d t(1)]
  have "file_transfer_metadata X u n m = file_transfer_metadata X s n m" for n m
    using v(2) by (simp add: file_transfer_metadata_def standing_def)
  moreover have "for_each (replicate 2 OnSocket) (handle X) s = (Done (), t)"
    using u(1) vi(1) t(1) by (intro serves_two) simp
  moreover have "linked c' t" using u(2) linked_reader [OF w(2), of c'] by simp
  ultimately show ?thesis
    using t(2-6) w(1,3,4,5) v(1,2,3,4,6) u(4) destination_of_standing(2) [OF v(2), of X] by (intro exI [of _ t]) simp
qed

lemma until_introduced:
  fixes c0 :: outbound and s0 :: inbound
  assumes E: "session_env X" "handshake_fits X endpoint_id"
    and g: "\<And>k1 k2. sendable X (paired_key_encryption X k1 k2)" "sendable X paired_key_result"
      "sendable X (introduction_frame_of metas)"
    and k: "keys_agreed X dev pin files c0 s0"
    and metas: "metas = introduced X (rq_fs c0) 11 files" "metas \<noteq> []" "\<forall>f \<in> set metas. destination_of X s0 f \<noteq> None"
      "utf8_valid (as_bytes (get_download_dir X (rq_custom_download s0)))"
    and names: "\<forall>f \<in> set files. announceable X (rq_fs c0) f \<longrightarrow> path_file_name f \<noteq> None"
    and ids: "distinct [os_rand_i64 X 5, os_rand_i64 X 8, os_rand_i64 X (11 + length metas)]"
      "os_rand_i64 X 4 \<noteq> os_rand_i64 X 7"
  shows "\<exists>c s. for_each [ServerTurn 1, ClientTurn 3, ServerTurn 4, ClientTurn 2, ServerTurn 2]
      (take_turn X fuel) (c0, s0) = (Done (), (c, s))
    \<and> conn c = SentIntroduction \<and> conn s = WaitingForUserConsent \<and> linked c s \<and> linked s c
    \<and> standing c = standing c0 \<and> standing s = standing s0
    \<and> is_transfer_metadata (rq_st s) = file_transfer_metadata X s0
        (map file_name_of metas) (sum_list (map file_size metas))
    \<and> last (rq_chan s) = state_message Inbound (rq_st s)
    \<and> last (rq_chan c) = state_message Outbound (rq_st c)
    \<and> rq_in c = [] \<and> rq_out c = [] \<and> rq_in s = [] \<and> rq_out s = [] \<and> rq_draws s = 10
    \<and> is_transferred_files (rq_st c) = foldl note_outgoing [] (announcements X (rq_fs c0) 11 files)
    \<and> is_transferred_files (rq_st s) = register X s0 metas []
    \<and> (\<forall>j. j \<noteq> os_rand_i64 X 4 \<longrightarrow> j \<noteq> os_rand_i64 X 7 \<longrightarrow> hm_lookup (is_payload_buffers (rq_st c)) j = None)"
proof -
  let ?m = "concat (framed (enc_offline X (connection_response_accept X)))"
  note K = k [unfolded keys_agreed_def]
  have l0: "linked c0 s0" "linked s0 c0" using K by simp_all
  obtain s1 b1 where s1: "handle X OnSocket s0 = (Done (), s1)" "conn s1 = SentConnectionResponse"
      "concat (rq_out s1) = ?m @ b1" "in_transit X (paired_key_encryption X 2 3) (os_rand_i64 X 4) s0 s1 b1"
      "rq_in s1 = []" "rq_draws s1 = 7" "armed s1" "keeps_views s0 s1"
    using server_responds [OF E g(1), of s0] K linked_armed [OF l0(2)] by auto
  have "s0\<lparr>rq_in := rq_in s0 @ concat (rq_out c0)\<rparr> = s0" using K by simp
  then have T1: "take_turn X fuel (ServerTurn 1) (c0, s0) = (Done (), (c0\<lparr>rq_out := []\<rparr>, s1))"
    by (intro server_turn) (simp only:, simp add: s1(1) bind_Done ret_exec)
  let ?ca = "c0\<lparr>rq_out := [], rq_in := ?m @ b1\<rparr>"
  have la: "linked s0 ?ca" using l0(2) by simp
  have ca: "conn ?ca = SentUkeyClientFinish" "armed ?ca" "rq_out ?ca = []" "is_payload_buffers (rq_st ?ca) = []"
      "rq_in ?ca = ?m @ b1" "is_encryption_done (rq_st ?ca)"
    using K linked_armed [OF l0(1)] by simp_all
  obtain cp c2 d1 d2 where c2: "for_each (replicate 3 OnSocket) (out_handle X fuel) ?ca = (Done (), c2)"
      "conn c2 = SentPairedKeyResult" "rq_in c2 = []" "linked s1 c2" "armed c2"
      "in_transit X (paired_key_encryption X 3 4) (os_rand_i64 X 5) ?ca cp d1"
      "in_transit X paired_key_result (os_rand_i64 X 8) cp c2 d2" "concat (rq_out c2) = d1 @ d2"
      "rq_draws c2 = 11" "standing c2 = standing c0" "ob_payload c2 = files"
      "\<forall>j. j \<noteq> os_rand_i64 X 4 \<longrightarrow> hm_lookup (is_payload_buffers (rq_st c2)) j = None"
    using client_side_paired [OF E g(1,2) ca la s1(4), of fuel] K by auto
  have T2: "take_turn X fuel (ClientTurn 3) (c0\<lparr>rq_out := []\<rparr>, s1) = (Done (), (c2, s1\<lparr>rq_out := []\<rparr>))"
    using c2(1) s1(3) K by (intro client_turn) simp
  let ?sa = "s1\<lparr>rq_out := [], rq_in := d1 @ d2\<rparr>"
  have sa: "conn ?sa = SentConnectionResponse" "armed ?sa" "rq_in ?sa = d1 @ d2" "is_payload_buffers (rq_st ?sa) = []"
      "is_text_payload (rq_st ?sa) = None" "is_transferred_files (rq_st ?sa) = []"
    using s1(2,7,8) K by (simp_all add: keeps_views_def standing_def)
  have lsa: "linked ?ca ?sa"
    using l0(1) keeps_views_linked [OF s1(8), of c0] by simp
  have "os_rand_i64 X 5 \<noteq> os_rand_i64 X 8" using ids(1) by simp
  from server_side_paired [OF E(1) g(1,2) sa lsa c2(6,7) this] s1(6) obtain s2 b2 where
    s2: "for_each (replicate 4 OnSocket) (handle X) ?sa = (Done (), s2)" "conn s2 = ReceivedPairedKeyResult"
      "rq_in s2 = []" "linked c2 s2" "in_transit X paired_key_result (os_rand_i64 X 7) ?sa s2 b2"
      "concat (rq_out s2) = b2" "standing s2 = standing s1" "is_transferred_files (rq_st s2) = []" "rq_draws s2 = 10"
      "\<forall>j. j \<noteq> os_rand_i64 X 5 \<longrightarrow> j \<noteq> os_rand_i64 X 8 \<longrightarrow> hm_lookup (is_payload_buffers (rq_st s2)) j = None"
    by auto
  have T3: "take_turn X fuel (ServerTurn 4) (c2, s1\<lparr>rq_out := []\<rparr>) = (Done (), (c2\<lparr>rq_out := []\<rparr>, s2))"
    using s2(1) c2(8) s1(5) by (intro server_turn) simp
  let ?cb = "c2\<lparr>rq_out := [], rq_in := b2\<rparr>"
  have cb: "conn ?cb = SentPairedKeyResult" "armed ?cb" "rq_in ?cb = b2"
      "hm_lookup (is_payload_buffers (rq_st ?cb)) (os_rand_i64 X 7) = None"
    using c2(2,5,12) ids(2) by simp_all
  have fs: "rq_fs c2 = rq_fs c0" using c2(10) by (simp add: standing_def)
  have lcb: "linked ?sa ?cb" using c2(4) by simp
  have announce: "\<forall>f \<in> set (ob_payload ?cb). announceable X (rq_fs ?cb) f \<longrightarrow> path_file_name f \<noteq> None"
      "metas = introduced X (rq_fs ?cb) (rq_draws ?cb) (ob_payload ?cb)"
    using names metas(1) c2(9,11) fs by simp_all
  obtain c3 d3 where c3: "for_each (replicate 2 OnSocket) (out_handle X fuel) ?cb = (Done (), c3)"
      "conn c3 = SentIntroduction" "linked s2 c3"
      "in_transit X (introduction_frame_of metas) (os_rand_i64 X (11 + length metas)) ?cb c3 d3"
      "concat (rq_out c3) = d3" "rq_in c3 = []" "standing c3 = standing c2"
      "\<forall>j. j \<noteq> os_rand_i64 X 7 \<longrightarrow> hm_lookup (is_payload_buffers (rq_st c3)) j = hm_lookup (is_payload_buffers (rq_st c2)) j"
      "is_transferred_files (rq_st c3) = foldl note_outgoing [] (announcements X (rq_fs c0) 11 files)"
      "last (rq_chan c3) = state_message Outbound (rq_st c3)"
    using client_side_introduces [OF E(1) g(2) cb lcb s2(5) announce g(3), of fuel] c2(9,11) fs by auto
  have T4: "take_turn X fuel (ClientTurn 2) (c2\<lparr>rq_out := []\<rparr>, s2) = (Done (), (c3, s2\<lparr>rq_out := []\<rparr>))"
    using c3(1) s2(6) c2(3) by (intro client_turn) simp
  let ?sb = "s2\<lparr>rq_out := [], rq_in := d3\<rparr>"
  have st: "standing ?sb = standing s0" using s2(7) s1(8) by (simp add: keeps_views_def)
  have sb: "conn ?sb = ReceivedPairedKeyResult" "rq_in ?sb = d3"
      "hm_lookup (is_payload_buffers (rq_st ?sb)) (os_rand_i64 X (11 + length metas)) = None"
      "is_text_payload (rq_st ?sb) = None"
    using s2(2,10) ids(1) sa(5) s2(7) by (auto simp: standing_def)
  have lsb: "linked ?cb ?sb" using s2(4) by simp
  have d: "\<forall>f \<in> set metas. destination_of X ?sb f \<noteq> None"
      "utf8_valid (as_bytes (get_download_dir X (rq_custom_download ?sb)))"
    using metas(3,4) destination_of_standing(1) [OF st] st by (simp_all add: standing_def)
  obtain s3 where s3: "for_each (replicate 2 OnSocket) (handle X) ?sb = (Done (), s3)"
      "conn s3 = WaitingForUserConsent" "linked c3 s3" "writer s3 = writer s2" "standing s3 = standing s0"
      "is_transfer_metadata (rq_st s3) = file_transfer_metadata X ?sb
        (map file_name_of metas) (sum_list (map file_size metas))"
      "last (rq_chan s3) = state_message Inbound (rq_st s3)" "rq_out s3 = []" "rq_in s3 = []" "rq_draws s3 = 10"
      "is_transferred_files (rq_st s3) = register X s0 metas []"
    using server_side_asks [OF E(1) g(3) sb lsb c3(4) metas(2) d] st s2(8,9) destination_of_standing(2) [OF st, of X]
    by auto
  have T5: "take_turn X fuel (ServerTurn 2) (c3, s2\<lparr>rq_out := []\<rparr>) = (Done (), (c3\<lparr>rq_out := []\<rparr>, s3))"
    using s3(1) c3(5) s2(3) by (intro server_turn) simp
  have "file_transfer_metadata X ?sb n k = file_transfer_metadata X s0 n k" for n k
    using st by (simp add: file_transfer_metadata_def standing_def)
  moreover have "for_each [ServerTurn 1, ClientTurn 3, ServerTurn 4, ClientTurn 2, ServerTurn 2]
      (take_turn X fuel) (c0, s0) = (Done (), (c3\<lparr>rq_out := []\<rparr>, s3))"
    using T1 T2 T3 T4 T5 by (simp add: bind_Done ret_exec)
  moreover have "linked s3 c3" using c3(3) linked_writer [OF s3(4), of c3] by simp
  ultimately show ?thesis
    using s3 c3(2,6-10) c2(10,12) by (intro exI [of _ "c3\<lparr>rq_out := []\<rparr>"] exI [of _ s3]) simp
qed

definition until_asked :: "turn list" where
  "until_asked = [ServerTurn 2, ClientTurn 1, ServerTurn 1] @
     [ServerTurn 1, ClientTurn 3, ServerTurn 4, ClientTurn 2, ServerTurn 2]"

lemma session_until_asked:
  assumes E: "session_env X" "handshake_fits X endpoint_id"
    and name: "from_utf8 (take 255 (as_bytes (os_hostname X))) = Some name"
    and keys: "usable_key X 1" "usable_key X 0"
    and metas: "metas = introduced X cfs 11 files" "metas \<noteq> []"
    and names: "\<forall>f \<in> set files. announceable X cfs f \<longrightarrow> path_file_name f \<noteq> None"
    and dest: "\<forall>m \<in> set metas. pick_dest (path_exists sfs) (get_download_dir X dl) (file_name_of m) \<noteq> None"
      "utf8_valid (as_bytes (get_download_dir X dl))"
    and g: "\<forall>k1 k2. sendable X (paired_key_encryption X k1 k2)" "sendable X paired_key_result"
      "sendable X (introduction_frame_of metas)"
    and ids: "distinct [os_rand_i64 X 5, os_rand_i64 X 8, os_rand_i64 X (11 + length metas)]"
      "os_rand_i64 X 4 \<noteq> os_rand_i64 X 7"
  shows "\<exists>c1 c s pin. connecting X (fresh_client endpoint_id ci files rdi cfs) = (Done (), c1)
    \<and> for_each until_asked (take_turn X fuel) (c1, fresh_server si sfs dl) = (Done (), (c, s))
    \<and> conn c = SentIntroduction \<and> conn s = WaitingForUserConsent \<and> linked c s \<and> linked s c
    \<and> is_pin_code (rq_st c) = Some pin \<and> is_pin_code (rq_st s) = Some pin \<and> pin \<noteq> []
    \<and> last (rq_chan s) = state_message Inbound (rq_st s)
    \<and> last (rq_chan c) = state_message Outbound (rq_st c)
    \<and> is_transfer_metadata (rq_st s) = file_transfer_metadata X s
        (map file_name_of metas) (sum_list (map file_size metas))
    \<and> is_remote_device_info (rq_st s) = Some \<lparr>rdi_name = name, rdi_type = DevLaptop\<rparr>
    \<and> rq_fs c = cfs \<and> rq_fs s = sfs \<and> rq_custom_download s = dl \<and> is_encryption_done (rq_st c)
    \<and> rq_in c = [] \<and> rq_out c = [] \<and> rq_in s = [] \<and> rq_out s = [] \<and> rq_draws s = 10
    \<and> is_transferred_files (rq_st c) = foldl note_outgoing [] (announcements X cfs 11 files)
    \<and> is_transferred_files (rq_st s) = register X s metas []
    \<and> (\<forall>j. j \<noteq> os_rand_i64 X 4 \<longrightarrow> j \<noteq> os_rand_i64 X 7 \<longrightarrow> hm_lookup (is_payload_buffers (rq_st c)) j = None)"
proof -
  let ?dev = "\<lparr>rdi_name = name, rdi_type = DevLaptop\<rparr>"
  obtain c1 c0 s0 pin where k: "connecting X (fresh_client endpoint_id ci files rdi cfs) = (Done (), c1)"
      "for_each [ServerTurn 2, ClientTurn 1, ServerTurn 1] (take_turn X fuel) (c1, fresh_server si sfs dl)
        = (Done (), (c0, s0))"
      "keys_agreed X ?dev pin files c0 s0" "rq_fs c0 = cfs" "rq_fs s0 = sfs" "rq_custom_download s0 = dl"
    using keys_exchanged [OF E name keys] by blast
  have d: "\<forall>f \<in> set metas. destination_of X s0 f \<noteq> None"
      "utf8_valid (as_bytes (get_download_dir X (rq_custom_download s0)))"
    using dest k(5,6) by (simp_all add: destination_of_def)
  have sent: "\<And>k1 k2. sendable X (paired_key_encryption X k1 k2)" using g(1) by blast
  have m: "metas = introduced X (rq_fs c0) 11 files"
      "\<forall>f \<in> set files. announceable X (rq_fs c0) f \<longrightarrow> path_file_name f \<noteq> None"
    using metas(1) names k(4) by simp_all
  obtain c s where cs: "for_each [ServerTurn 1, ClientTurn 3, ServerTurn 4, ClientTurn 2, ServerTurn 2]
        (take_turn X fuel) (c0, s0) = (Done (), (c, s))"
      "conn c = SentIntroduction" "conn s = WaitingForUserConsent" "linked c s" "linked s c"
      "standing c = standing c0" "standing s = standing s0"
      "is_transfer_metadata (rq_st s) = file_transfer_metadata X s0
        (map file_name_of metas) (sum_list (map file_size metas))"
      "last (rq_chan s) = state_message Inbound (rq_st s)"
      "last (rq_chan c) = state_message Outbound (rq_st c)"
      "rq_in c = []" "rq_out c = []" "rq_in s = []" "rq_out s = []" "rq_draws s = 10"
      "is_transferred_files (rq_st c) = foldl note_outgoing [] (announcements X (rq_fs c0) 11 files)"
      "is_transferred_files (rq_st s) = register X s0 metas []"
      "\<forall>j. j \<noteq> os_rand_i64 X 4 \<longrightarrow> j \<noteq> os_rand_i64 X 7 \<longrightarrow> hm_lookup (is_payload_buffers (rq_st c)) j = None"
    using until_introduced [OF E sent g(2,3) k(3) m(1) metas(2) d m(2) ids, of fuel] by blast
  have run: "for_each until_asked (take_turn X fuel) (c1, fresh_server si sfs dl) = (Done (), (c, s))"
    unfolding until_asked_def for_each_append using k(2) cs(1) by (simp only: bind_Done)
  have agreed: "is_pin_code (rq_st c0) = Some pin" "is_pin_code (rq_st s0) = Some pin"
      "is_remote_device_info (rq_st s0) = Some ?dev" "is_encryption_done (rq_st c0)" "pin \<noteq> []"
    using k(3) by (simp_all add: keys_agreed_def)
  have "file_transfer_metadata X s0 n m = file_transfer_metadata X s n m" for n m
    using cs(7) by (simp add: file_transfer_metadata_def standing_def)
  then show ?thesis
    using k(1,4-6) run cs agreed destination_of_standing(2) [OF cs(7), of X]
    by (intro exI [of _ c1] exI [of _ c] exI [of _ s] exI [of _ pin]) (simp add: standing_def)
qed

text \<open>
  C2. A whole session up to the question to the user, over the network and with both sides run by
  their \<open>handle\<close> alone: from two fresh connections, the requests, the key exchange, the
  responses, the paired key frames and the introduction go back and forth without an error. In the
  end the sender waits for the answer, the receiver for its user; both hold counterpart keys and
  numbers and show the same PIN; and the receiver's last message to the front end carries that
  PIN, the sender's host name, the names of exactly the accessible files and the sum of their
  sizes. No file of either side has changed.
\<close>

theorem session_asks_user:
  assumes E: "session_env X" "handshake_fits X endpoint_id"
    and name: "from_utf8 (take 255 (as_bytes (os_hostname X))) = Some name"
    and keys: "usable_key X 1" "usable_key X 0"
    and metas: "metas = introduced X cfs 11 files" "metas \<noteq> []"
    and names: "\<forall>f \<in> set files. announceable X cfs f \<longrightarrow> path_file_name f \<noteq> None"
    and dest: "\<forall>m \<in> set metas. pick_dest (path_exists sfs) (get_download_dir X dl) (file_name_of m) \<noteq> None"
      "utf8_valid (as_bytes (get_download_dir X dl))"
    and g: "\<forall>k1 k2. sendable X (paired_key_encryption X k1 k2)" "sendable X paired_key_result"
      "sendable X (introduction_frame_of metas)"
    and ids: "distinct [os_rand_i64 X 5, os_rand_i64 X 8, os_rand_i64 X (11 + length metas)]"
      "os_rand_i64 X 4 \<noteq> os_rand_i64 X 7"
  shows "\<exists>c1 c s pin meta. connecting X (fresh_client endpoint_id ci files rdi cfs) = (Done (), c1)
    \<and> for_each until_asked (take_turn X fuel) (c1, fresh_server si sfs dl) = (Done (), (c, s))
    \<and> conn c = SentIntroduction \<and> conn s = WaitingForUserConsent \<and> linked c s \<and> linked s c
    \<and> is_pin_code (rq_st c) = Some pin \<and> is_pin_code (rq_st s) = Some pin
    \<and> last (rq_chan s) = state_message Inbound (rq_st s) \<and> is_transfer_metadata (rq_st s) = Some meta
    \<and> tm_pin_code meta = Some pin \<and> tm_source meta = Some \<lparr>rdi_name = name, rdi_type = DevLaptop\<rparr>
    \<and> tm_files meta = Some (map (\<lambda>f. the (path_file_name f)) (filter (announceable X cfs) files))
    \<and> tm_total_bytes meta = sum_list (map (content_size cfs) (filter (announceable X cfs) files))
    \<and> rq_fs c = cfs \<and> rq_fs s = sfs"
proof -
  obtain c1 c s pin where run: "connecting X (fresh_client endpoint_id ci files rdi cfs) = (Done (), c1)"
      "for_each until_asked (take_turn X fuel) (c1, fresh_server si sfs dl) = (Done (), (c, s))"
      "conn c = SentIntroduction" "conn s = WaitingForUserConsent" "linked c s" "linked s c"
      "is_pin_code (rq_st c) = Some pin" "is_pin_code (rq_st s) = Some pin"
      "last (rq_chan s) = state_message Inbound (rq_st s)"
      "is_transfer_metadata (rq_st s) = file_transfer_metadata X s
        (map file_name_of metas) (sum_list (map file_size metas))"
      "is_remote_device_info (rq_st s) = Some \<lparr>rdi_name = name, rdi_type = DevLaptop\<rparr>"
      "rq_fs c = cfs" "rq_fs s = sfs" "rq_custom_download s = dl"
    using session_until_asked [OF E name keys metas names dest g ids, of ci rdi fuel si] by blast
  have "utf8_valid (as_bytes (get_download_dir X (rq_custom_download s)))"
    using dest(2) run(14) by simp
  note meta = metadata_printable [OF this, of "map file_name_of metas" "sum_list (map file_size metas)"]
  obtain m where m: "is_transfer_metadata (rq_st s) = Some m" "tm_pin_code m = Some pin"
      "tm_source m = Some \<lparr>rdi_name = name, rdi_type = DevLaptop\<rparr>"
      "tm_files m = Some (map file_name_of metas)" "tm_total_bytes m = sum_list (map file_size metas)"
    using run(8,10,11) meta by (simp add: tm_default_def)
  show ?thesis
    using run(1-9,12,13) m introduced_views(2) [of X cfs 11 files] introduced_names [OF names, of 11] metas(1)
    by - (rule exI [of _ c1], rule exI [of _ c], rule exI [of _ s], rule exI [of _ pin], rule exI [of _ m], simp)
qed

end
