(* ===== verification/Transmission.thy ===== *)
theory Transmission
  imports Session
begin

text \<open>
  The rest of a session: the user's answer, the files of the sender in the order of its map, and
  the end of the transfer on both sides.
\<close>

section \<open>Sending one file\<close>

definition chunk_fits :: "env \<Rightarrow> payload_header \<Rightarrow> bytes \<Rightarrow> bool" where
  "chunk_fits X header d \<longleftrightarrow> (\<forall>k m iv q fl off. length iv = 16 \<longrightarrow>
     fits_frame (seal X k m iv q (data_transfer header
       \<lparr>pc_flags = Some fl, pc_offset = Some off, pc_body = Some d\<rparr>)))"

text \<open>What sending one file leaves alone.\<close>

definition outside where
  "outside i r = (rq_fs r, rq_in r, conn r, is_encryption_done (rq_st r),
     \<lambda>j. if j = i then None else hm_lookup (is_transferred_files (rq_st r)) j)"

lemma core_outside:
  assumes "core t = core r"
  shows "outside i t = outside i r"
  using coreD(1,3) [OF assms] core_conn [OF assms] coreD_st(7,9) [OF assms]
  by (simp add: outside_def fun_eq_iff)

lemma count_sent_outside:
  assumes "count_sent i n r = (Done (), t)"
  shows "outside i t = outside i r" "armed t = armed r" "rq_out t = rq_out r"
proof -
  have "\<exists>t. count_sent i n r = (Done (), t) \<and> outside i t = outside i r \<and> armed t = armed r \<and> rq_out t = rq_out r"
    by (simp add: count_sent_def update_state_def exec upd_st_def conn_def Let_def outside_def armed_def fun_eq_iff)
  with assms show "outside i t = outside i r" "armed t = armed r" "rq_out t = rq_out r" by auto
qed

lemma sends_chunk:
  assumes "channel_env X" "no_faults X" "armed s" "chunk_fits X header d"
  shows "\<exists>t ws. encrypt_and_send X (data_transfer header
      \<lparr>pc_flags = Some fl, pc_offset = Some off, pc_body = Some d\<rparr>) s = (Done (), t)
    \<and> rq_out t = rq_out s @ ws \<and> list_all fits_frame ws \<and> armed t \<and> core t = core s \<and> outside i t = outside i s"
  using sends_fitting [OF assms(1-3), of "data_transfer header
      \<lparr>pc_flags = Some fl, pc_offset = Some off, pc_body = Some d\<rparr>"] assms(4) core_outside
  unfolding chunk_fits_def by blast

lemma send_file_runs:
  fixes s :: outbound
  assumes X: "channel_env X" "no_faults X" "\<forall>p n. \<not> os_read_error X p n"
    and "armed s" and "sending i si q sent todo s" and "length todo < fuel"
    and fits: "\<And>d. length d \<le> length todo \<Longrightarrow> length d \<le> read_buffer_size \<Longrightarrow> chunk_fits X header d"
  shows "\<exists>t ws. send_file X fuel i header (ifi_total_size si) s = (Done (), t)
    \<and> rq_out t = rq_out s @ ws \<and> list_all fits_frame ws \<and> armed t \<and> outside i t = outside i s"
  using assms(4-)
proof (induction fuel arbitrary: sent todo si s)
  case 0
  then show ?case by simp
next
  case (Suc fuel)
  note s = Suc.prems(2)
  show ?case
  proof (cases "todo = []")
    case True
    let ?t = "upd_st (\<lambda>e. e\<lparr>is_transferred_files := hm_remove i (is_transferred_files e)\<rparr>) s"
    have "send_file X (Suc fuel) i header (ifi_total_size si) s = (Done (), ?t)"
      using send_file_end s True by simp
    moreover have "armed ?t" "outside i ?t = outside i s" "rq_out ?t = rq_out s"
      using Suc.prems(1) by (auto simp: armed_def outside_def upd_st_def conn_def fun_eq_iff)
    ultimately show ?thesis by (intro exI [of _ ?t] exI [of _ "[]"]) simp
  next
    case False
    define d where "d = piece X q sent todo"
    obtain left where todo: "todo = d @ left" using piece_split d_def by metis
    have d: "d \<noteq> []" "length d \<le> read_buffer_size" "length d \<le> length todo"
      by (simp_all add: d_def piece_not_Nil [OF False]) (simp_all add: piece_def)
    let ?s1 = "put_handle i si \<lparr>fh_path = q, fh_pos = length (sent @ d)\<rparr> s"
    let ?c = "\<lparr>pc_flags = Some 0, pc_offset = Some (word_of_nat (length sent)), pc_body = Some d\<rparr>"
    let ?last = "data_transfer header \<lparr>pc_flags = Some 1, pc_offset = Some (ifi_total_size si), pc_body = Some []\<rparr>"
    let ?tail = "if word_of_nat (length (sent @ d)) = ifi_total_size si then encrypt_and_send X ?last
      else send_file X fuel i header (ifi_total_size si)"
    have round: "send_file X (Suc fuel) i header (ifi_total_size si) s =
        andthen (encrypt_and_send X (data_transfer header ?c)) (andthen (count_sent i (length d)) ?tail) ?s1"
      using send_file_round [OF s False, of X fuel header] X(3) by (simp only: d_def simp_thms)
    have s1: "armed ?s1" "outside i ?s1 = outside i s" "rq_out ?s1 = rq_out s"
      using Suc.prems(1) by (auto simp: armed_def put_handle_def outside_def upd_st_def conn_def fun_eq_iff)
    obtain t1 ws1 where t1: "encrypt_and_send X (data_transfer header ?c) ?s1 = (Done (), t1)"
        "rq_out t1 = rq_out ?s1 @ ws1" "list_all fits_frame ws1" "armed t1" "core t1 = core ?s1"
      using sends_chunk [OF X(1,2) s1(1) Suc.prems(4) [OF d(3,2)]] by blast
    obtain t2 si' where t2: "count_sent i (length d) t1 = (Done (), t2)"
        "sending i si' q (sent @ d) left t2" "ifi_total_size si' = ifi_total_size si"
      using send_round_Done [OF s [unfolded todo] t1(1)] by blast
    note c2 = count_sent_outside [OF t2(1)]
    have t2': "armed t2" "outside i t2 = outside i s" "rq_out t2 = rq_out s @ ws1"
      using t1(2,4) c2 core_outside [OF t1(5)] s1(2,3) by simp_all
    have "\<exists>t ws. ?tail t2 = (Done (), t) \<and> rq_out t = rq_out t2 @ ws \<and> list_all fits_frame ws \<and> armed t
        \<and> outside i t = outside i t2"
    proof (cases "word_of_nat (length (sent @ d)) = ifi_total_size si")
      case True
      then have tail: "?tail = encrypt_and_send X ?last" by (simp only: if_True simp_thms)
      have "chunk_fits X header []" using Suc.prems(4) [of "[]"] by simp
      from sends_chunk [OF X(1,2) t2'(1) this, of 1 "ifi_total_size si" i] show ?thesis
        unfolding tail by blast
    next
      case False
      have "length left < fuel" using d(1) todo Suc.prems(3) by (cases d) auto
      with Suc.IH [OF t2'(1) t2(2)] Suc.prems(4) todo False t2(3) show ?thesis by simp
    qed
    then obtain t ws where "?tail t2 = (Done (), t)" "rq_out t = rq_out t2 @ ws" "list_all fits_frame ws"
        "armed t" "outside i t = outside i t2" by blast
    then show ?thesis
      using t1(1,3) t2(1) t2'(2,3) unfolding round
      by (intro exI [of _ t] exI [of _ "ws1 @ ws"]) (simp add: andthen_Done del: send_file.simps)
  qed
qed

section \<open>Sending all files\<close>

text \<open>A file on its way: its payload id, its paths on the two sides and its bytes.\<close>

record job =
  jb_id :: i64
  jb_source :: path
  jb_dest :: path
  jb_content :: bytes

definition job_header :: "job \<Rightarrow> payload_header" where
  "job_header j = \<lparr>ph_id = Some (jb_id j), ph_type = Some (enum_num payload_type_table PtFile),
     ph_total_size = Some (word_of_nat (length (jb_content j))), ph_is_sensitive = Some False,
     ph_file_name = path_file_name (jb_source j)\<rparr>"

definition ready_out :: "job \<Rightarrow> outbound \<Rightarrow> bool" where
  "ready_out j s \<longleftrightarrow> (\<exists>info. sending (jb_id j) info (jb_source j) [] (jb_content j) s
     \<and> ifi_file_url info = jb_source j)"

definition ready_in :: "job \<Rightarrow> inbound \<Rightarrow> bool" where
  "ready_in j r \<longleftrightarrow> (\<exists>info. receiving (jb_id j) info (jb_dest j) [] r
     \<and> ifi_total_size info = word_of_nat (length (jb_content j)))"

text \<open>The file is not empty, its chunks fit into frames, and the disk takes them.\<close>

definition job_ok :: "env \<Rightarrow> nat \<Rightarrow> job \<Rightarrow> bool" where
  "job_ok X fuel j \<longleftrightarrow> jb_content j \<noteq> [] \<and> length (jb_content j) < fuel \<and>
     length (jb_content j) + read_buffer_size < 2 ^ 63 \<and> (\<forall>n. os_disk_fault X (jb_dest j) n = None) \<and>
     (\<forall>d. length d \<le> length (jb_content j) \<longrightarrow> length d \<le> read_buffer_size \<longrightarrow> chunk_fits X (job_header j) d)"

definition goodbye_frame :: offline_frame where
  "goodbye_frame = offline_v1 (v1_default\<lparr>v1_type := Some (enum_num frame_type_table FrDisconnection),
     v1_disconnection := Some ()\<rparr>)"

definition goodbye_fits :: "env \<Rightarrow> bool" where
  "goodbye_fits X \<longleftrightarrow> (\<forall>k m iv q. length iv = 16 \<longrightarrow> fits_frame (seal X k m iv q
     (offline_v1 (v1_default\<lparr>v1_type := Some (enum_num frame_type_table FrDisconnection),
        v1_disconnection := Some ()\<rparr>))))"

lemma send_one_job:
  assumes X: "channel_env X" "no_faults X" "\<forall>p n. \<not> os_read_error X p n"
    and s: "armed s" "ready_out j s" and j: "job_ok X fuel j"
  shows "\<exists>info t ws. sending (jb_id j) info (jb_source j) [] (jb_content j) s
    \<and> ifi_total_size info = word_of_nat (length (jb_content j)) \<and> file_header (jb_id j) info = job_header j
    \<and> hm_lookup (is_transferred_files (rq_st s)) (jb_id j) = Some info
    \<and> send_file X fuel (jb_id j) (file_header (jb_id j) info) (ifi_total_size info) s = (Done (), t)
    \<and> rq_out t = rq_out s @ ws \<and> list_all fits_frame ws \<and> armed t \<and> outside (jb_id j) t = outside (jb_id j) s"
proof -
  obtain info where info: "sending (jb_id j) info (jb_source j) [] (jb_content j) s"
      "ifi_file_url info = jb_source j"
    using s(2) by (auto simp: ready_out_def)
  then have h: "hm_lookup (is_transferred_files (rq_st s)) (jb_id j) = Some info"
      "ifi_total_size info = word_of_nat (length (jb_content j))" "file_header (jb_id j) info = job_header j"
    by (simp_all add: sending_def file_header_def job_header_def)
  obtain t ws where "send_file X fuel (jb_id j) (job_header j) (ifi_total_size info) s = (Done (), t)"
      "rq_out t = rq_out s @ ws" "list_all fits_frame ws" "armed t" "outside (jb_id j) t = outside (jb_id j) s"
    using send_file_runs [OF X s(1) info(1), of fuel "job_header j"] j by (auto simp: job_ok_def)
  with info(1) h show ?thesis by auto
qed

lemma outside_ready:
  assumes "outside i t = outside i s" and "jb_id j \<noteq> i"
  shows "ready_out j t = ready_out j s"
proof -
  have "rq_fs t = rq_fs s" "hm_lookup (is_transferred_files (rq_st t)) (jb_id j)
      = hm_lookup (is_transferred_files (rq_st s)) (jb_id j)"
    using assms by (auto simp: outside_def dest: fun_cong [of _ _ "jb_id j"])
  then show ?thesis by (simp add: ready_out_def sending_def)
qed

lemma distinct_head: "distinct (map f (x # xs)) \<Longrightarrow> y \<in> set xs \<Longrightarrow> f y \<noteq> f x"
  by (auto simp: image_iff)

lemma send_files_out: "within (grows rq_out) (send_files X fuel ids)"
proof (induction ids)
  case Nil
  have "within (grows rq_out) (set_state role x inform)" for role x inform
    by (auto simp: within_def grows_def set_state_def update_state_def exec upd_st_def)
  then show ?case unfolding send_files.simps disconnection_def send_by_encryption_def
    by (intro within_rules)
next
  case (Cons i ids)
  then show ?case unfolding send_files.simps by (intro within_rules send_file_out)
qed

lemma send_files_runs:
  assumes X: "channel_env X" "no_faults X" "\<forall>p n. \<not> os_read_error X p n" "goodbye_fits X"
    and s: "armed s" "is_encryption_done (rq_st s)" "\<forall>j \<in> set jobs. ready_out j s"
    and jobs: "\<forall>j \<in> set jobs. job_ok X fuel j" "distinct (map jb_id jobs)"
  shows "\<exists>t ws. send_files X fuel (map jb_id jobs) s = (Done (), t) \<and> rq_out t = rq_out s @ ws
    \<and> list_all fits_frame ws \<and> conn t = Finished \<and> rq_fs t = rq_fs s"
  using s jobs
proof (induction jobs arbitrary: s)
  case Nil
  let ?s = "snd (set_state Outbound Finished True s)"
  have s: "set_state Outbound Finished True s = (Done (), ?s)" "armed ?s" "rq_out ?s = rq_out s"
      "conn ?s = Finished" "rq_fs ?s = rq_fs s" "is_encryption_done (rq_st ?s)"
    using Nil.prems(1,2) by (simp_all add: set_state_def update_state_def exec upd_st_def armed_def conn_def)
  from sends_fitting [OF X(1,2) s(2)] X(4) obtain t ws where
    t: "disconnection X ?s = (Done (), t)" "rq_out t = rq_out ?s @ ws" "list_all fits_frame ws" "core t = core ?s"
    using s(6) by (fastforce simp: goodbye_fits_def disconnection_def send_by_encryption_def bind_get)
  have "send_files X fuel (map jb_id []) s = (Done (), t)"
    using s(1) t(1) by (simp add: andthen_Done)
  with t(2,3) s(3-5) coreD(3) [OF t(4)] core_conn [OF t(4)] show ?case by auto
next
  case (Cons j jobs)
  obtain info t1 ws1 where t1: "hm_lookup (is_transferred_files (rq_st s)) (jb_id j) = Some info"
      "send_file X fuel (jb_id j) (file_header (jb_id j) info) (ifi_total_size info) s = (Done (), t1)"
      "rq_out t1 = rq_out s @ ws1" "list_all fits_frame ws1" "armed t1" "outside (jb_id j) t1 = outside (jb_id j) s"
    using send_one_job [OF X(1-3) Cons.prems(1), of j fuel] Cons.prems(3,4) by auto
  have "\<forall>k \<in> set jobs. ready_out k t1"
  proof
    fix k assume k: "k \<in> set jobs"
    then have "jb_id k \<noteq> jb_id j" using distinct_head [OF Cons.prems(5)] by simp
    then show "ready_out k t1" using outside_ready [OF t1(6)] Cons.prems(3) k by simp
  qed
  moreover have "is_encryption_done (rq_st t1)" "rq_fs t1 = rq_fs s"
    using t1(6) Cons.prems(2) by (simp_all add: outside_def)
  ultimately obtain t ws where "send_files X fuel (map jb_id jobs) t1 = (Done (), t)"
      "rq_out t = rq_out t1 @ ws" "list_all fits_frame ws" "conn t = Finished" "rq_fs t = rq_fs s"
    using Cons.IH [OF t1(5)] Cons.prems(4,5) by auto
  then show ?case
    using t1(1-4) by (intro exI [of _ t] exI [of _ "ws1 @ ws"]) (simp add: bind_get andthen_Done)
qed

section \<open>Receiving all files\<close>

lemma ready_in_after:
  assumes "ready_in k r" and "rq_fs t = (rq_fs r)(p \<mapsto> FileNode c)" "p \<noteq> jb_dest k"
    and "hm_lookup (is_transferred_files (rq_st t)) (jb_id k) = hm_lookup (is_transferred_files (rq_st r)) (jb_id k)"
  shows "ready_in k t"
  using assms by (auto simp: ready_in_def receiving_def)

definition delivered :: "job list \<Rightarrow> (path \<Rightarrow> fs_node option) \<Rightarrow> path \<Rightarrow> fs_node option" where
  "delivered jobs fs = fs ++ map_of (map (\<lambda>j. (jb_dest j, FileNode (jb_content j))) jobs)"

lemma files_taken_in:
  assumes X: "channel_env X" "no_faults X" "\<forall>p n. \<not> os_read_error X p n"
    and l: "linked s r" "secured (conn r)" "armed s"
    and jobs: "\<forall>j \<in> set jobs. job_ok X fuel j \<and> ready_out j s \<and> ready_in j r"
      "distinct (map jb_id jobs)" "distinct (map jb_dest jobs)" "jobs \<noteq> []"
    and known: "\<forall>i. hm_lookup (is_transferred_files (rq_st r)) i \<noteq> None \<longrightarrow> i \<in> jb_id ` set jobs"
    and run: "send_files X fuel (map jb_id jobs) s = (Done (), s')"
      "rq_out s' = rq_out s @ ws" "list_all fits_frame ws" "rq_in r = concat ws"
  shows "\<exists>n res r'. for_each (replicate n OnSocket) (handle X) r = (res, r') \<and> conn r' = Finished
    \<and> rq_fs r' = delivered jobs (rq_fs r)"
  using l jobs known run
proof (induction jobs arbitrary: s r ws)
  case Nil
  then show ?case by simp
next
  case (Cons j jobs)
  note jobs = Cons.prems(4-7)
  obtain info s1 ws1 where s1: "sending (jb_id j) info (jb_source j) [] (jb_content j) s"
      "ifi_total_size info = word_of_nat (length (jb_content j))" "file_header (jb_id j) info = job_header j"
      "hm_lookup (is_transferred_files (rq_st s)) (jb_id j) = Some info"
      "send_file X fuel (jb_id j) (file_header (jb_id j) info) (ifi_total_size info) s = (Done (), s1)"
      "rq_out s1 = rq_out s @ ws1" "list_all fits_frame ws1" "armed s1" "outside (jb_id j) s1 = outside (jb_id j) s"
    using send_one_job [OF X Cons.prems(3), of j fuel] jobs(1) by auto
  have rest: "send_files X fuel (map jb_id jobs) s1 = (Done (), s')"
    using Cons.prems(9) s1(4,5) by (simp add: bind_get andthen_Done)
  from withinD [OF send_files_out rest] obtain ws2 where ws2: "rq_out s' = rq_out s1 @ ws2"
    by (auto simp: grows_def)
  have split: "ws = ws1 @ ws2" "list_all fits_frame ws2" "rq_in r = concat ws1 @ concat ws2"
    using Cons.prems(10,11,12) s1(6) ws2 by auto
  have j: "job_ok X fuel j" "ready_in j r" using jobs(1) by simp_all
  obtain ri where ri: "receiving (jb_id j) ri (jb_dest j) [] r" "ifi_total_size ri = ifi_total_size info"
    using j(2) s1(2) by (auto simp: ready_in_def)
  have hd: "header_type (job_header j) = PtFile" "header_id (job_header j) = jb_id j"
    using enum_roundtrip(2) [of PtFile] by (simp_all add: job_header_def header_type_def header_id_def)
  obtain n where n: "file_taken_in X n (jb_id j) (jb_dest j) (jb_content j) (concat ws2) s1 r"
    using file_delivered_all [OF X(1) Cons.prems(1,2) s1(1) _ ri _ _ hd s1(5) [unfolded s1(3)] s1(6,7) split(3)] j(1)
    by (auto simp: job_ok_def)
  then obtain res r1 where r1: "for_each (replicate n OnSocket) (handle X) r = (res, r1)"
      "rq_fs r1 = (rq_fs r)(jb_dest j \<mapsto> FileNode (jb_content j))"
      "hm_lookup (is_transferred_files (rq_st r1)) (jb_id j) = None"
      "\<forall>k. k \<noteq> jb_id j \<longrightarrow>
        hm_lookup (is_transferred_files (rq_st r1)) k = hm_lookup (is_transferred_files (rq_st r)) k"
      "if others_left (jb_id j) r then res = Done () \<and> linked s1 r1 \<and> rq_in r1 = concat ws2 \<and> conn r1 = conn r
       else conn r1 = Finished"
    unfolding file_taken_in_def by blast
  show ?case
  proof (cases jobs)
    case Nil
    then have "\<not> others_left (jb_id j) r" using Cons.prems(8) by (auto simp: others_left_def)
    with r1(1,2,5) Nil show ?thesis
      by (intro exI [of _ n] exI [of _ res] exI [of _ r1]) (simp add: delivered_def fun_eq_iff)
  next
    case (Cons k ks)
    have "hm_lookup (is_transferred_files (rq_st r)) (jb_id k) \<noteq> None" "jb_id k \<noteq> jb_id j"
      using jobs(1,2) Cons by (auto simp: ready_in_def receiving_def)
    then have "others_left (jb_id j) r" unfolding others_left_def by blast
    then have r1': "res = Done ()" "linked s1 r1" "rq_in r1 = concat ws2" "secured (conn r1)"
      using r1(5) Cons.prems(2) by simp_all
    have "\<forall>k \<in> set jobs. job_ok X fuel k \<and> ready_out k s1 \<and> ready_in k r1"
    proof
      fix k assume k: "k \<in> set jobs"
      have d: "jb_id k \<noteq> jb_id j" "jb_dest j \<noteq> jb_dest k"
        using distinct_head [OF jobs(2) k] distinct_head [OF jobs(3) k] by simp_all
      then show "job_ok X fuel k \<and> ready_out k s1 \<and> ready_in k r1"
        using jobs(1) k outside_ready [OF s1(9) d(1)] ready_in_after [OF _ r1(2) d(2)] r1(4) by simp
    qed
    moreover have "\<forall>i. hm_lookup (is_transferred_files (rq_st r1)) i \<noteq> None \<longrightarrow> i \<in> jb_id ` set jobs"
      using Cons.prems(8) r1(3,4) by (metis image_insert insertE list.set(2))
    ultimately obtain m res' r' where "for_each (replicate m OnSocket) (handle X) r1 = (res', r')"
        "conn r' = Finished" "rq_fs r' = delivered jobs (rq_fs r1)"
      using Cons.IH [OF r1'(2,4) s1(8) _ _ _ _ _ rest ws2 split(2) r1'(3)] jobs(2,3) Cons by auto
    moreover have "delivered jobs (rq_fs r1) = delivered (j # jobs) (rq_fs r)"
    proof -
      have "map_of (map (\<lambda>k. (jb_dest k, FileNode (jb_content k))) jobs) (jb_dest j) = None"
        using jobs(3) by (simp add: map_of_eq_None_iff image_image)
      then show ?thesis by (auto simp: delivered_def r1(2) fun_eq_iff map_add_def split: option.split)
    qed
    moreover have "for_each (replicate (n + m) OnSocket) (handle X) r = (res', r')"
      using r1(1) r1'(1) calculation(1) by (simp add: replicate_add for_each_append bind_Done)
    ultimately show ?thesis by metis
  qed
qed

end
