(* ===== verification/Completion.thy ===== *)
theory Completion
  imports Transmission
begin

text \<open>
  The user accepts: the receiver creates the files, the sender gets the answer and sends them, and
  the session of \<open>Session\<close> ends with the files of the sender on the receiver's disk.
\<close>

section \<open>The receiving side accepts\<close>

definition acceptance :: "string \<Rightarrow> event" where
  "acceptance i = OnChannel 0 (RecvOk (cm_default\<lparr>cm_id := i, cm_action := Some AcceptTransfer\<rparr>))"

lemma handle_acceptance: "handle X (acceptance (is_id (rq_st r))) r = accept_transfer X r"
  by (simp add: handle_def acceptance_def drop_partial_length_def handle_action_def cm_default_def exec)

lemma opens_destination:
  assumes "hm_lookup (is_transferred_files (rq_st r)) i = Some info"
    and "\<not> os_create_error X (ifi_file_url info)" "rq_fs r (ifi_file_url info) \<noteq> Some DirNode"
  shows "\<exists>t. open_destination X i r = (Done (), t) \<and> writer t = writer r \<and> reader t = reader r
    \<and> rq_in t = rq_in r \<and> rq_out t = rq_out r \<and> rq_draws t = rq_draws r"
  using assms
  by (simp add: open_destination_def bind_get_unwrap file_create_def bind_Done modify_exec upd_st_def view_defs)

lemma opens_destinations:
  assumes "\<forall>i \<in> set ids. \<exists>info. hm_lookup (is_transferred_files (rq_st r)) i = Some info
    \<and> \<not> os_create_error X (ifi_file_url info) \<and> rq_fs r (ifi_file_url info) \<noteq> Some DirNode"
  shows "\<exists>t. for_each ids (open_destination X) r = (Done (), t) \<and> writer t = writer r \<and> reader t = reader r
    \<and> rq_in t = rq_in r \<and> rq_out t = rq_out r \<and> rq_draws t = rq_draws r"
  using assms
proof (induction ids arbitrary: r)
  case (Cons i ids)
  obtain info where info: "hm_lookup (is_transferred_files (rq_st r)) i = Some info"
      "\<not> os_create_error X (ifi_file_url info)" "rq_fs r (ifi_file_url info) \<noteq> Some DirNode"
    using Cons.prems by auto
  obtain r1 where r1: "open_destination X i r = (Done (), r1)" "writer r1 = writer r" "reader r1 = reader r"
      "rq_in r1 = rq_in r" "rq_out r1 = rq_out r" "rq_draws r1 = rq_draws r"
    using opens_destination [OF info] by blast
  have s1: "rq_fs r1 = (rq_fs r)(ifi_file_url info \<mapsto> FileNode [])"
      "\<And>j. hm_lookup (is_transferred_files (rq_st r1)) j =
        (if j = i then Some (opened_file info) else hm_lookup (is_transferred_files (rq_st r)) j)"
    using open_destination_Done [OF r1(1)] info(1) by auto
  have "\<forall>j \<in> set ids. \<exists>info. hm_lookup (is_transferred_files (rq_st r1)) j = Some info
      \<and> \<not> os_create_error X (ifi_file_url info) \<and> rq_fs r1 (ifi_file_url info) \<noteq> Some DirNode"
  proof
    fix j assume "j \<in> set ids"
    then show "\<exists>info. hm_lookup (is_transferred_files (rq_st r1)) j = Some info
        \<and> \<not> os_create_error X (ifi_file_url info) \<and> rq_fs r1 (ifi_file_url info) \<noteq> Some DirNode"
      using Cons.prems info by (cases "j = i") (auto simp: s1)
  qed
  from Cons.IH [OF this] r1 show ?case by (auto simp: bind_Done)
qed (simp add: ret_exec)

lemma server_accepts:
  fixes s :: inbound
  assumes E: "session_env X" "key_order_ok X" and g: "sendable X (response_frame CsAccept)" and s: "armed s"
    and dest: "\<forall>i info. hm_lookup (is_transferred_files (rq_st s)) i = Some info \<longrightarrow>
      \<not> os_create_error X (ifi_file_url info) \<and> rq_fs s (ifi_file_url info) \<noteq> Some DirNode"
  shows "\<exists>t bs. handle X (acceptance (is_id (rq_st s))) s = (Done (), t) \<and> conn t = ReceivingFiles
    \<and> in_transit X (response_frame CsAccept) (os_rand_i64 X (rq_draws s)) s t bs
    \<and> concat (rq_out t) = concat (rq_out s) @ bs \<and> reader t = reader s \<and> rq_in t = rq_in s
    \<and> rq_fs t = (\<lambda>p. if p \<in> registered_at s UNIV then Some (FileNode []) else rq_fs s p)
    \<and> (\<forall>i. hm_lookup (is_transferred_files (rq_st t)) i
        = map_option opened_file (hm_lookup (is_transferred_files (rq_st s)) i))"
proof -
  let ?ids = "os_key_order X (hm_keys (is_transferred_files (rq_st s)))"
  have e: "channel_env X" "no_faults X" using E(1) by (simp_all add: session_env_def)
  have ids: "set ?ids = {i. hm_lookup (is_transferred_files (rq_st s)) i \<noteq> None}"
    using E(2) hm.set_keys mset_eq_setD unfolding key_order_ok_def by metis
  obtain r1 where r1: "for_each ?ids (open_destination X) s = (Done (), r1)" "writer r1 = writer s"
      "reader r1 = reader s" "rq_in r1 = rq_in s" "rq_out r1 = rq_out s" "rq_draws r1 = rq_draws s"
    using opens_destinations [of ?ids s X] dest unfolding ids by auto
  have "armed r1" using s r1(2) by (simp add: armed_def writer_def)
  from sends [OF e this g] obtain r2 bs where r2: "send_encrypted_frame X (response_frame CsAccept) r1 = (Done (), r2)"
      "in_transit X (response_frame CsAccept) (os_rand_i64 X (rq_draws r1)) r1 r2 bs"
      "concat (rq_out r2) = concat (rq_out r1) @ bs" "core r2 = core r1"
    by blast
  obtain t where t: "accept_transfer X s = (Done (), t)" "writer t = writer r2" "reader t = reader r2"
      "rq_in t = rq_in r2" "rq_out t = rq_out r2"
    using r1(1) r2(1)
    by (simp add: accept_transfer_def bind_get andthen_Done draw_def bind_Done update_state_def exec
        view_defs upd_st_def)
  have "in_transit X (response_frame CsAccept) (os_rand_i64 X (rq_draws s)) s t bs"
    by (rule in_transit_writer [OF r2(2) [unfolded r1(6)]]) (simp_all add: r1(2) t(2))
  moreover have "concat (rq_out t) = concat (rq_out s) @ bs" "reader t = reader s" "rq_in t = rq_in s"
    using t r1 r2(3) core_views(1) [OF r2(4)] coreD(1) [OF r2(4)] by simp_all
  ultimately show ?thesis
    using accepted_files [OF E(2) t(1)] t(1) handle_acceptance [of X s] by auto
qed

section \<open>The sending side gets the answer\<close>

lemma acceptance_frame:
  "\<exists>v. sf_v1 (response_frame CsAccept) = Some v \<and> sv_frame_type v = ShResponse
    \<and> (\<exists>c. sv_connection_response v = Some c \<and> consent_of c = CsAccept)"
  using enum_roundtrip(6) [of ShResponse] enum_roundtrip(7) [of CsAccept]
  by (simp add: response_frame_def sharing_v1_frame_def sv_frame_type_def consent_of_def)

text \<open>The frame that accepts starts the sending of all files, in the order the map gives.\<close>

lemma client_consents:
  fixes t :: outbound
  assumes "conn t = SentIntroduction"
  shows "\<exists>v. process_setup X fuel (response_frame CsAccept) t
      = send_files X fuel (os_key_order X (hm_keys (is_transferred_files (rq_st t)))) v
    \<and> writer v = writer t \<and> standing v = standing t \<and> rq_out v = rq_out t
    \<and> is_transferred_files (rq_st v) = is_transferred_files (rq_st t)"
proof -
  obtain v c where v: "sf_v1 (response_frame CsAccept) = Some v" "sv_frame_type v = ShResponse"
      "sv_connection_response v = Some c" "consent_of c = CsAccept"
    using acceptance_frame by blast
  let ?t = "t\<lparr>rq_draws := Suc (rq_draws t)\<rparr>"
  let ?f = "\<lambda>e. e\<lparr>is_state := SendingFiles, is_transfer_start := Some (os_now X (rq_draws t))\<rparr>"
  let ?v = "snd (update_state Outbound ?f True ?t)"
  have "update_state Outbound ?f True ?t = (Done (), ?v)"
    by (simp add: update_state_def exec)
  moreover have "writer ?v = writer t" "standing ?v = standing t" "rq_out ?v = rq_out t"
      "is_transferred_files (rq_st ?v) = is_transferred_files (rq_st t)"
    by (simp_all add: update_state_def exec view_defs upd_st_def)
  ultimately show ?thesis
    using v assms
    by (intro exI [of _ ?v])
      (simp add: process_setup_def process_consent_def bind_ok_or bind_get conn_def draw_def bind_Done andthen_Done)
qed

lemma client_sends_all:
  fixes c :: outbound
  assumes E: "session_env X" "\<forall>p n. \<not> os_read_error X p n" "goodbye_fits X"
    and g: "sendable X (response_frame CsAccept)"
    and c: "conn c = SentIntroduction" "armed c" "rq_in c = bs" "is_encryption_done (rq_st c)"
      "hm_lookup (is_payload_buffers (rq_st c)) i = None" "rq_out c = []"
    and l: "linked s c" and sent: "in_transit X (response_frame CsAccept) i s s' bs"
    and ids: "os_key_order X (hm_keys (is_transferred_files (rq_st c))) = map jb_id jobs"
    and jobs: "\<forall>j \<in> set jobs. job_ok X fuel j \<and> ready_out j c" "distinct (map jb_id jobs)"
  shows "\<exists>v t. for_each (replicate 2 OnSocket) (out_handle X fuel) c = (Done (), t)
    \<and> send_files X fuel (map jb_id jobs) v = (Done (), t) \<and> writer v = writer c \<and> armed v
    \<and> (\<forall>j. ready_out j v = ready_out j c) \<and> rq_out v = []
    \<and> list_all fits_frame (rq_out t) \<and> conn t = Finished \<and> rq_fs t = rq_fs c"
proof -
  have X: "channel_env X" "no_faults X" using E(1) by (simp_all add: session_env_def)
  have r: "rq_in c = bs @ []" "out_takes_frames c" using c(1,3) by (simp_all add: out_takes_frames_def)
  from sharing_out.receives_sent [OF X(1) l sent r c(5) g, of fuel] obtain u where
    u: "andthen (out_handle X fuel OnSocket) (out_handle X fuel OnSocket) c
        = process_setup X fuel (response_frame CsAccept) u" "ashore u = ashore c"
    by blast
  note w = ashore_views [OF u(2)] ashoreD(1) [OF u(2)] ashore_conn [OF u(2)]
  obtain v where v: "process_setup X fuel (response_frame CsAccept) u
        = send_files X fuel (os_key_order X (hm_keys (is_transferred_files (rq_st u)))) v"
      "writer v = writer u" "standing v = standing u" "rq_out v = rq_out u"
      "is_transferred_files (rq_st v) = is_transferred_files (rq_st u)"
    using client_consents [of u X fuel] c(1) w(5) by auto
  have v': "writer v = writer c" "standing v = standing c" "rq_out v = []"
      "is_transferred_files (rq_st v) = is_transferred_files (rq_st c)"
    using v w c(6) by simp_all
  then have a: "armed v" "is_encryption_done (rq_st v)" "rq_fs v = rq_fs c"
    using c(2,4) by (simp_all add: armed_def writer_def standing_def)
  have ready: "ready_out j v = ready_out j c" for j
    using v'(4) a(3) by (simp add: ready_out_def sending_def)
  obtain t ws where t: "send_files X fuel (map jb_id jobs) v = (Done (), t)" "rq_out t = rq_out v @ ws"
      "list_all fits_frame ws" "conn t = Finished" "rq_fs t = rq_fs v"
    using send_files_runs [OF X E(2,3) a(1,2), of jobs fuel] jobs ready by auto
  have "for_each (replicate 2 OnSocket) (out_handle X fuel) c = (Done (), t)"
    using u(1) v(1) t(1) ids w(3) by (intro serves_two) simp
  then show ?thesis
    using t v'(1,3) a ready by (intro exI [of _ v] exI [of _ t]) simp
qed

section \<open>What is registered on the two sides\<close>

definition planned_job ::
  "env \<Rightarrow> (path \<Rightarrow> fs_node option) \<Rightarrow> (path \<Rightarrow> fs_node option) \<Rightarrow> path option option \<Rightarrow> file_metadata \<times> path \<Rightarrow> job" where
  "planned_job X cfs sfs dl a = \<lparr>jb_id = file_payload_id (fst a), jb_source = snd a,
     jb_dest = the (pick_dest (path_exists sfs) (get_download_dir X dl) (file_name_of (fst a))),
     jb_content = file_content cfs (snd a)\<rparr>"

text \<open>The files of a session: what is announced, and where it will go.\<close>

definition planned ::
  "env \<Rightarrow> (path \<Rightarrow> fs_node option) \<Rightarrow> (path \<Rightarrow> fs_node option) \<Rightarrow> path option option \<Rightarrow> path list \<Rightarrow> job list" where
  "planned X cfs sfs dl files = map (planned_job X cfs sfs dl) (announcements X cfs 11 files)"

lemma announcements_views:
  assumes "a \<in> set (announcements X fs k ps)"
  shows "announceable X fs (snd a)" "file_size (fst a) = content_size fs (snd a)" "snd a \<in> set ps"
  using assms by (induction ps arbitrary: k) (auto simp: file_size_def split: if_splits)

lemma registered_out:
  assumes "distinct (map (\<lambda>a. file_payload_id (fst a)) L)"
  shows "hm_lookup (foldl note_outgoing [] L) i
    = map_of (map (\<lambda>a. (file_payload_id (fst a), outgoing_info (fst a) (snd a))) L) i"
  using hm.lookup_inserts [OF assms, of "\<lambda>a. outgoing_info (fst a) (snd a)" "[]" i]
  by (simp add: note_outgoing_def [abs_def] split: option.split)

lemma registered_in:
  assumes "distinct (map file_payload_id metas)"
  shows "hm_lookup (register X r metas []) i = map_of (map (\<lambda>m. (file_payload_id m, announced X r m)) metas) i"
  using hm.lookup_inserts [OF assms, of "announced X r" "[]" i] by (simp add: register_def split: option.split)

lemma map_of_unique:
  "distinct (map g xs) \<Longrightarrow> x \<in> set xs \<Longrightarrow> map_of (map (\<lambda>x. (g x, v x)) xs) (g x) = Some (v x)"
  by (induction xs) (auto simp: image_iff)

lemma reordered:
  "mset is = mset (map g xs) \<Longrightarrow> \<exists>ys. mset ys = mset xs \<and> is = map g ys"
proof (induction "is" arbitrary: xs)
  case (Cons i "is")
  then have "i \<in> set (map g xs)" by (metis list.set_intros(1) mset_eq_setD)
  then obtain as x bs where x: "xs = as @ x # bs" "i = g x"
    by (metis (no_types, lifting) image_iff list.set_map split_list)
  with Cons.prems have "mset is = mset (map g (as @ bs))" by simp
  with Cons.IH obtain ys where "mset ys = mset (as @ bs)" "is = map g ys" by blast
  with x show ?case by (intro exI [of _ "x # ys"]) simp
qed simp

lemma planned_ready_out:
  assumes "distinct (map (\<lambda>a. file_payload_id (fst a)) (announcements X cfs k files))"
    and "a \<in> set (announcements X cfs k files)" and "rq_fs c = cfs"
    and "is_transferred_files (rq_st c) = foldl note_outgoing [] (announcements X cfs k files)"
    and "length (file_content cfs (snd a)) < 2 ^ 63"
  shows "ready_out (planned_job X cfs sfs dl a) c"
proof -
  note v = announcements_views [OF assms(2)]
  obtain b where b: "cfs (snd a) = Some (FileNode b)"
    using v(1) by (auto simp: announceable_def is_file_def split: option.splits fs_node.splits)
  then have "file_content cfs (snd a) = b" by (simp add: file_content_def)
  moreover have "hm_lookup (is_transferred_files (rq_st c)) (file_payload_id (fst a)) = Some (outgoing_info (fst a) (snd a))"
    using map_of_unique [OF assms(1,2), of "\<lambda>a. outgoing_info (fst a) (snd a)"]
    by (simp add: assms(4) registered_out [OF assms(1)])
  ultimately show ?thesis
    using v(2) b assms(3,5)
    by (auto simp: ready_out_def sending_def planned_job_def outgoing_info_def content_size_def)
qed

lemma planned_ready_in:
  fixes s t :: inbound
  assumes "distinct (map (\<lambda>a. file_payload_id (fst a)) (announcements X cfs k files))"
    and "a \<in> set (announcements X cfs k files)" and "rq_fs s = sfs" "rq_custom_download s = dl"
    and "is_transferred_files (rq_st s) = register X s (introduced X cfs k files) []"
    and "length (file_content cfs (snd a)) < 2 ^ 63"
    and t: "rq_fs t = (\<lambda>p. if p \<in> registered_at s UNIV then Some (FileNode []) else rq_fs s p)"
      "\<forall>i. hm_lookup (is_transferred_files (rq_st t)) i
        = map_option opened_file (hm_lookup (is_transferred_files (rq_st s)) i)"
  shows "ready_in (planned_job X cfs sfs dl a) t"
proof -
  let ?m = "fst a" and ?j = "planned_job X cfs sfs dl a"
  note v = announcements_views [OF assms(2)]
  have d: "distinct (map file_payload_id (introduced X cfs k files))" and m: "?m \<in> set (introduced X cfs k files)"
    using assms(1,2) by (simp_all add: introduced_def o_def)
  have l: "hm_lookup (is_transferred_files (rq_st s)) (jb_id ?j) = Some (announced X s ?m)"
    using map_of_unique [OF d m, of "announced X s"] by (simp add: assms(5) registered_in [OF d] planned_job_def)
  have u: "ifi_file_url (announced X s ?m) = jb_dest ?j"
    by (simp add: announced_def planned_job_def destination_of_def assms(3,4))
  have "jb_dest ?j \<in> registered_at s UNIV" using l u by (auto simp: registered_at_def)
  then have "rq_fs t (jb_dest ?j) = Some (FileNode [])" by (simp add: t(1))
  moreover have "hm_lookup (is_transferred_files (rq_st t)) (jb_id ?j) = Some (opened_file (announced X s ?m))"
    by (simp add: t(2) l)
  moreover have "ifi_total_size (announced X s ?m) = word_of_nat (length (jb_content ?j))"
    using v(2) by (simp add: announced_def content_size_def planned_job_def)
  moreover have "0 \<le> sint (word_of_nat (length (jb_content ?j)) :: i64)"
    using assms(6) by (simp add: planned_job_def signed_of_nat signed_take_bit_int_eq_self)
  ultimately show ?thesis
    using u by (auto simp: ready_in_def receiving_def opened_file_def announced_def)
qed

lemma delivered_reordered:
  assumes "mset js = mset ks" and "distinct (map jb_dest ks)"
  shows "delivered js fs = delivered ks fs"
proof -
  have "mset (map jb_dest js) = mset (map jb_dest ks)" using assms(1) by simp
  then have "distinct (map jb_dest js)" using assms(2) by (metis mset_eq_imp_distinct_iff)
  moreover have "set js = set ks" using assms(1) by (rule mset_eq_setD)
  ultimately have "map_of (map (\<lambda>j. (jb_dest j, FileNode (jb_content j))) js)
      = map_of (map (\<lambda>j. (jb_dest j, FileNode (jb_content j))) ks)"
    using assms(2) by (subst map_of_inject_set) (simp_all add: o_def)
  then show ?thesis by (simp add: delivered_def)
qed

lemma delivered_over:
  assumes "\<And>p. p \<notin> jb_dest ` set js \<Longrightarrow> fs p = fs' p"
  shows "delivered js fs = delivered js fs'"
proof
  fix p
  show "delivered js fs p = delivered js fs' p"
  proof (cases "p \<in> jb_dest ` set js")
    case True
    then have "map_of (map (\<lambda>j. (jb_dest j, FileNode (jb_content j))) js) p \<noteq> None"
      by (auto simp: map_of_eq_None_iff image_iff)
    then show ?thesis by (auto simp: delivered_def map_add_def)
  next
    case False
    with assms show ?thesis by (simp add: delivered_def map_add_def split: option.split)
  qed
qed

section \<open>From the answer to the end\<close>

lemma answered_session:
  fixes c :: outbound and s :: inbound
  assumes E: "session_env X" "key_order_ok X" "\<forall>p n. \<not> os_read_error X p n" "goodbye_fits X"
    and g: "sendable X (response_frame CsAccept)"
    and st: "conn c = SentIntroduction" "linked c s" "linked s c" "is_encryption_done (rq_st c)"
      "rq_in c = []" "rq_out c = []" "rq_in s = []" "rq_out s = []"
    and free: "hm_lookup (is_payload_buffers (rq_st c)) (os_rand_i64 X (rq_draws s)) = None"
    and fs: "rq_fs c = cfs" "rq_fs s = sfs" "rq_custom_download s = dl"
    and files: "is_transferred_files (rq_st c) = foldl note_outgoing [] (announcements X cfs 11 files)"
      "is_transferred_files (rq_st s) = register X s (introduced X cfs 11 files) []" "planned X cfs sfs dl files \<noteq> []"
    and dest: "\<forall>m \<in> set (introduced X cfs 11 files).
      pick_dest (path_exists sfs) (get_download_dir X dl) (file_name_of m) \<noteq> None"
    and jobs: "\<forall>j \<in> set (planned X cfs sfs dl files). job_ok X fuel j \<and> \<not> os_create_error X (jb_dest j)"
      "distinct (map jb_id (planned X cfs sfs dl files))" "distinct (map jb_dest (planned X cfs sfs dl files))"
  shows "\<exists>s1 c2 s2 n res c3 s3. handle X (acceptance (is_id (rq_st s))) s = (Done (), s1)
    \<and> take_turn X fuel (ClientTurn 2) (c, s1) = (Done (), (c2, s2))
    \<and> take_turn X fuel (ServerTurn n) (c2, s2) = (res, (c3, s3))
    \<and> conn c3 = Finished \<and> conn s3 = Finished
    \<and> rq_fs s3 = delivered (planned X cfs sfs dl files) sfs \<and> rq_fs c3 = cfs"
proof -
  let ?L = "announcements X cfs 11 files" and ?P = "planned X cfs sfs dl files"
  have X: "channel_env X" "no_faults X" using E(1) by (simp_all add: session_env_def)
  have dL: "distinct (map (\<lambda>a. file_payload_id (fst a)) ?L)"
    using jobs(2) by (simp add: planned_def planned_job_def o_def)
  have dM: "distinct (map file_payload_id (introduced X cfs 11 files))"
    using dL by (simp add: introduced_def o_def)
  have registered: "\<exists>j \<in> set ?P. i = jb_id j \<and> ifi_file_url info = jb_dest j \<and> sfs (jb_dest j) = None"
    if i: "hm_lookup (is_transferred_files (rq_st s)) i = Some info" for i info
  proof -
    have "map_of (map (\<lambda>m. (file_payload_id m, announced X s m)) (introduced X cfs 11 files)) i = Some info"
      using i unfolding files(2) registered_in [OF dM] .
    from map_of_SomeD [OF this] obtain a where
      a: "a \<in> set ?L" "i = file_payload_id (fst a)" "info = announced X s (fst a)"
      by (auto simp: introduced_def)
    obtain p where p: "pick_dest (path_exists sfs) (get_download_dir X dl) (file_name_of (fst a)) = Some p"
      using dest a(1) by (auto simp: introduced_def)
    have "ifi_file_url info = p" "sfs p = None"
      using a(3) p pick_dest_fresh [OF p] by (simp_all add: announced_def destination_of_def fs path_exists_def)
    with a p show ?thesis by (auto simp: planned_def planned_job_def)
  qed
  have "\<forall>i info. hm_lookup (is_transferred_files (rq_st s)) i = Some info \<longrightarrow>
      \<not> os_create_error X (ifi_file_url info) \<and> rq_fs s (ifi_file_url info) \<noteq> Some DirNode"
    using registered jobs(1) fs(2) by fastforce
  from server_accepts [OF E(1,2) g linked_armed [OF st(3)] this] st(7,8) obtain s1 bs where
    s1: "handle X (acceptance (is_id (rq_st s))) s = (Done (), s1)" "conn s1 = ReceivingFiles"
      "in_transit X (response_frame CsAccept) (os_rand_i64 X (rq_draws s)) s s1 bs" "concat (rq_out s1) = bs"
      "reader s1 = reader s" "rq_in s1 = []"
      "rq_fs s1 = (\<lambda>p. if p \<in> registered_at s UNIV then Some (FileNode []) else rq_fs s p)"
      "\<forall>i. hm_lookup (is_transferred_files (rq_st s1)) i
        = map_option opened_file (hm_lookup (is_transferred_files (rq_st s)) i)"
    by auto
  have small: "length (file_content cfs (snd a)) < 2 ^ 63" if "a \<in> set ?L" for a
    using jobs(1) that by (auto simp: planned_def planned_job_def job_ok_def)
  let ?ids = "os_key_order X (hm_keys (is_transferred_files (rq_st c)))"
  have wf: "hm_wf (is_transferred_files (rq_st c))"
    using hm.wf_inserts [of "[]" "\<lambda>a. file_payload_id (fst a)" "\<lambda>a. outgoing_info (fst a) (snd a)" ?L]
    by (simp add: files(1) note_outgoing_def [abs_def])
  have "set (hm_keys (is_transferred_files (rq_st c))) = set (map (\<lambda>a. file_payload_id (fst a)) ?L)"
    by (auto simp: hm.set_keys files(1) registered_out [OF dL] map_of_eq_None_iff o_def image_iff)
  then have "mset (hm_keys (is_transferred_files (rq_st c))) = mset (map (\<lambda>a. file_payload_id (fst a)) ?L)"
    using hm.distinct_keys [OF wf] dL by (metis set_eq_iff_mset_eq_distinct)
  then obtain L where L: "mset L = mset ?L" "?ids = map (\<lambda>a. file_payload_id (fst a)) L"
    using E(2) reordered [of ?ids] unfolding key_order_ok_def by metis
  define J where "J = map (planned_job X cfs sfs dl) L"
  have J: "mset J = mset ?P" "?ids = map jb_id J" "set J = planned_job X cfs sfs dl ` set ?L"
    using L mset_eq_setD [OF L(1)] by (simp_all add: J_def planned_def planned_job_def o_def)
  have dJ: "distinct (map jb_id J)" "distinct (map jb_dest J)" "J \<noteq> []" "set J = set ?P"
    using J(1) jobs(2,3) files(3) mset_eq_setD [OF J(1)]
    by (metis mset_eq_imp_distinct_iff mset_map, metis mset_eq_imp_distinct_iff mset_map, auto)
  have okJ: "\<forall>j \<in> set J. job_ok X fuel j" using jobs(1) dJ(4) by simp
  let ?c = "c\<lparr>rq_in := rq_in c @ concat (rq_out s1)\<rparr>"
  have outJ: "\<forall>j \<in> set J. job_ok X fuel j \<and> ready_out j ?c"
    using okJ planned_ready_out [OF dL _ _ _ small, of _ ?c sfs dl] fs(1) files(1) by (auto simp: J(3))
  have "linked s ?c" "armed ?c" using st(2,3) linked_armed by (simp_all add: linked_armed)
  from client_sends_all [OF E(1,3,4) g _ this(2) _ _ _ _ this(1) s1(3) _ outJ dJ(1)] st(1,4,5,6) free J(2) s1(4)
  obtain v t where t: "for_each (replicate 2 OnSocket) (out_handle X fuel) ?c = (Done (), t)"
      "send_files X fuel (map jb_id J) v = (Done (), t)" "writer v = writer c" "armed v"
      "\<forall>j. ready_out j v = ready_out j ?c" "rq_out v = []" "list_all fits_frame (rq_out t)"
      "conn t = Finished" "rq_fs t = cfs"
    using fs(1) by auto
  have T1: "take_turn X fuel (ClientTurn 2) (c, s1) = (Done (), (t, s1\<lparr>rq_out := []\<rparr>))"
    using t(1) by (rule client_turn)
  let ?s = "s1\<lparr>rq_out := [], rq_in := concat (rq_out t)\<rparr>"
  have l: "linked v ?s" "secured (conn ?s)"
    using st(2) linked_writer [OF t(3), of s] linked_reader [OF s1(5), of v] s1(2) by (simp_all add: secured_def)
  have inJ: "ready_in j ?s" if "j \<in> set J" for j
    using that planned_ready_in [OF dL _ fs(2,3) files(2) small, of _ ?s] s1(7,8) by (auto simp: J(3))
  have known: "\<forall>i. hm_lookup (is_transferred_files (rq_st ?s)) i \<noteq> None \<longrightarrow> i \<in> jb_id ` set J"
    using registered s1(8) dJ(4) by fastforce
  have "\<forall>j \<in> set J. job_ok X fuel j \<and> ready_out j v \<and> ready_in j ?s"
    using outJ t(5) inJ by blast
  from files_taken_in [OF X E(3) l t(4) this dJ(1-3) known t(2) _ t(7)] t(6)
  obtain n res r where r: "for_each (replicate n OnSocket) (handle X) ?s = (res, r)" "conn r = Finished"
      "rq_fs r = delivered J (rq_fs ?s)"
    by auto
  have T2: "take_turn X fuel (ServerTurn n) (t, s1\<lparr>rq_out := []\<rparr>) = (res, (t\<lparr>rq_out := []\<rparr>, r))"
    using r(1) s1(6) by (simp add: take_turn_def)
  have "registered_at s UNIV \<subseteq> jb_dest ` set J"
    using registered dJ(4) by (fastforce simp: registered_at_def)
  then have "delivered J (rq_fs ?s) = delivered J sfs"
    by (intro delivered_over) (auto simp: s1(7) fs(2))
  also have "\<dots> = delivered ?P sfs" by (rule delivered_reordered [OF J(1) jobs(3)])
  finally show ?thesis
    using s1(1) T1 T2 r(2,3) t(8,9) by (intro exI [of _ s1] exI [of _ t] exI [of _ "s1\<lparr>rq_out := []\<rparr>"]
      exI [of _ n] exI [of _ res] exI [of _ "t\<lparr>rq_out := []\<rparr>"] exI [of _ r]) simp
qed

text \<open>
  C1. The whole transfer, from two fresh connections to the files on disk. Both sides are run by
  their \<open>handle\<close> on the bytes the other side wrote: the session reaches the question to the
  user without an error; the front end's message that accepts makes the receiver create the
  files and answer; the sender takes in the answer, sends every accessible file and ends; and the
  receiver takes in what it sent and ends. Then each file of the sender is on the receiver's disk
  at the destination that was chosen for it, byte for byte, whatever order the sender's map has
  and however the reads cut the files, and no other path of either side has changed.
\<close>

theorem session_delivers_files:
  assumes E: "session_env X" "handshake_fits X endpoint_id" "key_order_ok X"
      "\<forall>p n. \<not> os_read_error X p n" "goodbye_fits X"
    and name: "from_utf8 (take 255 (as_bytes (os_hostname X))) = Some name"
    and keys: "usable_key X 1" "usable_key X 0"
    and metas: "metas = introduced X cfs 11 files" "metas \<noteq> []"
    and names: "\<forall>f \<in> set files. announceable X cfs f \<longrightarrow> path_file_name f \<noteq> None"
    and dest: "\<forall>m \<in> set metas. pick_dest (path_exists sfs) (get_download_dir X dl) (file_name_of m) \<noteq> None"
      "utf8_valid (as_bytes (get_download_dir X dl))"
    and g: "\<forall>k1 k2. sendable X (paired_key_encryption X k1 k2)" "sendable X paired_key_result"
      "sendable X (introduction_frame_of metas)" "sendable X (response_frame CsAccept)"
    and ids: "distinct [os_rand_i64 X 5, os_rand_i64 X 8, os_rand_i64 X (11 + length metas)]"
      "distinct [os_rand_i64 X 4, os_rand_i64 X 7, os_rand_i64 X 10]"
    and jobs: "jobs = planned X cfs sfs dl files" "\<forall>j \<in> set jobs. job_ok X fuel j \<and> \<not> os_create_error X (jb_dest j)"
      "distinct (map jb_id jobs)" "distinct (map jb_dest jobs)"
  shows "\<exists>c1 c s s1 c2 s2 n res c3 s3.
    connecting X (fresh_client endpoint_id ci files rdi cfs) = (Done (), c1)
    \<and> for_each until_asked (take_turn X fuel) (c1, fresh_server si sfs dl) = (Done (), (c, s))
    \<and> conn s = WaitingForUserConsent \<and> rq_fs s = sfs
    \<and> handle X (acceptance (is_id (rq_st s))) s = (Done (), s1)
    \<and> take_turn X fuel (ClientTurn 2) (c, s1) = (Done (), (c2, s2))
    \<and> take_turn X fuel (ServerTurn n) (c2, s2) = (res, (c3, s3))
    \<and> conn c3 = Finished \<and> conn s3 = Finished
    \<and> rq_fs s3 = delivered jobs sfs \<and> rq_fs c3 = cfs"
proof -
  have i4: "os_rand_i64 X 4 \<noteq> os_rand_i64 X 7" "os_rand_i64 X 10 \<noteq> os_rand_i64 X 4" "os_rand_i64 X 10 \<noteq> os_rand_i64 X 7"
    using ids(2) by auto
  obtain c1 c s pin where cs: "connecting X (fresh_client endpoint_id ci files rdi cfs) = (Done (), c1)"
      "for_each until_asked (take_turn X fuel) (c1, fresh_server si sfs dl) = (Done (), (c, s))"
      "conn c = SentIntroduction" "conn s = WaitingForUserConsent" "linked c s" "linked s c"
      "rq_fs c = cfs" "rq_fs s = sfs" "rq_custom_download s = dl" "is_encryption_done (rq_st c)"
      "rq_in c = []" "rq_out c = []" "rq_in s = []" "rq_out s = []" "rq_draws s = 10"
      "is_transferred_files (rq_st c) = foldl note_outgoing [] (announcements X cfs 11 files)"
      "is_transferred_files (rq_st s) = register X s metas []"
      "\<forall>j. j \<noteq> os_rand_i64 X 4 \<longrightarrow> j \<noteq> os_rand_i64 X 7 \<longrightarrow> hm_lookup (is_payload_buffers (rq_st c)) j = None"
    using session_until_asked [OF E(1,2) name keys metas names dest g(1-3) ids(1) i4(1), of ci rdi fuel si] by blast
  have "planned X cfs sfs dl files \<noteq> []" using metas by (simp add: planned_def introduced_def)
  moreover have "hm_lookup (is_payload_buffers (rq_st c)) (os_rand_i64 X (rq_draws s)) = None"
    using cs(15,18) i4(2,3) by simp
  ultimately show ?thesis
    using answered_session [OF E(1,3-5) g(4) cs(3,5,6,10-14) _ cs(7-9,16) _ _ _ _ _ _, of fuel] cs(1,2,4,8,17)
      metas(1) dest jobs
    by (simp only:) blast
qed

end
