(* ===== verification/EmptyFiles.thy ===== *)
theory EmptyFiles
  imports Completion Manager
begin

text \<open>What becomes of a file without content, on the two sides of a connection.\<close>

section \<open>The goodbye\<close>

lemma goodbye_served:
  "process_offline_frame X (offline_v1 (v1_default\<lparr>v1_type := Some (enum_num frame_type_table FrDisconnection),
     v1_disconnection := Some ()\<rparr>)) r = (Done (), r)"
  using enum_roundtrip(1) [of FrDisconnection]
  by (simp add: process_offline_frame_def offline_v1_def v1_frame_type_def exec)

lemma handle_at_end: "rq_in r = [] \<Longrightarrow> handle X OnSocket r = (Fail IoError, r)"
  by (cases r) (simp add: handle_def stream_read_exact_def bind_Fail)

lemma goodbye_delivered:
  fixes s s' :: outbound and r :: inbound
  assumes E: "session_env X" "goodbye_fits X" and s: "armed s" "is_encryption_done (rq_st s)"
    and l: "linked s r" "secured (conn r)"
  shows "\<exists>t ws u. disconnection X s = (Done (), t) \<and> rq_out t = rq_out s @ ws \<and> conn t = conn s
    \<and> handle X OnSocket (r\<lparr>rq_in := concat ws\<rparr>) = (Done (), u) \<and> rq_in u = [] \<and> conn u = conn r
    \<and> is_transferred_files (rq_st u) = is_transferred_files (rq_st r) \<and> rq_fs u = rq_fs r"
proof -
  have X: "channel_env X" "no_faults X" using E(1) by (simp_all add: session_env_def)
  let ?f = "offline_v1 (v1_default\<lparr>v1_type := Some (enum_num frame_type_table FrDisconnection),
     v1_disconnection := Some ()\<rparr>)"
  obtain t ws where t: "encrypt_and_send X ?f s = (Done (), t)" "rq_out t = rq_out s @ ws"
      "list_all fits_frame ws" "core t = core s"
    using sends_fitting [OF X s(1), of ?f] E(2) by (auto simp: goodbye_fits_def)
  let ?r = "r\<lparr>rq_in := concat ws\<rparr>"
  obtain q where q: "receive_secure X ?r = (Done ?f, q)" "rq_in q = []"
    using channel_delivers_one [OF X(1) _ t(1-3), of ?r "[]"] l(1) by auto
  obtain v where v: "q = opened (?r\<lparr>rq_in := v\<rparr>)"
    using receive_secure_state [OF q(1)] by blast
  obtain b where "handle X OnSocket ?r = process_offline_frame X ?f (set_recv_buf b q)"
    using handle_secured [OF q(1)] l(2) by auto
  then have "handle X OnSocket ?r = (Done (), set_recv_buf b q)" by (simp add: goodbye_served)
  moreover have "disconnection X s = (Done (), t)"
    using t(1) s(2) by (simp add: disconnection_def send_by_encryption_def bind_get)
  ultimately show ?thesis
    using t(2) q(2) core_conn [OF t(4)]
    by (intro exI [of _ t] exI [of _ ws] exI [of _ "set_recv_buf b q"]) (simp add: v opened_def conn_def)
qed

text \<open>
  C40. An empty file is never delivered: the sender drops it without a chunk and reports
  \<open>Finished\<close>, while the receiver, whose entry waits for a last chunk, gets nothing but the
  goodbye, ignores it, and reports \<open>Disconnected\<close> at the end of the stream.
\<close>

theorem empty_file_never_finishes:
  fixes s :: outbound and r :: inbound
  assumes E: "session_env X" "goodbye_fits X" and s: "armed s" "is_encryption_done (rq_st s)"
    and j: "ready_out j s" "jb_content j = []" and l: "linked s r" "conn r = ReceivingFiles"
  shows "\<exists>t ws u. send_files X (Suc fuel) [jb_id j] s = (Done (), t) \<and> conn t = Finished
    \<and> rq_out t = rq_out s @ ws
    \<and> inbound_task X addr [OnSocket, OnSocket] (r\<lparr>rq_in := concat ws\<rparr>) = (Ended, u)
    \<and> last (rq_chan u) = disconnected_message addr
    \<and> is_transferred_files (rq_st u) = is_transferred_files (rq_st r) \<and> rq_fs u = rq_fs r"
proof -
  obtain info where info: "sending (jb_id j) info (jb_source j) [] [] s"
    using j by (auto simp: ready_out_def)
  let ?s1 = "upd_st (\<lambda>e. e\<lparr>is_transferred_files := hm_remove (jb_id j) (is_transferred_files e)\<rparr>) s"
  let ?s2 = "snd (set_state Outbound Finished True ?s1)"
  have s2: "set_state Outbound Finished True ?s1 = (Done (), ?s2)" "armed ?s2" "is_encryption_done (rq_st ?s2)"
      "writer ?s2 = writer s" "conn ?s2 = Finished" "rq_out ?s2 = rq_out s"
    using s by (simp_all add: set_state_def update_state_def exec upd_st_def armed_def conn_def writer_def)
  have "linked ?s2 r" "secured (conn r)"
    using l linked_writer [OF s2(4), of r] by (simp_all add: secured_def)
  from goodbye_delivered [OF E s2(2,3) this] obtain t ws u where
    t: "disconnection X ?s2 = (Done (), t)" "rq_out t = rq_out s @ ws" "conn t = Finished"
      "handle X OnSocket (r\<lparr>rq_in := concat ws\<rparr>) = (Done (), u)" "rq_in u = []" "conn u = ReceivingFiles"
      "is_transferred_files (rq_st u) = is_transferred_files (rq_st r)" "rq_fs u = rq_fs r"
    using s2(5,6) l(2) by auto
  have "send_files X (Suc fuel) [jb_id j] s = (Done (), t)"
    using info send_file_end [OF info] s2(1) t(1)
    by (simp add: sending_def bind_get andthen_Done del: send_file.simps)
  moreover have "inbound_task X addr [OnSocket, OnSocket] (r\<lparr>rq_in := concat ws\<rparr>)
      = (Ended, tell (disconnected_message addr) u)"
    using t(4,6) handle_at_end [OF t(5)] by (simp add: inbound_error_def)
  ultimately show ?thesis
    using t(2,3,7,8) by (intro exI [of _ t] exI [of _ ws] exI [of _ "tell (disconnected_message addr) u"])
      (simp add: tell_def)
qed

end
