(* ===== verification/Registry.thy ===== *)
theory Registry
  imports FileSending OutboundStates InboundSafety
begin

text \<open>
  The tables of a request, \<open>transferred_files\<close> and \<open>payload_buffers\<close>: what every entry satisfies
  in every state that can be reached, on both sides, and that the files are open once the user
  accepted. \<open>entry_law\<close> is the interface: a property of entries that survives what a file chunk and
  the consent do to an entry holds of the whole table after any event.
\<close>

section \<open>Properties of all entries\<close>

definition entries :: "(i64 \<Rightarrow> internal_file_info \<Rightarrow> bool) \<Rightarrow> 'x request_scheme \<Rightarrow> bool" where
  "entries P r \<longleftrightarrow> hm_wf (is_transferred_files (rq_st r)) \<and> hm_wf (is_payload_buffers (rq_st r))
     \<and> (\<forall>i info. hm_lookup (is_transferred_files (rq_st r)) i = Some info \<longrightarrow> P i info)"

text \<open>Most steps do not touch the tables at all.\<close>

definition tables :: "'x request_scheme \<Rightarrow> (i64, internal_file_info) hashmap \<times> (i64, bytes) hashmap" where
  "tables r = (is_transferred_files (rq_st r), is_payload_buffers (rq_st r))"

lemma entries_tables: "tables t = tables r \<Longrightarrow> entries P t = entries P r"
  by (simp add: tables_def entries_def)

lemma tables_basic [within_rules]:
  "within (same_rel tables) (write_all X d)" "within (same_rel tables) draw"
  "within (same_rel tables) (stream_read_exact n)" "within (same_rel tables) (drop_partial_length k)"
  "within (same_rel tables) (file_create X p)"
  by (auto simp: within_def same_rel_def tables_def write_all_def draw_def stream_read_exact_def
      drop_partial_length_def file_create_def modify_exec split: option.split)

lemma tables_update_state [within_rules]:
  assumes "\<And>e. is_transferred_files (f e) = is_transferred_files e" "\<And>e. is_payload_buffers (f e) = is_payload_buffers e"
  shows "within (same_rel tables) (update_state role f inform)"
  using assms by (auto simp: within_def same_rel_def tables_def update_state_def exec upd_st_def)

lemma tables_modify [within_rules]:
  "(\<And>r. tables (f r) = tables r) \<Longrightarrow> within (same_rel tables) (modify f)"
  by (rule same.within_modify) (simp add: same_rel_def)

lemma core_tables: "core t = core r \<Longrightarrow> tables t = tables r"
  using coreD(8) [THEN arg_cong, of t r is_transferred_files] coreD(8) [THEN arg_cong, of t r is_payload_buffers]
  by (simp add: tables_def)

lemma tables_core: "within (same_rel core) m \<Longrightarrow> within (same_rel tables) m"
  by (erule within_mono) (unfold same_rel_def, erule core_tables)

lemmas tables_senders [within_rules] =
  send_frame_core [THEN tables_core] encrypt_and_send_core [THEN tables_core] senders_core [THEN tables_core]

lemma tables_quiet [within_rules]:
  "within (same_rel tables) (alert_and_fail X a e)"
  "within (same_rel tables) (set_state role s inform)" "within (same_rel tables) (finish X role s)"
  "within (same_rel tables) (offer_text p d)" "within (same_rel tables) (reject_transfer X reason)"
  "within (same_rel tables) (process_paired_key_encryption_frame X v)"
  "within (same_rel tables) (process_paired_key_result v)"
  "within (same_rel tables) (process_connection_response X f)"
  "within (same_rel tables) (process_ukey2_client_init X um)"
  "within (same_rel tables) (count_acknowledged n)"
  unfolding alert_and_fail_def finish_def set_state_def offer_text_def reject_transfer_def
    process_paired_key_encryption_frame_def process_paired_key_result_def
    process_connection_response_def process_ukey2_client_init_def count_acknowledged_def Let_def case_prod_beta
  by (intro within_rules; simp add: tables_def upd_st_def)+

lemma tables_finalize [within_rules]: "within (same_rel tables) (server_finalize_key_exchange X k)"
  unfolding server_finalize_key_exchange_def Let_def case_prod_beta
  by (intro within_rules; simp add: tables_def upd_st_def)

lemma tables_client_finish [within_rules]: "within (same_rel tables) (process_ukey2_client_finish X m d)"
  unfolding process_ukey2_client_finish_def Let_def case_prod_beta
  by (intro within_rules; simp add: tables_def upd_st_def)

lemma tables_open [within_rules]: "within (same_rel tables) (open_secure_message X m)"
  unfolding open_secure_message_def get_client_seq_inc_def Let_def case_prod_beta
  by (intro within_rules; simp add: tables_def upd_st_def)

lemma keeps_tables: "within (same_rel tables) m \<Longrightarrow> within (keeps_rel (entries P)) m"
  by (erule within_mono) (unfold same_rel_def keeps_rel_def, drule entries_tables, blast)

lemmas entries_still [within_rules] =
  tables_basic [THEN keeps_tables] tables_senders [THEN keeps_tables] tables_quiet [THEN keeps_tables]
  tables_client_finish [THEN keeps_tables] tables_open [THEN keeps_tables] tables_update_state [THEN keeps_tables]

text \<open>The updates of one table at a key.\<close>

lemma entries_insert:
  "entries P r \<Longrightarrow> P i info \<Longrightarrow> entries P (upd_st (\<lambda>s. s\<lparr>is_transferred_files :=
     hm_insert i info (is_transferred_files s)\<rparr>) r)"
  by (auto simp: entries_def upd_st_def hm.wf_insert split: if_splits)

lemma entries_remove:
  "entries P r \<Longrightarrow> entries P (upd_st (\<lambda>s. s\<lparr>is_transferred_files :=
     hm_remove i (is_transferred_files s)\<rparr>) r)"
  by (auto simp: entries_def upd_st_def hm.wf_remove split: if_splits)

lemma entries_buffers:
  "entries P r \<Longrightarrow> entries P (upd_st (\<lambda>s. s\<lparr>is_payload_buffers := hm_insert i b (is_payload_buffers s)\<rparr>) r)"
  "entries P r \<Longrightarrow> entries P (upd_st (\<lambda>s. s\<lparr>is_payload_buffers := hm_remove i (is_payload_buffers s)\<rparr>) r)"
  by (auto simp: entries_def upd_st_def hm.wf_insert hm.wf_remove)

lemma keeps_modify: "(\<And>r. entries P r \<Longrightarrow> entries P (f r)) \<Longrightarrow> within (keeps_rel (entries P)) (modify f)"
  by (rule keeps.within_modify) (simp add: keeps_rel_def)

lemma entries_parts [within_rules]:
  "within (keeps_rel (entries P)) (remove_buffer i)" "within (keeps_rel (entries P)) (entry_buffer i sz)"
  "within (keeps_rel (entries P)) (complete_file X i)"
  unfolding entry_buffer_def remove_buffer_def complete_file_def
  by (rule keeps_modify, simp add: entries_buffers)
     (intro within_rules; (rule keeps_modify)?; simp add: entries_buffers entries_remove)+

lemma open_destination_cases:
  assumes "open_destination X i r = (res, t)"
  obtains "tables t = tables r"
  | info fs where "hm_lookup (is_transferred_files (rq_st r)) i = Some info"
      "t = upd_st (\<lambda>s. s\<lparr>is_transferred_files := hm_insert i
        (info\<lparr>ifi_file := Some \<lparr>fh_path = ifi_file_url info, fh_pos = 0\<rparr>\<rparr>) (is_transferred_files s)\<rparr>)
        (r\<lparr>rq_fs := fs\<rparr>)"
proof (cases "hm_lookup (is_transferred_files (rq_st r)) i")
  case None
  with assms that(1) show ?thesis by (simp add: open_destination_def exec)
next
  case (Some info)
  with assms that show ?thesis
    by (cases "file_create X (ifi_file_url info) r")
       (auto simp: open_destination_def exec file_create_def split: if_splits)
qed

lemma file_write_all_cases:
  obtains res h' q where "file_write_all X i info h d r = (res, put_handle i info h' q)"
    "res = Done () \<or> res = Fail IoError" "fh_path h' = fh_path h" "tables q = tables r"
proof (cases "os_disk_fault X (fh_path h) (fh_pos h)")
  case None
  then show ?thesis
    by (intro that [of "Done ()" "h\<lparr>fh_pos := fh_pos h + length d\<rparr>" "put_bytes h d r"])
       (simp_all add: file_write_all_def tables_def put_bytes_def)
next
  case (Some n)
  then show ?thesis
    by (intro that [of "Fail IoError" "h\<lparr>fh_pos := fh_pos h + length (take n d)\<rparr>" "put_bytes h (take n d) r"])
       (simp_all add: file_write_all_def tables_def put_bytes_def)
qed

section \<open>What an event does to the entries\<close>

text \<open>
  An event either keeps a property of all entries, or it is an introduction, which one phase of
  the connection alone takes: \<open>F\<close> says whether the property holds of an entry that it makes.
\<close>

definition calm :: "(i64 \<Rightarrow> internal_file_info \<Rightarrow> bool) \<Rightarrow> 'x request_scheme \<Rightarrow> 'x request_scheme \<Rightarrow> bool" where
  "calm P r t \<longleftrightarrow> conn t = conn r \<and> (entries P r \<longrightarrow> entries P t)"

definition steady ::
  "bool \<Rightarrow> (i64 \<Rightarrow> internal_file_info \<Rightarrow> bool) \<Rightarrow> 'x request_scheme \<Rightarrow> 'x request_scheme \<Rightarrow> bool" where
  "steady F P r t \<longleftrightarrow> ((F \<or> conn r \<noteq> ReceivedPairedKeyResult) \<and> entries P r \<longrightarrow> entries P t)"

interpretation st: one_step "calm P" "steady F P"
  by unfold_locales (auto simp: calm_def steady_def)

lemma within_calm:
  "within (same_rel conn) m \<Longrightarrow> within (keeps_rel (entries P)) m \<Longrightarrow> within (calm P) m"
  by (simp add: within_def same_rel_def keeps_rel_def calm_def)

lemma keeps_steady: "within (keeps_rel (entries P)) m \<Longrightarrow> within (steady F P) m"
  by (simp add: within_def keeps_rel_def steady_def)

locale entry_law =
  fixes P :: "i64 \<Rightarrow> internal_file_info \<Rightarrow> bool" and F :: bool
  assumes opened: "P i info \<Longrightarrow> P i (info\<lparr>ifi_file := Some \<lparr>fh_path = ifi_file_url info, fh_pos = 0\<rparr>\<rparr>)"
    and written: "P i info \<Longrightarrow> ifi_file info = Some h \<Longrightarrow> fh_path h' = fh_path h
      \<Longrightarrow> P i (info\<lparr>ifi_file := Some h'\<rparr>)"
    and counted: "P i info \<Longrightarrow> ifi_file info = Some h \<Longrightarrow> fh_path h' = fh_path h \<Longrightarrow> \<not> ifi_total_size info <s b
      \<Longrightarrow> P i (info\<lparr>ifi_file := Some h', ifi_bytes_transferred := b\<rparr>)"
    and fresh: "F \<Longrightarrow> P i \<lparr>ifi_payload_id = i, ifi_file_url = url, ifi_bytes_transferred = 0,
      ifi_total_size = sz, ifi_file = None\<rparr>"
begin

lemma open_destination: "within (keeps_rel (entries P)) (open_destination X i)"
proof (rule withinI)
  fix r res t assume "open_destination X i r = (res, t)"
  then show "keeps_rel (entries P) r t"
  proof (cases rule: open_destination_cases)
    case 1
    from entries_tables [OF 1, of P] show ?thesis by (simp add: keeps_rel_def)
  next
    case (2 info fs)
    show ?thesis
      unfolding keeps_rel_def
    proof
      assume r: "entries P r"
      with 2(1) have "P i info" by (simp add: entries_def)
      moreover have "entries P (r\<lparr>rq_fs := fs\<rparr>)"
        using r by (simp add: entries_def)
      ultimately show "entries P t"
        unfolding 2(2) by (intro entries_insert opened)
    qed
  qed
qed

lemma accept: "within (keeps_rel (entries P)) (accept_transfer X)"
  unfolding accept_transfer_def by (intro within_rules open_destination) simp_all

lemma file_payload: "within (keeps_rel (entries P)) (process_file_payload X header chunk)"
proof (rule withinI)
  fix r res t assume run: "process_file_payload X header chunk r = (res, t)"
  let ?i = "header_id header"
  let ?n = "word_of_nat (length (chunk_body chunk))"
  show "keeps_rel (entries P) r t"
  proof (cases "hm_lookup (is_transferred_files (rq_st r)) ?i")
    case None
    with run show ?thesis by (simp add: process_file_payload_def exec ok_or_def keeps_rel_def Let_def)
  next
    case (Some info)
    consider "t = r" | "complete_file X ?i r = (res, t)"
      | h where "ifi_file info = Some h" "\<not> ifi_total_size info <s ifi_bytes_transferred info + ?n"
          "andthen (file_write_all X ?i info h (chunk_body chunk))
            (andthen (modify (upd_st (\<lambda>s. s\<lparr>is_transferred_files := hm_adjust ?i (\<lambda>i. i\<lparr>ifi_bytes_transferred :=
              ifi_bytes_transferred i + ?n\<rparr>) (is_transferred_files s)\<rparr>)))
            (count_acknowledged (length (chunk_body chunk)))) r = (res, t)"
      using run unfolding process_file_payload_eq [OF Some] by (auto split: if_splits option.splits)
    then show ?thesis
    proof cases
      case 1
      then show ?thesis by (simp add: keeps_rel_def)
    next
      case 2
      then show ?thesis using entries_parts(3) by (rule withinD [rotated])
    next
      case (3 h)
      show ?thesis
        unfolding keeps_rel_def
      proof
        assume "entries P r"
        with Some have info: "P ?i info" by (auto simp: entries_def)
        obtain res1 h' q where w: "file_write_all X ?i info h (chunk_body chunk) r = (res1, put_handle ?i info h' q)"
            "res1 = Done () \<or> res1 = Fail IoError" "fh_path h' = fh_path h" "tables q = tables r"
          by (rule file_write_all_cases)
        let ?r1 = "put_handle ?i info h' q"
        let ?b = "ifi_bytes_transferred info + ?n"
        let ?r2 = "upd_st (\<lambda>s. s\<lparr>is_transferred_files := hm_insert ?i
          (info\<lparr>ifi_file := Some h', ifi_bytes_transferred := ?b\<rparr>) (is_transferred_files s)\<rparr>) ?r1"
        have q: "entries P q" using \<open>entries P r\<close> entries_tables [OF w(4)] by simp
        have r1: "entries P ?r1"
          unfolding put_handle_def by (intro entries_insert q written [OF info 3(1) w(3)])
        have r2: "entries P ?r2"
          by (intro entries_insert r1 counted [OF info 3(1) w(3) 3(2)])
        have "upd_st (\<lambda>s. s\<lparr>is_transferred_files := hm_adjust ?i (\<lambda>i. i\<lparr>ifi_bytes_transferred :=
            ifi_bytes_transferred i + ?n\<rparr>) (is_transferred_files s)\<rparr>) ?r1 = ?r2"
          by (simp add: hm_adjust_def put_handle_def upd_st_def)
        with 3(3) w(1,2) consider "t = ?r1"
            | "count_acknowledged (length (chunk_body chunk)) ?r2 = (res, t)"
          by (auto simp: andthen_Done andthen_Fail modify_exec)
        then show "entries P t"
        proof cases
          case 1
          with r1 show ?thesis by simp
        next
          case 2
          have "within (keeps_rel (entries P)) (count_acknowledged (length (chunk_body chunk)))"
            by (intro within_rules)
          from withinD [OF this 2] r2 show ?thesis by (simp add: keeps_rel_def)
        qed
      qed
    qed
  qed
qed

lemma introduce_files:
  assumes F
  shows "within (keeps_rel (entries P)) (introduce_files X files names sz)"
proof (induction files arbitrary: names sz)
  case Nil
  show ?case by (simp add: within_rules)
next
  case (Cons f fs)
  show ?case
    unfolding introduce_files.simps Let_def
    by (intro within_rules keeps_modify Cons.IH; intro entries_insert fresh assms)
qed

lemma introduction: "F \<Longrightarrow> within (keeps_rel (entries P)) (process_introduction X v)"
  unfolding process_introduction_def case_prod_beta
  by (intro within_rules introduce_files) simp_all

lemma transfer_setup: "within (steady F P) (process_transfer_setup X frame)"
proof -
  have plain: "steady F P r (snd (m r))" if "within (same_rel tables) m" for m :: "unit inb" and r
    using within_at [OF keeps_steady [OF keeps_tables [OF that]]] .
  have intro: "steady F P r (snd (process_introduction X v r))" if "conn r = ReceivedPairedKeyResult" for r v
  proof (cases F)
    case True
    then show ?thesis using within_at [OF keeps_steady [OF introduction]] by blast
  next
    case False
    with that show ?thesis by (simp add: steady_def)
  qed
  have fin: "within (steady F P) (finish X Inbound Cancelled)"
    by (intro keeps_steady within_rules)
  have stay: "steady F P r r" for r :: inbound
    by (simp add: steady_def)
  show ?thesis
    unfolding process_transfer_setup_def conn_def [symmetric]
    by (rule st.pre_bind, rule st.within_ok_or, rule st.if_move, rule fin, rule st.move_get)
       (auto intro!: plain intro stay within_rules simp: exec)
qed

lemma bytes_payload: "within (steady F P) (process_bytes_payload X header chunk)"
proof -
  have quiet: "within (steady F P) (andthen (remove_buffer i) (fail e) :: unit inb)"
      "within (steady F P) (ret () :: unit inb)" "within (steady F P) (finish_text X info buffer)" for i e info buffer
    unfolding finish_text_def
    by (intro keeps_steady within_rules; simp add: store_text_def)+
  have stored: "within (calm P) (modify (upd_st (\<lambda>s. s\<lparr>is_payload_buffers := hm_insert i b (is_payload_buffers s)\<rparr>)))"
    for i b
    by (intro within_calm within_rules keeps_modify entries_buffers) (simp_all add: conn_def upd_st_def)
  have entry: "within (calm P) (entry_buffer i sz :: unit inb)" for i sz
    by (intro within_calm within_rules)
  have deliver: "within (steady F P) (deliver_buffer X i b)" for i b
    unfolding deliver_buffer_def
    by (rule st.pre_bind, rule st.within_get)
       (intro st.option_move st.if_move quiet st.pre_bind st.within_ok_or transfer_setup)
  show ?thesis
    unfolding process_bytes_payload_def Let_def
    by (rule st.if_move, rule quiet, rule st.pre_andthen, rule entry, rule st.pre_bind, rule st.within_bind,
        rule st.within_get, rule st.within_unwrap)
       (intro st.if_move quiet st.pre_andthen stored deliver)
qed

lemma offline_frame: "within (steady F P) (process_offline_frame X f)"
proof -
  have quiet: "within (steady F P) (ret ())" "within (steady F P) (send_keepalive X b :: unit inb)" for b
    by (intro keeps_steady within_rules)+
  show ?thesis
    unfolding process_offline_frame_def process_payload_transfer_def
    by (intro st.pre_bind within_calm within_rules quiet bytes_payload keeps_steady [OF file_payload])
qed

lemma serve: "within (steady F P) (serve_frame X d)"
proof -
  have fixed: "steady F P r (snd (m r))" if "within (same_rel tables) m" for m :: "unit inb" and r
    using within_at [OF keeps_steady [OF keeps_tables [OF that]]] .
  have secure: "steady F P r (snd (bind (ok_or DecodeError x) (decrypt_and_process_secure_message X) r))" for x r
    unfolding decrypt_and_process_secure_message_def
    by (rule within_at, intro st.pre_bind st.within_ok_or within_calm within_rules offline_frame)
  show ?thesis
    unfolding serve_frame_def
    by (rule st.move_get) (auto intro!: fixed secure within_rules)
qed

lemma action: "within (steady F P) (handle_action X a)"
proof (rule keeps_steady)
  show "within (keeps_rel (entries P)) (handle_action X a)"
    unfolding handle_action_def
    by (cases a; simp; (cases "the a"; simp)?; intro within_rules accept)
qed

lemma event: "within (steady F P) (handle X ev)"
proof -
  have buf: "within (calm P) (modify (\<lambda>r. r\<lparr>ib_recv_buf := f r\<rparr>))" for f
    by (intro within_calm within_rules keeps_modify) (simp_all add: conn_def entries_def)
  have read: "within (calm P) (stream_read_exact n)" for n
    by (intro within_calm within_rules)
  have skip: "within (calm P) (drop_partial_length k)" for k
    unfolding drop_partial_length_def
    by (intro within_calm within_rules keeps_modify) (simp_all add: conn_def entries_def)
  have still: "within (steady F P) (ret () :: unit inb)"
    by (intro keeps_steady within_rules)
  have frame: "within (steady F P) (handle_frame X lb)" for lb
    unfolding handle_frame_def Let_def
    by (intro st.pre_andthen st.pre_bind st.within_fail_if st.within_get buf read serve)
  show ?thesis
    unfolding handle_def
    by (cases ev; simp; intro within_recv st.pre_andthen st.pre_bind st.if_move st.within_get skip read
        frame still action)
qed

end

section \<open>The receiver's table\<close>

text \<open>
  An entry knows its own key; the open file is the one that it names; nothing is counted before the
  file is open, and never more than was announced.
\<close>

definition receiving_entry :: "i64 \<Rightarrow> internal_file_info \<Rightarrow> bool" where
  "receiving_entry i info \<longleftrightarrow> ifi_payload_id info = i
     \<and> (case ifi_file info of None \<Rightarrow> ifi_bytes_transferred info = 0 | Some h \<Rightarrow> fh_path h = ifi_file_url info)
     \<and> (ifi_bytes_transferred info = 0 \<or> ifi_bytes_transferred info \<le>s ifi_total_size info)"

interpretation receiving: entry_law receiving_entry True
  by unfold_locales (auto simp: receiving_entry_def word_sless_alt word_sle_eq split: option.splits)

lemma new_inbound_entries: "entries P (new_inbound i fs custom_download socket)"
  by (simp add: entries_def new_inbound_def is_default_def hm.lookup_empty hm.wf_empty)

lemma receiving_runs:
  assumes "entries receiving_entry r" and "for_each evs (handle X) r = (res, t)"
  shows "entries receiving_entry t"
proof -
  have "within (keeps_rel (entries receiving_entry)) (for_each evs (handle X))"
    using receiving.event [of X] by (intro within_rules) (simp add: within_def steady_def keeps_rel_def)
  from withinD [OF this assms(2)] assms(1) show ?thesis by (simp add: keeps_rel_def)
qed

text \<open>
  C23. Types of the receiver's tables: after any events, also when the last one failed or
  panicked, no key occurs twice, every entry is filed under its own payload id, an open file is the
  one its entry names, nothing is counted for a file that is not open, and the count never exceeds
  the announced size.
\<close>

theorem tables_well_formed:
  "entries receiving_entry (snd (for_each evs (handle X) (new_inbound i fs custom_download socket)))"
  by (rule receiving_runs [OF new_inbound_entries surjective_pairing])

section \<open>After the user accepted\<close>

definition open_entry :: "i64 \<Rightarrow> internal_file_info \<Rightarrow> bool" where
  "open_entry i info \<longleftrightarrow> ifi_file info \<noteq> None"

interpretation opened: entry_law open_entry False
  by unfold_locales (simp_all add: open_entry_def)

text \<open>The phases from the consent on.\<close>

definition agreed :: "conn_state \<Rightarrow> bool" where
  "agreed s \<longleftrightarrow> s \<in> {ReceivingFiles, Finished, Cancelled, Rejected}"

lemma agreed_stays:
  assumes "agreed (conn r)" and "handle X ev r = (res, t)"
  shows "agreed (conn t)"
  using handle_moves [OF assms(2)] assms(1)
  by (auto simp: agreed_def elim!: frame_moveE user_move.cases split: event.splits recv_result.splits)

lemma accept_opens:
  assumes "entries receiving_entry r" and "key_order_ok X" and "accept_transfer X r = (Done (), s)"
  shows "entries open_entry s \<and> conn s = ReceivingFiles"
proof -
  have "entries receiving_entry s"
    using withinD [OF receiving.accept assms(3)] assms(1) by (simp add: keeps_rel_def)
  then show ?thesis
    using accepted_files [OF assms(2,3)] by (auto simp: entries_def open_entry_def opened_file_def)
qed

lemma open_runs:
  assumes "for_each evs (handle X) r = (res, t)" and "entries open_entry r" and "agreed (conn r)"
  shows "entries open_entry t"
proof -
  have "within (keeps_rel (\<lambda>r. entries open_entry r \<and> agreed (conn r))) (handle X ev)" for ev
  proof (rule withinI)
    fix q res' u assume run: "handle X ev q = (res', u)"
    have "agreed (conn q) \<Longrightarrow> conn q \<noteq> ReceivedPairedKeyResult" by (auto simp: agreed_def)
    with withinD [OF opened.event run] agreed_stays [OF _ run]
    show "keeps_rel (\<lambda>r. entries open_entry r \<and> agreed (conn r)) q u"
      by (auto simp: steady_def keeps_rel_def)
  qed
  then have "within (keeps_rel (\<lambda>r. entries open_entry r \<and> agreed (conn r))) (for_each evs (handle X))"
    by (intro within_rules)
  from withinD [OF this assms(1)] assms(2,3) show ?thesis by (simp add: keeps_rel_def)
qed

lemma chunk_never_panics:
  assumes "entries open_entry r" and "chunk_body chunk \<noteq> []"
  shows "fst (process_file_payload X header chunk r) \<noteq> Panic p"
proof (cases "hm_lookup (is_transferred_files (rq_st r)) (header_id header)")
  case None
  then show ?thesis by (simp add: process_file_payload_def exec ok_or_def Let_def)
next
  case (Some info)
  with assms(1) obtain h where h: "ifi_file info = Some h" by (auto simp: entries_def open_entry_def)
  obtain res h' q where w: "file_write_all X (header_id header) info h (chunk_body chunk) r
      = (res, put_handle (header_id header) info h' q)" "res = Done () \<or> res = Fail IoError"
    by (rule file_write_all_cases)
  have "fst (count_acknowledged n u) = Done ()" for n u
    by (simp add: count_acknowledged_def exec update_state_def)
  with w show ?thesis
    using assms(2) unfolding process_file_payload_eq [OF Some]
    by (auto simp: h andthen_Done andthen_Fail modify_exec)
qed

text \<open>
  C24. Once the user accepted, every announced file is open and stays so: after any later events,
  whatever they are, each entry still has its file, and no chunk of data panics the receiver, whether
  it is in order, out of order, too long or for an unknown file. (Before the consent it does panic.)
\<close>

theorem after_consent_files_open:
  assumes "entries receiving_entry r" and "key_order_ok X" and "accept_transfer X r = (Done (), s)"
    and "for_each evs (handle X) s = (res, t)"
  shows "entries open_entry t
    \<and> (\<forall>header chunk p. chunk_body chunk = [] \<or> fst (process_file_payload X header chunk t) \<noteq> Panic p)"
proof -
  have "entries open_entry t"
    using accept_opens [OF assms(1-3)] by (intro open_runs [OF assms(4)]) (auto simp: agreed_def)
  then show ?thesis using chunk_never_panics by blast
qed

section \<open>The sender's table\<close>

text \<open>
  The sender registers all its files at once, when it announces them: each is open from then on, at
  the path it was announced for.
\<close>

definition outgoing_entry :: "i64 \<Rightarrow> internal_file_info \<Rightarrow> bool" where
  "outgoing_entry i info \<longleftrightarrow> ifi_payload_id info = i
     \<and> (\<exists>h. ifi_file info = Some h \<and> fh_path h = ifi_file_url info)"

definition outgoing_files :: "(i64, internal_file_info) hashmap \<Rightarrow> bool" where
  "outgoing_files m \<longleftrightarrow> hm_wf m \<and> (\<forall>i info. hm_lookup m i = Some info \<longrightarrow> outgoing_entry i info)"

lemma outgoing_files_insert: "outgoing_files m \<Longrightarrow> outgoing_entry i info \<Longrightarrow> outgoing_files (hm_insert i info m)"
  by (auto simp: outgoing_files_def hm.wf_insert split: if_splits)

lemma outgoing_files_remove: "outgoing_files m \<Longrightarrow> outgoing_files (hm_remove i m)"
  by (auto simp: outgoing_files_def hm.wf_remove split: if_splits)

lemma entries_outgoing:
  "entries outgoing_entry r \<longleftrightarrow> outgoing_files (is_transferred_files (rq_st r)) \<and> hm_wf (is_payload_buffers (rq_st r))"
  by (auto simp: entries_def outgoing_files_def)

lemma collected_outgoing:
  assumes "collect_files X fs metas infos n r = (Done (metas', infos', n'), t)" and "outgoing_files infos"
  shows "outgoing_files infos'"
  using assms
proof (induction fs arbitrary: metas infos n r)
  case (Cons f fs)
  have "outgoing_files (hm_insert (file_payload_id m) (outgoing_info m f) infos)" for m
    using Cons.prems(2) by (intro outgoing_files_insert) (simp_all add: outgoing_entry_def outgoing_info_def)
  with Cons show ?case
    by (auto simp: bind_get eq_Done Let_def draw_def split: if_splits option.splits)
qed (simp add: ret_exec)

lemma collect_quiet [within_rules]: "within (same_rel tables) (collect_files X fs metas infos n)"
proof (induction fs arbitrary: metas infos n)
  case Nil
  show ?case by (simp add: within_rules)
next
  case (Cons f fs)
  then show ?case unfolding collect_files.simps Let_def by (intro within_rules; simp)
qed

abbreviation outgoing :: "'x request_scheme \<Rightarrow> 'x request_scheme \<Rightarrow> bool" where
  "outgoing \<equiv> keeps_rel (entries outgoing_entry)"

lemma outgoing_introduction [within_rules]: "within outgoing (send_introduction X v)"
proof -
  have "outgoing r t" if run: "bind (collect_files X files [] [] 0) (\<lambda>(metas, infos, total_to_send).
      andthen (update_state Outbound (\<lambda>e. e\<lparr>is_transfer_metadata :=
          map_option (\<lambda>tmd. tmd\<lparr>tm_total_bytes := total_to_send\<rparr>) (is_transfer_metadata e),
        is_transferred_files := infos\<rparr>) False)
      (send_encrypted_frame X (introduction_frame_of metas))) r = (res, t)" for files r res t
  proof -
    obtain c u where c: "collect_files X files [] [] 0 r = (c, u)" by fastforce
    have u: "tables u = tables r" using withinD [OF collect_quiet c] by (simp add: same_rel_def)
    show ?thesis
    proof (cases c)
      case (Done p)
      obtain metas infos n where p: "p = (metas, infos, n)" by (cases p)
      let ?u = "upd_st (\<lambda>e. e\<lparr>is_transfer_metadata :=
          map_option (\<lambda>tmd. tmd\<lparr>tm_total_bytes := n\<rparr>) (is_transfer_metadata e), is_transferred_files := infos\<rparr>) u"
      have s: "send_encrypted_frame X (introduction_frame_of metas) ?u = (res, t)"
        using run c Done p by (simp add: bind_Done andthen_Done update_state_def exec)
      have "tables t = tables ?u"
        using withinD [OF tables_senders(3) s] by (simp add: same_rel_def)
      moreover have "outgoing_files infos"
        using collected_outgoing [of X files "[]" "[]"] c Done p by (simp add: outgoing_files_def hm.lookup_empty hm.wf_empty)
      moreover have "snd (tables u) = snd (tables r)" by (simp add: u)
      ultimately show ?thesis
        by (simp add: keeps_rel_def entries_outgoing tables_def upd_st_def)
    qed (use run c u entries_tables [OF u, of outgoing_entry] in
        \<open>auto simp: bind_Fail bind_Panic bind_NoFuel keeps_rel_def\<close>)
  qed
  then have "within outgoing (bind (collect_files X files [] [] 0) (\<lambda>(metas, infos, total_to_send).
      andthen (update_state Outbound (\<lambda>e. e\<lparr>is_transfer_metadata :=
          map_option (\<lambda>tmd. tmd\<lparr>tm_total_bytes := total_to_send\<rparr>) (is_transfer_metadata e),
        is_transferred_files := infos\<rparr>) False)
      (send_encrypted_frame X (introduction_frame_of metas))))" for files
    by (rule withinI)
  then show ?thesis
    unfolding send_introduction_def
    by (intro keeps.within_andthen keeps.within_fail_if) (rule keeps.within_bind, rule keeps.within_get, simp)
qed

lemma outgoing_sent: "within outgoing (count_sent i n)"
proof -
  have "outgoing_files (hm_adjust i (\<lambda>mu. mu\<lparr>ifi_bytes_transferred := b mu\<rparr>) m)" if "outgoing_files m" for b m
    using that unfolding hm_adjust_def
    by (auto simp: outgoing_files_def outgoing_entry_def hm.wf_insert split: option.split if_splits)
  then show ?thesis
    unfolding count_sent_def
    by (intro keeps.within_bind keeps.within_get)
       (auto simp: within_def keeps_rel_def update_state_def exec entries_outgoing upd_st_def Let_def)
qed

lemma outgoing_read:
  assumes "entries outgoing_entry r" and "hm_lookup (is_transferred_files (rq_st r)) i = Some info"
    and "ifi_file info = Some h" and "file_read X i info h r = (res, t)"
  shows "entries outgoing_entry t"
proof -
  have "outgoing_entry i info" using assms(1,2) by (simp add: entries_def)
  then have "outgoing_entry i (info\<lparr>ifi_file := Some (h\<lparr>fh_pos := p\<rparr>)\<rparr>)" for p
    using assms(3) by (simp add: outgoing_entry_def)
  with assms show ?thesis
    by (auto simp: file_read_def put_handle_def Let_def intro!: entries_insert split: if_splits)
qed

lemma outgoing_send_file: "within outgoing (send_file X fuel i header sz)"
proof (induction fuel)
  case 0
  show ?case by (simp add: within_rules)
next
  case (Suc fuel)
  have step: "outgoing r (snd (bind (file_read X i info h) g r))"
    if "hm_lookup (is_transferred_files (rq_st r)) i = Some info" "ifi_file info = Some h"
      "\<And>a. within outgoing (g a)" for r info h and g :: "bytes \<Rightarrow> unit outb"
  proof -
    obtain c u where c: "file_read X i info h r = (c, u)" by fastforce
    have "outgoing r u" using outgoing_read [OF _ that(1,2) c] by (simp add: keeps_rel_def)
    moreover have "outgoing u (snd (g a u))" for a by (rule within_at [OF that(3)])
    ultimately show ?thesis
      using c by (cases c) (auto simp: bind_Done bind_Fail bind_Panic bind_NoFuel keeps_rel_def)
  qed
  have remove: "within outgoing (update_state Outbound (\<lambda>e. e\<lparr>is_transferred_files :=
      hm_remove i (is_transferred_files e)\<rparr>) False)"
    by (auto simp: within_def keeps_rel_def update_state_def exec dest: entries_remove)
  have refl: "outgoing r r" for r :: outbound by (simp add: keeps_rel_def)
  show ?case
    unfolding send_file.simps
    by (rule keeps.within_bind_get)
       (auto split: option.split intro!: within_at [OF remove] step refl within_rules outgoing_sent Suc.IH simp: ret_exec Let_def)
qed

lemma outgoing_send_files: "within outgoing (send_files X fuel ids)"
proof (induction ids)
  case Nil
  show ?case unfolding send_files.simps by (intro within_rules)
next
  case (Cons i ids)
  then show ?case unfolding send_files.simps
    by (intro within_rules outgoing_send_file)
qed

lemma tables_out_quiet [within_rules]:
  "within (same_rel tables) (answer_paired_key_encryption X v)"
  "within (same_rel tables) (check_connection_response X f)"
  unfolding answer_paired_key_encryption_def check_connection_response_def by (intro within_rules)+

lemma tables_client_finalize [within_rules]: "within (same_rel tables) (client_finalize_key_exchange X k)"
  unfolding client_finalize_key_exchange_def Let_def case_prod_beta
  by (intro within_rules; simp add: tables_def upd_st_def)

lemma tables_server_init [within_rules]: "within (same_rel tables) (process_ukey2_server_init X m)"
  unfolding process_ukey2_server_init_def by (intro within_rules)

lemma tables_opening [within_rules]:
  "within (same_rel tables) (send_connection_request X)" "within (same_rel tables) (send_ukey2_client_init X)"
  unfolding send_connection_request_def send_ukey2_client_init_def Let_def case_prod_beta
  by (intro within_rules; simp add: tables_def upd_st_def)+

lemmas outgoing_still [within_rules] =
  tables_out_quiet [THEN keeps_tables] tables_server_init [THEN keeps_tables] tables_opening [THEN keeps_tables]

lemma outgoing_consent [within_rules]: "within outgoing (process_consent X fuel v)"
  unfolding process_consent_def by (intro within_rules outgoing_send_files) simp_all

lemma outgoing_setup [within_rules]: "within outgoing (process_setup X fuel frame)"
  unfolding process_setup_def by (intro within_rules)

lemma outgoing_store [within_rules]:
  "within outgoing (modify (upd_st (\<lambda>s. s\<lparr>is_payload_buffers := hm_insert i b (is_payload_buffers s)\<rparr>)))"
  by (intro keeps_modify entries_buffers)

lemma outgoing_frame [within_rules]: "within outgoing (out_serve_frame X fuel d)"
  unfolding out_serve_frame_def out_secure_message_def out_offline_frame_def out_payload_transfer_def
    out_bytes_payload_def Let_def
  by (intro within_rules) simp_all

lemma outgoing_event: "within outgoing (out_handle X fuel ev)"
proof -
  have action: "within outgoing (out_handle_action X a)" for a
    unfolding out_handle_action_def by (cases a; simp; (cases "the a"; simp)?; intro within_rules)
  have skip: "within outgoing (drop_partial_length k)" for k
    unfolding drop_partial_length_def by (intro keeps_modify) (simp add: entries_def)
  have read: "within outgoing (read_message lb)" for lb
    unfolding read_message_def Let_def by (intro within_rules; (intro keeps_modify)?; simp add: entries_def)
  show ?thesis
    unfolding out_handle_def out_handle_frame_def
    by (cases ev; simp; intro within_rules action skip read)
qed

text \<open>
  Types of the sender's tables: from its first message on, after any events and however the last
  one ended, no key occurs twice and every entry is filed under its own payload id with its file open
  at the path that was announced, so the loop never stops at an entry without a file.
\<close>

theorem sender_tables_well_formed:
  "entries outgoing_entry (snd (andthen (send_connection_request X) (andthen (send_ukey2_client_init X)
     (for_each evs (out_handle X fuel))) (new_outbound endpoint_id i files rdi fs socket)))"
proof -
  have "within outgoing (andthen (send_connection_request X) (andthen (send_ukey2_client_init X)
     (for_each evs (out_handle X fuel))))"
    by (intro within_rules outgoing_event)
  moreover have "entries P (new_outbound endpoint_id i files rdi fs socket)" for P
    by (simp add: entries_def new_outbound_def is_default_def hm.lookup_empty hm.wf_empty)
  ultimately show ?thesis by (simp add: within_def keeps_rel_def)
qed

end
