(* ===== verification/SessionWitnesses.thy ===== *)
theory SessionWitnesses
  imports EmptyFiles Registry Witnesses
begin

text \<open>A concrete session in the environment \<open>W\<close>: one file of two bytes is offered.\<close>

definition one_file :: "path \<Rightarrow> fs_node option" where
  "one_file = [''/home/a.txt'' \<mapsto> FileNode [7, 8]]"

lemma W_session: "session_env W"
  by (simp add: session_env_def W_exchange W_channel W_no_faults)

lemma W_usable: "usable_key W k"
  by (simp add: usable_key_def W_point W_long)

lemma W_sendable:
  assumes "length (enc_sharing W g) \<le> 1000"
  shows "sendable W g"
proof -
  have h: "length (fst payload_header_ser (bytes_header i n)) = 166" for i n
    by (simp add: bytes_header_def payload_header_ser_def ser_length)
  have "length (enc_offline W (data_transfer (bytes_header i (length (enc_sharing W g)))
      \<lparr>pc_flags = Some a, pc_offset = Some b, pc_body = Some d\<rparr>)) \<le> 600000" if "length d \<le> 1000" for i a b d
    using that by (simp only: W_data_length h)
  with assms show ?thesis
    unfolding sendable_def by (intro conjI allI impI W_seal_fits) (auto simp: sane_frame_length_def)
qed

lemmas sharing_lengths = W_fields encode_def sharing_v1_frame_def sv_default_def
  sharing_frame_ser_def sharing_v1_ser_def ser_length

lemma W_sends_keys: "sendable W (paired_key_encryption W k1 k2)"
  by (rule W_sendable) (simp add: paired_key_encryption_def paired_key_encryption_frame_ser_def gen_random_def sharing_lengths)

lemma W_sends_result: "sendable W paired_key_result"
  by (rule W_sendable) (simp add: paired_key_result_def sharing_lengths)

lemma W_fits: "length d \<le> 10000 \<Longrightarrow> fits_frame d"
  by (simp add: fits_frame_def sane_frame_length_def)

lemma be_bytes_length: "n < 256 ^ Suc m \<Longrightarrow> length (be_bytes n) \<le> Suc m"
proof (induction m arbitrary: n)
  case (Suc m)
  then have "n div 256 < 256 ^ Suc m" by (simp add: div_less_iff_less_mult mult.commute)
  with Suc.IH show ?case by (cases "n < 256") (simp_all add: be_bytes_small be_bytes_large)
qed (simp add: be_bytes_small)

lemma W_public_key_length:
  assumes "own_public_key W (public_of W (gen_secret W k)) = Done g"
  shows "length (enc_public_key W g) \<le> 300"
proof -
  have c: "be_nat (take 32 fixed_key) < 256 ^ Suc 31" "be_nat (drop 32 fixed_key) < 256 ^ Suc 31"
    using be_nat_less [of "take 32 fixed_key"] be_nat_less [of "drop 32 fixed_key"] by (simp_all add: fixed_key_def)
  have "length (signed_bytes (int n)) \<le> 33" if "n < 256 ^ Suc 31" for n
    using be_bytes_length [OF that] by (simp add: signed_bytes_def Let_def)
  note this [OF c(1)] this [OF c(2)]
  then show ?thesis
    using assms
    by (auto simp: own_public_key_def encode_point_def W_def encode_def generic_public_key_ser_def
        ec_p256_public_key_ser_def ser_length)
qed

lemma W_host: "os_hostname W = ''host''"
  by (simp add: W_def)

lemma W_hash_length: "length (sha512 W d) = 64"
  by (simp add: W_def)

lemma endpoint_lossy: "length (utf8_lossy [65, 66, 67, 68]) = 4"
  by code_simp

lemma W_handshake: "handshake_fits W [65, 66, 67, 68]"
  unfolding handshake_fits_def
proof (intro conjI allI impI W_fits)
  fix k
  show "length (enc_offline W (connection_request W [65, 66, 67, 68] k)) \<le> 10000"
    by (simp add: connection_request_def sharing_lengths offline_v1_def v1_default_def offline_frame_ser_def
      v1_frame_ser_def connection_request_frame_ser_def W_host serialize_def list_ser_def gen_random_def
      from_utf8_lossy_def as_bytes_def endpoint_lossy)
next
  show "length (enc_offline W (connection_response_accept W)) \<le> 10000"
    by (simp add: connection_response_accept_def sharing_lengths offline_v1_def v1_default_def offline_frame_ser_def
      v1_frame_ser_def connection_response_frame_ser_def)
next
  fix g k
  assume g: "own_public_key W (public_of W (gen_secret W k)) = Done g"
  note l = W_public_key_length [OF g]
  show "length (enc_ukey2 W (client_finish_frame W g)) \<le> 10000"
    using l by (simp add: client_finish_frame_def sharing_lengths ukey2_frame_def ukey2_message_ser_def)
  fix r :: bytes assume r: "length r = 32"
  show "length (enc_ukey2 W (client_init_frame W r (sha512 W (enc_ukey2 W (client_finish_frame W g))))) \<le> 10000"
    using r by (simp add: client_init_frame_def sharing_lengths ukey2_frame_def ukey2_message_ser_def
      ukey2_client_init_ser_def cipher_commitment_ser_def list_ser_def next_protocol_def W_hash_length)
  show "length (enc_ukey2 W (server_init_frame W r g)) \<le> 10000"
    using l r by (simp add: server_init_frame_def sharing_lengths ukey2_frame_def ukey2_message_ser_def
      ukey2_server_init_ser_def)
qed

lemma one_file_introduced:
  "introduced W one_file 11 [''/home/a.txt''] = [\<lparr>fm_name = Some ''a.txt'', fm_type = Some (enum_num file_type_table FtUnknown),
     fm_payload_id = Some 11, fm_size = Some 2, fm_mime_type = Some ''application/octet-stream''\<rparr>]"
proof -
  have "\<not> os_open_error W p" "\<not> os_metadata_error W p" "os_mime W p = ''application/octet-stream''" for p
    by (simp_all add: W_def)
  moreover have "path_file_name ''/home/a.txt'' = Some ''a.txt''" "path_extension ''/home/a.txt'' = Some ''txt''"
    by code_simp+
  ultimately show ?thesis
    by (simp add: announceable_def is_file_def one_file_def content_size_def file_content_def W_fields
        meta_type_def starts_with_def string_or_empty_def introduced_def)
qed

lemma W_sends_introduction: "sendable W (introduction_frame_of (introduced W one_file 11 [''/home/a.txt'']))"
  by (rule W_sendable)
    (simp add: one_file_introduced introduction_frame_of_def sharing_lengths introduction_frame_ser_def
      file_metadata_ser_def list_ser_def)

lemma W_name: "from_utf8 (take 255 (as_bytes (os_hostname W))) = Some ''host''"
proof -
  have "utf8_valid (as_bytes ''host'')" by (simp add: as_bytes_def utf8_valid.simps)
  then show ?thesis using from_utf8_as_bytes by (simp add: W_host)
qed

lemma one_file_destination: "\<forall>m \<in> set (introduced W one_file 11 [''/home/a.txt'']).
    pick_dest (path_exists empty_disk) (get_download_dir W None) (file_name_of m) \<noteq> None"
  by (simp add: one_file_introduced pick_dest_def path_exists_def empty_disk_def Let_def)

lemma one_file_length: "content_size one_file ''/home/a.txt'' = 2"
  by (simp add: content_size_def file_content_def one_file_def)

lemma session_asks_user_witness:
  "\<exists>c1 c s pin meta. connecting W (fresh_client [65, 66, 67, 68] ''out1'' [''/home/a.txt''] sender_device one_file)
      = (Done (), c1)
    \<and> for_each until_asked (take_turn W 9) (c1, fresh_server ''10.0.0.7:4444'' empty_disk None) = (Done (), (c, s))
    \<and> conn s = WaitingForUserConsent \<and> is_pin_code (rq_st c) = Some pin
    \<and> is_transfer_metadata (rq_st s) = Some meta \<and> tm_pin_code meta = Some pin
    \<and> tm_files meta = Some [''a.txt''] \<and> tm_total_bytes meta = 2"
proof -
  have ok: "announceable W one_file ''/home/a.txt''" "path_file_name ''/home/a.txt'' = Some ''a.txt''"
    by (simp_all add: announceable_def is_file_def one_file_def W_def) code_simp
  from session_asks_user [OF W_session W_handshake W_name W_usable W_usable refl _ _ one_file_destination download_printable _ W_sends_result
      W_sends_introduction, of "''out1''" sender_device 9 "''10.0.0.7:4444''"]
  show ?thesis
    using ok W_sends_keys one_file_length
    by (simp add: one_file_introduced W_fields) blast
qed

lemma one_file_announced:
  "announcements W one_file 11 [''/home/a.txt''] = [(\<lparr>fm_name = Some ''a.txt'',
     fm_type = Some (enum_num file_type_table FtUnknown), fm_payload_id = Some 11, fm_size = Some 2,
     fm_mime_type = Some ''application/octet-stream''\<rparr>, ''/home/a.txt'')]"
  using one_file_introduced by (auto simp: introduced_def split: if_splits)

lemma one_file_planned:
  "planned W one_file empty_disk None [''/home/a.txt''] = [\<lparr>jb_id = 11, jb_source = ''/home/a.txt'',
     jb_dest = ''/downloads/a.txt'', jb_content = [7, 8]\<rparr>]"
proof -
  have "path_push ''/downloads'' ''a.txt'' = ''/downloads/a.txt''" by code_simp
  moreover have "get_download_dir W None = ''/downloads''"
    by (simp add: get_download_dir_def W_def)
  ultimately show ?thesis
    unfolding planned_def one_file_announced
    by (simp add: planned_job_def pick_dest_def path_exists_def empty_disk_def
        Let_def file_name_of_def file_payload_id_def file_content_def one_file_def)
qed

lemma W_goodbye: "goodbye_fits W"
  unfolding goodbye_fits_def
  by (intro allI impI W_seal_fits) (simp_all add: W_fields encode_def offline_v1_def v1_default_def
      offline_frame_ser_def v1_frame_ser_def ser_length)

lemma one_file_ok: "job_ok W 9 \<lparr>jb_id = i, jb_source = ''/home/a.txt'', jb_dest = ''/downloads/a.txt'', jb_content = [7, 8]\<rparr>"
proof -
  have name: "path_file_name ''/home/a.txt'' = Some ''a.txt''" by code_simp
  have "length (enc_offline W (data_transfer (job_header \<lparr>jb_id = i, jb_source = ''/home/a.txt'',
      jb_dest = ''/downloads/a.txt'', jb_content = [7, 8]\<rparr>)
      \<lparr>pc_flags = Some a, pc_offset = Some b, pc_body = Some d\<rparr>)) \<le> 600000" if "length d \<le> 2" for a b d
    using that by (simp add: W_data_length job_header_def payload_header_ser_def ser_length name)
  then show ?thesis
    unfolding job_ok_def chunk_fits_def
    by (auto intro!: W_seal_fits simp: read_buffer_size_def W_no_faults)
qed

lemma W_sends_acceptance: "sendable W (response_frame CsAccept)"
  by (rule W_sendable) (simp add: response_frame_def sharing_lengths)

lemma session_delivers_files_witness:
  "\<exists>c1 c s s1 c2 s2 n res c3 s3.
    connecting W (fresh_client [65, 66, 67, 68] ''out1'' [''/home/a.txt''] sender_device one_file) = (Done (), c1)
    \<and> for_each until_asked (take_turn W 9) (c1, fresh_server ''10.0.0.7:4444'' empty_disk None) = (Done (), (c, s))
    \<and> handle W (acceptance (is_id (rq_st s))) s = (Done (), s1)
    \<and> take_turn W 9 (ClientTurn 2) (c, s1) = (Done (), (c2, s2))
    \<and> take_turn W 9 (ServerTurn n) (c2, s2) = (res, (c3, s3))
    \<and> conn c3 = Finished \<and> conn s3 = Finished
    \<and> rq_fs s3 = empty_disk(''/downloads/a.txt'' \<mapsto> FileNode [7, 8])"
proof -
  have ok: "announceable W one_file ''/home/a.txt''" "path_file_name ''/home/a.txt'' = Some ''a.txt''"
    by (simp_all add: announceable_def is_file_def one_file_def W_def) code_simp
  have no_error: "\<not> os_create_error W p" for p by (simp add: W_def)
  from session_delivers_files [OF W_session W_handshake W_keys W_no_faults(3) W_goodbye W_name W_usable W_usable refl
      _ _ one_file_destination download_printable _ W_sends_result W_sends_introduction W_sends_acceptance _ _ refl,
      of 9 "''out1''" sender_device "''10.0.0.7:4444''"]
  show ?thesis
    using ok W_sends_keys one_file_ok no_error
    by (simp add: one_file_introduced one_file_planned W_fields delivered_def) blast
qed

lemma empty_file_never_finishes_witness:
  "\<exists>t ws u. send_files W 1 [5] (ready_to_send [] 0) = (Done (), t) \<and> conn t = Finished
    \<and> rq_out t = ws
    \<and> inbound_task W ''10.0.0.7:4444'' [OnSocket, OnSocket] ((receiver ReceivingFiles)\<lparr>rq_in := concat ws\<rparr>) = (Ended, u)
    \<and> last (rq_chan u) = disconnected_message ''10.0.0.7:4444''"
proof -
  let ?j = "\<lparr>jb_id = 5, jb_source = ''/home/a.txt'', jb_dest = [], jb_content = []\<rparr>" and ?s = "ready_to_send [] 0"
  have "sending 5 (sending_entry 0) ''/home/a.txt'' [] [] ?s" "ifi_file_url (sending_entry 0) = ''/home/a.txt''"
    using ready_sending [of "[]"] by (simp_all add: sending_entry_def)
  then have "ready_out ?j ?s" by (auto simp: ready_out_def)
  moreover have "armed ?s" "is_encryption_done (rq_st ?s)" "linked ?s (receiver ReceivingFiles)"
    by (simp_all add: armed_def linked_def ready_keys) (simp_all add: ready_to_send_def sender_def start_defs)
  ultimately show ?thesis
    using empty_file_never_finishes [OF W_session W_goodbye, of ?s ?j "receiver ReceivingFiles" 0 "''10.0.0.7:4444''"]
    by (auto simp: ready_keys)
qed

lemma after_consent_files_open_witness:
  "\<exists>s res t. accept_transfer W announced_only = (Done (), s)
    \<and> for_each [OnSocket, OnChannel 1 RecvClosed] (handle W) s = (res, t)
    \<and> entries open_entry t \<and> (\<forall>p. fst (process_file_payload W file_payload
          \<lparr>pc_flags = Some 0, pc_offset = Some 0, pc_body = Some [1, 2]\<rparr> t) \<noteq> Panic p)"
proof -
  have r: "entries receiving_entry announced_only"
    by (auto simp: entries_def announced_only_def receiver_def start_defs hm_wf_def hm_lookup_def
        receiving_entry_def file_entry_def split: if_splits)
  obtain s where s: "accept_transfer W announced_only = (Done (), s)"
    using accept_announced_only by blast
  obtain res t where t: "for_each [OnSocket, OnChannel 1 RecvClosed] (handle W) s = (res, t)"
    by fastforce
  let ?chunk = "\<lparr>pc_flags = Some 0, pc_offset = Some 0, pc_body = Some [1, 2]\<rparr>"
  note all = after_consent_files_open [OF r W_keys s t]
  have "fst (process_file_payload W file_payload ?chunk t) \<noteq> Panic p" for p
    using all [THEN conjunct2, rule_format, of ?chunk] by (auto simp: chunk_body_def)
  with s t all show ?thesis by blast
qed

text \<open>The peer asks for a connection and closes it.\<close>

lemma inbound_end_is_told_witness:
  "\<exists>t. inbound_connection W ''10.0.0.7:4444'' empty_disk None
      (concat (framed (enc_offline W (connection_request W [65, 66, 67, 68] 0)))) [OnSocket, OnSocket] = (Ended, t)
    \<and> told t"
proof -
  let ?d = "enc_offline W (connection_request W [65, 66, 67, 68] 0)"
  let ?r = "new_inbound ''10.0.0.7:4444'' empty_disk None (concat (framed ?d))"
  have fits: "fits_frame ?d" using W_handshake by (simp add: handshake_fits_def)
  obtain b where b: "handle W OnSocket ?r = serve_frame W ?d (set_recv_buf b (?r\<lparr>rq_in := []\<rparr>))"
    using handle_plain [of ?r ?d "[]", OF _ fits] by (auto simp: new_inbound_def)
  have "conn (set_recv_buf b (?r\<lparr>rq_in := []\<rparr>)) = Initial"
    by (simp add: new_inbound_def conn_def is_default_def)
  from request_served [OF _ W_rand W_name this] obtain u where u: "handle W OnSocket ?r = (Done (), u)"
      "conn u = ReceivedConnectionRequest" "rq_in u = []"
    using b W_session by (simp add: session_env_def exchange_env_def conn_def upd_st_def)
  then have ended: "inbound_connection W ''10.0.0.7:4444'' empty_disk None (concat (framed ?d)) [OnSocket, OnSocket]
      = (Ended, inbound_error ''10.0.0.7:4444'' IoError u)"
    using handle_at_end [OF u(3)] by (simp add: inbound_connection_def)
  have "conn (inbound_error ''10.0.0.7:4444'' IoError u) \<noteq> Initial"
    using u(2) by (simp add: inbound_error_def tell_def conn_def)
  with inbound_end_is_told [OF ended] ended show ?thesis by blast
qed

end
