(* ===== verification/Rendering.thy ===== *)
theory Rendering
  imports Views
begin

text \<open>
  What the window shows: the trees of elements that the render functions of \<open>views/\<close> build, with
  their texts, buttons and switches in the order of the code. Layout, fonts and colours are left
  out. The percentage and the speed are floating point numbers that are only displayed: they stay
  the operands they are computed from. A map shows its values in the order of its list.
\<close>

section \<open>Elements\<close>

datatype element =
    Label string                        \<comment> \<open>a text\<close>
  | Icon string
  | Button string control               \<comment> \<open>its label and what it does\<close>
  | Switch bool control                 \<comment> \<open>whether it is on, and what a click does\<close>
  | Clickable control "element list"    \<comment> \<open>anything else with \<open>on_click\<close>\<close>
  | Bar "u64 \<times> u64"                    \<comment> \<open>the operands of the ratio\<close>
  | Percentage "u64 \<times> u64" "(u64 \<times> nat) option"    \<comment> \<open>the ratio and the speed\<close>
  | Box "element list"

text \<open>What can be pressed, and what can be read, from left to right and top to bottom.\<close>

fun pressable :: "element \<Rightarrow> control list" where
  "pressable (Label s) = []"
| "pressable (Icon n) = []"
| "pressable (Button l c) = [c]"
| "pressable (Switch b c) = [c]"
| "pressable (Clickable c es) = c # concat (map pressable es)"
| "pressable (Bar p) = []"
| "pressable (Percentage p v) = []"
| "pressable (Box es) = concat (map pressable es)"

fun readable :: "element \<Rightarrow> string list" where
  "readable (Label s) = [s]"
| "readable (Icon n) = []"
| "readable (Button l c) = [l]"
| "readable (Switch b c) = []"
| "readable (Clickable c es) = concat (map readable es)"
| "readable (Bar p) = []"
| "readable (Percentage p v) = []"
| "readable (Box es) = concat (map readable es)"

text \<open>\<open>.when(c, |this| this.child(..))\<close>\<close>

definition shown_if :: "bool \<Rightarrow> element \<Rightarrow> element list" where
  "shown_if c e = (if c then [e] else [])"

section \<open>A transfer\<close>

definition render_transfer_header :: "transfer_item \<Rightarrow> element" where
  "render_transfer_header t = Box [Label (shown_name t), Label (status_text t)]"

definition files_label :: "string list \<Rightarrow> element" where
  "files_label files = Label (join_names files)"

definition render_consent :: "transfer_item \<Rightarrow> element" where
  "render_consent t =
     (let pin = or_default [] (ti_pin_code t);
          has_pin = (pin \<noteq> []);
          has_files = (ti_files t \<noteq> []) in
      Box (shown_if has_pin (Box [Label ''PIN:'', Label pin])
        @ shown_if has_files (files_label (ti_files t))
        @ [Box [Button ''Accept'' (Accept (ti_id t)), Button ''Reject'' (Reject (ti_id t))]]))"

text \<open>A speed is positive when its bytes are: it is set for a positive time only.\<close>

definition shown_speed :: "transfer_item \<Rightarrow> (u64 \<times> nat) option" where
  "shown_speed t = (case ti_speed t of NoSpeed \<Rightarrow> None
     | Speed ack elapsed \<Rightarrow> if 0 < ack then Some (ack, elapsed) else None)"

definition render_progress :: "transfer_item \<Rightarrow> element" where
  "render_progress t =
     (let progress = (if 0 < ti_total_bytes t then (ti_ack_bytes t, ti_total_bytes t) else (0, 1));
          has_files = (ti_files t \<noteq> []) in
      Box (shown_if has_files (files_label (ti_files t))
        @ [Bar progress, Box [Percentage progress (shown_speed t), Button ''Cancel'' (CancelButton (ti_id t))]]))"

definition render_finished :: "transfer_item \<Rightarrow> element" where
  "render_finished t =
     (let has_files = (ti_files t \<noteq> []);
          has_dest = (ti_destination t \<noteq> None);
          has_text = (ti_text_payload t \<noteq> None) in
      Box (shown_if has_files (files_label (ti_files t))
        @ shown_if has_text (Label (or_default [] (ti_text_payload t)))
        @ [Box (shown_if has_dest (Button ''Open'' (Open (or_default [] (ti_destination t))))
            @ [Button ''Clear'' (Clear (ti_id t))])]))"

definition render_terminal :: "transfer_item \<Rightarrow> element" where
  "render_terminal t = Box [Button ''Clear'' (Clear (ti_id t))]"

definition render_transfer_body :: "transfer_item \<Rightarrow> element" where
  "render_transfer_body t =
     (case ti_state t of
        WaitingForUserConsent \<Rightarrow> render_consent t
      | SendingFiles \<Rightarrow> render_progress t
      | ReceivingFiles \<Rightarrow> render_progress t
      | Finished \<Rightarrow> render_finished t
      | _ \<Rightarrow> render_terminal t)"

definition render_transfer_item :: "transfer_item \<Rightarrow> element" where
  "render_transfer_item t = Box [render_transfer_header t, render_transfer_body t]"

section \<open>The middle of the window\<close>

definition device_icon :: "device_type option \<Rightarrow> string" where
  "device_icon dt = (case dt of
     Some DevPhone \<Rightarrow> ''CircleUser''
   | Some DevTablet \<Rightarrow> ''LayoutDashboard''
   | Some DevLaptop \<Rightarrow> ''SquareTerminal''
   | _ \<Rightarrow> ''Info'')"

definition render_device_item :: "endpoint_info \<Rightarrow> element" where
  "render_device_item device =
     (let name = or_default ''Unknown Device'' (ei_name device);
          icon = device_icon (ei_rtype device) in
      Clickable (Device device) [Icon icon, Box [Box [Label name]]])"

definition empty_placeholder :: "string \<Rightarrow> element" where
  "empty_placeholder txt = Label txt"

definition render_idle :: element where
  "render_idle = Box [Label ''Select files to share'', Button ''Select Files'' SelectFiles]"

definition render_discovery :: "endpoint_info list \<Rightarrow> transfer_item list \<Rightarrow> element" where
  "render_discovery devices transfers =
     (let has_transfers = (transfers \<noteq> []) in
      Box ([Label ''Nearby Devices'']
        @ shown_if (devices = []) (empty_placeholder ''Searching for nearby devices...'')
        @ shown_if (devices \<noteq> []) (Box (map render_device_item devices))
        @ shown_if has_transfers (Box (Label ''Transfers'' # map render_transfer_item transfers))))"

definition render_transfers :: "transfer_item list \<Rightarrow> element" where
  "render_transfers transfers =
     Box ([Label ''Transfers'']
       @ shown_if (transfers = []) (empty_placeholder ''No active transfers'')
       @ shown_if (transfers \<noteq> []) (Box (map render_transfer_item transfers)))"

definition render_content :: "app_state \<Rightarrow> element" where
  "render_content s =
     (let mode = as_content_mode s;
          devices = map snd (as_discovered_devices s);
          transfers = map snd (as_transfers s) in
      Box [case mode of
          Idle \<Rightarrow> render_idle
        | Discovering \<Rightarrow> render_discovery devices transfers
        | Transfers \<Rightarrow> render_transfers transfers])"

section \<open>The sides of the window\<close>

definition visibility_options :: "(visibility \<times> string \<times> string) list" where
  "visibility_options =
     [(Visible, ''Visible'', ''Everyone nearby can see you''),
      (Invisible, ''Invisible'', ''No one can see you''),
      (Temporarily, ''Temporary'', ''Visible for a short time'')]"

text \<open>The option that is selected differs in colour only.\<close>

definition render_visibility_selector :: "visibility \<Rightarrow> element" where
  "render_visibility_selector current =
     Box (Label ''Visibility'' # map (\<lambda>(vis, label, desc).
       Clickable (ChooseVisibility vis) [Label label, Label desc]) visibility_options)"

definition shown_file_name :: "path \<Rightarrow> string" where
  "shown_file_name f =
     (case path_file_name f of
        None \<Rightarrow> ''unknown''
      | Some n \<Rightarrow> if utf8_valid (as_bytes n) then n else ''unknown'')"

definition render_file_list :: "path list \<Rightarrow> element" where
  "render_file_list files =
     Box [Label (''Files to send ('' @ dec (length files) @ '')''),
       Box (map (\<lambda>f. Label (shown_file_name f)) files),
       Button ''Cancel'' CancelSend]"

text \<open>\<open>state.visibility()\<close> is called first and panics for a value that no visibility has.\<close>

definition render_sidebar :: "app_state \<Rightarrow> element outcome" where
  "render_sidebar s =
     (let has_files = (as_files_to_send s \<noteq> []) in
      case settings_visibility (as_settings s) of
        Done current_visibility \<Rightarrow>
          Done (Box (shown_if (\<not> has_files) (render_visibility_selector current_visibility)
            @ shown_if has_files (render_file_list (as_files_to_send s))))
      | Fail e \<Rightarrow> Fail e
      | Panic p \<Rightarrow> Panic p
      | NoFuel \<Rightarrow> NoFuel)"

definition app_version :: string where
  "app_version = ''0.1.0''"

definition render_header :: "app_state \<Rightarrow> element" where
  "render_header s =
     Box [Box [Label ''RQuickShare'', Label (as_hostname s)],
       Box [Label (''v'' @ app_version), Clickable ToggleSettings [Icon ''Settings'']]]"

section \<open>The settings\<close>

definition setting_label :: "string \<Rightarrow> string \<Rightarrow> element" where
  "setting_label label description = Box [Label label, Label description]"

definition setting_row :: "string \<Rightarrow> string \<Rightarrow> bool \<Rightarrow> (bool \<Rightarrow> control) \<Rightarrow> element" where
  "setting_row label description checked on_toggle =
     Box [setting_label label description, Switch checked (on_toggle (\<not> checked))]"

definition render_settings_overlay :: "app_state \<Rightarrow> element" where
  "render_settings_overlay s =
     (let st = as_settings s;
          download_path = (case st_download_path st of
             Some p \<Rightarrow> from_utf8_lossy (as_bytes p) | None \<Rightarrow> ''Default (~/Downloads)'') in
      Box [Clickable CloseSettings [],
        Box [Box [Label ''Settings''],
          Box [setting_row ''Autostart'' ''Start on system boot'' (st_autostart st) SetAutostart,
            setting_row ''Keep running on close'' ''Minimize to background instead of quitting''
              (st_realclose st) SetRealclose,
            setting_row ''Start minimized'' ''Hide window on launch'' (st_startminimized st) SetStartminimized,
            Box [setting_label ''Download path'' download_path, Button ''Change'' ChangeDownloadPath]]]])"

definition render_root :: "app_state \<Rightarrow> element outcome" where
  "render_root s =
     (case render_sidebar s of
        Done sidebar \<Rightarrow> Done (Box ([render_header s, Box [sidebar, render_content s]]
          @ shown_if (as_show_settings s) (render_settings_overlay s)))
      | Fail e \<Rightarrow> Fail e
      | Panic p \<Rightarrow> Panic p
      | NoFuel \<Rightarrow> NoFuel)"

section \<open>The controls of the window\<close>

lemma pressable_shown_if [simp]: "concat (map pressable (shown_if c e)) = (if c then pressable e else [])"
  and readable_shown_if [simp]: "concat (map readable (shown_if c e)) = (if c then readable e else [])"
  by (simp_all add: shown_if_def)

lemmas item_renders = render_transfer_item_def render_transfer_header_def render_transfer_body_def
  render_consent_def render_progress_def render_finished_def render_terminal_def files_label_def Let_def

lemma pressable_item: "pressable (render_transfer_item t) = item_controls t"
  by (cases "ti_state t")
     (auto simp: item_renders item_controls_def or_default_def split: option.split)

lemma pressable_items: "concat (map (pressable \<circ> (render_transfer_item \<circ> snd)) (as_transfers s)) = transfers_controls s"
  by (simp add: transfers_controls_def pressable_item comp_def)

lemma pressable_content: "pressable (render_content s) = content_controls s"
proof -
  have items: "concat (map pressable (map render_transfer_item (map snd (as_transfers s)))) = transfers_controls s"
    by (simp add: transfers_controls_def pressable_item comp_def)
  have devices: "concat (map pressable (map render_device_item ds)) = map Device ds" for ds
    by (induction ds) (simp_all add: render_device_item_def Let_def)
  show ?thesis
    using items devices [of "map snd (as_discovered_devices s)"]
    by (cases "as_content_mode s")
       (auto simp: render_content_def render_idle_def render_discovery_def render_transfers_def
          content_controls_def empty_placeholder_def transfers_controls_def comp_def Let_def)
qed

lemma pressable_sidebar: "render_sidebar s = Done e \<Longrightarrow> pressable e = sidebar_controls s"
proof -
  have labels: "concat (map pressable (map (\<lambda>f. Label (g f)) fs)) = []" for g and fs :: "path list"
    by (induction fs) simp_all
  show "render_sidebar s = Done e \<Longrightarrow> pressable e = sidebar_controls s"
    using labels [of shown_file_name "as_files_to_send s"]
    by (auto simp: render_sidebar_def render_visibility_selector_def visibility_options_def
        render_file_list_def sidebar_controls_def Let_def split: outcome.splits)
qed

lemma pressable_settings: "as_show_settings s \<Longrightarrow> pressable (render_settings_overlay s) = settings_controls s"
  by (simp add: render_settings_overlay_def setting_row_def setting_label_def settings_controls_def Let_def)

text \<open>
  C13. The window that is drawn offers exactly the controls that its state calls for, from top to
  bottom, and no other; it is drawn exactly if the saved visibility is one of the three.
\<close>

theorem drawn_window_offers_controls:
  "(case render_root s of Done e \<Rightarrow> st_visibility (as_settings s) \<le> 2 \<and> pressable e = controls s
     | Panic p \<Rightarrow> 2 < st_visibility (as_settings s) | _ \<Rightarrow> False)"
proof (cases "render_sidebar s")
  case (Done e)
  then have "st_visibility (as_settings s) \<le> 2"
    by (auto simp: render_sidebar_def settings_visibility_alt byte_le_2 Let_def split: outcome.splits if_splits)
  moreover have "pressable (render_header s) = [ToggleSettings]"
    by (simp add: render_header_def)
  ultimately show ?thesis
    using Done pressable_sidebar [OF Done] pressable_settings [of s]
    by (simp add: render_root_def controls_def pressable_content settings_controls_def)
qed (auto simp: render_root_def render_sidebar_def settings_visibility_alt Let_def byte_le_2 not_le [symmetric]
      split: outcome.splits if_splits)

end
