(* ===== verification/Screens.thy ===== *)
theory Screens
  imports Rendering FrontEnd Session
begin

text \<open>
  What the two users see when the sender waits for the answer: the windows of both sides, drawn
  after the last messages of a session.
\<close>

section \<open>The item of a message\<close>

lemma item_texts:
  "readable (render_transfer_item t) = [shown_name t, status_text t] @ readable (render_transfer_body t)"
  by (simp add: render_transfer_item_def render_transfer_header_def)

lemma consent_texts:
  assumes "ti_state t = WaitingForUserConsent" and "ti_pin_code t = Some pin" and "pin \<noteq> []" and "ti_files t \<noteq> []"
  shows "readable (render_transfer_item t)
    = [shown_name t, ''Waiting for approval'', ''PIN:'', pin, join_names (ti_files t), ''Accept'', ''Reject'']"
  using assms
  by (simp add: item_texts status_text_def render_transfer_body_def render_consent_def or_default_def
      files_label_def shown_if_def Let_def)

text \<open>In any other state the PIN of an item is not looked at.\<close>

lemma pin_not_looked_at:
  "ti_state t \<noteq> WaitingForUserConsent \<Longrightarrow> render_transfer_item (t\<lparr>ti_pin_code := p\<rparr>) = render_transfer_item t"
  by (cases "ti_state t")
     (auto simp: item_renders shown_name_def status_text_def shown_speed_def split: option.split)

lemma first_message_item:
  assumes "hm_lookup (as_transfers w) (is_id st) = None"
  shows "hm_lookup (as_transfers (handle_channel_message now later (state_message role st) w)) (is_id st)
    = Some (updated_transfer now later (state_message role st) None)"
  using assms by (simp add: lookup_handle_channel_message state_message_def cm_default_def)

lemma updated_state [simp]:
  "ti_state (updated_transfer now later (state_message role st) e) = is_state st"
  "ti_id (updated_transfer now later (state_message role st) None) = is_id st"
  by (simp_all add: updated_transfer_keeps state_of_def state_message_def cm_default_def)

section \<open>Both screens\<close>

text \<open>
  C3. The two screens of a session. When the session has come to the question, the window of the
  receiver, told by the connection's last message, shows one item: the host name of the sender, the
  request for approval, the four digits that both sides derived, the names of exactly the accessible
  files, and the buttons that accept and reject. The window of the sender shows the state by its
  internal name and one button, that clears the item: it can neither cancel nor, since its item does
  not depend on the PIN, be compared with the receiver's.
\<close>

theorem session_screens:
  assumes E: "session_env X" "handshake_fits X endpoint_id"
    and name: "from_utf8 (take 255 (as_bytes (os_hostname X))) = Some name" "name \<noteq> []"
    and keys: "usable_key X 1" "usable_key X 0"
    and metas: "metas = introduced X cfs 11 files" "metas \<noteq> []"
    and names: "\<forall>f \<in> set files. announceable X cfs f \<longrightarrow> path_file_name f \<noteq> None"
    and dest: "\<forall>m \<in> set metas. pick_dest (path_exists sfs) (get_download_dir X dl) (file_name_of m) \<noteq> None"
      "utf8_valid (as_bytes (get_download_dir X dl))"
    and g: "\<forall>k1 k2. sendable X (paired_key_encryption X k1 k2)" "sendable X paired_key_result"
      "sendable X (introduction_frame_of metas)"
    and ids: "distinct [os_rand_i64 X 5, os_rand_i64 X 8, os_rand_i64 X (11 + length metas)]"
      "os_rand_i64 X 4 \<noteq> os_rand_i64 X 7"
  shows "\<exists>c1 c s pin. connecting X (fresh_client endpoint_id ci files rdi cfs) = (Done (), c1)
    \<and> for_each until_asked (take_turn X fuel) (c1, fresh_server si sfs dl) = (Done (), (c, s))
    \<and> is_pin_code (rq_st c) = Some pin \<and> pin \<noteq> []
    \<and> (\<forall>w now later. hm_lookup (as_transfers w) (is_id (rq_st s)) = None \<longrightarrow>
        (\<exists>t. hm_lookup (as_transfers (handle_channel_message now later (last (rq_chan s)) w)) (is_id (rq_st s)) = Some t
         \<and> readable (render_transfer_item t) = [name, ''Waiting for approval'', ''PIN:'', pin,
             join_names (map (\<lambda>f. the (path_file_name f)) (filter (announceable X cfs) files)), ''Accept'', ''Reject'']
         \<and> pressable (render_transfer_item t) = [Accept (is_id (rq_st s)), Reject (is_id (rq_st s))]))
    \<and> (\<forall>w now later. hm_lookup (as_transfers w) (is_id (rq_st c)) = None \<longrightarrow>
        (\<exists>t. hm_lookup (as_transfers (handle_channel_message now later (last (rq_chan c)) w)) (is_id (rq_st c)) = Some t
         \<and> readable (render_transfer_item t) = [shown_name t, ''SentIntroduction'', ''Clear'']
         \<and> pressable (render_transfer_item t) = [Clear (is_id (rq_st c))]
         \<and> (\<forall>p. render_transfer_item (t\<lparr>ti_pin_code := p\<rparr>) = render_transfer_item t)))"
proof -
  obtain c1 c s pin where run: "connecting X (fresh_client endpoint_id ci files rdi cfs) = (Done (), c1)"
      "for_each until_asked (take_turn X fuel) (c1, fresh_server si sfs dl) = (Done (), (c, s))"
    and c: "conn c = SentIntroduction" "is_pin_code (rq_st c) = Some pin" "last (rq_chan c) = state_message Outbound (rq_st c)"
    and s: "conn s = WaitingForUserConsent" "is_pin_code (rq_st s) = Some pin" "last (rq_chan s) = state_message Inbound (rq_st s)"
      "is_transfer_metadata (rq_st s) = file_transfer_metadata X s
        (map file_name_of metas) (sum_list (map file_size metas))" "rq_custom_download s = dl"
      "is_remote_device_info (rq_st s) = Some \<lparr>rdi_name = name, rdi_type = DevLaptop\<rparr>"
    and pin: "pin \<noteq> []"
    using session_until_asked [OF E name(1) keys metas names dest g ids, of ci rdi fuel si] by blast
  have files: "map file_name_of metas = map (\<lambda>f. the (path_file_name f)) (filter (announceable X cfs) files)"
    using introduced_names [OF names, of 11] metas(1) by simp
  have receiver: "readable (render_transfer_item t) = [name, ''Waiting for approval'', ''PIN:'', pin,
        join_names (map (\<lambda>f. the (path_file_name f)) (filter (announceable X cfs) files)), ''Accept'', ''Reject'']
      \<and> pressable (render_transfer_item t) = [Accept (is_id (rq_st s)), Reject (is_id (rq_st s))]"
    if t: "t = updated_transfer now later (state_message Inbound (rq_st s)) None" for t now later
  proof -
    have "utf8_valid (as_bytes (get_download_dir X (rq_custom_download s)))"
      using dest(2) s(5) by simp
    from metadata_printable [OF this] have "item_of_introduction X s metas t"
      unfolding t using s(1,4) by (intro item_of_new) (simp_all add: conn_def)
    then have i: "ti_state t = WaitingForUserConsent" "ti_files t = map file_name_of metas" "ti_pin_code t = Some pin"
        "ti_device_name t = name"
      using s(2,6) by (simp_all add: item_of_introduction_def)
    moreover have "ti_files t \<noteq> []" using i(2) metas(2) by simp
    note consent_texts [OF i(1,3) pin this]
    moreover have "ti_id t = is_id (rq_st s)" by (simp add: t)
    ultimately show ?thesis
      using name(2) files by (simp add: pressable_item item_controls_def shown_name_def)
  qed
  have sender: "readable (render_transfer_item t) = [shown_name t, ''SentIntroduction'', ''Clear'']
      \<and> pressable (render_transfer_item t) = [Clear (is_id (rq_st c))]
      \<and> (\<forall>p. render_transfer_item (t\<lparr>ti_pin_code := p\<rparr>) = render_transfer_item t)"
    if t: "t = updated_transfer now later (state_message Outbound (rq_st c)) None" for t now later
  proof -
    have "ti_state t = SentIntroduction" "ti_id t = is_id (rq_st c)"
      using c(1) by (simp_all add: t conn_def)
    then show ?thesis
      using pin_not_looked_at [of t]
      by (simp add: item_texts status_text_def state_name_def render_transfer_body_def render_terminal_def
          pressable_item item_controls_def)
  qed
  show ?thesis
    by (intro exI conjI allI impI, rule run(1), rule run(2), rule c(2), rule pin)
       (unfold c(3) s(3), (rule first_message_item, assumption), (use receiver [OF refl] in blast)+,
        (rule first_message_item, assumption), (use sender [OF refl] in blast)+)
qed

end
