(* ===== verification/Refusal.thy ===== *)
theory Refusal
  imports Completion Screens
begin

text \<open>
  The user refuses: the answer to the question of \<open>Session\<close> that ends the session on both sides,
  and what the two windows show then.
\<close>

section \<open>The receiving side refuses\<close>

definition refusal :: "string \<Rightarrow> event" where
  "refusal i = OnChannel 0 (RecvOk (cm_default\<lparr>cm_id := i, cm_action := Some RejectTransfer\<rparr>))"

lemma handle_refusal: "handle X (refusal (is_id (rq_st r))) r = handle_action X (Some RejectTransfer) r"
  by (simp add: handle_def refusal_def drop_partial_length_def cm_default_def exec)

lemma told_state: "set_state role x True r = (Done (), (upd_st (\<lambda>e. e\<lparr>is_state := x\<rparr>) r)
    \<lparr>rq_chan := rq_chan r @ [state_message role ((rq_st r)\<lparr>is_state := x\<rparr>)]\<rparr>)"
  by (simp add: set_state_def update_state_def exec upd_st_def)

lemma server_refuses:
  fixes s :: inbound
  assumes E: "session_env X" and g: "sendable X (response_frame CsReject)" and s: "armed s"
  shows "\<exists>t bs. handle X (refusal (is_id (rq_st s))) s = (Fail NotAnError, t) \<and> conn t = Rejected
    \<and> in_transit X (response_frame CsReject) (os_rand_i64 X (rq_draws s)) s t bs
    \<and> concat (rq_out t) = concat (rq_out s) @ bs \<and> rq_fs t = rq_fs s \<and> reader t = reader s
    \<and> rq_chan t = rq_chan s @ [state_message Inbound ((rq_st s)\<lparr>is_state := Rejected\<rparr>)]"
proof -
  have e: "channel_env X" "no_faults X" using E by (simp_all add: session_env_def)
  let ?r = "(upd_st (\<lambda>e. e\<lparr>is_state := Rejected\<rparr>) s)
    \<lparr>rq_chan := rq_chan s @ [state_message Inbound ((rq_st s)\<lparr>is_state := Rejected\<rparr>)]\<rparr>"
  have "armed ?r" using s by (simp add: armed_def upd_st_def)
  from sends [OF e this g] obtain t bs where t: "send_encrypted_frame X (response_frame CsReject) ?r = (Done (), t)"
      "in_transit X (response_frame CsReject) (os_rand_i64 X (rq_draws ?r)) ?r t bs"
      "concat (rq_out t) = concat (rq_out ?r) @ bs" "core t = core ?r"
    by blast
  have "in_transit X (response_frame CsReject) (os_rand_i64 X (rq_draws ?r)) s t bs"
    by (rule in_transit_writer [OF t(2)]) (simp_all add: writer_def upd_st_def)
  then have "in_transit X (response_frame CsReject) (os_rand_i64 X (rq_draws s)) s t bs"
    by (simp add: upd_st_def)
  moreover have "handle X (refusal (is_id (rq_st s))) s = (Fail NotAnError, t)"
    using t(1) by (simp add: handle_refusal handle_action_def told_state reject_transfer_def andthen_Done exec)
  ultimately show ?thesis
    using t(3) core_conn [OF t(4)] coreD(2) [OF t(4)] core_views(1,2) [OF t(4)]
    by (intro exI [of _ t] exI [of _ bs]) (simp add: conn_def upd_st_def standing_def reader_def)
qed

section \<open>The sending side gets the refusal\<close>

lemma refusal_frame:
  "\<exists>v. sf_v1 (response_frame CsReject) = Some v \<and> sv_frame_type v = ShResponse
    \<and> (\<exists>c. sv_connection_response v = Some c \<and> consent_of c = CsReject)"
  using enum_roundtrip(6) [of ShResponse] enum_roundtrip(7) [of CsReject]
  by (simp add: response_frame_def sharing_v1_frame_def sv_frame_type_def consent_of_def)

lemma client_refused:
  fixes c :: outbound
  assumes "conn c = SentIntroduction"
  shows "process_setup X fuel (response_frame CsReject) c = finish X Outbound Disconnected c"
proof -
  obtain v d where "sf_v1 (response_frame CsReject) = Some v" "sv_frame_type v = ShResponse"
      "sv_connection_response v = Some d" "consent_of d = CsReject"
    using refusal_frame by blast
  then show ?thesis
    using assms by (simp add: process_setup_def process_consent_def bind_ok_or bind_get conn_def)
qed

text \<open>What a goodbye puts on the wire, as a counterpart of the connection reads it.\<close>

definition goodbye_sent :: "env \<Rightarrow> outbound \<Rightarrow> bytes list \<Rightarrow> bool" where
  "goodbye_sent X c ws \<longleftrightarrow> (\<forall>q :: inbound. linked c q \<longrightarrow>
     (\<exists>q'. receive_secure X (q\<lparr>rq_in := concat ws\<rparr>) = (Done goodbye_frame, q') \<and> rq_in q' = []))"

lemma says_goodbye:
  fixes c :: outbound
  assumes E: "session_env X" "goodbye_fits X" and c: "armed c" "is_encryption_done (rq_st c)"
  shows "\<exists>t. finish X role x c = (Fail NotAnError, t) \<and> conn t = x \<and> rq_fs t = rq_fs c
    \<and> rq_chan t = rq_chan c @ [state_message role ((rq_st c)\<lparr>is_state := x\<rparr>)]
    \<and> (\<exists>ws. rq_out t = rq_out c @ ws \<and> goodbye_sent X c ws)"
proof -
  have X: "channel_env X" "no_faults X" using E(1) by (simp_all add: session_env_def)
  let ?f = goodbye_frame
  let ?c = "(upd_st (\<lambda>e. e\<lparr>is_state := x\<rparr>) c)\<lparr>rq_chan := rq_chan c @ [state_message role ((rq_st c)\<lparr>is_state := x\<rparr>)]\<rparr>"
  have "armed ?c" using c(1) by (simp add: armed_def upd_st_def)
  then obtain t ws where t: "encrypt_and_send X ?f ?c = (Done (), t)" "core t = core ?c"
      "rq_out t = rq_out ?c @ ws" "list_all fits_frame ws"
    using sends_fitting [OF X, of ?c ?f] E(2) by (auto simp: goodbye_fits_def goodbye_frame_def)
  have "goodbye_sent X c ws"
    unfolding goodbye_sent_def
  proof (intro allI impI)
    fix q :: inbound assume "linked c q"
    then have "linked ?c q" by (simp add: linked_def upd_st_def)
    then show "\<exists>q'. receive_secure X (q\<lparr>rq_in := concat ws\<rparr>) = (Done ?f, q') \<and> rq_in q' = []"
      using channel_delivers_one [OF X(1) _ t(1,3,4), of "q\<lparr>rq_in := concat ws\<rparr>" "[]"] by auto
  qed
  have "disconnection X ?c = (Done (), t)"
    using t(1) c(2) by (simp add: disconnection_def send_by_encryption_def bind_get upd_st_def goodbye_frame_def)
  with \<open>goodbye_sent X c ws\<close> show ?thesis
    using t(3) core_conn [OF t(2)] coreD(2) [OF t(2)] core_views(2) [OF t(2)]
    by (intro exI [of _ t]) (simp add: finish_def told_state andthen_Done exec conn_def upd_st_def standing_def)
qed

lemma client_told:
  fixes c :: outbound
  assumes E: "session_env X" "goodbye_fits X" and g: "sendable X (response_frame CsReject)"
    and c: "conn c = SentIntroduction" "armed c" "rq_in c = bs" "is_encryption_done (rq_st c)"
      "hm_lookup (is_payload_buffers (rq_st c)) i = None"
    and l: "linked s c" and sent: "in_transit X (response_frame CsReject) i s s' bs"
  shows "\<exists>t. for_each (replicate 2 OnSocket) (out_handle X fuel) c = (Fail NotAnError, t)
    \<and> conn t = Disconnected \<and> rq_fs t = rq_fs c \<and> (\<exists>ws. rq_out t = rq_out c @ ws \<and> goodbye_sent X c ws)
    \<and> (\<exists>st. rq_chan t = rq_chan c @ [state_message Outbound st] \<and> is_state st = Disconnected \<and> is_id st = is_id (rq_st c))"
proof -
  have X: "channel_env X" "no_faults X" using E(1) by (simp_all add: session_env_def)
  have r: "rq_in c = bs @ []" "out_takes_frames c" using c(1,3) by (simp_all add: out_takes_frames_def)
  from sharing_out.receives_sent [OF X(1) l sent r c(5) g, of fuel] obtain u where
    u: "andthen (out_handle X fuel OnSocket) (out_handle X fuel OnSocket) c
        = process_setup X fuel (response_frame CsReject) u" "ashore u = ashore c"
    by blast
  note w = ashore_views [OF u(2)] ashoreD [OF u(2)] ashore_conn [OF u(2)]
  have a: "armed u" "is_encryption_done (rq_st u)" "conn u = SentIntroduction" "is_id (rq_st u) = is_id (rq_st c)"
    using c w by (simp_all add: armed_def writer_def standing_def)
  from says_goodbye [OF E a(1,2), of Outbound Disconnected] obtain t where
    t: "finish X Outbound Disconnected u = (Fail NotAnError, t)" "conn t = Disconnected" "rq_fs t = rq_fs u"
      "rq_chan t = rq_chan u @ [state_message Outbound ((rq_st u)\<lparr>is_state := Disconnected\<rparr>)]"
      "\<exists>ws. rq_out t = rq_out u @ ws \<and> goodbye_sent X u ws"
    by blast
  have "goodbye_sent X u = goodbye_sent X c"
    by (simp add: goodbye_sent_def [abs_def] linked_writer [OF w(1)])
  with t(5) w have bye: "\<exists>ws. rq_out t = rq_out c @ ws \<and> goodbye_sent X c ws" by simp
  have "andthen (out_handle X fuel OnSocket) (out_handle X fuel OnSocket) c = (Fail NotAnError, t)"
    using u(1) t(1) client_refused [OF a(3)] by simp
  then have "for_each (replicate 2 OnSocket) (out_handle X fuel) c = (Fail NotAnError, t)"
    by (auto simp: numeral_2_eq_2 andthen_def bind_def split: prod.splits outcome.splits)
  then show ?thesis
    using t(1-4) bye w a(4) by (intro exI [of _ t] conjI exI [of _ "(rq_st u)\<lparr>is_state := Disconnected\<rparr>"]) simp_all
qed

section \<open>Both screens\<close>

text \<open>A transfer that is shown already, after a message that ends it without a delivery.\<close>

lemma ended_item:
  assumes "hm_lookup (as_transfers w) (is_id st) = Some t" and "ti_id t = is_id st"
    and "is_state st \<in> {Rejected, Disconnected, Cancelled}"
  shows "\<exists>t'. hm_lookup (as_transfers (handle_channel_message now later (state_message role st) w)) (is_id st) = Some t'
    \<and> readable (render_transfer_item t') = [shown_name t', state_name (is_state st), ''Clear'']
    \<and> pressable (render_transfer_item t') = [Clear (is_id st)]"
proof -
  let ?t = "updated_transfer now later (state_message role st) (Some t)"
  have "hm_lookup (as_transfers (handle_channel_message now later (state_message role st) w)) (is_id st) = Some ?t"
    using assms(1) by (simp add: lookup_handle_channel_message state_message_def cm_default_def)
  moreover have "ti_state ?t = is_state st" "ti_id ?t = is_id st"
    using assms(2) by (simp_all add: updated_transfer_keeps state_of_def state_message_def cm_default_def)
  moreover from this have "readable (render_transfer_item ?t) = [shown_name ?t, state_name (is_state st), ''Clear'']"
      "pressable (render_transfer_item ?t) = [Clear (is_id st)]"
    using assms(3)
    by (auto simp: item_texts status_text_def state_name_def render_transfer_body_def render_terminal_def
        pressable_item item_controls_def)
  ultimately show ?thesis by blast
qed

text \<open>
  C4. The user refuses. From two fresh connections to the question and the answer no: the receiver
  tells its window \<open>Rejected\<close>, answers and ends; the sender takes in the answer, says goodbye (what
  it writes is, under the keys of the receiver, the frame \<open>Disconnection\<close> and nothing else) and
  ends; and no file of either side was created or changed. But the sender is told \<open>Disconnected\<close>:
  its window shows a refusal as it shows a connection that broke.
\<close>

theorem session_refused:
  assumes E: "session_env X" "handshake_fits X endpoint_id" "goodbye_fits X"
    and name: "from_utf8 (take 255 (as_bytes (os_hostname X))) = Some name"
    and keys: "usable_key X 1" "usable_key X 0"
    and metas: "metas = introduced X cfs 11 files" "metas \<noteq> []"
    and names: "\<forall>f \<in> set files. announceable X cfs f \<longrightarrow> path_file_name f \<noteq> None"
    and dest: "\<forall>m \<in> set metas. pick_dest (path_exists sfs) (get_download_dir X dl) (file_name_of m) \<noteq> None"
      "utf8_valid (as_bytes (get_download_dir X dl))"
    and g: "\<forall>k1 k2. sendable X (paired_key_encryption X k1 k2)" "sendable X paired_key_result"
      "sendable X (introduction_frame_of metas)" "sendable X (response_frame CsReject)"
    and ids: "distinct [os_rand_i64 X 5, os_rand_i64 X 8, os_rand_i64 X (11 + length metas)]"
      "distinct [os_rand_i64 X 4, os_rand_i64 X 7, os_rand_i64 X 10]"
  shows "\<exists>c1 c s s1 c2 s2. connecting X (fresh_client endpoint_id ci files rdi cfs) = (Done (), c1)
    \<and> for_each until_asked (take_turn X fuel) (c1, fresh_server si sfs dl) = (Done (), (c, s))
    \<and> handle X (refusal (is_id (rq_st s))) s = (Fail NotAnError, s1)
    \<and> take_turn X fuel (ClientTurn 2) (c, s1) = (Fail NotAnError, (c2, s2))
    \<and> conn s1 = Rejected \<and> conn c2 = Disconnected \<and> rq_fs s1 = sfs \<and> rq_fs c2 = cfs
    \<and> (\<exists>q. receive_secure X (s1\<lparr>rq_in := concat (rq_out c2)\<rparr>) = (Done goodbye_frame, q) \<and> rq_in q = [])
    \<and> (\<forall>w now later t. hm_lookup (as_transfers w) (is_id (rq_st s)) = Some t \<longrightarrow> ti_id t = is_id (rq_st s) \<longrightarrow>
        (\<exists>t'. hm_lookup (as_transfers (handle_channel_message now later (last (rq_chan s1)) w)) (is_id (rq_st s)) = Some t'
         \<and> readable (render_transfer_item t') = [shown_name t', ''Rejected'', ''Clear'']))
    \<and> (\<forall>w now later t. hm_lookup (as_transfers w) (is_id (rq_st c)) = Some t \<longrightarrow> ti_id t = is_id (rq_st c) \<longrightarrow>
        (\<exists>t'. hm_lookup (as_transfers (handle_channel_message now later (last (rq_chan c2)) w)) (is_id (rq_st c)) = Some t'
         \<and> readable (render_transfer_item t') = [shown_name t', ''Disconnected'', ''Clear'']))"
proof -
  have i4: "os_rand_i64 X 4 \<noteq> os_rand_i64 X 7" "os_rand_i64 X 10 \<noteq> os_rand_i64 X 4" "os_rand_i64 X 10 \<noteq> os_rand_i64 X 7"
    using ids(2) by auto
  obtain c1 c s where cs: "connecting X (fresh_client endpoint_id ci files rdi cfs) = (Done (), c1)"
      "for_each until_asked (take_turn X fuel) (c1, fresh_server si sfs dl) = (Done (), (c, s))"
      "conn c = SentIntroduction" "linked c s" "linked s c" "rq_fs c = cfs" "rq_fs s = sfs"
      "is_encryption_done (rq_st c)" "rq_in c = []" "rq_out s = []" "rq_draws s = 10"
      "\<forall>j. j \<noteq> os_rand_i64 X 4 \<longrightarrow> j \<noteq> os_rand_i64 X 7 \<longrightarrow> hm_lookup (is_payload_buffers (rq_st c)) j = None"
      "rq_out c = []"
    using session_until_asked [OF E(1,2) name keys metas names dest g(1-3) ids(1) i4(1), of ci rdi fuel si] by blast
  from server_refuses [OF E(1) g(4) linked_armed [OF cs(5)]] cs(10) obtain s1 bs where
    s1: "handle X (refusal (is_id (rq_st s))) s = (Fail NotAnError, s1)" "conn s1 = Rejected"
      "in_transit X (response_frame CsReject) (os_rand_i64 X (rq_draws s)) s s1 bs" "concat (rq_out s1) = bs"
      "rq_fs s1 = rq_fs s" "reader s1 = reader s" "rq_chan s1 = rq_chan s @ [state_message Inbound ((rq_st s)\<lparr>is_state := Rejected\<rparr>)]"
    by auto
  let ?c = "c\<lparr>rq_in := bs\<rparr>"
  have c: "conn ?c = SentIntroduction" "armed ?c" "rq_in ?c = bs" "is_encryption_done (rq_st ?c)"
      "hm_lookup (is_payload_buffers (rq_st ?c)) (os_rand_i64 X (rq_draws s)) = None" "linked s ?c"
    using cs(3-5,8,11,12) i4(2,3) linked_armed [OF cs(4)] by (simp_all add: conn_def armed_def linked_def)
  obtain t st ws where t: "for_each (replicate 2 OnSocket) (out_handle X fuel) ?c = (Fail NotAnError, t)"
      "conn t = Disconnected" "rq_fs t = rq_fs ?c" "rq_chan t = rq_chan ?c @ [state_message Outbound st]"
      "is_state st = Disconnected" "is_id st = is_id (rq_st ?c)" "rq_out t = rq_out ?c @ ws" "goodbye_sent X ?c ws"
    using client_told [OF E(1,3) g(4) c s1(3), of fuel] by blast
  have turn: "take_turn X fuel (ClientTurn 2) (c, s1) = (Fail NotAnError, (t, s1\<lparr>rq_out := []\<rparr>))"
    using t(1) cs(9) s1(4) by (simp add: take_turn_def)
  have receiver: "\<exists>t'. hm_lookup (as_transfers (handle_channel_message now later (last (rq_chan s1)) w)) (is_id (rq_st s)) = Some t'
      \<and> readable (render_transfer_item t') = [shown_name t', ''Rejected'', ''Clear'']"
    if "hm_lookup (as_transfers w) (is_id (rq_st s)) = Some e" "ti_id e = is_id (rq_st s)" for w now later e
    using ended_item [of w "(rq_st s)\<lparr>is_state := Rejected\<rparr>" e now later Inbound] that
    by (simp add: s1(7) state_name_def) blast
  have "linked ?c s1" using cs(4) linked_reader [OF s1(6), of c] by simp
  then have bye: "\<exists>q. receive_secure X (s1\<lparr>rq_in := concat (rq_out t)\<rparr>) = (Done goodbye_frame, q) \<and> rq_in q = []"
    using t(7,8) cs(13) by (simp add: goodbye_sent_def)
  have sender: "\<exists>t'. hm_lookup (as_transfers (handle_channel_message now later (last (rq_chan t)) w)) (is_id (rq_st c)) = Some t'
      \<and> readable (render_transfer_item t') = [shown_name t', ''Disconnected'', ''Clear'']"
    if "hm_lookup (as_transfers w) (is_id (rq_st c)) = Some e" "ti_id e = is_id (rq_st c)" for w now later e
    using ended_item [of w st e now later Outbound] that t(5,6)
    by (simp add: t(4) state_name_def) blast
  show ?thesis
    using cs(1,2,6,7) s1(1,2,5) turn t(2,3) receiver sender bye
    by (intro exI [of _ c1] exI [of _ c] exI [of _ s] exI [of _ s1] exI [of _ t] exI [of _ "s1\<lparr>rq_out := []\<rparr>"]) simp
qed

end
