(* ===== verification/Commitment.thy ===== *)
theory Commitment
  imports InboundSafety
begin

text \<open>
  What the commitment of UKEY2 is for: the keys and the PIN of a receiving connection come from a
  public key that its peer had fixed, by a hash, before it saw the receiver's own key.
\<close>

section \<open>The parts the keys are made of\<close>

definition keyring where
  "keyring r = (is_cipher_commitment (rq_st r), is_private_key (rq_st r), is_client_init_msg_data (rq_st r),
     is_server_init_data (rq_st r), is_pin_code (rq_st r), rq_decrypt_key_aes r)"

text \<open>
  The first message of the peer, kept with its commitment \<open>h\<close>, and the answer of the receiver, with
  the public key of the pair it drew for this exchange.
\<close>

definition opened_with :: "env \<Rightarrow> 'x request_scheme \<Rightarrow> bytes \<Rightarrow> bool" where
  "opened_with X r h \<longleftrightarrow> (\<exists>ci msg client_init c k j pkey.
     is_client_init_msg_data (rq_st r) = Some ci \<and> dec_ukey2 X ci = Some msg
     \<and> dec_client_init X (bytes_or_empty (um_data msg)) = Some client_init
     \<and> preferred_commitment client_init = Some c \<and> is_cipher_commitment (rq_st r) = Some c
     \<and> bytes_or_empty (cc_commitment c) = h
     \<and> is_private_key (rq_st r) = Some (fst (gen_ecdsa_keypair X k))
     \<and> own_public_key X (snd (gen_ecdsa_keypair X k)) = Done pkey
     \<and> is_server_init_data (rq_st r) = Some (enc_ukey2 X (server_init_frame X (os_rand X j 32) pkey)))"

text \<open>
  The peer's last handshake message \<open>d\<close>, whose hash is the commitment of its first one, holds the
  public key from which, with the receiver's private key and the first two messages, the PIN and the
  key for the peer's frames are derived.
\<close>

definition bound_to_commitment :: "env \<Rightarrow> 'x request_scheme \<Rightarrow> string \<Rightarrow> bool" where
  "bound_to_commitment X r pin \<longleftrightarrow> (\<exists>d msg key g p sk ci si k.
     opened_with X r (sha512 X d)
     \<and> dec_ukey2 X d = Some msg \<and> dec_client_finished X (bytes_or_empty (um_data msg)) = Some (Some key)
     \<and> dec_public_key X key = Some g \<and> peer_point X g = Done p
     \<and> is_private_key (rq_st r) = Some sk \<and> is_client_init_msg_data (rq_st r) = Some ci
     \<and> is_server_init_data (rq_st r) = Some si
     \<and> derive_keys X (sha256 X (diffie_hellman X sk p)) (ci @ si) = Done k
     \<and> rq_decrypt_key_aes r = slice 0 32 (sk_client_key k)
     \<and> pin = to_four_digit_string (sk_auth_string k))"

definition before_keys :: "conn_state \<Rightarrow> bool" where
  "before_keys s \<longleftrightarrow> s \<in> {Initial, ReceivedConnectionRequest, SentUkeyServerInit}"

definition commitment_inv :: "env \<Rightarrow> 'x request_scheme \<Rightarrow> bool" where
  "commitment_inv X r \<longleftrightarrow> (before_keys (conn r) \<longrightarrow> is_pin_code (rq_st r) = None)
     \<and> (conn r = SentUkeyServerInit \<longrightarrow> (\<exists>h. opened_with X r h))
     \<and> (\<forall>pin. is_pin_code (rq_st r) = Some pin \<longrightarrow> bound_to_commitment X r pin)"

lemma commitment_inv_same:
  assumes "commitment_inv X r" and "keyring t = keyring r" and "before_keys (conn t) \<Longrightarrow> before_keys (conn r)"
    and "conn t = SentUkeyServerInit \<Longrightarrow> conn r = SentUkeyServerInit"
  shows "commitment_inv X t"
proof -
  have "opened_with X t = opened_with X r"
    using assms(2) by (simp add: fun_eq_iff opened_with_def keyring_def)
  moreover from this have "bound_to_commitment X t = bound_to_commitment X r"
    using assms(2) by (simp add: fun_eq_iff bound_to_commitment_def keyring_def)
  ultimately show ?thesis using assms by (simp add: commitment_inv_def keyring_def)
qed

section \<open>Most steps leave them alone\<close>

lemma keyring_basic [within_rules]:
  "within (same_rel keyring) (write_all X d)" "within (same_rel keyring) draw"
  "within (same_rel keyring) (stream_read_exact n)" "within (same_rel keyring) (drop_partial_length k)"
  "within (same_rel keyring) (file_create X p)" "within (same_rel keyring) (file_write_all X i info h d)"
  by (auto simp: within_def same_rel_def keyring_def write_all_def draw_def stream_read_exact_def
      drop_partial_length_def file_create_def file_write_all_def put_handle_def put_bytes_def upd_st_def modify_exec
      split: option.split)

lemma keyring_update_state [within_rules]:
  assumes "\<And>e. is_cipher_commitment (f e) = is_cipher_commitment e" "\<And>e. is_private_key (f e) = is_private_key e"
    "\<And>e. is_client_init_msg_data (f e) = is_client_init_msg_data e"
    "\<And>e. is_server_init_data (f e) = is_server_init_data e" "\<And>e. is_pin_code (f e) = is_pin_code e"
  shows "within (same_rel keyring) (update_state role f inform)"
  using assms by (auto simp: within_def same_rel_def keyring_def update_state_def exec upd_st_def)

lemma keyring_modify [within_rules]:
  "(\<And>r. keyring (f r) = keyring r) \<Longrightarrow> within (same_rel keyring) (modify f)"
  by (rule same.within_modify) (simp add: same_rel_def)

lemma core_keyring:
  assumes "core t = core r"
  shows "keyring t = keyring r"
proof -
  have "h (rq_st t\<lparr>is_server_seq := 0\<rparr>) = h (rq_st r\<lparr>is_server_seq := 0\<rparr>)" for h :: "inner_state \<Rightarrow> 'b"
    using coreD(8) [OF assms] by simp
  from this [of is_cipher_commitment] this [of is_private_key] this [of is_client_init_msg_data]
    this [of is_server_init_data] this [of is_pin_code] coreD(6) [OF assms]
  show ?thesis by (simp add: keyring_def)
qed

lemma keyring_core: "within (same_rel core) m \<Longrightarrow> within (same_rel keyring) m"
  by (erule within_mono) (unfold same_rel_def, erule core_keyring)

lemmas keyring_senders [within_rules] =
  send_frame_core [THEN keyring_core] encrypt_and_send_core [THEN keyring_core] senders_core [THEN keyring_core]

lemma keyring_quiet [within_rules]:
  "within (same_rel keyring) (alert_and_fail X a e)"
  "within (same_rel keyring) (set_state role s inform)" "within (same_rel keyring) (finish X role s)"
  "within (same_rel keyring) (offer_text p d)" "within (same_rel keyring) (reject_transfer X reason)"
  "within (same_rel keyring) (process_paired_key_encryption_frame X v)"
  "within (same_rel keyring) (process_paired_key_result v)"
  "within (same_rel keyring) (process_connection_response X f)"
  "within (same_rel keyring) (count_acknowledged n)"
  "within (same_rel keyring) (entry_buffer i sz)" "within (same_rel keyring) (remove_buffer i)"
  "within (same_rel keyring) (complete_file X i)" "within (same_rel keyring) (open_destination X i)"
  unfolding alert_and_fail_def finish_def set_state_def offer_text_def reject_transfer_def
    process_paired_key_encryption_frame_def process_paired_key_result_def entry_buffer_def remove_buffer_def
    complete_file_def open_destination_def process_connection_response_def count_acknowledged_def Let_def case_prod_beta
  by (intro within_rules; simp add: keyring_def upd_st_def)+

lemma keyring_open [within_rules]: "within (same_rel keyring) (open_secure_message X m)"
  unfolding open_secure_message_def get_client_seq_inc_def Let_def case_prod_beta
  by (intro within_rules; simp add: keyring_def upd_st_def)

lemma keyring_introduce [within_rules]: "within (same_rel keyring) (introduce_files X files names sz)"
proof (induction files arbitrary: names sz)
  case Nil
  show ?case by (simp add: within_rules)
next
  case (Cons f fs)
  show ?case unfolding introduce_files.simps Let_def
    by (intro within_rules Cons.IH; simp add: keyring_def upd_st_def)
qed

lemma keyring_setup [within_rules]: "within (same_rel keyring) (process_transfer_setup X f)"
  unfolding process_transfer_setup_def process_introduction_def case_prod_beta
  by (intro within_rules) simp_all

lemma keyring_offline_frame [within_rules]: "within (same_rel keyring) (process_offline_frame X f)"
  unfolding process_offline_frame_def process_payload_transfer_def process_bytes_payload_def
    process_file_payload_def deliver_buffer_def finish_text_def store_text_def Let_def
  by (intro within_rules; simp add: keyring_def upd_st_def)

lemma keyring_action [within_rules]: "within (same_rel keyring) (handle_action X a)"
  unfolding handle_action_def accept_transfer_def
  by (cases a; simp; (cases "the a"; simp)?; intro within_rules; simp)

section \<open>The key exchange\<close>

lemma client_init_pin: "within (same_rel (\<lambda>r. is_pin_code (rq_st r))) (process_ukey2_client_init X m)"
proof -
  have core: "within (same_rel (\<lambda>r. is_pin_code (rq_st r))) m" if "within (same_rel core) m" for m :: "('x, unit) rio"
    using keyring_core [OF that] by (simp add: within_def same_rel_def keyring_def)
  have upd: "within (same_rel (\<lambda>r. is_pin_code (rq_st r))) (update_state role f inform :: ('x, unit) rio)"
    if "\<And>e. is_pin_code (f e) = is_pin_code e" for role f inform
    using that by (auto simp: within_def same_rel_def update_state_def exec upd_st_def)
  have alert: "within (same_rel (\<lambda>r. is_pin_code (rq_st r))) (alert_and_fail X a e :: ('x, unit) rio)" for a e
    using keyring_quiet(1) [of X a e, where ?'a = 'x and ?'b = unit] by (simp add: within_def same_rel_def keyring_def)
  have "within (same_rel (\<lambda>r. is_pin_code (rq_st r))) draw"
    by (simp add: within_def same_rel_def draw_def)
  then show ?thesis
    unfolding process_ukey2_client_init_def Let_def case_prod_beta
    by (intro same.within_if same.within_bind same.within_andthen same.within_option same.within_lift alert upd
        core send_frame_core) simp_all
qed

lemma server_finalize_binds:
  assumes "server_finalize_key_exchange X g r = (res, t)" and "is_pin_code (rq_st r) = None"
  shows "(res \<noteq> Done () \<longrightarrow> is_pin_code (rq_st t) = None) \<and> is_cipher_commitment (rq_st t) = is_cipher_commitment (rq_st r)
    \<and> is_private_key (rq_st t) = is_private_key (rq_st r)
    \<and> is_client_init_msg_data (rq_st t) = is_client_init_msg_data (rq_st r)
    \<and> is_server_init_data (rq_st t) = is_server_init_data (rq_st r)
    \<and> (res = Done () \<longrightarrow> (\<exists>p sk ci si k. peer_point X g = Done p
     \<and> is_private_key (rq_st t) = Some sk \<and> is_client_init_msg_data (rq_st t) = Some ci
     \<and> is_server_init_data (rq_st t) = Some si
     \<and> derive_keys X (sha256 X (diffie_hellman X sk p)) (ci @ si) = Done k
     \<and> rq_decrypt_key_aes t = slice 0 32 (sk_client_key k)
     \<and> is_pin_code (rq_st t) = Some (to_four_digit_string (sk_auth_string k))))"
proof -
  obtain c where c: "session_secrets X g r = (c, r)"
    using session_secrets_state by (metis surj_pair)
  show ?thesis
  proof (cases c)
    case (Done k)
    then obtain p sk ci si where "peer_point X g = Done p" "is_private_key (rq_st r) = Some sk"
        "is_client_init_msg_data (rq_st r) = Some ci" "is_server_init_data (rq_st r) = Some si"
        "derive_keys X (sha256 X (diffie_hellman X sk p)) (ci @ si) = Done k"
      using c by (auto simp: session_secrets_def eq_Done get_exec unwrap_eq_Done lift_outcome_def Let_def)
    with assms c Done show ?thesis
      by (auto simp: server_finalize_key_exchange_def bind_Done aes_key_of_def new_hmac_def unwrap_def exec
          update_state_def upd_st_def bind_Panic bind_Fail andthen_modify split: option.splits if_splits)
  qed (use assms c in \<open>auto simp: server_finalize_key_exchange_def bind_Fail bind_Panic bind_NoFuel\<close>)
qed

lemma client_finish_binds:
  assumes run: "process_ukey2_client_finish X msg d r = (res, t)" and dec: "dec_ukey2 X d = Some msg"
    and none: "is_pin_code (rq_st r) = None" and opened: "opened_with X r h"
  shows "opened_with X t h \<and> (\<forall>pin. is_pin_code (rq_st t) = Some pin \<longrightarrow> res = Done () \<and> bound_to_commitment X t pin)"
proof -
  have quiet: "keyring u = keyring r" if "alert_and_fail X a e r = (y, u)" for a e y u
    using withinD [OF keyring_quiet(1) that] by (simp add: same_rel_def)
  consider "keyring t = keyring r"
    | c key g where "is_cipher_commitment (rq_st r) = Some c" "bytes_or_empty (cc_commitment c) = sha512 X d"
      "dec_client_finished X (bytes_or_empty (um_data msg)) = Some (Some key)" "dec_public_key X key = Some g"
      "server_finalize_key_exchange X g r = (res, t)"
    using run
    by (auto simp: process_ukey2_client_finish_def bind_def get_exec unwrap_def fail_exec panic_exec ret_exec
        split: if_splits option.splits outcome.splits prod.splits dest!: quiet)
  then show ?thesis
  proof cases
    case 1
    with opened none show ?thesis by (simp add: opened_with_def keyring_def)
  next
    case (2 c key g)
    note binds = server_finalize_binds [OF 2(5) none]
    have "h = sha512 X d" using opened 2(1,2) by (auto simp: opened_with_def)
    moreover have "opened_with X t h" using opened binds by (simp add: opened_with_def)
    ultimately show ?thesis
      using binds 2 dec unfolding bound_to_commitment_def by fastforce
  qed
qed

section \<open>The keys stay bound\<close>

lemma keys_fixed:
  assumes "commitment_inv X r" and "within (same_rel keyring) m" and "within (may_move M) m" and "m r = (res, t)"
    and "\<And>s. M (conn r) s \<Longrightarrow> \<not> before_keys s"
  shows "commitment_inv X t"
  using assms(1) withinD [OF assms(2,4)] withinD [OF assms(3,4)] assms(5)
  by (intro commitment_inv_same [OF assms(1)]) (auto simp: same_rel_def may_move_def before_keys_def)

lemma commitment_pinless:
  "is_pin_code (rq_st r) = None \<Longrightarrow> (conn r = SentUkeyServerInit \<Longrightarrow> opened_with X r h) \<Longrightarrow> commitment_inv X r"
  by (auto simp: commitment_inv_def)

lemma frame_move_keys:
  "frame_move c s \<Longrightarrow> before_keys s \<Longrightarrow> before_keys c"
  "frame_move c SentUkeyServerInit \<Longrightarrow> c = ReceivedConnectionRequest"
  by (auto elim!: frame_moveE simp: before_keys_def)

lemma serve_frame_keyring:
  assumes "conn r \<noteq> ReceivedConnectionRequest" and "conn r \<noteq> SentUkeyServerInit"
  shows "keyring (snd (serve_frame X d r)) = keyring r"
proof -
  have "same_rel keyring r (snd (serve_frame X d r))"
    unfolding serve_frame_def conn_def [symmetric] bind_get decrypt_and_process_secure_message_def
    by (simp add: assms) (intro conjI impI within_at [of "same_rel keyring"]; intro within_rules; simp)
  then show ?thesis by (simp add: same_rel_def)
qed

lemma client_init_opens:
  assumes "serve_frame X d r = (res, t)" and "conn r = ReceivedConnectionRequest" and "conn t = SentUkeyServerInit"
  shows "\<exists>h. opened_with X t h"
proof -
  have keyring: "keyring v = keyring u" if "send_frame X b u = (y, v)" for b u y v
    using withinD [OF send_frame_core [THEN keyring_core] that] by (simp add: same_rel_def)
  have "conn u = conn r" if "process_ukey2_client_init X m r = (y, u)" for m y u
    using withinD [OF process_ukey2_client_init_same(1) that] by (simp add: same_rel_def)
  then obtain msg u where msg: "dec_ukey2 X d = Some msg" "process_ukey2_client_init X msg r = (Done (), u)"
    and t: "t = upd_st (\<lambda>e. e\<lparr>is_state := SentUkeyServerInit, is_client_init_msg_data := Some d\<rparr>) u"
    using assms
    by (fastforce simp: serve_frame_def conn_def [symmetric] bind_get ok_or_def fail_exec bind_def andthen_def
        ret_exec update_state_def modify_exec get_exec split: outcome.splits option.splits prod.splits)
  from msg show ?thesis
    by (auto simp: process_ukey2_client_init_def opened_with_def t eq_Done get_exec fail_exec alert_and_fail_def
        draw_def update_state_def modify_exec ret_exec upd_st_def lift_outcome_exec case_prod_beta Let_def
        keyring_def split: if_splits option.splits dest!: keyring)
      blast
qed

lemma client_init_pinless:
  assumes "serve_frame X d r = (res, t)" and "conn r = ReceivedConnectionRequest"
    and "is_pin_code (rq_st r) = None"
  shows "is_pin_code (rq_st t) = None"
proof -
  have pin: "within (same_rel (\<lambda>r. is_pin_code (rq_st r))) (update_state role f inform :: ('x, unit) rio)"
    if "\<And>e. is_pin_code (f e) = is_pin_code e" for role f inform
    using that by (auto simp: within_def same_rel_def update_state_def exec upd_st_def)
  let ?part = "bind (ok_or DecodeError (dec_ukey2 X d)) (\<lambda>msg. andthen (process_ukey2_client_init X msg)
    (update_state Inbound (\<lambda>e. e\<lparr>is_state := SentUkeyServerInit, is_client_init_msg_data := Some d\<rparr>) False))"
  have "within (same_rel (\<lambda>r. is_pin_code (rq_st r))) ?part"
    by (intro same.within_bind same.within_andthen same.within_ok_or client_init_pin pin) simp_all
  moreover have "?part r = (res, t)"
    using assms(1,2) by (simp add: serve_frame_def conn_def bind_get)
  ultimately have "is_pin_code (rq_st t) = is_pin_code (rq_st r)"
    by (auto dest: withinD simp: same_rel_def)
  with assms(3) show ?thesis by simp
qed

lemma serve_frame_commitment: "within (keeps_rel (commitment_inv X)) (serve_frame X d)"
proof (rule withinI, unfold keeps_rel_def, rule impI)
  fix r t res
  assume run: "serve_frame X d r = (res, t)" and inv: "commitment_inv X r"
  have none: "is_pin_code (rq_st r) = None" if "before_keys (conn r)"
    using inv that by (simp add: commitment_inv_def)
  show "commitment_inv X t"
  proof (cases "conn r = SentUkeyServerInit")
    case True
    with run obtain msg u y where parts: "dec_ukey2 X d = None \<and> t = r \<or> dec_ukey2 X d = Some msg
        \<and> process_ukey2_client_finish X msg d r = (y, u)
        \<and> (if y = Done () then t = upd_st (\<lambda>e. e\<lparr>is_state := ReceivedUkeyClientFinish\<rparr>) u else t = u)"
      by (cases "dec_ukey2 X d"; cases "process_ukey2_client_finish X (the (dec_ukey2 X d)) d r")
        (auto simp: serve_frame_def conn_def bind_get ok_or_def fail_exec bind_def andthen_def ret_exec
          set_state_def update_state_def modify_exec get_exec split: outcome.splits)
    show ?thesis
    proof (cases "dec_ukey2 X d")
      case (Some m)
      with parts have *: "process_ukey2_client_finish X msg d r = (y, u)" "dec_ukey2 X d = Some msg"
        and t: "if y = Done () then t = upd_st (\<lambda>e. e\<lparr>is_state := ReceivedUkeyClientFinish\<rparr>) u else t = u"
        by auto
      obtain h where "opened_with X r h" using inv True by (auto simp: commitment_inv_def)
      note client_finish_binds [OF * none this]
      with t True show ?thesis
        by (auto simp: commitment_inv_def before_keys_def conn_def upd_st_def bound_to_commitment_def opened_with_def
            split: if_splits)
    qed (use parts inv in auto)
  next
    case other: False
    show ?thesis
    proof (cases "conn r = ReceivedConnectionRequest")
      case True
      then have "is_pin_code (rq_st t) = None"
        using client_init_pinless [OF run] none by (simp add: before_keys_def)
      then show ?thesis
        using client_init_opens [OF run True] by (auto simp: commitment_inv_def before_keys_def)
    next
      case False
      with serve_frame_keyring [of r X d] other run have "keyring t = keyring r" by simp
      moreover have "conn t = conn r \<or> frame_move (conn r) (conn t)"
        using withinD [OF serve_frame_move run] by (simp add: may_move_def)
      ultimately show ?thesis
        using False by (intro commitment_inv_same [OF inv]) (auto dest: frame_move_keys)
    qed
  qed
qed

lemma handle_action_commitment: "within (keeps_rel (commitment_inv X)) (handle_action X a)"
proof (rule withinI, unfold keeps_rel_def, rule impI)
  fix r t res
  assume run: "handle_action X a r = (res, t)" and "commitment_inv X r"
  then show "commitment_inv X t"
    by (intro keys_fixed [OF _ keyring_action handle_action_move run])
      (auto simp: before_keys_def elim!: user_move.cases)
qed

lemma commitment_io:
  "within (keeps_rel (commitment_inv X)) (stream_read_exact n)"
  "within (keeps_rel (commitment_inv X)) (drop_partial_length k)"
  by (auto simp: within_def keeps_rel_def stream_read_exact_def drop_partial_length_def modify_exec
      commitment_inv_def bound_to_commitment_def opened_with_def conn_def)

lemma handle_commitment: "within (keeps_rel (commitment_inv X)) (handle X ev)"
proof -
  have buffer: "within (keeps_rel (commitment_inv X)) (modify (\<lambda>r. r\<lparr>ib_recv_buf := f r\<rparr>))" for f
    by (simp add: within_def keeps_rel_def modify_exec commitment_inv_def bound_to_commitment_def opened_with_def conn_def)
  show ?thesis
    unfolding handle_def handle_frame_def Let_def
    by (cases ev; simp; intro within_rules commitment_io handle_action_commitment serve_frame_commitment buffer)
qed

lemma committed:
  assumes "for_each evs (handle X) (new_inbound i fs custom_download socket) = (res, r)"
  shows "commitment_inv X r"
proof -
  have "within (keeps_rel (commitment_inv X)) (for_each evs (handle X))"
    by (intro within_rules handle_commitment)
  moreover have "commitment_inv X (new_inbound i fs custom_download socket)"
    by (simp add: commitment_inv_def conn_def new_inbound_def is_default_def)
  ultimately show ?thesis
    using assms by (auto dest!: withinD simp: keeps_rel_def)
qed

text \<open>
  C8. The keys and the PIN of a receiving connection are bound to the commitment that its peer
  sent first. After any sequence of events, whatever the peer and the front end sent and whether or
  not an event failed, a connection that shows a PIN derived it, and the key it decrypts with, from
  the public key in a message whose SHA-512 hash is the commitment of the peer's first message, a
  message that came before the receiver's own public key was sent.
\<close>

theorem keys_committed:
  assumes "for_each evs (handle X) (new_inbound i fs custom_download socket) = (res, r)"
    and "is_pin_code (rq_st r) = Some pin"
  shows "bound_to_commitment X r pin"
  using committed [OF assms(1)] assms(2) by (simp add: commitment_inv_def)

end
