(* ===== verification/Panics.thy ===== *)
theory Panics
  imports Commitment Handshake
begin

text \<open>
  Which unwraps of a receiving connection can meet a \<open>None\<close>, and which indices and allocations can
  fail: the complete list, so that every other \<open>unwrap\<close> of \<open>hdl/inbound.rs\<close> is known to be safe.
  (Those the code guards itself, and the coordinates of a point that was encoded uncompressed, are
  total in the model.) Arithmetic wraps and does not panic, as in the release profile.
\<close>

section \<open>Where a sequence panics\<close>

lemma bind_eq_Panic:
  "bind m f s = (Panic p, t) \<longleftrightarrow> m s = (Panic p, t) \<or> (\<exists>a u. m s = (Done a, u) \<and> f a u = (Panic p, t))"
  by (auto simp: bind_def split: prod.splits outcome.splits)

lemma andthen_eq_Panic:
  "andthen m k s = (Panic p, t) \<longleftrightarrow> m s = (Panic p, t) \<or> (\<exists>u. m s = (Done (), u) \<and> k u = (Panic p, t))"
  by (auto simp: andthen_def bind_eq_Panic)

lemma unwrap_eq_Panic: "unwrap q x s = (Panic p, t) \<longleftrightarrow> x = None \<and> p = q \<and> t = s"
  by (cases x) (auto simp: exec)

lemma never_panics [simp]:
  "ok_or e x s \<noteq> (Panic p, t)" "fail_if b e s \<noteq> (Panic p, t)" "draw s \<noteq> (Panic p, t)"
  "write_all X d r \<noteq> (Panic p, u)" "stream_read_exact n r \<noteq> (Panic p, u)"
  "file_create X q r \<noteq> (Panic p, u)" "file_write_all X i info h d r \<noteq> (Panic p, u)"
  "update_state role f inform r \<noteq> (Panic p, u)" "set_state role c inform r \<noteq> (Panic p, u)"
  by (auto simp: ok_or_def exec draw_def write_all_def stream_read_exact_def file_create_def file_write_all_def
      update_state_def set_state_def fail_if_exec split: option.splits)

lemmas eq_Panic = bind_eq_Panic andthen_eq_Panic unwrap_eq_Panic ret_exec fail_exec get_exec modify_exec
  lift_outcome_exec

lemma plain_senders_never_panic [simp]:
  "send_frame X d r \<noteq> (Panic p, t)" "send_ukey2_alert X a r \<noteq> (Panic p, t)" "alert_and_fail X a e r \<noteq> (Panic p, t)"
  by (auto simp: send_frame_def Let_def eq_Panic send_ukey2_alert_def alert_and_fail_def)

text \<open>
  A computation panics only in \<open>P\<close> when it starts with keys in a state that calls keep: with all four
  keys, or without the first that sending needs.
\<close>

definition panics_in :: "('s \<Rightarrow> bool) \<Rightarrow> string set \<Rightarrow> ('s, 'a) io \<Rightarrow> bool" where
  "panics_in I P m \<longleftrightarrow> (\<forall>s p t. I s \<longrightarrow> m s = (Panic p, t) \<longrightarrow> p \<in> P)"

lemma panics_inD: "panics_in I P m \<Longrightarrow> m s = (Panic p, t) \<Longrightarrow> I s \<Longrightarrow> p \<in> P"
  by (simp add: panics_in_def)

named_theorems panic_rules \<open>rules that bound the panics of a computation\<close>

locale kept_keys =
  fixes I :: "'x request_scheme \<Rightarrow> bool"
  assumes keep: "I r \<Longrightarrow> keys_rel r t \<Longrightarrow> I t"
begin

lemma panics_bind [panic_rules]:
  assumes "within keys_rel m" and "panics_in I P m" and "\<And>a. panics_in I P (f a)"
  shows "panics_in I P (bind m f)"
  unfolding panics_in_def
proof (intro allI impI)
  fix s p t
  assume s: "I s" and "bind m f s = (Panic p, t)"
  then consider "m s = (Panic p, t)" | a u where "m s = (Done a, u)" "f a u = (Panic p, t)"
    by (auto simp: bind_eq_Panic)
  then show "p \<in> P"
  proof cases
    case (2 a u)
    then have "I u" using keep [OF s withinD [OF assms(1)]] by blast
    with 2 assms(3) show ?thesis unfolding panics_in_def by blast
  qed (use s assms(2) in \<open>auto simp: panics_in_def\<close>)
qed

lemma panics_andthen [panic_rules]:
  "within keys_rel m \<Longrightarrow> panics_in I P m \<Longrightarrow> panics_in I P k \<Longrightarrow> panics_in I P (andthen m k)"
  unfolding andthen_def by (rule panics_bind)

lemma panics_if [panic_rules]:
  "panics_in I P m \<Longrightarrow> panics_in I P k \<Longrightarrow> panics_in I P (if c then m else k)"
  by simp

lemma panics_option [panic_rules]:
  "panics_in I P m \<Longrightarrow> (\<And>a. panics_in I P (f a)) \<Longrightarrow> panics_in I P (case x of None \<Rightarrow> m | Some a \<Rightarrow> f a)"
  by (cases x) simp_all

lemma panics_basic [panic_rules]:
  "panics_in I P (ret a)" "panics_in I P (fail e)" "panics_in I P no_fuel" "panics_in I P (get g)"
  "panics_in I P (modify h)" "panics_in I P (ok_or e x)" "panics_in I P (fail_if c e)" "panics_in I P draw"
  "panics_in I P (update_state role u inform)" "panics_in I P (set_state role s inform)"
  "panics_in I P (send_frame X d)"
  by (auto simp: panics_in_def exec)

end

interpretation armed_keys: kept_keys keyed
  by unfold_locales (simp add: keys_rel_def)

interpretation no_keys: kept_keys "\<lambda>r. rq_encrypt_key_aes r = None"
  by unfold_locales (simp add: keys_rel_def)

lemma encrypt_and_send_panics:
  assumes "encrypt_and_send X f s = (Panic p, t)"
  shows "if rq_encrypt_key_aes s = None then p = ''encrypt_key_aes'' else rq_send_hmac s = None"
  using assms
  by (auto simp: encrypt_and_send_def Let_def eq_Panic eq_Done draw_def upd_st_def split: prod.splits)

lemma senders_armed [panic_rules]:
  "panics_in keyed P (encrypt_and_send X f)" "panics_in keyed P (send_encrypted_frame X g)"
  "panics_in keyed P (send_by_encryption X f)" "panics_in keyed P (disconnection X)"
  "panics_in keyed P (send_keepalive X ack)" "panics_in keyed P (finish X role c)"
proof -
  show 1: "panics_in keyed P (encrypt_and_send X f)" for X f
    by (auto simp: panics_in_def keyed_def dest!: encrypt_and_send_panics split: if_splits)
  show 2: "panics_in keyed P (send_by_encryption X f)" for X f
    unfolding send_by_encryption_def by (intro panic_rules within_rules 1)
  show 3: "panics_in keyed P (disconnection X)" for X
    unfolding disconnection_def by (rule 2)
  show "panics_in keyed P (send_encrypted_frame X g)" "panics_in keyed P (send_keepalive X ack)"
    "panics_in keyed P (finish X role c)"
    unfolding send_encrypted_frame_def send_keepalive_def finish_def Let_def
    by (intro panic_rules within_rules 1 2 3)+
qed

abbreviation keyless :: "'x request_scheme \<Rightarrow> bool" where
  "keyless r \<equiv> rq_encrypt_key_aes r = None"

lemma senders_keyless [panic_rules]:
  "panics_in keyless {''encrypt_key_aes''} (encrypt_and_send X f)"
  "panics_in keyless {''encrypt_key_aes''} (send_encrypted_frame X g)"
  "panics_in keyless {''encrypt_key_aes''} (send_by_encryption X f)"
  "panics_in keyless {''encrypt_key_aes''} (disconnection X)"
  "panics_in keyless {''encrypt_key_aes''} (finish X role c)"
proof -
  show 1: "panics_in keyless {''encrypt_key_aes''} (encrypt_and_send X f)" for X f
    by (auto simp: panics_in_def dest!: encrypt_and_send_panics split: if_splits)
  show 2: "panics_in keyless {''encrypt_key_aes''} (send_by_encryption X f)" for X f
    unfolding send_by_encryption_def by (intro panic_rules within_rules 1)
  show 3: "panics_in keyless {''encrypt_key_aes''} (disconnection X)" for X
    unfolding disconnection_def by (rule 2)
  show "panics_in keyless {''encrypt_key_aes''} (send_encrypted_frame X g)"
    "panics_in keyless {''encrypt_key_aes''} (finish X role c)"
    unfolding send_encrypted_frame_def finish_def Let_def by (intro panic_rules within_rules 1 2 3)+
qed

section \<open>The user's answers\<close>

lemma opened_keeps_entries:
  assumes "open_destination X i r = (Done (), t)"
  shows "hm_lookup (is_transferred_files (rq_st t)) j = None
    \<longleftrightarrow> hm_lookup (is_transferred_files (rq_st r)) j = None"
proof -
  obtain info where "hm_lookup (is_transferred_files (rq_st r)) i = Some info"
      "\<And>j. hm_lookup (is_transferred_files (rq_st t)) j =
        (if j = i then Some (opened_file info) else hm_lookup (is_transferred_files (rq_st r)) j)"
    using open_destination_Done [OF assms] by blast
  then show ?thesis by auto
qed

lemma destinations_never_panic:
  assumes "\<forall>i \<in> set ids. hm_lookup (is_transferred_files (rq_st r)) i \<noteq> None"
  shows "for_each ids (open_destination X) r \<noteq> (Panic p, t)"
  using assms
proof (induction ids arbitrary: r)
  case (Cons i ids)
  have "open_destination X i r \<noteq> (Panic p, u)" for u
    using Cons.prems by (auto simp: open_destination_def eq_Panic eq_Done)
  moreover have "for_each ids (open_destination X) u \<noteq> (Panic p, t)" if "open_destination X i r = (Done (), u)" for u
    using Cons.prems opened_keeps_entries [OF that] by (intro Cons.IH) simp
  ultimately show ?case by (auto simp: bind_eq_Panic)
qed (simp add: ret_exec)

lemma keys_open_destinations: "within keys_rel (for_each ids (open_destination X))"
  unfolding open_destination_def by (intro within_rules; simp add: keys_rel_def keyed_def upd_st_def)

lemma answer_panics:
  assumes inv: "key_inv r" and "panics_in keyed {} m" and "panics_in keyless {''encrypt_key_aes''} m"
    and "m u = (Panic p, t)" and rel: "keys_rel r u"
  shows "keyless r \<and> p = ''encrypt_key_aes''"
proof (cases "keyless r")
  case True
  then have "keyless u" using rel by (simp add: keys_rel_def)
  with True panics_inD [OF assms(3,4)] show ?thesis by simp
next
  case False
  then have "keyed u" using inv rel by (simp add: key_inv_def keys_rel_def)
  with panics_inD [OF assms(2,4)] show ?thesis by simp
qed

lemma accept_panics:
  assumes "key_order_ok X" and "key_inv r" and "accept_transfer X r = (Panic p, t)"
  shows "keyless r \<and> p = ''encrypt_key_aes''"
proof -
  let ?ids = "os_key_order X (hm_keys (is_transferred_files (rq_st r)))"
  have "set ?ids = {i. hm_lookup (is_transferred_files (rq_st r)) i \<noteq> None}"
    using assms(1) hm.set_keys mset_eq_setD unfolding key_order_ok_def by metis
  then have "for_each ?ids (open_destination X) r \<noteq> (Panic p, u)" for u
    by (intro destinations_never_panic) blast
  then obtain u where u: "for_each ?ids (open_destination X) r = (Done (), u)"
      "send_encrypted_frame X (response_frame CsAccept) u = (Panic p, t)"
    using assms(3) by (auto simp: accept_transfer_def eq_Panic)
  show ?thesis
  proof (rule answer_panics [where m = "send_encrypted_frame X (response_frame CsAccept)", OF assms(2) _ _ u(2)])
    show "keys_rel r u" by (rule withinD [OF keys_open_destinations u(1)])
  qed (intro panic_rules)+
qed

lemma action_panics:
  assumes "key_order_ok X" and "key_inv r" and "handle_action X a r = (Panic p, t)"
  shows "keyless r \<and> p = ''encrypt_key_aes''"
proof -
  let ?reject = "andthen (set_state Inbound Rejected True) (andthen (reject_transfer X (Some CsReject)) (fail NotAnError))"
  have "panics_in keyed {} ?reject" "panics_in keyless {''encrypt_key_aes''} ?reject"
    "panics_in keyed {} (finish X Inbound Cancelled)" "panics_in keyless {''encrypt_key_aes''} (finish X Inbound Cancelled)"
    unfolding reject_transfer_def Let_def by (intro panic_rules within_rules)+
  note answers = answer_panics [OF assms(2) this(1,2) _ keys.refl] answer_panics [OF assms(2) this(3,4) _ keys.refl]
  show ?thesis
    using assms(3) accept_panics [OF assms(1,2)]
    by (cases a; simp add: handle_action_def ret_exec; cases "the a"; simp) (auto dest: answers)
qed

section \<open>Frames of the peer\<close>

text \<open>A file that was announced and is not open.\<close>

definition unopened :: "'x request_scheme \<Rightarrow> bool" where
  "unopened r \<longleftrightarrow> (\<exists>i info. hm_lookup (is_transferred_files (rq_st r)) i = Some info \<and> ifi_file info = None)"

lemma introduce_panics [panic_rules]: "panics_in keyed P (introduce_files X files names sz)"
proof (induction files arbitrary: names sz)
  case (Cons f fs)
  show ?case unfolding introduce_files.simps Let_def
    by (intro panic_rules within_rules Cons.IH; simp add: keys_rel_def keyed_def upd_st_def)
qed (simp add: panics_in_def ret_exec)

lemma setup_panics [panic_rules]: "panics_in keyed P (process_transfer_setup X f)"
proof -
  have offer: "panics_in keyed P (offer_text k d)" "panics_in keyed P (reject_transfer X reason)" for k d reason
    unfolding offer_text_def reject_transfer_def Let_def by (intro panic_rules within_rules)+
  have kinds: "panics_in keyed P (case k of TtUnknown \<Rightarrow> a | TtText \<Rightarrow> b | TtUrl \<Rightarrow> c | TtAddress \<Rightarrow> d
      | TtPhoneNumber \<Rightarrow> e)"
    if "panics_in keyed P a" "panics_in keyed P b" "panics_in keyed P c" "panics_in keyed P d" "panics_in keyed P e"
    for k and a b c d e :: "unit inb"
    using that by (cases k) simp_all
  have lists: "panics_in keyed P (case xs of [] \<Rightarrow> a | [y] \<Rightarrow> f y | y # z # zs \<Rightarrow> a)"
    if "panics_in keyed P a" "\<And>y. panics_in keyed P (f y)" for xs :: "'b list" and a :: "unit inb" and f
    using that by (auto split: list.split)
  show ?thesis
    unfolding process_transfer_setup_def process_introduction_def case_prod_beta
      process_paired_key_encryption_frame_def process_paired_key_result_def
    by (intro panic_rules within_rules offer kinds lists)
qed

lemma deliver_panics: "panics_in keyed P (deliver_buffer X i b)"
  unfolding deliver_buffer_def finish_text_def by (intro panic_rules within_rules)

lemma entry_buffer_cases:
  assumes "entry_buffer i sz r = (res, u)"
  shows "res = Panic ''capacity overflow''
    \<or> res = Done () \<and> hm_lookup (is_payload_buffers (rq_st u)) i \<noteq> None \<and> keyed u = keyed r"
  using assms
  by (auto simp: entry_buffer_def bind_get ret_exec panic_exec modify_exec upd_st_def keyed_def split: if_splits)

lemma bytes_panics:
  assumes "process_bytes_payload X header chunk r = (Panic p, t)" and "keyed r"
  shows "p = ''capacity overflow''"
proof -
  have deliver: "deliver_buffer X i b (upd_st f u) \<noteq> (Panic p, t)" if "keyed u" for f b i u
  proof
    assume run: "deliver_buffer X i b (upd_st f u) = (Panic p, t)"
    have "keyed (upd_st f u)" using that by (simp add: keyed_def upd_st_def)
    from panics_inD [OF deliver_panics [of "{}"] run this] show False by simp
  qed
  show ?thesis
    using assms
    by (auto simp: process_bytes_payload_def Let_def eq_Panic eq_Done remove_buffer_def deliver split: if_splits
        dest!: entry_buffer_cases)
qed

lemma file_panics:
  assumes "process_file_payload X header chunk r = (Panic p, t)" and "keyed r"
  shows "p = ''file.as_mut()'' \<and> unopened r"
proof -
  have "panics_in keyed {} (complete_file X i)" for i
    unfolding complete_file_def by (intro panic_rules within_rules) (simp add: keys_rel_def keyed_def upd_st_def)
  from panics_inD [OF this _ assms(2)] have complete: "complete_file X i r \<noteq> (Panic p, t)" for i
    by blast
  show ?thesis
  proof (cases "hm_lookup (is_transferred_files (rq_st r)) (header_id header)")
    case None
    with assms(1) show ?thesis by (simp add: process_file_payload_def Let_def eq_Panic eq_Done)
  next
    case (Some info)
    with assms(1) complete show ?thesis
      by (auto simp: process_file_payload_eq [OF Some] eq_Panic count_acknowledged_def unopened_def
          split: if_splits option.splits)
  qed
qed

lemma offline_panics:
  assumes "process_offline_frame X f r = (Panic p, t)" and "keyed r"
  shows "p = ''capacity overflow'' \<or> p = ''file.as_mut()'' \<and> unopened r"
proof -
  have "send_keepalive X a r \<noteq> (Panic p, t)" for a
    using panics_inD [OF senders_armed(5) [where P = "{}"] _ assms(2)] by blast
  note alive = this
  have transfer: "p = ''capacity overflow'' \<or> p = ''file.as_mut()'' \<and> unopened r"
    if run: "process_payload_transfer X pt r = (Panic p, t)" for pt
  proof -
    obtain header chunk where "pt_payload_header pt = Some header" "(case header_type header of
        PtBytes \<Rightarrow> process_bytes_payload X header chunk | PtFile \<Rightarrow> process_file_payload X header chunk
      | PtStream \<Rightarrow> ret () | PtUnknown \<Rightarrow> ret ()) r = (Panic p, t)"
      using run by (auto simp: process_payload_transfer_def bind_eq_Panic ok_or_eq_Done)
    then show ?thesis
      using bytes_panics [OF _ assms(2)] file_panics [OF _ assms(2)]
      by (cases "header_type header") (auto simp: ret_exec)
  qed
  obtain v1 where v1: "of_v1 f = Some v1" "(case v1_frame_type v1 of
      FrPayloadTransfer \<Rightarrow> bind (ok_or (Error ''Missing required fields'') (v1_payload_transfer v1)) (process_payload_transfer X)
    | FrKeepAlive \<Rightarrow> send_keepalive X True | FrDisconnection \<Rightarrow> ret () | _ \<Rightarrow> ret ()) r = (Panic p, t)"
    using assms(1) by (auto simp: process_offline_frame_def bind_eq_Panic ok_or_eq_Done)
  then show ?thesis
    using alive transfer
    by (cases "v1_frame_type v1") (auto simp: ret_exec bind_eq_Panic ok_or_eq_Done)
qed

lemma opened_secure:
  assumes "keyed r"
  shows "open_secure_message X m r \<noteq> (Panic p, t)"
    and "open_secure_message X m r = (Done f, u) \<Longrightarrow>
      keyed u \<and> is_transferred_files (rq_st u) = is_transferred_files (rq_st r)"
  using assms
  by (auto simp: open_secure_message_def Let_def case_prod_beta eq_Panic eq_Done keyed_def get_client_seq_inc_def upd_st_def)

lemma secure_panics:
  assumes "decrypt_and_process_secure_message X m r = (Panic p, t)" and "keyed r"
  shows "p = ''capacity overflow'' \<or> p = ''file.as_mut()'' \<and> unopened r"
proof -
  obtain f u where "open_secure_message X m r = (Done f, u)" "process_offline_frame X f u = (Panic p, t)"
    using assms(1) opened_secure(1) [OF assms(2)]
    by (auto simp: decrypt_and_process_secure_message_def bind_eq_Panic)
  then show ?thesis
    using offline_panics [of X f u p t] opened_secure(2) [OF assms(2)] by (auto simp: unopened_def)
qed

section \<open>The key exchange\<close>

lemma own_key_never_panics [simp]: "own_public_key X k \<noteq> Panic p"
  by (auto simp: own_public_key_def encode_point_def obind_def split: option.splits)

lemma client_init_never_panics [simp]: "process_ukey2_client_init X m r \<noteq> (Panic p, t)"
  by (auto simp: process_ukey2_client_init_def Let_def case_prod_beta eq_Panic split: option.splits)

text \<open>How the derivation of the keys ends when its inputs are there.\<close>

lemma secrets_cases:
  assumes "kdf_ok X" and "is_private_key (rq_st r) \<noteq> None" "is_client_init_msg_data (rq_st r) \<noteq> None"
    and "is_server_init_data (rq_st r) \<noteq> None"
  shows "(\<exists>ks. session_secrets X g r = (Done ks, r) \<and> good_keys X ks) \<or> (\<exists>e. session_secrets X g r = (Fail e, r))
    \<or> session_secrets X g r = (Panic ''from_encoded_point'', r) \<or> session_secrets X g r = (NoFuel, r)"
proof -
  obtain sk ci si where st: "is_private_key (rq_st r) = Some sk" "is_client_init_msg_data (rq_st r) = Some ci"
      "is_server_init_data (rq_st r) = Some si"
    using assms(2-4) by auto
  have point: "p = ''from_encoded_point''" if "peer_point X g = Panic p" for p
    using that by (auto simp: peer_point_def Let_def obind_def o_or_def o_unwrap_def split: option.splits)
  show ?thesis
  proof (cases "peer_point X g")
    case (Done k)
    obtain ks where "derive_keys X (sha256 X (diffie_hellman X sk k)) (ci @ si) = Done ks" "good_keys X ks"
      using derive_keys_Done [OF assms(1)] by blast
    with Done st show ?thesis by (simp add: session_secrets_def exec Let_def)
  qed (use point in \<open>auto simp: session_secrets_def lift_outcome_exec bind_def\<close>)
qed

lemma finalize_panics:
  assumes "kdf_ok X" and "server_finalize_key_exchange X g r = (Panic p, t)"
    and "is_private_key (rq_st r) \<noteq> None" "is_client_init_msg_data (rq_st r) \<noteq> None"
      "is_server_init_data (rq_st r) \<noteq> None"
  shows "p = ''from_encoded_point''"
  using secrets_cases [OF assms(1,3-5), of g] assms(2)
  by (auto simp: server_finalize_key_exchange_def bind_Done bind_Panic bind_Fail bind_NoFuel aes_key_of_def slice_32
      good_keys_def new_hmac_def exec)

lemma client_finish_panics:
  assumes "kdf_ok X" and "opened_with X r h" and "process_ukey2_client_finish X m d r = (Panic p, t)"
  shows "p = ''from_encoded_point''"
proof -
  have "is_cipher_commitment (rq_st r) \<noteq> None" "is_private_key (rq_st r) \<noteq> None"
    "is_client_init_msg_data (rq_st r) \<noteq> None" "is_server_init_data (rq_st r) \<noteq> None"
    using assms(2) by (auto simp: opened_with_def)
  with assms(3) finalize_panics [of X _ r p t, OF assms(1)] show ?thesis
    by (auto simp: process_ukey2_client_finish_def eq_Panic eq_Done split: if_splits option.splits)
qed

lemma serve_frame_panics:
  assumes "kdf_ok X" and "key_inv r" and "commitment_inv X r" and run: "serve_frame X d r = (Panic p, t)"
  shows "secured (conn r) \<and> (p = ''capacity overflow'' \<or> p = ''file.as_mut()'' \<and> unopened r)
    \<or> conn r = SentUkeyServerInit \<and> p = ''from_encoded_point''"
proof -
  consider "conn r = Initial" | "conn r = ReceivedConnectionRequest" | "conn r = SentUkeyServerInit"
    | "conn r = ReceivedUkeyClientFinish" | "secured (conn r)"
    by (auto simp: secured_def)
  then show ?thesis
  proof cases
    case 1
    with run process_request_no_panic show ?thesis
      by (auto simp: serve_frame_def conn_def eq_Panic)
  next
    case 2
    with run show ?thesis
      by (auto simp: serve_frame_def conn_def eq_Panic)
  next
    case 3
    then obtain h where "opened_with X r h" using assms(3) by (auto simp: commitment_inv_def)
    from client_finish_panics [OF assms(1) this] run 3 show ?thesis
      by (auto simp: serve_frame_def conn_def eq_Panic eq_Done)
  next
    case 4
    then have "keyed r" using assms(2) by (simp add: key_inv_def)
    moreover have "panics_in keyed {} (process_connection_response X f)" for f
      unfolding process_connection_response_def by (intro panic_rules within_rules)
    ultimately have "process_connection_response X f r \<noteq> (Panic p, t)" for f
      using panics_inD [of keyed "{}" _ r p t] by blast
    with run 4 show ?thesis
      by (auto simp: serve_frame_def conn_def eq_Panic eq_Done)
  next
    case 5
    then have "keyed r" using assms(2) by (simp add: key_inv_def)
    obtain m where "decrypt_and_process_secure_message X m r = (Panic p, t)"
      using run 5 by (auto simp: serve_frame_def conn_def secured_def eq_Panic eq_Done split: if_splits)
    from secure_panics [OF this \<open>keyed r\<close>] 5 show ?thesis by blast
  qed
qed

section \<open>The list\<close>

lemma io_parts [simp]:
  "unopened (r\<lparr>rq_in := i\<rparr>) = unopened r" "unopened (s\<lparr>ib_recv_buf := b\<rparr>) = unopened s"
  "conn (r\<lparr>rq_in := i\<rparr>) = conn r" "conn (s\<lparr>ib_recv_buf := b\<rparr>) = conn s"
  "commitment_inv X (r\<lparr>rq_in := i\<rparr>) = commitment_inv X r"
  "commitment_inv X (s\<lparr>ib_recv_buf := b\<rparr>) = commitment_inv X s"
  by (simp_all add: unopened_def conn_def commitment_inv_def bound_to_commitment_def opened_with_def)

lemma read_parts:
  assumes "stream_read_exact n r = (Done d, t)"
  shows "\<exists>i. t = r\<lparr>rq_in := i\<rparr>"
  using assms by (auto simp: stream_read_exact_def split: if_splits)

lemma socket_panics:
  assumes "kdf_ok X" and "key_inv r" and "commitment_inv X r" and "handle X OnSocket r = (Panic p, t)"
  shows "secured (conn r) \<and> (p = ''capacity overflow'' \<or> p = ''file.as_mut()'' \<and> unopened r)
    \<or> conn r = SentUkeyServerInit \<and> p = ''from_encoded_point''"
proof -
  obtain d u i b where "serve_frame X d u = (Panic p, t)" "u = (r\<lparr>rq_in := i\<rparr>)\<lparr>ib_recv_buf := b\<rparr>"
    using assms(4)
    by (fastforce simp: handle_def handle_frame_def Let_def eq_Panic eq_Done dest!: read_parts)
  then show ?thesis
    using serve_frame_panics [of X u d p t] assms(1-3) by simp
qed

text \<open>
  C21. All the ways a receiving connection can panic. After any events that succeeded, and if the key
  derivation gives keys of the length asked for, an event panics only in one of four ways: a frame
  announces a payload of negative size, a chunk comes for a file that is not open, the peer's public
  key is not on the curve, or the front end answers before there are keys. Every other \<open>unwrap\<close>,
  index and slice of the file is safe, whatever the peer sends.
\<close>

theorem panics_known:
  assumes "key_order_ok X" and "kdf_ok X"
    and "for_each evs (handle X) (new_inbound i fs custom_download socket) = (Done (), r)"
    and "handle X ev r = (Panic p, t)"
  shows "case ev of
      OnSocket \<Rightarrow> secured (conn r) \<and> (p = ''capacity overflow'' \<or> p = ''file.as_mut()'' \<and> unopened r)
        \<or> conn r = SentUkeyServerInit \<and> p = ''from_encoded_point''
    | OnChannel k got \<Rightarrow> before_keys (conn r) \<and> rq_encrypt_key_aes r = None \<and> p = ''encrypt_key_aes''"
proof -
  have keys: "key_inv r" if "for_each evs (handle X) q = (Done (), r)" "key_inv q" for evs q
    using that by (induction evs arbitrary: q) (auto simp: ret_exec eq_Done dest: handle_key_inv)
  have "key_inv (new_inbound i fs custom_download socket)"
    by (simp add: key_inv_def keyed_def conn_def new_inbound_def is_default_def secured_def)
  with keys assms(3) have inv: "key_inv r" by blast
  show ?thesis
  proof (cases ev)
    case OnSocket
    with socket_panics [OF assms(2) inv committed [OF assms(3)]] assms(4) show ?thesis by simp
  next
    case (OnChannel k got)
    let ?r = "r\<lparr>rq_in := drop (min k 3) (rq_in r)\<rparr>"
    obtain a where "handle_action X a ?r = (Panic p, t)"
      using assms(4) OnChannel
      by (auto simp: handle_def drop_partial_length_def eq_Panic split: recv_result.splits if_splits)
    from action_panics [OF assms(1) _ this] inv have "keyless r \<and> p = ''encrypt_key_aes''" by simp
    moreover from this inv have "before_keys (conn r)"
      by (cases "conn r") (auto simp: before_keys_def key_inv_def keyed_def secured_def)
    ultimately show ?thesis using OnChannel by simp
  qed
qed

end
