(* ===== verification/SenderPanics.thy ===== *)
theory SenderPanics
  imports Panics Session
begin

text \<open>The same list for a sending connection: \<open>hdl/outbound.rs\<close>.\<close>

section \<open>The methods of the sender keep its keys\<close>

lemma keys_sender_parts [within_rules]:
  "within keys_rel (file_read X i info h)" "within keys_rel (count_sent i n)"
  "within keys_rel (entry_buffer i sz)" "within keys_rel (remove_buffer i)"
  by (auto simp: within_def file_read_def Let_def put_handle_def count_sent_def bind_get update_state_def entry_buffer_def
      remove_buffer_def exec keys_rel_def keyed_def upd_st_def)

lemma keys_collect [within_rules]: "within keys_rel (collect_files X fs metas infos n)"
proof (induction fs arbitrary: metas infos n)
  case (Cons f fs)
  show ?case unfolding collect_files.simps Let_def by (intro within_rules Cons.IH)
qed (simp add: within_rules)

lemma keys_send_file [within_rules]: "within keys_rel (send_file X fuel i header sz)"
proof (induction fuel)
  case (Suc fuel)
  show ?case unfolding send_file.simps Let_def by (intro within_rules Suc.IH)
qed (simp add: within_rules)

lemma keys_send_files [within_rules]: "within keys_rel (send_files X fuel ids)"
proof (induction ids)
  case (Cons i ids)
  show ?case unfolding send_files.simps by (intro within_rules Cons.IH)
qed (unfold send_files.simps, intro within_rules)

lemma keys_setup [within_rules]: "within keys_rel (process_setup X fuel f)"
  unfolding process_setup_def answer_paired_key_encryption_def send_introduction_def process_consent_def case_prod_beta
  by (intro within_rules)

lemma keys_out_frame: "within keys_rel (out_offline_frame X fuel f)"
  unfolding out_offline_frame_def out_payload_transfer_def out_bytes_payload_def Let_def
  by (intro within_rules; simp add: keys_rel_def keyed_def upd_st_def)

section \<open>Where they panic\<close>

lemma collect_panics [panic_rules]: "panics_in keyed P (collect_files X fs metas infos n)"
proof (induction fs arbitrary: metas infos n)
  case (Cons f fs)
  show ?case unfolding collect_files.simps Let_def by (intro panic_rules within_rules Cons.IH)
qed (simp add: panics_in_def ret_exec)

lemma file_parts_panic [panic_rules]:
  "panics_in I P (file_read X i info h)" "panics_in I P (count_sent i n)"
  by (auto simp: panics_in_def file_read_def Let_def count_sent_def bind_get)

lemma send_file_panics [panic_rules]: "panics_in keyed P (send_file X fuel i header sz)"
proof (induction fuel)
  case (Suc fuel)
  show ?case unfolding send_file.simps Let_def by (intro panic_rules within_rules Suc.IH)
qed (simp add: panics_in_def no_fuel_exec)

lemma send_files_panics [panic_rules]: "panics_in keyed P (send_files X fuel ids)"
proof (induction ids)
  case (Cons i ids)
  show ?case unfolding send_files.simps by (intro panic_rules within_rules Cons.IH)
qed (unfold send_files.simps, intro panic_rules within_rules)

lemma out_setup_panics: "panics_in keyed P (process_setup X fuel f)"
  unfolding process_setup_def answer_paired_key_encryption_def send_introduction_def process_consent_def case_prod_beta
  by (intro panic_rules within_rules)

lemma out_bytes_panics:
  assumes "out_bytes_payload X fuel header chunk r = (Panic p, t)" and "keyed r"
  shows "p = ''capacity overflow''"
proof -
  have handled: "process_setup X fuel f (upd_st g u) \<noteq> (Panic p, t)" if "keyed u" for f g u
  proof
    assume run: "process_setup X fuel f (upd_st g u) = (Panic p, t)"
    have "keyed (upd_st g u)" using that by (simp add: keyed_def upd_st_def)
    from panics_inD [OF out_setup_panics [of "{}"] run this] show False by simp
  qed
  show ?thesis
    using assms
    by (auto simp: out_bytes_payload_def Let_def eq_Panic eq_Done remove_buffer_def handled split: if_splits
        dest!: entry_buffer_cases)
qed

lemma out_secure_panics:
  assumes "out_secure_message X fuel m r = (Panic p, t)" and "keyed r"
  shows "p = ''capacity overflow''"
proof -
  obtain f u where f: "out_offline_frame X fuel f u = (Panic p, t)" "keyed u"
    using assms opened_secure [OF assms(2)] by (auto simp: out_secure_message_def bind_eq_Panic)
  have alive: "send_keepalive X a u \<noteq> (Panic p, t)" for a
    using panics_inD [OF senders_armed(5) [where P = "{}"] _ f(2)] by blast
  have transfer: "p = ''capacity overflow''" if run: "out_payload_transfer X fuel pt u = (Panic p, t)" for pt
  proof -
    obtain header chunk where "(case header_type header of PtBytes \<Rightarrow> out_bytes_payload X fuel header chunk
        | PtFile \<Rightarrow> ret () | PtStream \<Rightarrow> ret () | PtUnknown \<Rightarrow> ret ()) u = (Panic p, t)"
      using run by (auto simp: out_payload_transfer_def bind_eq_Panic ok_or_eq_Done)
    then show ?thesis
      using out_bytes_panics [OF _ f(2)] by (cases "header_type header") (auto simp: ret_exec)
  qed
  obtain v1 where "(case v1_frame_type v1 of
      FrPayloadTransfer \<Rightarrow> bind (ok_or (Error ''Missing required fields'') (v1_payload_transfer v1)) (out_payload_transfer X fuel)
    | FrKeepAlive \<Rightarrow> send_keepalive X True | FrDisconnection \<Rightarrow> ret () | _ \<Rightarrow> ret ()) u = (Panic p, t)"
    using f(1) by (auto simp: out_offline_frame_def bind_eq_Panic ok_or_eq_Done)
  then show ?thesis
    using alive transfer by (cases "v1_frame_type v1") (auto simp: ret_exec bind_eq_Panic ok_or_eq_Done)
qed

section \<open>The key exchange\<close>

text \<open>
  What the sender keeps between two events: before the keys, all it needs to derive them but the
  server's message, which it stores before it uses it; after that, the keys.
\<close>

definition sender_keys :: "'x request_scheme \<Rightarrow> bool" where
  "sender_keys r \<longleftrightarrow>
     (if conn r = SentUkeyClientInit
      then rq_encrypt_key_aes r = None \<and> is_private_key (rq_st r) \<noteq> None
        \<and> is_client_init_msg_data (rq_st r) \<noteq> None \<and> is_ukey_client_finish_msg_data (rq_st r) \<noteq> None
      else keyed r)"

lemma client_finalize_ends:
  assumes "client_finalize_key_exchange X g r = (Done (), t)"
  shows "keyed t \<and> is_ukey_client_finish_msg_data (rq_st t) = is_ukey_client_finish_msg_data (rq_st r)"
proof -
  have "u = r" if "session_secrets X g r = (res, u)" for res u
    by (rule session_secrets_state [OF that])
  with assms show ?thesis
    by (fastforce simp: client_finalize_key_exchange_def eq_Done modify_exec update_state_def keyed_def upd_st_def
        ret_exec aes_key_of_eq_Done new_hmac_eq_Done)
qed

lemma client_finalize_panics:
  assumes "kdf_ok X" and "client_finalize_key_exchange X g r = (Panic p, t)"
    and "is_private_key (rq_st r) \<noteq> None" "is_client_init_msg_data (rq_st r) \<noteq> None"
      "is_server_init_data (rq_st r) \<noteq> None"
  shows "p = ''from_encoded_point''"
  using secrets_cases [OF assms(1,3-5), of g] assms(2)
  by (auto simp: client_finalize_key_exchange_def bind_Done bind_Panic bind_Fail bind_NoFuel aes_key_of_def slice_32
      good_keys_def new_hmac_def exec)

lemma server_init_panics:
  assumes "kdf_ok X" and "process_ukey2_server_init X m r = (Panic p, t)"
    and "is_private_key (rq_st r) \<noteq> None" "is_client_init_msg_data (rq_st r) \<noteq> None"
      "is_server_init_data (rq_st r) \<noteq> None" "is_ukey_client_finish_msg_data (rq_st r) \<noteq> None"
  shows "p = ''from_encoded_point''"
  using assms(2,6) client_finalize_panics [of X _ r p t, OF assms(1) _ assms(3-5)]
  by (auto simp: process_ukey2_server_init_def eq_Panic eq_Done split: if_splits option.splits
      dest!: client_finalize_ends)

lemma server_init_keyed:
  assumes "process_ukey2_server_init X m r = (Done (), t)"
  shows "keyed t"
proof -
  have sent: "keyed v" if "send_frame X d u = (res, v)" "keyed u" for d u v and res :: "unit outcome"
    using withinD [OF keys_senders(1) that(1)] that(2) by (simp add: keys_rel_def)
  show ?thesis
    using assms
    by (auto simp: process_ukey2_server_init_def eq_Done alert_and_fail_def fail_exec get_exec
        split: if_splits option.splits dest!: client_finalize_ends intro: sent)
qed

section \<open>One event\<close>

lemma out_serve_panics:
  assumes "kdf_ok X" and "sender_keys r" and run: "out_serve_frame X fuel d r = (Panic p, t)"
  shows "if conn r = SentUkeyClientInit then p = ''from_encoded_point''
    else conn r \<noteq> SentUkeyClientFinish \<and> p = ''capacity overflow''"
proof -
  consider "conn r = SentUkeyClientInit" | "conn r = SentUkeyClientFinish"
    | "conn r \<noteq> SentUkeyClientInit" "conn r \<noteq> SentUkeyClientFinish"
    by blast
  then show ?thesis
  proof cases
    case 1
    let ?r = "upd_st (\<lambda>e. e\<lparr>is_server_init_data := Some d\<rparr>) r"
    obtain m where "process_ukey2_server_init X m ?r = (Panic p, t)"
      using run 1 by (auto simp: out_serve_frame_def conn_def eq_Panic eq_Done update_state_def)
    from server_init_panics [OF assms(1) this] assms(2) 1 show ?thesis
      by (simp add: sender_keys_def upd_st_def)
  next
    case 2
    then have "keyed r" using assms(2) by (simp add: sender_keys_def)
    moreover have "panics_in keyed {} (check_connection_response X f)" for f
      unfolding check_connection_response_def by (intro panic_rules within_rules)
    ultimately have "check_connection_response X f r \<noteq> (Panic p, t)" for f
      using panics_inD [of keyed "{}" _ r p t] by blast
    with run 2 show ?thesis
      by (auto simp: out_serve_frame_def conn_def eq_Panic eq_Done)
  next
    case 3
    then have "keyed r" using assms(2) by (simp add: sender_keys_def)
    moreover obtain m where "out_secure_message X fuel m r = (Panic p, t)"
      using run 3 by (auto simp: out_serve_frame_def conn_def eq_Panic eq_Done)
    ultimately show ?thesis using out_secure_panics 3 by simp
  qed
qed

lemma out_serve_keys:
  assumes "sender_keys r" and run: "out_serve_frame X fuel d r = (Done (), t)"
  shows "sender_keys t"
proof (cases "conn r = SentUkeyClientInit")
  case True
  let ?r = "upd_st (\<lambda>e. e\<lparr>is_server_init_data := Some d\<rparr>) r"
  obtain m u where "process_ukey2_server_init X m ?r = (Done (), u)"
      "t = upd_st (\<lambda>e. e\<lparr>is_state := SentUkeyClientFinish, is_encryption_done := True\<rparr>) u"
    using run True by (auto simp: out_serve_frame_def conn_def eq_Done get_exec update_state_def modify_exec ret_exec)
  moreover from server_init_keyed [OF this(1)] have "keyed u" .
  ultimately show ?thesis
    by (simp add: sender_keys_def conn_def keyed_def upd_st_def)
next
  case False
  have "keys_rel r t"
  proof -
    have "within keys_rel (check_connection_response X f)" for f
      unfolding check_connection_response_def by (intro within_rules)
    moreover have "within keys_rel (out_secure_message X fuel m)" for m
      unfolding out_secure_message_def by (intro within_rules keys_out_frame)
    ultimately have "keys_rel r (snd (out_serve_frame X fuel d r))"
      using False unfolding out_serve_frame_def conn_def [symmetric] bind_get
      by simp (intro conjI impI within_at [of keys_rel]; intro within_rules)
    then show ?thesis by (simp add: run)
  qed
  moreover have "conn t \<noteq> SentUkeyClientInit"
    using withinD [OF out_serve_frame_move run] False by (auto simp: may_move_def elim: out_moveE)
  ultimately show ?thesis using assms(1) False by (simp add: sender_keys_def keys_rel_def)
qed

lemma sender_keys_io [simp]:
  "sender_keys (r\<lparr>rq_in := i\<rparr>) = sender_keys r"
  by (simp add: sender_keys_def keyed_def conn_def)

lemma out_action_quiet: "out_handle_action X a r = (Done (), t) \<Longrightarrow> t = r"
  by (auto simp: out_handle_action_def ret_exec finish_def andthen_eq_Done fail_exec
      split: option.splits channel_action.splits)

lemma out_handle_keys:
  assumes "sender_keys r" and "out_handle X fuel ev r = (Done (), t)"
  shows "sender_keys t"
proof (cases ev)
  case OnSocket
  then obtain d i where "out_serve_frame X fuel d (r\<lparr>rq_in := i\<rparr>) = (Done (), t)"
    using assms(2)
    by (fastforce simp: out_handle_def out_handle_frame_def read_message_def Let_def eq_Done dest!: read_parts)
  from out_serve_keys [OF _ this] assms(1) show ?thesis by simp
next
  case (OnChannel k got)
  with assms show ?thesis
    by (auto simp: out_handle_def drop_partial_length_def eq_Done modify_exec get_exec ret_exec
        split: recv_result.splits if_splits dest!: out_action_quiet)
qed

lemma sender_keys_runs:
  "for_each evs (out_handle X fuel) q = (Done (), r) \<Longrightarrow> sender_keys q \<Longrightarrow> sender_keys r"
  by (induction evs arbitrary: q) (auto simp: ret_exec eq_Done dest: out_handle_keys)

lemma connecting_keys:
  assumes "connecting X (fresh_client endpoint_id i files rdi fs) = (Done (), c)"
  shows "sender_keys c"
proof -
  let ?c = "fresh_client endpoint_id i files rdi fs"
  obtain u where u: "send_connection_request X ?c = (Done (), u)" "send_ukey2_client_init X u = (Done (), c)"
    using assms by (auto simp: connecting_def andthen_eq_Done)
  have "within keys_rel (send_connection_request X)" unfolding send_connection_request_def by (intro within_rules)
  then have "keyless u"
    using withinD u(1) by (fastforce simp: keys_rel_def fresh_client_def new_outbound_def)
  moreover have "keyless v" if "send_frame X d w = (res, v)" "keyless w" for d w v and res :: "unit outcome"
    using withinD [OF keys_senders(1) that(1)] that(2) by (simp add: keys_rel_def)
  ultimately show ?thesis
    using u(2)
    by (fastforce simp: send_ukey2_client_init_def eq_Done draw_def Let_def case_prod_beta lift_outcome_exec
        update_state_def modify_exec ret_exec upd_st_def sender_keys_def conn_def)
qed

section \<open>The list\<close>

text \<open>
  C22. All the ways a sending connection can panic, from its first message on: the peer's public key
  is not on the curve, a frame announces a payload of negative size, or the user cancels before there
  are keys. No file, whatever its name, length or kind, and no answer of the peer makes the sending
  loop panic.
\<close>

theorem out_panics_known:
  assumes "kdf_ok X" and "connecting X (fresh_client endpoint_id i files rdi fs) = (Done (), c)"
    and "for_each evs (out_handle X fuel) (c\<lparr>rq_in := socket\<rparr>) = (Done (), r)"
    and "out_handle X fuel ev r = (Panic p, t)"
  shows "case ev of
      OnSocket \<Rightarrow> if conn r = SentUkeyClientInit then p = ''from_encoded_point''
        else conn r \<noteq> SentUkeyClientFinish \<and> p = ''capacity overflow''
    | OnChannel k got \<Rightarrow> conn r = SentUkeyClientInit \<and> p = ''encrypt_key_aes''
        \<and> (\<exists>m. got = RecvOk m \<and> cm_action m = Some CancelTransfer)"
proof -
  have inv: "sender_keys r"
    using sender_keys_runs [OF assms(3)] connecting_keys [OF assms(2)] by simp
  show ?thesis
  proof (cases ev)
    case OnSocket
    then obtain d j where "out_serve_frame X fuel d (r\<lparr>rq_in := j\<rparr>) = (Panic p, t)"
      using assms(4)
      by (fastforce simp: out_handle_def out_handle_frame_def read_message_def Let_def eq_Panic eq_Done dest!: read_parts)
    from out_serve_panics [OF assms(1) _ this] inv OnSocket show ?thesis by (simp split: if_splits)
  next
    case (OnChannel k got)
    let ?r = "r\<lparr>rq_in := drop (min k 3) (rq_in r)\<rparr>"
    obtain m where m: "got = RecvOk m" "out_handle_action X (cm_action m) ?r = (Panic p, t)"
      using assms(4) OnChannel
      by (auto simp: out_handle_def drop_partial_length_def eq_Panic split: recv_result.splits if_splits)
    then have cancel: "cm_action m = Some CancelTransfer" "finish X Outbound Cancelled ?r = (Panic p, t)"
      by (auto simp: out_handle_action_def ret_exec split: option.splits channel_action.splits)
    have "\<not> keyed ?r"
      using panics_inD [OF senders_armed(6) [where P = "{}"] cancel(2)] by blast
    with inv have early: "conn r = SentUkeyClientInit" "keyless ?r"
      by (auto simp: sender_keys_def keyed_def split: if_splits)
    from panics_inD [OF senders_keyless(5) cancel(2) early(2)] early(1) m(1) cancel(1) OnChannel
    show ?thesis by simp
  qed
qed

end
