(* ===== verification/Interruption.thy ===== *)
theory Interruption
  imports Registry SenderPanics EmptyFiles
begin

text \<open>
  When the sending side looks at what its user does. All files are sent within one call of
  \<open>handle\<close>, so between two events the connection is never in the state in which the window offers
  to cancel; and once the answer of the receiver was taken in, all announced bytes are sent.
\<close>

section \<open>What holds after a computation that was done\<close>

definition settles :: "('s \<Rightarrow> bool) \<Rightarrow> ('s, 'a) io \<Rightarrow> bool" where
  "settles I m \<longleftrightarrow> (\<forall>s a t. m s = (Done a, t) \<longrightarrow> I s \<longrightarrow> I t)"

definition ends_in :: "('s \<Rightarrow> bool) \<Rightarrow> ('s, 'a) io \<Rightarrow> bool" where
  "ends_in I m \<longleftrightarrow> (\<forall>s a t. m s = (Done a, t) \<longrightarrow> I t)"

lemma settlesD:
  assumes "settles I m" and "m s = (Done a, t)" and "I s"
  shows "I t"
proof -
  have "m s = (Done a, t) \<longrightarrow> I s \<longrightarrow> I t"
    using assms(1) unfolding settles_def by (elim allE)
  then show ?thesis using assms(2,3) by (elim impE)
qed

lemma ends_inD:
  assumes "ends_in I m" and "m s = (Done a, t)"
  shows "I t"
proof -
  have "m s = (Done a, t) \<longrightarrow> I t"
    using assms(1) unfolding ends_in_def by (elim allE)
  then show ?thesis using assms(2) by (elim impE)
qed

lemma settles_same:
  assumes "within (same_rel f) m" and "\<And>s t. f t = f s \<Longrightarrow> I t = I s"
  shows "settles I m"
  unfolding settles_def same_rel_def
proof (intro allI impI)
  fix s a t assume run: "m s = (Done a, t)" and "I s"
  moreover have "f t = f s" using withinD [OF assms(1) run] by (simp add: same_rel_def)
  ultimately show "I t" using assms(2) by blast
qed

lemma settles_bind: "settles I m \<Longrightarrow> (\<And>a. settles I (f a)) \<Longrightarrow> settles I (bind m f)"
  unfolding settles_def eq_Done by blast

lemma settles_andthen: "settles I m \<Longrightarrow> settles I k \<Longrightarrow> settles I (andthen m k)"
  unfolding settles_def eq_Done by blast

lemma settles_ends: "ends_in I m \<Longrightarrow> settles I m"
  unfolding settles_def ends_in_def by blast

lemma ends_bind: "(\<And>a. ends_in I (f a)) \<Longrightarrow> ends_in I (bind m f)"
  unfolding ends_in_def eq_Done by blast

lemma ends_andthen: "ends_in I k \<Longrightarrow> ends_in I (andthen m k)"
  unfolding ends_in_def eq_Done by blast

lemma ends_settles: "ends_in I m \<Longrightarrow> settles I k \<Longrightarrow> ends_in I (andthen m k)"
  unfolding settles_def ends_in_def eq_Done by blast

lemma settles_if:
  "(c \<Longrightarrow> settles I m) \<Longrightarrow> (\<not> c \<Longrightarrow> settles I k) \<Longrightarrow> settles I (if c then m else k)"
  by simp

lemma settles_option:
  "(x = None \<Longrightarrow> settles I m) \<Longrightarrow> (\<And>a. x = Some a \<Longrightarrow> settles I (f a))
     \<Longrightarrow> settles I (case x of None \<Rightarrow> m | Some a \<Rightarrow> f a)"
  by (cases x) auto

lemma settles_basic:
  "settles I (ret a)" "settles I (fail e)" "settles I (get f)" "settles I (ok_or e x)"
  "settles I (unwrap p x)" "settles I (fail_if c e)"
  by (auto simp: settles_def exec ok_or_def unwrap_def split: option.splits)

lemma settles_for_each: "(\<And>x. settles I (f x)) \<Longrightarrow> settles I (for_each xs f)"
  by (induction xs) (auto intro: settles_bind settles_andthen settles_basic)

section \<open>The states between two events\<close>

definition seen_in :: "conn_state set \<Rightarrow> 'x request_scheme \<Rightarrow> bool" where
  "seen_in S r \<longleftrightarrow> conn r \<in> S"

definition offered :: "'x request_scheme \<Rightarrow> (i64, internal_file_info) hashmap" where
  "offered r = is_transferred_files (rq_st r)"

lemma settles_conn: "within (same_rel conn) m \<Longrightarrow> settles (seen_in S) m"
  by (erule settles_same) (simp add: seen_in_def)

lemma settles_state:
  assumes "\<And>s a t. I s \<Longrightarrow> g (conn s) s = (Done a, t) \<Longrightarrow> I t"
  shows "settles I (bind (get (\<lambda>r. is_state (rq_st r))) g)"
  using assms by (auto simp: settles_def bind_get conn_def)

lemma ends_set_state: "s \<in> S \<Longrightarrow> ends_in (seen_in S) (set_state role s inform)"
  by (auto simp: ends_in_def set_state_def update_state_def exec seen_in_def conn_def upd_st_def)

lemma ends_update: "(\<And>e. is_state (f e) \<in> S) \<Longrightarrow> ends_in (seen_in S) (update_state role f inform)"
  by (auto simp: ends_in_def update_state_def exec seen_in_def conn_def upd_st_def)

lemma ends_seen: "ends_in (seen_in S) m \<Longrightarrow> (\<And>t. conn t \<in> S \<Longrightarrow> I t) \<Longrightarrow> ends_in I m"
  by (auto simp: ends_in_def seen_in_def)

lemma finish_not_done: "ends_in I (finish X role s)"
  by (auto simp: ends_in_def finish_def eq_Done fail_exec)

lemma files_end: "ends_in (seen_in {Finished}) (send_files X fuel ids)"
proof (induction ids)
  case Nil
  have "settles (seen_in {Finished}) (disconnection X :: unit outb)"
    by (rule settles_conn) (intro within_rules)
  with ends_set_state show ?case unfolding send_files.simps by (rule ends_settles) simp
next
  case (Cons i ids)
  have "ends_in (seen_in {Finished}) (case e of None \<Rightarrow> send_files X fuel ids
      | Some s \<Rightarrow> andthen (send_file X fuel i (file_header i s) (ifi_total_size s)) (send_files X fuel ids))" for e
    by (cases e) (simp_all add: Cons.IH ends_andthen)
  then show ?case unfolding send_files.simps by (rule ends_bind)
qed

lemma consent_ends: "ends_in (seen_in {Finished}) (process_consent X fuel v)"
proof -
  have no: "ends_in I (fail e)" for I e by (simp add: ends_in_def fail_exec)
  show ?thesis
    unfolding process_consent_def
    by (auto intro!: no finish_not_done split: option.split)
       (rule ends_bind, rule ends_andthen, rule ends_bind, rule files_end)
qed

section \<open>Most of a call leaves the announced files alone\<close>

definition kept :: "'x request_scheme \<Rightarrow> conn_state \<times> (i64, internal_file_info) hashmap \<times> bool" where
  "kept r = (conn r, offered r, is_encryption_done (rq_st r))"

lemma kept_core: "within (same_rel core) m \<Longrightarrow> within (same_rel kept) m"
proof (erule within_mono)
  show "same_rel kept r t" if "same_rel core r t" for r t :: "'a request_scheme"
    using coreD_st(7-9) that unfolding same_rel_def kept_def offered_def conn_def by blast
qed

lemma kept_modify [within_rules]:
  "(\<And>r. kept (f r) = kept r) \<Longrightarrow> within (same_rel kept) (modify f)"
  by (simp add: within_def same_rel_def exec)

lemma kept_basic [within_rules]:
  "within (same_rel kept) (stream_read_exact n)" "within (same_rel kept) (drop_partial_length k)"
  "within (same_rel kept) (entry_buffer i sz)" "within (same_rel kept) (remove_buffer i)"
  by (auto simp: within_def same_rel_def kept_def offered_def conn_def stream_read_exact_def drop_partial_length_def
      entry_buffer_def remove_buffer_def exec upd_st_def split: option.splits)

lemmas kept_senders [within_rules] =
  send_frame_core [THEN kept_core] encrypt_and_send_core [THEN kept_core] senders_core [THEN kept_core]

lemma kept_open [within_rules]: "within (same_rel kept) (open_secure_message X m)"
  unfolding open_secure_message_def get_client_seq_inc_def Let_def case_prod_beta
  by (intro within_rules; simp add: kept_def offered_def conn_def upd_st_def)

lemma kept_message [within_rules]: "within (same_rel kept) (read_message lb)"
  unfolding read_message_def Let_def by (intro within_rules; simp add: kept_def offered_def conn_def)

lemma keptD:
  assumes "within (same_rel kept) m" and "m s = (x, t)"
  shows "conn t = conn s" and "offered t = offered s" and "is_encryption_done (rq_st t) = is_encryption_done (rq_st s)"
  using withinD [OF assms] by (simp_all add: same_rel_def kept_def)

section \<open>Whether the keys are in use\<close>

definition encrypts :: "'x request_scheme \<Rightarrow> bool" where
  "encrypts r = is_encryption_done (rq_st r)"

lemma encrypts_core: "within (same_rel core) m \<Longrightarrow> within (same_rel encrypts) m"
proof (erule within_mono)
  show "same_rel encrypts r t" if "same_rel core r t" for r t :: "'a request_scheme"
    using coreD_st(9) that unfolding same_rel_def encrypts_def by blast
qed

lemma encrypts_update [within_rules]:
  "(\<And>e. is_encryption_done (f e) = is_encryption_done e) \<Longrightarrow> within (same_rel encrypts) (update_state role f inform)"
  by (auto simp: within_def same_rel_def encrypts_def update_state_def exec upd_st_def)

lemma encrypts_parts [within_rules]:
  "within (same_rel encrypts) draw" "within (same_rel encrypts) (file_read X i info h)"
  "within (same_rel encrypts) (count_sent i n)" "within (same_rel encrypts) (set_state role s inform)"
  by (auto simp: within_def same_rel_def encrypts_def draw_def file_read_def Let_def put_handle_def count_sent_def
      bind_get set_state_def update_state_def exec upd_st_def)

lemmas encrypts_senders [within_rules] =
  encrypt_and_send_core [THEN encrypts_core] senders_core [THEN encrypts_core]

lemma encrypts_send_file [within_rules]: "within (same_rel encrypts) (send_file X fuel i header sz)"
proof (induction fuel)
  case (Suc fuel)
  show ?case unfolding send_file.simps Let_def by (intro within_rules Suc.IH; simp)
qed (simp add: within_rules)

lemma encrypts_send_files [within_rules]: "within (same_rel encrypts) (send_files X fuel ids)"
proof (induction ids)
  case (Cons i ids)
  show ?case unfolding send_files.simps by (intro within_rules Cons.IH)
qed (unfold send_files.simps, intro within_rules)

lemma encrypts_consent: "within (same_rel encrypts) (process_consent X fuel v)"
  unfolding process_consent_def finish_def by (intro within_rules; simp)

lemma encrypts_collect [within_rules]: "within (same_rel encrypts) (collect_files X fs metas infos sz)"
proof (induction fs arbitrary: metas infos sz)
  case (Cons f fs)
  show ?case unfolding collect_files.simps Let_def by (intro within_rules Cons.IH)
qed (simp add: within_rules)

lemma encrypts_phases:
  "within (same_rel encrypts)
     (andthen (answer_paired_key_encryption X v) (set_state Outbound SentPairedKeyResult False))"
  "within (same_rel encrypts) (andthen (send_introduction X v) (set_state Outbound SentIntroduction True))"
  unfolding answer_paired_key_encryption_def send_introduction_def case_prod_beta by (intro within_rules; simp)+

text \<open>
  What holds of a sending connection between two events and depends on its state and the announced
  files alone: it survives every event if each phase of the protocol leads from it to it. The answer
  of the receiver, which ends the transfer in the same call, is the one phase with a step of its own.
\<close>

locale sender_phases =
  fixes X :: env and fuel :: nat and I :: "outbound \<Rightarrow> bool"
  assumes views: "kept t = kept r \<Longrightarrow> I r \<Longrightarrow> I t"
    and client_init: "I r \<Longrightarrow> conn r = SentUkeyClientInit \<Longrightarrow> conn t = SentUkeyClientFinish
      \<Longrightarrow> encrypts t \<Longrightarrow> I t"
    and client_finish: "I r \<Longrightarrow> conn r = SentUkeyClientFinish \<Longrightarrow> conn t = SentPairedKeyEncryption
      \<Longrightarrow> encrypts t \<Longrightarrow> I t"
    and paired_key_encryption: "I r \<Longrightarrow> conn r = SentPairedKeyEncryption \<Longrightarrow> conn t = SentPairedKeyResult
      \<Longrightarrow> encrypts t = encrypts r \<Longrightarrow> I t"
    and paired_key_result: "I r \<Longrightarrow> conn r = SentPairedKeyResult \<Longrightarrow> conn t = SentIntroduction
      \<Longrightarrow> encrypts t = encrypts r \<Longrightarrow> I t"
    and answer: "I r \<Longrightarrow> conn r = SentIntroduction \<Longrightarrow> process_consent X fuel v r = (Done (), t) \<Longrightarrow> I t"
begin

lemma still: "within (same_rel kept) m \<Longrightarrow> settles I m"
  unfolding settles_def within_def same_rel_def by (metis snd_conv views)

lemma phase:
  "m r = (Done a, t) \<Longrightarrow> ends_in (seen_in {s}) m \<Longrightarrow> within (same_rel encrypts) m
     \<Longrightarrow> (conn t = s \<Longrightarrow> encrypts t = encrypts r \<Longrightarrow> I t) \<Longrightarrow> I t"
  by (auto simp: ends_in_def seen_in_def same_rel_def dest: withinD)

lemma protocol: "settles I (process_setup X fuel frame)"
proof -
  have "I t" if I: "I s" and run: "(if conn s = SentPairedKeyEncryption
        then andthen (answer_paired_key_encryption X v) (set_state Outbound SentPairedKeyResult False)
      else if conn s = SentPairedKeyResult
        then andthen (send_introduction X v) (set_state Outbound SentIntroduction True)
      else if conn s = SentIntroduction then process_consent X fuel v else ret ()) s = (Done a, t)"
    (is "?body s = _") for s v t and a :: unit
  proof -
    consider (encryption) "conn s = SentPairedKeyEncryption"
      | (result) "conn s \<noteq> SentPairedKeyEncryption" "conn s = SentPairedKeyResult"
      | (introduction) "conn s = SentIntroduction"
      | (none) "conn s \<notin> {SentPairedKeyEncryption, SentPairedKeyResult, SentIntroduction}"
      by blast
    then show ?thesis
    proof cases
      case encryption
      show ?thesis
        using run [unfolded if_P [OF encryption]]
        by (rule phase) (rule ends_andthen, rule ends_set_state, simp, rule encrypts_phases,
            rule paired_key_encryption [OF I encryption])
    next
      case result
      show ?thesis
        using run [unfolded if_not_P [OF result(1)] if_P [OF result(2)]]
        by (rule phase) (rule ends_andthen, rule ends_set_state, simp, rule encrypts_phases,
            rule paired_key_result [OF I result(2)])
    next
      case introduction
      with run answer [OF I introduction] show ?thesis by simp
    next
      case none
      with run I show ?thesis by (simp add: ret_exec)
    qed
  qed
  then show ?thesis
    unfolding process_setup_def
    by (intro settles_bind [OF settles_basic(4)] settles_if settles_ends [OF finish_not_done] settles_state) blast
qed

lemma payload: "settles I (out_bytes_payload X fuel header chunk)"
  unfolding out_bytes_payload_def Let_def
  by (intro settles_if settles_andthen settles_bind settles_basic protocol)
     (rule still, intro within_rules, (simp add: kept_def offered_def conn_def upd_st_def)?)+

lemma secure_frame: "settles I (out_secure_message X fuel m)"
proof -
  have transfer: "settles I (out_payload_transfer X fuel p)" for p
    unfolding out_payload_transfer_def
    by (intro settles_bind settles_basic) (simp add: payload settles_basic split: payload_type.split)
  have "settles I (send_keepalive X True :: unit outb)" "settles I (open_secure_message X m :: offline_frame outb)"
    by (rule still, intro within_rules)+
  then show ?thesis
    unfolding out_secure_message_def out_offline_frame_def
    by (auto intro!: settles_bind settles_basic transfer split: frame_type.split)
qed

lemma frame: "settles I (out_serve_frame X fuel d)"
proof -
  have "I t" if I: "I s" and run: "(if conn s = SentUkeyClientInit then
        bind (ok_or DecodeError (dec_ukey2 X d)) (\<lambda>msg.
          andthen (update_state Outbound (\<lambda>e. e\<lparr>is_server_init_data := Some d\<rparr>) False)
          (andthen (process_ukey2_server_init X msg)
          (update_state Outbound (\<lambda>e. e\<lparr>is_state := SentUkeyClientFinish, is_encryption_done := True\<rparr>) False)))
      else if conn s = SentUkeyClientFinish then
        bind (ok_or DecodeError (dec_offline X d)) (\<lambda>frame.
          andthen (check_connection_response X frame)
          (update_state Outbound (\<lambda>e. e\<lparr>is_state := SentPairedKeyEncryption,
             is_server_init_data := Some d, is_encryption_done := True\<rparr>) False))
      else bind (ok_or DecodeError (dec_secure X d)) (out_secure_message X fuel)) s = (Done a, t)"
    for s t and a :: unit
  proof -
    consider (init) "conn s = SentUkeyClientInit" | (finish) "conn s \<noteq> SentUkeyClientInit" "conn s = SentUkeyClientFinish"
      | (later) "conn s \<noteq> SentUkeyClientInit" "conn s \<noteq> SentUkeyClientFinish"
      by blast
    then show ?thesis
    proof cases
      case init
      show ?thesis
        using run [unfolded if_P [OF init]]
        by (rule ends_inD [rotated]) (rule ends_bind, rule ends_andthen, rule ends_andthen,
            auto simp: ends_in_def update_state_def exec conn_def upd_st_def encrypts_def intro: client_init [OF I init])
    next
      case finish
      show ?thesis
        using run [unfolded if_not_P [OF finish(1)] if_P [OF finish(2)]]
        by (rule ends_inD [rotated]) (rule ends_bind, rule ends_andthen,
            auto simp: ends_in_def update_state_def exec conn_def upd_st_def encrypts_def
              intro: client_finish [OF I finish(2)])
    next
      case later
      have "settles I (bind (ok_or DecodeError (dec_secure X d)) (out_secure_message X fuel))"
        by (intro settles_bind settles_basic secure_frame)
      from settlesD [OF this _ I] run later show ?thesis by simp
    qed
  qed
  then show ?thesis unfolding out_serve_frame_def by (intro settles_state) blast
qed

lemma event: "settles I (out_handle X fuel ev)"
proof -
  have same: "settles I (stream_read_exact n)" "settles I (read_message lb :: bytes outb)"
      "settles I (drop_partial_length k :: unit outb)" for n lb k
    by (rule still, intro within_rules)+
  have action: "settles I (out_handle_action X a)" for a
    unfolding out_handle_action_def
    by (cases a; simp; (cases "the a"; simp)?; intro settles_basic settles_ends finish_not_done)
  have channel: "settles I (case received of
      RecvOk m \<Rightarrow> if cm_direction m = LibToFront then ret ()
        else bind (get (\<lambda>r. is_id (rq_st r))) (\<lambda>i. if cm_id m \<noteq> i then ret ()
          else out_handle_action X (cm_action m))
    | RecvLagged n \<Rightarrow> ret () | RecvClosed \<Rightarrow> ret ())" for received
    by (cases received) (auto intro!: settles_bind settles_basic action)
  show ?thesis
    unfolding out_handle_def out_handle_frame_def
    by (cases ev; simp; intro settles_andthen settles_bind same frame channel)
qed

lemma runs: "for_each evs (out_handle X fuel) r = (Done (), t) \<Longrightarrow> I r \<Longrightarrow> I t"
  by (rule settlesD [OF settles_for_each [OF event]])

end

interpretation not_sending: sender_phases X fuel "seen_in (- {SendingFiles})"
proof unfold_locales
  show "seen_in (- {SendingFiles}) t" if "process_consent X fuel v r = (Done (), t)" for v r and t :: outbound
    using ends_inD [OF consent_ends that] by (simp add: seen_in_def)
qed (simp_all add: seen_in_def kept_def)

text \<open>
  C19. Nobody sees a connection in the state \<open>SendingFiles\<close>: from its first message on, whenever the
  sending side comes back to take an event, it is in another state, because one call of \<open>handle\<close>
  takes the answer and sends every file. So the cancel button, which the window offers in that state
  alone, is never served while there is something left to send.
\<close>

theorem sending_not_interruptible:
  assumes "andthen (send_connection_request X) (andthen (send_ukey2_client_init X)
      (for_each evs (out_handle X fuel))) (new_outbound endpoint_id i files rdi fs socket) = (Done (), t)"
  shows "conn t \<noteq> SendingFiles"
proof -
  have "settles (seen_in (- {SendingFiles})) (send_connection_request X)"
    unfolding send_connection_request_def by (rule settles_conn) (intro within_rules)
  moreover have "settles (seen_in (- {SendingFiles})) (send_ukey2_client_init X :: unit outb)"
    unfolding send_ukey2_client_init_def Let_def case_prod_beta
    by (intro settles_ends ends_bind ends_andthen ends_update) simp
  ultimately have "settles (seen_in (- {SendingFiles})) (andthen (send_connection_request X)
      (andthen (send_ukey2_client_init X) (for_each evs (out_handle X fuel))))"
    by (intro settles_andthen settles_for_each not_sending.event)
  from settlesD [OF this assms] show ?thesis
    by (simp add: seen_in_def conn_def new_outbound_def is_default_def)
qed

section \<open>What the answer of the receiver leaves behind\<close>

text \<open>
  A file that was offered with the entry \<open>e\<close> has been sent: the bytes counted as sent, one chunk
  after another, are the announced size; an entry that was complete from the start is removed.
\<close>

definition sent_out :: "internal_file_info \<Rightarrow> internal_file_info option \<Rightarrow> bool" where
  "sent_out e x = (case x of
     None \<Rightarrow> ifi_bytes_transferred e = ifi_total_size e
   | Some e' \<Rightarrow> ifi_total_size e' = ifi_total_size e \<and> ifi_bytes_transferred e' = ifi_total_size e)"

definition all_sent :: "(i64, internal_file_info) hashmap \<Rightarrow> 'x request_scheme \<Rightarrow> bool" where
  "all_sent m t \<longleftrightarrow> (\<forall>i e. hm_lookup m i = Some e \<longrightarrow> sent_out e (hm_lookup (offered t) i))"

definition all_open :: "(i64, internal_file_info) hashmap \<Rightarrow> bool" where
  "all_open m \<longleftrightarrow> (\<forall>i e. hm_lookup m i = Some e \<longrightarrow> ifi_file e \<noteq> None)"

lemmas encrypt_kept = encrypt_and_send_core [THEN kept_core, THEN keptD(2)]

lemma file_read_counts:
  assumes "file_read X i e h s = (Done d, t)"
  shows "\<exists>h'. offered t = hm_insert i (e\<lparr>ifi_file := Some h'\<rparr>) (offered s)"
  using assms by (auto simp: file_read_def put_handle_def offered_def upd_st_def Let_def split: if_splits)

lemma count_sent_counts:
  assumes "count_sent i n s = (Done (), t)"
  shows "offered t = hm_adjust i (\<lambda>e. e\<lparr>ifi_bytes_transferred := ifi_bytes_transferred e + word_of_nat n\<rparr>) (offered s)"
  using assms by (auto simp: count_sent_def offered_def update_state_def exec upd_st_def Let_def split: if_splits)

lemma send_file_sends:
  assumes "send_file X fuel i header (ifi_total_size e) s = (Done (), t)"
    and "hm_lookup (offered s) i = Some e" and "ifi_file e \<noteq> None"
  shows "sent_out e (hm_lookup (offered t) i) \<and> (\<forall>j. j \<noteq> i \<longrightarrow> hm_lookup (offered t) j = hm_lookup (offered s) j)"
  using assms
proof (induction fuel arbitrary: s e)
  case 0
  then show ?case by (simp add: no_fuel_def)
next
  case (Suc fuel)
  obtain h where h: "ifi_file e = Some h" using Suc.prems(3) by blast
  let ?tot = "ifi_total_size e"
  have e: "hm_lookup (is_transferred_files (rq_st s)) i = Some e" using Suc.prems(2) by (simp add: offered_def)
  show ?case
  proof (cases "ifi_bytes_transferred e = ?tot")
    case True
    with Suc.prems(1) e show ?thesis
      by (auto simp: bind_get update_state_def exec offered_def upd_st_def sent_out_def)
  next
    case False
    obtain d s1 s2 s3 where read: "file_read X i e h s = (Done d, s1)"
      and send: "encrypt_and_send X (data_transfer header \<lparr>pc_flags = Some 0,
          pc_offset = Some (ifi_bytes_transferred e), pc_body = Some d\<rparr>) s1 = (Done (), s2)"
      and count: "count_sent i (length d) s2 = (Done (), s3)"
      and rest: "(if ifi_bytes_transferred e + word_of_nat (length d) = ?tot
          then encrypt_and_send X (data_transfer header
            \<lparr>pc_flags = Some 1, pc_offset = Some ?tot, pc_body = Some []\<rparr>)
          else send_file X fuel i header ?tot) s3 = (Done (), t)"
      using Suc.prems(1) e h False by (auto simp: bind_get bind_eq_Done andthen_eq_Done Let_def)
    obtain h' where "offered s1 = hm_insert i (e\<lparr>ifi_file := Some h'\<rparr>) (offered s)"
      using file_read_counts [OF read] by blast
    moreover have "offered s2 = offered s1" by (rule encrypt_kept [OF send])
    ultimately have o3: "hm_lookup (offered s3) j = (if j = i
        then Some (e\<lparr>ifi_file := Some h', ifi_bytes_transferred := ifi_bytes_transferred e + word_of_nat (length d)\<rparr>)
        else hm_lookup (offered s) j)" for j
      using count_sent_counts [OF count] by simp
    show ?thesis
    proof (cases "ifi_bytes_transferred e + word_of_nat (length d) = ?tot")
      case True
      with rest have "offered t = offered s3" by (auto intro: encrypt_kept)
      with o3 True show ?thesis by (simp add: sent_out_def)
    next
      case more: False
      let ?e = "e\<lparr>ifi_file := Some h', ifi_bytes_transferred := ifi_bytes_transferred e + word_of_nat (length d)\<rparr>"
      have "send_file X fuel i header (ifi_total_size ?e) s3 = (Done (), t)" using rest more by simp
      from Suc.IH [OF this] o3 have "sent_out ?e (hm_lookup (offered t) i)
          \<and> (\<forall>j. j \<noteq> i \<longrightarrow> hm_lookup (offered t) j = hm_lookup (offered s) j)"
        by simp
      with more show ?thesis by (auto simp: sent_out_def split: option.splits)
    qed
  qed
qed

lemma send_files_send:
  assumes "send_files X fuel ids s = (Done (), t)" and "distinct ids"
    and "\<forall>i \<in> set ids. \<forall>e. hm_lookup (offered s) i = Some e \<longrightarrow> ifi_file e \<noteq> None"
  shows "(\<forall>i \<in> set ids. \<forall>e. hm_lookup (offered s) i = Some e \<longrightarrow> sent_out e (hm_lookup (offered t) i))
    \<and> (\<forall>j. j \<notin> set ids \<longrightarrow> hm_lookup (offered t) j = hm_lookup (offered s) j)"
  using assms
proof (induction ids arbitrary: s)
  case Nil
  then obtain u where "set_state Outbound Finished True s = (Done (), u)" "disconnection X u = (Done (), t)"
    by (auto simp: andthen_eq_Done)
  then have "offered t = offered s"
    using keptD(2) [OF senders_core(3) [THEN kept_core], of X u "Done ()" t]
    by (auto simp: set_state_def update_state_def exec offered_def upd_st_def)
  then show ?case by simp
next
  case (Cons i ids)
  show ?case
  proof (cases "hm_lookup (offered s) i")
    case None
    then have "send_files X fuel ids s = (Done (), t)" using Cons.prems(1) by (simp add: bind_get offered_def)
    with Cons.IH [OF this] Cons.prems(2,3) None show ?thesis by auto
  next
    case (Some e)
    obtain u where u: "send_file X fuel i (file_header i e) (ifi_total_size e) s = (Done (), u)"
        "send_files X fuel ids u = (Done (), t)"
      using Cons.prems(1) Some by (auto simp: bind_get andthen_eq_Done offered_def)
    have sent: "sent_out e (hm_lookup (offered u) i)"
        "\<forall>j. j \<noteq> i \<longrightarrow> hm_lookup (offered u) j = hm_lookup (offered s) j"
      using send_file_sends [OF u(1) Some] Cons.prems(3) Some by auto
    have i: "i \<notin> set ids" "distinct ids" using Cons.prems(2) by simp_all
    then have same: "hm_lookup (offered u) j = hm_lookup (offered s) j" if "j \<in> set ids" for j
      using sent(2) that by auto
    then have "\<forall>j \<in> set ids. \<forall>e. hm_lookup (offered u) j = Some e \<longrightarrow> ifi_file e \<noteq> None"
      using Cons.prems(3) by simp
    note rest = Cons.IH [OF u(2) i(2) this]
    with i(1) have "hm_lookup (offered t) i = hm_lookup (offered u) i" by blast
    with rest sent same Some show ?thesis by simp
  qed
qed

lemma consent_sends:
  assumes "process_consent X fuel v s = (Done (), t)" and "key_order_ok X" and "outgoing_files (offered s)"
  shows "conn t = Finished \<and> all_sent (offered s) t"
proof
  show "conn t = Finished" using ends_inD [OF consent_ends assms(1)] by (simp add: seen_in_def)
  let ?ids = "os_key_order X (hm_keys (offered s))"
  define u where "u = snd (update_state Outbound (\<lambda>e. e\<lparr>is_state := SendingFiles,
    is_transfer_start := Some (os_now X (rq_draws s))\<rparr>) True (s\<lparr>rq_draws := Suc (rq_draws s)\<rparr>))"
  have u: "offered u = offered s" by (simp add: u_def offered_def update_state_def exec upd_st_def)
  have "send_files X fuel ?ids u = (Done (), t)"
    using assms(1) u
    by (auto simp: process_consent_def finish_not_done fail_exec u_def eq_Done finish_def draw_def
        update_state_def modify_exec andthen_modify bind_get offered_def split: if_splits option.splits)
  moreover have wf: "hm_wf (offered s)" and files: "\<forall>i e. hm_lookup (offered s) i = Some e \<longrightarrow> ifi_file e \<noteq> None"
    using assms(3) by (auto simp: outgoing_files_def outgoing_entry_def)
  moreover have "distinct ?ids" "set ?ids = set (hm_keys (offered s))"
    using assms(2) hm.distinct_keys [OF wf] mset_eq_setD mset_eq_imp_distinct_iff
    unfolding key_order_ok_def by metis+
  ultimately have "\<forall>i \<in> set (hm_keys (offered s)). \<forall>e. hm_lookup (offered s) i = Some e
      \<longrightarrow> sent_out e (hm_lookup (offered t) i)"
    using send_files_send [of X fuel ?ids u t] u by simp
  then show "all_sent (offered s) t"
    by (auto simp: all_sent_def hm.set_keys)
qed

text \<open>From the server's message on, the keys are in use.\<close>

interpretation encrypting: sender_phases X fuel "\<lambda>r. conn r = SentUkeyClientInit \<or> encrypts r"
proof unfold_locales
  show "conn t = SentUkeyClientInit \<or> encrypts t"
    if "conn r = SentUkeyClientInit \<or> encrypts r" and "conn r = SentIntroduction"
      and "process_consent X fuel v r = (Done (), t)" for v and r t :: outbound
    using withinD [OF encrypts_consent that(3)] that(1,2) by (simp add: same_rel_def)
qed (auto simp: kept_def encrypts_def)

text \<open>
  What every sender that waits for the answer brings along, on whatever run it got there from its
  first message: keys in use, and a table whose entries are open files under their own ids.
\<close>

definition introduced_files :: "outbound \<Rightarrow> bool" where
  "introduced_files r \<longleftrightarrow> conn r = SentIntroduction \<and> encrypts r \<and> sender_keys r \<and> entries outgoing_entry r"

lemma runs_introduce:
  assumes "connecting X (fresh_client endpoint_id i files rdi fs) = (Done (), c)"
    and "for_each evs (out_handle X fuel) (c\<lparr>rq_in := socket\<rparr>) = (Done (), r)" and "conn r = SentIntroduction"
  shows "introduced_files r"
proof -
  let ?c = "fresh_client endpoint_id i files rdi fs"
  have "conn c = SentUkeyClientInit"
    using assms(1)
    by (auto simp: connecting_def send_ukey2_client_init_def Let_def case_prod_beta eq_Done update_state_def modify_exec
        ret_exec conn_def upd_st_def)
  then have "encrypts r"
    using encrypting.runs [OF assms(2)] assms(3) by (simp add: conn_def)
  moreover have "sender_keys r"
    using sender_keys_runs [OF assms(2)] connecting_keys [OF assms(1)] by simp
  moreover have "entries outgoing_entry r"
  proof -
    have "within outgoing (connecting X)" unfolding connecting_def by (intro within_rules)
    moreover have "entries P ?c" for P
      by (simp add: entries_def fresh_client_def new_outbound_def is_default_def hm.lookup_empty hm.wf_empty)
    ultimately have "entries outgoing_entry c"
      using withinD [of outgoing "connecting X" ?c] assms(1) by (auto simp: keeps_rel_def)
    then have "entries outgoing_entry (c\<lparr>rq_in := socket\<rparr>)" by (simp add: entries_def)
    moreover have "within outgoing (for_each evs (out_handle X fuel))" by (intro within_rules outgoing_event)
    ultimately show ?thesis using withinD assms(2) by (fastforce simp: keeps_rel_def)
  qed
  ultimately show ?thesis using assms(3) by (simp add: introduced_files_def)
qed

text \<open>Once the answer was taken in, everything that was offered has been sent.\<close>

lemma sends_all:
  assumes "key_order_ok X" and "outgoing_files m"
  shows "sender_phases X fuel (\<lambda>t. conn t = SentIntroduction \<and> offered t = m \<or> conn t = Finished \<and> all_sent m t)"
proof unfold_locales
  show "conn t = SentIntroduction \<and> offered t = m \<or> conn t = Finished \<and> all_sent m t"
    if "conn r = SentIntroduction \<and> offered r = m \<or> conn r = Finished \<and> all_sent m r"
      and "conn r = SentIntroduction" and "process_consent X fuel v r = (Done (), t)" for v and r t :: outbound
    using consent_sends [OF that(3) assms(1)] that(1,2) assms(2) by auto
qed (auto simp: kept_def all_sent_def)

section \<open>A cancel that is too late\<close>

lemma disconnection_sends:
  assumes "aes_length_ok X" "no_faults X" and "rq_encrypt_key_aes t = Some key" "rq_send_hmac t = Some h"
    and "is_encryption_done (rq_st t)"
  shows "\<exists>u. disconnection X t = (Done (), u) \<and> core u = core t
    \<and> rq_out u = rq_out t @ framed (seal X key (hc_key h) (os_rand X (rq_draws t) 16)
        (is_server_seq (rq_st t) + 1) goodbye_frame)"
proof -
  have "disconnection X t = encrypt_and_send X goodbye_frame t"
    by (simp add: disconnection_def send_by_encryption_def bind_get goodbye_frame_def assms(5))
  moreover have "\<exists>u. encrypt_and_send X goodbye_frame t = (Done (), u) \<and> rq_out u = rq_out t
      @ framed (seal X key (hc_key h) (os_rand X (rq_draws t) 16) (is_server_seq (rq_st t) + 1) goodbye_frame)"
    by (simp add: seals [OF assms(1,3,4)] Let_def andthen_def bind_def send_frame_no_faults [OF assms(2)]
        modify_exec sealing_def)
  ultimately have "\<exists>u. disconnection X t = (Done (), u) \<and> rq_out u = rq_out t
      @ framed (seal X key (hc_key h) (os_rand X (rq_draws t) 16) (is_server_seq (rq_st t) + 1) goodbye_frame)"
    by simp
  then obtain u where u: "disconnection X t = (Done (), u)" "rq_out u = rq_out t @ framed (seal X key (hc_key h)
      (os_rand X (rq_draws t) 16) (is_server_seq (rq_st t) + 1) goodbye_frame)"
    by blast
  with withinD [OF senders_core(3) u(1)] show ?thesis by (auto simp: same_rel_def)
qed

text \<open>
  C9. A cancel is served when everything was sent: once the answer of the receiver was taken in, the
  sender is in the state \<open>Finished\<close> and of every file it offered all announced bytes are
  sent. A cancel that the user sent meanwhile is taken up only then: it changes no file and takes
  nothing back, all that goes out is one goodbye, which the receiver ignores, and yet the last
  message to the front end says that the transfer was cancelled.
\<close>

theorem cancel_comes_too_late:
  assumes "introduced_files r" and "for_each evs (out_handle X fuel) r = (Done (), t)"
    and "conn t \<noteq> SentIntroduction"
    and "key_order_ok X" "no_faults X" "aes_length_ok X"
    and "cm_direction m = FrontToLib" "cm_id m = is_id (rq_st t)" "cm_action m = Some CancelTransfer"
  shows "conn t = Finished \<and> all_sent (is_transferred_files (rq_st r)) t
    \<and> (\<exists>key h u. rq_encrypt_key_aes t = Some key \<and> rq_send_hmac t = Some h
      \<and> out_handle X fuel (OnChannel k (RecvOk m)) t = (Fail NotAnError, u)
      \<and> conn u = Cancelled \<and> rq_fs u = rq_fs t
      \<and> is_transferred_files (rq_st u) = is_transferred_files (rq_st t)
      \<and> rq_chan u = rq_chan t @ [state_message Outbound ((rq_st t)\<lparr>is_state := Cancelled\<rparr>)]
      \<and> rq_out u = rq_out t @ framed (seal X key (hc_key h) (os_rand X (rq_draws t) 16)
          (is_server_seq (rq_st t) + 1) goodbye_frame)
      \<and> (\<forall>q. process_offline_frame X goodbye_frame q = (Done (), q)))"
proof -
  have r: "conn r = SentIntroduction" "encrypts r" "sender_keys r" "outgoing_files (offered r)"
    using assms(1) by (simp_all add: introduced_files_def entries_outgoing offered_def)
  have t: "conn t = Finished" "all_sent (offered r) t"
    using sender_phases.runs [OF sends_all [OF assms(4) r(4)] assms(2)] r(1) assms(3) by simp_all
  have "sender_keys t" by (rule sender_keys_runs [OF assms(2) r(3)])
  then obtain key h where k: "rq_encrypt_key_aes t = Some key" "rq_send_hmac t = Some h"
    using t(1) by (auto simp: sender_keys_def keyed_def)
  have e: "is_encryption_done (rq_st t)"
    using encrypting.runs [OF assms(2)] r(2) t(1) by (simp add: encrypts_def)
  let ?t = "t\<lparr>rq_in := drop (min k 3) (rq_in t)\<rparr>"
  let ?u = "snd (update_state Outbound (\<lambda>e. e\<lparr>is_state := Cancelled\<rparr>) True ?t)"
  have u: "set_state Outbound Cancelled True ?t = (Done (), ?u)"
    by (simp add: set_state_def update_state_def exec)
  have v: "rq_encrypt_key_aes ?u = Some key" "rq_send_hmac ?u = Some h" "is_encryption_done (rq_st ?u)"
      "rq_out ?u = rq_out t" "rq_draws ?u = rq_draws t" "is_server_seq (rq_st ?u) = is_server_seq (rq_st t)"
      "rq_fs ?u = rq_fs t" "conn ?u = Cancelled" "is_transferred_files (rq_st ?u) = is_transferred_files (rq_st t)"
      "rq_chan ?u = rq_chan t @ [state_message Outbound ((rq_st t)\<lparr>is_state := Cancelled\<rparr>)]"
    using k e by (simp_all add: update_state_def exec upd_st_def conn_def)
  obtain w where w: "disconnection X ?u = (Done (), w)" "core w = core ?u" "rq_out w = rq_out t
      @ framed (seal X key (hc_key h) (os_rand X (rq_draws t) 16) (is_server_seq (rq_st t) + 1) goodbye_frame)"
    using disconnection_sends [OF assms(6,5) v(1-3)] v(4-6) by auto
  have "out_handle X fuel (OnChannel k (RecvOk m)) t = (Fail NotAnError, w)"
    using u w(1) assms(7-9)
    by (simp add: out_handle_def drop_partial_length_def out_handle_action_def finish_def exec andthen_Done)
  then show ?thesis
    using t k w(3) core_conn [OF w(2)] coreD(2,3) [OF w(2)] coreD_st(7) [OF w(2)] v(7-10)
      goodbye_served [of X, folded goodbye_frame_def]
    by (simp add: offered_def)
qed

end
