(* ===== verification/Startup.thy ===== *)
theory Startup
  imports Rendering
begin

text \<open>
  \<open>main\<close> of \<open>main.rs\<close> and the two listeners of \<open>state.rs\<close>: the window as the program opens it, and
  what holds of it from then on, whatever the user, the dialogs and the library do.
\<close>

section \<open>The program\<close>

text \<open>
  \<open>main\<close>: the settings are read, the service is created and started, the window opens with the
  senders of the service. A visibility that no number stands for and a service that does not start
  panic. The host name comes from the platform, \<open>startup\<close> is how the calls of \<open>run\<close> answer.
\<close>

definition app_main :: "settings_env \<Rightarrow> text_files \<Rightarrow> string \<Rightarrow> startup \<Rightarrow> window outcome" where
  "app_main E config hostname u =
     (let st = load E config in
      case settings_visibility st of
        Done visibility \<Rightarrow>
          (let rqs = new_rqs visibility (st_port st) (st_download_path st) in
           case run u rqs of
             (Done _, rqs) \<Rightarrow>
               Done \<lparr>wi_app = (new_app_state st hostname config)\<lparr>as_sender_file := True,
                   as_message_sender := True, as_rqs := Some rqs\<rparr>,
                 wi_file_dialogs = 0, wi_folder_dialogs = 0\<rparr>
           | _ \<Rightarrow> Panic ''Failed to start RQS core'')
      | Fail e \<Rightarrow> Fail e
      | Panic p \<Rightarrow> Panic p
      | NoFuel \<Rightarrow> NoFuel)"

text \<open>
  The task that hands the messages of a broadcast channel to the window: it skips what it missed,
  and it ends when the channel is closed.
\<close>

datatype 'm received = Got 'm | Lagged nat | ChannelClosed

fun broadcast_listener :: "('m \<Rightarrow> 's \<Rightarrow> 's) \<Rightarrow> 'm received list \<Rightarrow> 's \<Rightarrow> loop_step \<times> 's" where
  "broadcast_listener handler [] s = (Continues, s)"
| "broadcast_listener handler (Got msg # evs) s = broadcast_listener handler evs (handler msg s)"
| "broadcast_listener handler (Lagged n # evs) s = broadcast_listener handler evs s"
| "broadcast_listener handler (ChannelClosed # evs) s = (Breaks, s)"

definition channel_listener ::
  "(nat \<times> nat \<times> channel_message) received list \<Rightarrow> app_state \<Rightarrow> loop_step \<times> app_state" where
  "channel_listener = broadcast_listener (\<lambda>(now, later, msg). handle_channel_message now later msg)"

definition discovery_listener :: "endpoint_info received list \<Rightarrow> app_state \<Rightarrow> loop_step \<times> app_state" where
  "discovery_listener = broadcast_listener handle_endpoint_info"

text \<open>What the listeners do is among the steps of the window.\<close>

lemma listener_steps:
  assumes "\<And>m v. window_step E v (on_app (handler m) v)"
  shows "(window_step E)\<^sup>*\<^sup>* w (on_app (\<lambda>s. snd (broadcast_listener handler evs s)) w)"
proof (induction evs arbitrary: w)
  case Nil
  show ?case by (simp add: on_app_def)
next
  case (Cons ev evs)
  show ?case
  proof (cases ev)
    case (Got m)
    have "on_app (\<lambda>s. snd (broadcast_listener handler (ev # evs) s)) w
        = on_app (\<lambda>s. snd (broadcast_listener handler evs s)) (on_app (handler m) w)"
      by (simp add: Got on_app_def)
    then show ?thesis
      using converse_rtranclp_into_rtranclp [OF assms [of w m] Cons.IH [of "on_app (handler m) w"]] by simp
  qed (use Cons.IH in \<open>simp_all add: on_app_def\<close>)
qed

section \<open>The service behind the window\<close>

text \<open>
  The two servers were started, on a tracker that is closed, and were not told to end; this a second
  discovery does not change.
\<close>

definition in_service :: "rqs \<Rightarrow> bool" where
  "in_service r \<longleftrightarrow> numbered r \<and> running r \<and> rqs_tracker r \<noteq> None"

lemma serving_run:
  assumes "run u (new_rqs v port path) = (Done x, r)"
  shows "in_service r \<and> wt_value (rqs_visibility r) = v \<and> rqs_custom_download r = path"
proof -
  have "x = ()" by simp
  with assms have run: "run u (new_rqs v port path) = (Done (), r)" by simp
  obtain addr xs where "r = (new_rqs v port path)\<lparr>rqs_tracker := Some (rqs_fresh (new_rqs v port path)),
       rqs_ctoken := Some (rqs_fresh (new_rqs v port path) + 1),
       rqs_bound_addr := Some addr, rqs_mdns_daemon := True, rqs_tasks := rqs_tasks (new_rqs v port path) @ xs,
       rqs_closed := rqs_fresh (new_rqs v port path) # rqs_closed (new_rqs v port path),
       rqs_fresh := rqs_fresh (new_rqs v port path) + 2\<rparr>"
    by (rule run_Done [OF run])
  then have "rqs_tracker r \<noteq> None \<and> wt_value (rqs_visibility r) = v \<and> rqs_custom_download r = path"
    by (simp add: new_rqs_def watch_send_def)
  moreover have "in_order r"
    using in_order_run [OF in_order_new _ run] by (simp add: new_rqs_def)
  ultimately show ?thesis by (simp add: in_service_def in_order_def)
qed

lemma serving_discovery:
  "in_service r \<Longrightarrow> in_service (snd (discovery ok r))
    \<and> rqs_visibility (snd (discovery ok r)) = rqs_visibility r
    \<and> rqs_custom_download (snd (discovery ok r)) = rqs_custom_download r"
proof -
  assume r: "in_service r"
  then obtain t where "rqs_tracker r = Some t" by (auto simp: in_service_def)
  then have "snd (discovery ok r) = r\<lparr>rqs_discovery_ctk := Some (rqs_fresh r), rqs_fresh := rqs_fresh r + 1,
      rqs_tasks := rqs_tasks r @ (if ok then [\<lparr>sp_kind = DiscoveryTask, sp_tracker = t, sp_token = rqs_fresh r\<rparr>] else [])\<rparr>"
    by (cases ok) (auto simp: discovery_def fresh_number_def spawn_def exec)
  with r \<open>rqs_tracker r = Some t\<close> show "in_service (snd (discovery ok r))
    \<and> rqs_visibility (snd (discovery ok r)) = rqs_visibility r
    \<and> rqs_custom_download (snd (discovery ok r)) = rqs_custom_download r"
    by (auto simp: in_service_def numbered_def running_def ran_def less_Suc_eq)
qed

lemma serving_stop_discovery: "in_service r \<Longrightarrow> in_service (stop_discovery r)"
  by (auto simp: in_service_def stop_discovery_def cancel_token_def numbered_def running_def ran_def split: option.split)

lemma serving_same:
  "in_service (change_visibility v r) = in_service r" "in_service (set_download_path p r) = in_service r"
  by (cases "rqs_tracker r"; simp add: in_service_def numbered_def running_def ran_def change_visibility_def set_download_path_def)+

lemma serving_happens: "in_service r \<Longrightarrow> in_service (happens h r)"
proof -
  assume r: "in_service r"
  have "\<lparr>sp_kind = k, sp_tracker = t, sp_token = c\<rparr> \<in> ran (happens h r)"
    if "c \<notin> set (rqs_cancelled r)" "\<lparr>sp_kind = k, sp_tracker = t, sp_token = c\<rparr> \<in> ran r" for k t c
    using that by (subst happens_ran) (simp_all add: told_to_end_def)
  with r show "in_service (happens h r)"
    by (auto simp: in_service_def numbered_def running_def)
qed

lemma happens_visibility: "wt_value (rqs_visibility (happens h r)) \<in> {wt_value (rqs_visibility r), Invisible}"
  by (cases h) (simp_all add: change_visibility_def watch_send_def)

lemma service_settings [simp]:
  "rqs_visibility (stop_discovery r) = rqs_visibility r" "rqs_custom_download (stop_discovery r) = rqs_custom_download r"
  by (simp_all add: stop_discovery_def cancel_token_def split: option.split)

section \<open>The window from its start on\<close>

text \<open>
  What can happen to the program: a step of the window, or something around the service: one of its
  tasks ends, a connection comes in or ends, a temporary visibility ends. When the mDNS server does
  that is in \<open>MdnsServer\<close>; here it may come at any time.
\<close>

definition service_event :: "happening \<Rightarrow> app_state \<Rightarrow> app_state" where
  "service_event h s = s\<lparr>as_rqs := map_option (happens h) (as_rqs s)\<rparr>"

inductive program_step :: "settings_env \<Rightarrow> window \<Rightarrow> window \<Rightarrow> bool" for E where
  window: "window_step E w w' \<Longrightarrow> program_step E w w'"
| service: "program_step E w (on_app (service_event h) w)"

inductive_cases program_stepE: "program_step E w w'"

text \<open>
  What the program keeps: the service is started, and it has the directory and at most the visibility that
  the window shows.
\<close>

definition follows_choice :: "settings \<Rightarrow> rqs \<Rightarrow> bool" where
  "follows_choice st r \<longleftrightarrow> rqs_custom_download r = st_download_path st
     \<and> (\<exists>v. settings_visibility st = Done v \<and> wt_value (rqs_visibility r) \<in> {v, Invisible})"

definition in_step :: "app_state \<Rightarrow> bool" where
  "in_step s \<longleftrightarrow> as_sender_file s \<and> as_message_sender s \<and>
     (\<exists>r. as_rqs s = Some r \<and> in_service r \<and> follows_choice (as_settings s) r)"

lemma shown_visibility:
  "settings_visibility (st\<lparr>st_visibility := visibility_num v\<rparr>) = Done v"
  "settings_visibility (st\<lparr>st_download_path := p\<rparr>) = settings_visibility st"
  "settings_visibility (st\<lparr>st_autostart := b\<rparr>) = settings_visibility st"
  "settings_visibility (st\<lparr>st_realclose := b\<rparr>) = settings_visibility st"
  "settings_visibility (st\<lparr>st_startminimized := b\<rparr>) = settings_visibility st"
  by (cases v; simp add: settings_visibility_alt visibility_num_def) (simp_all add: settings_visibility_alt)

lemma follows_same:
  "follows_choice st (stop_discovery r) = follows_choice st r"
  "follows_choice (st\<lparr>st_autostart := b\<rparr>) r = follows_choice st r"
  "follows_choice (st\<lparr>st_realclose := b\<rparr>) r = follows_choice st r"
  "follows_choice (st\<lparr>st_startminimized := b\<rparr>) r = follows_choice st r"
  "follows_choice (st\<lparr>st_visibility := visibility_num v\<rparr>) (change_visibility v r)
     = (rqs_custom_download r = st_download_path st)"
  "follows_choice (st\<lparr>st_download_path := p\<rparr>) (set_download_path p r)
     = (\<exists>v. settings_visibility st = Done v \<and> wt_value (rqs_visibility r) \<in> {v, Invisible})"
  by (simp_all add: follows_choice_def shown_visibility change_visibility_def set_download_path_def watch_send_def)

lemma in_step_frame:
  "in_step (handle_channel_message now later msg s) = in_step s" "in_step (handle_endpoint_info info s) = in_step s"
  "in_step (send_action i a s) = in_step s" "in_step (clear_transfer i s) = in_step s"
  by (simp_all add: in_step_def handle_channel_message_def show_transfers_def show_notification_def
      handle_endpoint_info_def send_action_def clear_transfer_def Let_def)

lemma in_step_stop: "in_step s \<Longrightarrow> in_step (app_stop_discovery (s\<lparr>as_files_to_send := fs\<rparr>))"
  by (auto simp: in_step_def app_stop_discovery_def serving_stop_discovery follows_same)

lemma in_step_sending: "in_step s \<Longrightarrow> in_step (send_to_device d s)" "in_step s \<Longrightarrow> in_step (cancel_send s)"
proof -
  have same: "in_step (s\<lparr>as_send_infos := xs, as_files_to_send := fs\<rparr>) = in_step (s\<lparr>as_files_to_send := fs\<rparr>)"
    "in_step (s\<lparr>as_content_mode := m\<rparr>) = in_step s" for s xs fs m
    by (simp_all add: in_step_def)
  show "in_step s \<Longrightarrow> in_step (cancel_send s)"
    by (simp add: cancel_send_def Let_def same in_step_stop)
  assume "in_step s"
  then have "in_step (s\<lparr>as_send_infos := xs\<rparr>)" for xs by (simp add: in_step_def)
  then show "in_step (send_to_device d s)"
    using \<open>in_step s\<close> by (simp add: send_to_device_def Let_def same in_step_stop)
qed

lemma in_step_selected: "in_step s \<Longrightarrow> in_step (select_files ok fs s)"
  by (auto simp: in_step_def select_files_def start_discovery_def Let_def serving_discovery follows_choice_def)

lemma in_step_settings:
  "in_step s \<Longrightarrow> in_step (app_change_visibility E v s)" "in_step s \<Longrightarrow> in_step (app_set_download_path E p s)"
  by (auto simp: in_step_def app_change_visibility_def app_set_download_path_def save_settings_def serving_same
      follows_same) (auto simp: follows_choice_def)

lemma in_step_flags:
  "in_step (s\<lparr>as_show_settings := b\<rparr>) = in_step s"
  "in_step (save_settings E ((as_settings s)\<lparr>st_autostart := b\<rparr>) s) = in_step s"
  "in_step (save_settings E ((as_settings s)\<lparr>st_realclose := b\<rparr>) s) = in_step s"
  "in_step (save_settings E ((as_settings s)\<lparr>st_startminimized := b\<rparr>) s) = in_step s"
  by (simp_all add: in_step_def save_settings_def follows_same)

lemma in_step_press: "in_step (wi_app w) \<Longrightarrow> in_step (wi_app (press E c w))"
  by (cases c) (simp_all add: press_def on_app_def in_step_frame in_step_sending in_step_settings in_step_flags)

lemma in_step_window: "window_step E w w' \<Longrightarrow> in_step (wi_app w) \<Longrightarrow> in_step (wi_app w')"
  by (erule window_stepE; (erule user_stepE)?)
     (auto simp: in_step_press in_step_frame on_app_def files_picked_def folder_picked_def Let_def
        in_step_selected in_step_settings split: option.split)

lemma in_step_service: "in_step s \<Longrightarrow> in_step (service_event h s)"
proof -
  have "follows_choice st (happens h r)" if "follows_choice st r" for st r
    using that happens_visibility [of h r] by (auto simp: follows_choice_def)
  then show "in_step s \<Longrightarrow> in_step (service_event h s)"
    by (auto simp: in_step_def service_event_def serving_happens)
qed

lemma in_step_program: "program_step E w w' \<Longrightarrow> in_step (wi_app w) \<Longrightarrow> in_step (wi_app w')"
  by (erule program_stepE) (simp_all add: in_step_window in_step_service on_app_def)

lemma in_step_main:
  assumes "app_main E config hostname u = Done w"
  shows "in_step (wi_app w) \<and> as_settings (wi_app w) = load E config \<and> as_config (wi_app w) = config
    \<and> map_option (\<lambda>r. Done (wt_value (rqs_visibility r))) (as_rqs (wi_app w)) = Some (settings_visibility (load E config))"
proof -
  let ?st = "load E config"
  obtain v where v: "settings_visibility ?st = Done v"
    using assms by (auto simp: app_main_def Let_def split: outcome.splits)
  let ?r = "new_rqs v (st_port ?st) (st_download_path ?st)"
  obtain x r where r: "run u ?r = (Done x, r)"
    using assms v by (auto simp: app_main_def Let_def split: outcome.splits prod.splits)
  show ?thesis
    using assms v serving_run [OF r]
    by (auto simp: app_main_def r Let_def in_step_def new_app_state_def follows_choice_def)
qed

lemma in_step_reached:
  assumes "app_main E config hostname u = Done w0" and "(program_step E)\<^sup>*\<^sup>* w0 w"
  shows "in_step (wi_app w)"
  using assms(2) by (induction rule: rtranclp_induct) (simp_all add: in_step_main [OF assms(1)] in_step_program)

text \<open>The window shows nothing of the cells the two sides share.\<close>

lemma window_of_cells: "render_root (s\<lparr>as_rqs := x\<rparr>) = render_root s"
proof -
  have "render_header (s\<lparr>as_rqs := x\<rparr>) = render_header s" by (simp add: render_header_def)
  moreover have "render_sidebar (s\<lparr>as_rqs := x\<rparr>) = render_sidebar s"
    by (cases "settings_visibility (as_settings s)") (simp_all add: render_sidebar_def Let_def)
  moreover have "render_content (s\<lparr>as_rqs := x\<rparr>) = render_content s" by (simp add: render_content_def)
  moreover have "render_settings_overlay (s\<lparr>as_rqs := x\<rparr>) = render_settings_overlay s"
    by (simp add: render_settings_overlay_def)
  ultimately show ?thesis by (cases "render_sidebar s") (simp_all add: render_root_def)
qed

text \<open>
  C11. From the start of the program on, whatever the user, the dialogs and the library do, whichever
  tasks of the service fail and whenever a temporary visibility ends: the window can be drawn; the
  TCP and mDNS servers of the service behind it were started and are never told to end, so each of
  them runs or has ended by a failure of its own; the service stores files where the window says;
  and it is never more visible than the window shows: it has the visibility that is shown, or none.
\<close>

theorem started_window:
  assumes "app_main E config hostname u = Done w0" and "(program_step E)\<^sup>*\<^sup>* w0 w"
  shows "(\<exists>e. render_root (wi_app w) = Done e)
    \<and> (\<exists>r t c v. as_rqs (wi_app w) = Some r \<and> rqs_tracker r = Some t \<and> rqs_ctoken r = Some c
      \<and> c \<notin> set (rqs_cancelled r)
      \<and> (\<forall>kind \<in> {TcpServerTask, MdnsServerTask}.
          \<lparr>sp_kind = kind, sp_tracker = t, sp_token = c\<rparr> \<in> set (rqs_tasks r) \<union> set (rqs_quit r))
      \<and> rqs_custom_download r = st_download_path (as_settings (wi_app w))
      \<and> settings_visibility (as_settings (wi_app w)) = Done v
      \<and> wt_value (rqs_visibility r) \<in> {v, Invisible})"
proof -
  obtain r v where r: "as_rqs (wi_app w) = Some r" "in_service r"
      "rqs_custom_download r = st_download_path (as_settings (wi_app w))"
      "settings_visibility (as_settings (wi_app w)) = Done v" "wt_value (rqs_visibility r) \<in> {v, Invisible}"
    using in_step_reached [OF assms] unfolding in_step_def follows_choice_def by blast
  obtain t c where "rqs_tracker r = Some t" "rqs_ctoken r = Some c" "c \<notin> set (rqs_cancelled r)"
      "\<forall>kind \<in> {TcpServerTask, MdnsServerTask}.
        \<lparr>sp_kind = kind, sp_tracker = t, sp_token = c\<rparr> \<in> set (rqs_tasks r) \<union> set (rqs_quit r)"
    using r(2) by (auto simp: in_service_def running_def ran_def)
  moreover have "\<exists>e. render_root (wi_app w) = Done e"
    using r(4) by (simp add: render_root_def render_sidebar_def Let_def)
  ultimately show ?thesis using r(1,3-5) by blast
qed

section \<open>Looking for devices\<close>


section \<open>The next start\<close>

text \<open>The settings can be written: the directory of the platform, the printer and the disk allow it.\<close>

definition can_save :: "settings_env \<Rightarrow> settings \<Rightarrow> bool" where
  "can_save E st \<longleftrightarrow> fst (save E st (\<lambda>_. None)) = Done ()"

lemma load_saved:
  assumes "json_ok E" and "can_save E st"
  shows "load E (snd (save E st fs)) = st"
  using assms
  by (cases "config_path E")
    (auto simp: can_save_def save_def load_def json_ok_def split: if_splits option.splits)

text \<open>The file has the settings that are shown, or these cannot be written.\<close>

definition kept :: "settings_env \<Rightarrow> app_state \<Rightarrow> bool" where
  "kept E s \<longleftrightarrow> (can_save E (as_settings s) \<longrightarrow> load E (as_config s) = as_settings s)"

lemma kept_same:
  "as_settings t = as_settings s \<Longrightarrow> as_config t = as_config s \<Longrightarrow> kept E t = kept E s"
  by (simp add: kept_def)

lemma kept_window:
  assumes "json_ok E" and "window_step E w w'" and "kept E (wi_app w)"
  shows "kept E (wi_app w')"
proof -
  have saved: "kept E (save_settings E st s)" for st s
    using load_saved [OF assms(1)] by (simp add: kept_def save_settings_def)
  have other: "kept E (send_action i a s) = kept E s" "kept E (clear_transfer i s) = kept E s"
    "kept E (send_to_device d s) = kept E s" "kept E (cancel_send s) = kept E s"
    "kept E (s\<lparr>as_show_settings := b\<rparr>) = kept E s" for i a s d b
    by (rule kept_same; simp add: app_defs Let_def)+
  have press: "kept E (wi_app (press E c w))" for c
    using assms(3)
    by (cases c) (simp_all add: press_def on_app_def saved other app_change_visibility_def)
  have select: "kept E (select_files ok fs s) = kept E s" for ok fs s
    by (rule kept_same; simp add: select_files_def start_discovery_def Let_def split: option.split)
  have message: "kept E (handle_channel_message now later msg s) = kept E s"
    "kept E (handle_endpoint_info info s) = kept E s" for now later msg info s
    by (rule kept_same; simp add: handle_channel_message_def show_transfers_def show_notification_def
        handle_endpoint_info_def Let_def)+
  show ?thesis
    using assms(2,3)
    by (elim window_stepE; (elim user_stepE)?)
       (auto simp: press select message on_app_def files_picked_def folder_picked_def
          app_set_download_path_def saved Let_def split: option.split)
qed

lemma kept_reached:
  assumes "json_ok E" and "app_main E config hostname u = Done w0" and "(program_step E)\<^sup>*\<^sup>* w0 w"
  shows "kept E (wi_app w)"
  using assms(3)
proof (induction rule: rtranclp_induct)
  case base
  show ?case using in_step_main [OF assms(2)] by (simp add: kept_def)
next
  case (step v w)
  from step.hyps(2) show ?case
    by (rule program_stepE)
       (use step.IH kept_window [OF assms(1)] in \<open>auto simp: on_app_def service_event_def kept_def\<close>)
qed

text \<open>
  C12. The choices of the user survive: if the settings that the window shows can be written (the
  directory they are in exists or can be made, serde\_json prints them, which it does unless the
  download directory is not UTF-8, and the disk takes them), the next start of the program, from
  the files as they are then, has these very settings, and tells its service the visibility and the
  directory that the window showed last. Whether earlier choices could be written does not matter.
\<close>

theorem choices_survive_restart:
  assumes "json_ok E" and "app_main E config hostname u = Done w0" and "(program_step E)\<^sup>*\<^sup>* w0 w"
    and "fst (save E (as_settings (wi_app w)) (\<lambda>_. None)) = Done ()"
    and "app_main E (as_config (wi_app w)) hostname' u' = Done w1"
  shows "as_settings (wi_app w1) = as_settings (wi_app w)
    \<and> (\<exists>r. as_rqs (wi_app w1) = Some r
      \<and> settings_visibility (as_settings (wi_app w)) = Done (wt_value (rqs_visibility r))
      \<and> st_download_path (as_settings (wi_app w)) = rqs_custom_download r)"
proof -
  have st: "load E (as_config (wi_app w)) = as_settings (wi_app w)"
    using kept_reached [OF assms(1-3)] assms(4) by (simp add: kept_def can_save_def)
  with in_step_main [OF assms(5)] show ?thesis
    by (auto simp: in_step_def follows_choice_def)
qed

text \<open>
  The end of a temporary visibility goes unnoticed: the service is invisible then, but the window
  looks as before and the settings keep the choice, so the next start of the program is visible for
  a while again.
\<close>

theorem expiry_goes_unnoticed:
  assumes "json_ok E" and "app_main E config hostname u = Done w0" and "(program_step E)\<^sup>*\<^sup>* w0 w"
    and "fst (save E (as_settings (wi_app w)) (\<lambda>_. None)) = Done ()"
    and "settings_visibility (as_settings (wi_app w)) = Done Temporarily"
    and "\<exists>r. as_rqs (wi_app w) = Some r \<and> runs MdnsServerTask r"
    and "w' = on_app (service_event TemporaryExpires) w"
    and "app_main E (as_config (wi_app w')) hostname' u' = Done w1"
  shows "map_option (\<lambda>r. wt_value (rqs_visibility r)) (as_rqs (wi_app w')) = Some Invisible
    \<and> render_root (wi_app w') = render_root (wi_app w)
    \<and> map_option (\<lambda>r. wt_value (rqs_visibility r)) (as_rqs (wi_app w1)) = Some Temporarily"
proof (intro conjI)
  show "map_option (\<lambda>r. wt_value (rqs_visibility r)) (as_rqs (wi_app w')) = Some Invisible"
    using assms(6) by (auto simp: assms(7) on_app_def service_event_def change_visibility_def watch_send_def)
  show "render_root (wi_app w') = render_root (wi_app w)"
    by (simp add: assms(7) on_app_def service_event_def window_of_cells)
  have "load E (as_config (wi_app w')) = as_settings (wi_app w)"
    using kept_reached [OF assms(1-3)] assms(4)
    by (simp add: assms(7) on_app_def service_event_def kept_def can_save_def)
  with in_step_main [OF assms(8)] assms(5)
  show "map_option (\<lambda>r. wt_value (rqs_visibility r)) (as_rqs (wi_app w1)) = Some Temporarily"
    by (cases "as_rqs (wi_app w1)") auto
qed

end
