(* ===== verification/ScreenWitnesses.thy ===== *)
theory ScreenWitnesses
  imports SessionWitnesses AppWitnesses Screens Refusal Interruption Startup
begin

text \<open>Concrete cases, in the environment \<open>W\<close>, of what the two users see and can do.\<close>

lemma session_screens_witness:
  "\<exists>c1 c s pin t. connecting W (fresh_client [65, 66, 67, 68] ''out1'' [''/home/a.txt''] sender_device one_file)
      = (Done (), c1)
    \<and> for_each until_asked (take_turn W 9) (c1, fresh_server ''10.0.0.7:4444'' empty_disk None) = (Done (), (c, s))
    \<and> is_pin_code (rq_st c) = Some pin
    \<and> hm_lookup (as_transfers (handle_channel_message 0 0 (last (rq_chan s))
        (new_app_state settings_default ''host'' (\<lambda>_. None)))) (is_id (rq_st s)) = Some t
    \<and> readable (render_transfer_item t)
        = [''host'', ''Waiting for approval'', ''PIN:'', pin, ''a.txt'', ''Accept'', ''Reject'']"
proof -
  have ok: "announceable W one_file ''/home/a.txt''" "path_file_name ''/home/a.txt'' = Some ''a.txt''"
    by (simp_all add: announceable_def is_file_def one_file_def W_def) code_simp
  obtain c1 c s pin where run: "connecting W (fresh_client [65, 66, 67, 68] ''out1'' [''/home/a.txt''] sender_device one_file)
      = (Done (), c1)"
      "for_each until_asked (take_turn W 9) (c1, fresh_server ''10.0.0.7:4444'' empty_disk None) = (Done (), (c, s))"
      "is_pin_code (rq_st c) = Some pin"
    and shown: "\<forall>w. hm_lookup (as_transfers w) (is_id (rq_st s)) = None \<longrightarrow> (\<forall>now later.
        \<exists>t. hm_lookup (as_transfers (handle_channel_message now later (last (rq_chan s)) w)) (is_id (rq_st s)) = Some t
         \<and> readable (render_transfer_item t)
             = [''host'', ''Waiting for approval'', ''PIN:'', pin, ''a.txt'', ''Accept'', ''Reject''])"
    using session_screens [OF W_session W_handshake W_name _ W_usable W_usable refl _ _ one_file_destination download_printable _ W_sends_result
        W_sends_introduction, of "''out1''" sender_device 9 "''10.0.0.7:4444''"] ok W_sends_keys
    by (simp add: one_file_introduced W_fields) metis
  have "hm_lookup (as_transfers (new_app_state settings_default ''host'' (\<lambda>_. None))) (is_id (rq_st s)) = None"
    by (simp add: new_app_state_def hm.lookup_empty)
  with shown obtain t where "hm_lookup (as_transfers (handle_channel_message 0 0 (last (rq_chan s))
        (new_app_state settings_default ''host'' (\<lambda>_. None)))) (is_id (rq_st s)) = Some t"
      "readable (render_transfer_item t)
         = [''host'', ''Waiting for approval'', ''PIN:'', pin, ''a.txt'', ''Accept'', ''Reject'']"
    by blast
  with run show ?thesis by blast
qed

lemma session_refused_witness:
  "\<exists>c1 c s s1 c2 s2 t. connecting W (fresh_client [65, 66, 67, 68] ''out1'' [''/home/a.txt''] sender_device one_file)
      = (Done (), c1)
    \<and> for_each until_asked (take_turn W 9) (c1, fresh_server ''10.0.0.7:4444'' empty_disk None) = (Done (), (c, s))
    \<and> handle W (refusal (is_id (rq_st s))) s = (Fail NotAnError, s1)
    \<and> take_turn W 9 (ClientTurn 2) (c, s1) = (Fail NotAnError, (c2, s2))
    \<and> hm_lookup (as_transfers (handle_channel_message 0 0 (last (rq_chan c2)) ((new_app_state settings_default ''host''
        (\<lambda>_. None))\<lparr>as_transfers := [(is_id (rq_st c), new_transfer (is_id (rq_st c)) None)]\<rparr>))) (is_id (rq_st c)) = Some t
    \<and> readable (render_transfer_item t) = [shown_name t, ''Disconnected'', ''Clear'']"
proof -
  have ok: "announceable W one_file ''/home/a.txt''" "path_file_name ''/home/a.txt'' = Some ''a.txt''"
    by (simp_all add: announceable_def is_file_def one_file_def W_def) code_simp
  have no: "sendable W (response_frame CsReject)"
    by (rule W_sendable) (simp add: response_frame_def sharing_lengths)
  obtain c1 c s s1 c2 s2 where run: "connecting W (fresh_client [65, 66, 67, 68] ''out1'' [''/home/a.txt''] sender_device one_file)
      = (Done (), c1)"
      "for_each until_asked (take_turn W 9) (c1, fresh_server ''10.0.0.7:4444'' empty_disk None) = (Done (), (c, s))"
      "handle W (refusal (is_id (rq_st s))) s = (Fail NotAnError, s1)"
      "take_turn W 9 (ClientTurn 2) (c, s1) = (Fail NotAnError, (c2, s2))"
    and shown: "\<forall>w now later t. hm_lookup (as_transfers w) (is_id (rq_st c)) = Some t \<longrightarrow> ti_id t = is_id (rq_st c) \<longrightarrow>
        (\<exists>t'. hm_lookup (as_transfers (handle_channel_message now later (last (rq_chan c2)) w)) (is_id (rq_st c)) = Some t'
         \<and> readable (render_transfer_item t') = [shown_name t', ''Disconnected'', ''Clear''])"
    using session_refused [OF W_session W_handshake W_goodbye W_name W_usable W_usable refl _ _ one_file_destination download_printable _
        W_sends_result W_sends_introduction no, of "''out1''" sender_device 9 "''10.0.0.7:4444''"] ok W_sends_keys
    by (simp add: one_file_introduced W_fields) (elim exE conjE, rule that, assumption+)
  let ?w = "(new_app_state settings_default ''host'' (\<lambda>_. None))
    \<lparr>as_transfers := [(is_id (rq_st c), new_transfer (is_id (rq_st c)) None)]\<rparr>"
  have "hm_lookup (as_transfers ?w) (is_id (rq_st c)) = Some (new_transfer (is_id (rq_st c)) None)"
      "ti_id (new_transfer (is_id (rq_st c)) None) = is_id (rq_st c)"
    by (simp_all add: hm_lookup_def new_transfer_def)
  with shown obtain t where "hm_lookup (as_transfers (handle_channel_message 0 0 (last (rq_chan c2)) ?w)) (is_id (rq_st c)) = Some t"
      "readable (render_transfer_item t) = [shown_name t, ''Disconnected'', ''Clear'']"
    by blast
  with run show ?thesis by blast
qed

lemma sending_not_interruptible_witness:
  "\<exists>t. andthen (send_connection_request W) (andthen (send_ukey2_client_init W)
      (for_each [OnChannel 0 RecvClosed] (out_handle W 9)))
      (new_outbound [65, 66, 67, 68] ''out1'' [''/home/a.txt''] sender_device empty_disk []) = (Done (), t)
    \<and> conn t \<noteq> SendingFiles"
proof -
  let ?r = "new_outbound [65, 66, 67, 68] ''out1'' [''/home/a.txt''] sender_device empty_disk []"
  obtain u where u: "andthen (send_connection_request W) (send_ukey2_client_init W) ?r = (Done (), u)"
    using W_first_messages by blast
  then obtain v where v: "send_connection_request W ?r = (Done (), v)" "send_ukey2_client_init W v = (Done (), u)"
    by (auto simp: eq_Done)
  have "for_each [OnChannel 0 RecvClosed] (out_handle W 9) u = (Done (), u)"
    by (simp add: exec out_handle_def drop_partial_length_def)
  with v have run: "andthen (send_connection_request W) (andthen (send_ukey2_client_init W)
      (for_each [OnChannel 0 RecvClosed] (out_handle W 9))) ?r = (Done (), u)"
    by (simp add: andthen_Done)
  from sending_not_interruptible [OF run] run show ?thesis by blast
qed

definition cancel_message :: "string \<Rightarrow> channel_message" where
  "cancel_message i = \<lparr>cm_id = i, cm_direction = FrontToLib, cm_action = Some CancelTransfer,
     cm_rtype = None, cm_state = None, cm_meta = None\<rparr>"

definition waiting_sender :: "bytes \<Rightarrow> outbound" where
  "waiting_sender socket = (sender SentIntroduction)\<lparr>rq_in := socket,
     rq_st := (rq_st (sender SentIntroduction))\<lparr>is_transferred_files := [(5, sending_entry 2)]\<rparr>\<rparr>"

lemma waiting_sender_simps [simp]:
  "rq_encrypt_key_aes (waiting_sender i) = Some aes_key" "rq_decrypt_key_aes (waiting_sender i) = Some aes_key"
  "rq_send_hmac (waiting_sender i) = Some mac" "rq_recv_hmac (waiting_sender i) = Some mac"
  "conn (waiting_sender i) = SentIntroduction" "is_client_seq (rq_st (waiting_sender i)) = 0"
  "is_transferred_files (rq_st (waiting_sender i)) = [(5, sending_entry 2)]" "rq_in (waiting_sender i) = i"
  "rq_fs (waiting_sender i) = [''/home/a.txt'' \<mapsto> FileNode [7, 8]]" "rq_out (waiting_sender i) = []"
  "is_payload_buffers (rq_st (waiting_sender i)) = []" "is_encryption_done (rq_st (waiting_sender i))"
  by (simp_all add: waiting_sender_def conn_def) (simp_all add: sender_def start_defs)

lemma waiting_introduced: "introduced_files (waiting_sender i)"
  by (simp add: introduced_files_def encrypts_def sender_keys_def keyed_def entries_def hm_wf_def hm_lookup_def
      outgoing_entry_def sending_entry_def)

lemma cancel_comes_too_late_witness:
  "\<exists>r t u frame. introduced_files r \<and> hm_lookup (is_transferred_files (rq_st r)) 5 = Some (sending_entry 2)
    \<and> for_each [OnSocket, OnSocket] (out_handle W 9) r = (Done (), t) \<and> conn t = Finished
    \<and> sent_out (sending_entry 2) (hm_lookup (is_transferred_files (rq_st t)) 5)
    \<and> out_handle W 9 (OnChannel 0 (RecvOk (cancel_message (is_id (rq_st t))))) t = (Fail NotAnError, u)
    \<and> conn u = Cancelled \<and> rq_out u = rq_out t @ framed frame"
proof -
  let ?s = "receiver ReceivingFiles"
  let ?j = "\<lparr>jb_id = 5, jb_source = ''/home/a.txt'', jb_dest = ''/downloads/a.txt'', jb_content = [7, 8]\<rparr>"
  have "armed ?s" by (simp add: armed_def)
  from sends [OF W_channel W_no_faults(1) this W_sends_acceptance] obtain s' bs where
    sent: "in_transit W (response_frame CsAccept) (os_rand_i64 W 0) ?s s' bs"
    by auto
  let ?c = "waiting_sender bs"
  have c: "linked ?s ?c" "armed ?c" "hm_lookup (is_payload_buffers (rq_st ?c)) (os_rand_i64 W 0) = None"
    "os_key_order W (hm_keys (is_transferred_files (rq_st ?c))) = map jb_id [?j]"
    by (simp_all add: linked_def armed_def hm_lookup_def hm_keys_def W_fields)
  have "ready_out ?j ?c"
    by (auto simp: ready_out_def sending_def sending_entry_def hm_lookup_def)
  then have jobs: "\<forall>j \<in> set [?j]. job_ok W 9 j \<and> ready_out j ?c" "distinct (map jb_id [?j])"
    using one_file_ok by simp_all
  have "conn ?c = SentIntroduction" "rq_in ?c = bs" "is_encryption_done (rq_st ?c)" "rq_out ?c = []" by simp_all
  from client_sends_all [OF W_session W_no_faults(3) W_goodbye W_sends_acceptance this(1) c(2) this(2,3) c(3) this(4)
      c(1) sent c(4) jobs]
  obtain t where t: "for_each (replicate 2 OnSocket) (out_handle W 9) ?c = (Done (), t)" "conn t = Finished"
    by auto
  let ?m = "cancel_message (is_id (rq_st t))"
  have m: "conn t \<noteq> SentIntroduction" "cm_direction ?m = FrontToLib" "cm_id ?m = is_id (rq_st t)"
      "cm_action ?m = Some CancelTransfer"
    using t(2) by (simp_all add: cancel_message_def)
  have X: "aes_length_ok W" using W_channel by (simp add: channel_env_def aes_ok_def)
  from cancel_comes_too_late [OF waiting_introduced t(1) m(1) W_keys W_no_faults(1) X m(2-4), of 0]
  obtain u frame where u: "all_sent (is_transferred_files (rq_st ?c)) t"
      "out_handle W 9 (OnChannel 0 (RecvOk ?m)) t = (Fail NotAnError, u)" "conn u = Cancelled"
      "rq_out u = rq_out t @ framed frame"
    by blast
  have e: "hm_lookup (is_transferred_files (rq_st ?c)) 5 = Some (sending_entry 2)"
    by (simp add: hm_lookup_def)
  with u(1) have "sent_out (sending_entry 2) (hm_lookup (is_transferred_files (rq_st t)) 5)"
    by (simp add: all_sent_def offered_def)
  with waiting_introduced e t u(2-4) show ?thesis
    by (intro exI [of _ ?c] exI [of _ t] exI [of _ u] exI [of _ frame]) (simp add: numeral_2_eq_2)
qed

section \<open>From one start to the next\<close>

text \<open>A JSON library that writes every object, with the codec of \<open>Serial\<close>.\<close>

definition json_fields_ser :: "json_fields ser" where
  "json_fields_ser = map_ser (\<lambda>j. (jf_autostart j, jf_realclose j, jf_startminimized j, jf_visibility j, jf_port j,
       jf_download_path j, jf_debug_level j))
     (\<lambda>(a, b, c, d, e, f, g). \<lparr>jf_autostart = a, jf_realclose = b, jf_startminimized = c, jf_visibility = d,
       jf_port = e, jf_download_path = f, jf_debug_level = g\<rparr>)
     (pair_ser (opt_ser bool_ser) (pair_ser (opt_ser bool_ser) (pair_ser (opt_ser bool_ser) (pair_ser (opt_ser byte_ser)
       (pair_ser (opt_ser (opt_ser word_ser)) (pair_ser (opt_ser (opt_ser string_ser)) (opt_ser (opt_ser string_ser))))))))"

lemma faithful_json_fields: "faithful json_fields_ser"
proof -
  have "faithful byte_ser" by (simp add: faithful_def byte_ser_def)
  then show ?thesis unfolding json_fields_ser_def by (intro faithful_map faithful_rules) simp
qed

text \<open>As with serde\_json, a path that is not UTF-8 is not printed.\<close>

definition full_env :: settings_env where
  "full_env = home_env\<lparr>
     se_print := \<lambda>j. if case jf_download_path j of Some (Some p) \<Rightarrow> utf8_valid (as_bytes p) | _ \<Rightarrow> True
       then Some (chars (encode json_fields_ser j)) else None,
     se_parse := \<lambda>c. decode json_fields_ser (as_bytes c)\<rparr>"

lemma full_env_json: "json_ok full_env"
  by (auto simp: json_ok_def full_env_def decode_encode [OF faithful_json_fields] split: if_splits)

lemma full_env_saves: "st_download_path st = None \<Longrightarrow> fst (save full_env st fs) = Done ()"
  by (simp add: save_def config_path_def full_env_def all_fields_def split: option.split)

lemma full_env_refuses: "\<not> utf8_valid (as_bytes p) \<Longrightarrow> st_download_path st = Some p \<Longrightarrow> fst (save full_env st fs) \<noteq> Done ()"
  by (simp add: save_def config_path_def full_env_def all_fields_def split: option.split)

lemma good_main: "\<exists>w. app_main full_env config ''host'' good_start = Done w"
  if "settings_visibility (load full_env config) = Done v" for config
proof -
  obtain r where "run good_start (new_rqs v (st_port (load full_env config)) (st_download_path (load full_env config))) = (Done (), r)"
    by (simp add: run_def good_start_def fresh_number_def exec spawn_def)
  with that show ?thesis by (simp add: app_main_def Let_def)
qed

text \<open>A first start without a settings file.\<close>

lemma first_start:
  "\<exists>w0. app_main full_env (\<lambda>_. None) ''host'' good_start = Done w0 \<and> as_files_to_send (wi_app w0) = []
    \<and> as_content_mode (wi_app w0) = Idle \<and> as_transfers (wi_app w0) = []
    \<and> st_download_path (as_settings (wi_app w0)) = None
    \<and> (\<exists>r. as_rqs (wi_app w0) = Some r \<and> runs MdnsServerTask r)"
proof -
  have load: "load full_env (\<lambda>_. None) = settings_default"
    by (simp add: load_def config_path_def full_env_def)
  then have v: "settings_visibility (load full_env (\<lambda>_. None)) = Done Visible"
    by (simp add: settings_visibility_alt settings_default_def)
  have "st_download_path settings_default = None" "st_port settings_default = None"
    by (simp_all add: settings_default_def)
  moreover have "runs MdnsServerTask started_service"
    by (simp add: started_service_def run_def good_start_def fresh_number_def spawn_def new_rqs_def runs_def exec)
  ultimately show ?thesis
    using v started_run by (simp add: app_main_def load Let_def new_app_state_def)
qed

text \<open>The user chooses a visibility.\<close>

lemma choose:
  assumes "as_files_to_send (wi_app w) = []" and "st_download_path (as_settings (wi_app w)) = None"
  shows "program_step full_env w (press full_env (ChooseVisibility v) w)"
    and "settings_visibility (as_settings (wi_app (press full_env (ChooseVisibility v) w))) = Done v"
    and "fst (save full_env (as_settings (wi_app (press full_env (ChooseVisibility v) w))) fs) = Done ()"
    and "load full_env (as_config (wi_app (press full_env (ChooseVisibility v) w)))
      = as_settings (wi_app (press full_env (ChooseVisibility v) w))"
proof -
  let ?st = "as_settings (wi_app (press full_env (ChooseVisibility v) w))"
  have st: "?st = (as_settings (wi_app w))\<lparr>st_visibility := visibility_num v\<rparr>"
    by (simp add: press_def on_app_def app_change_visibility_def save_settings_def)
  show "program_step full_env w (press full_env (ChooseVisibility v) w)"
    using assms by (intro program_step.window window_step.user user_step.pressed)
      (cases v; simp add: controls_def sidebar_controls_def)
  show "settings_visibility ?st = Done v" by (simp add: st shown_visibility)
  show saves: "fst (save full_env ?st fs) = Done ()" for fs
    using assms(2) by (intro full_env_saves) (simp add: st)
  have "can_save full_env ?st" using saves by (simp add: can_save_def)
  from load_saved [OF full_env_json this]
  show "load full_env (as_config (wi_app (press full_env (ChooseVisibility v) w))) = ?st"
    by (simp add: press_def on_app_def app_change_visibility_def save_settings_def)
qed

lemma started_window_witness:
  "\<exists>w0 r. app_main full_env (\<lambda>_. None) ''host'' good_start = Done w0
    \<and> as_rqs (wi_app (press full_env (ChooseVisibility Invisible) w0)) = Some r
    \<and> wt_value (rqs_visibility r) = Invisible"
proof -
  obtain w0 where w0: "app_main full_env (\<lambda>_. None) ''host'' good_start = Done w0" "as_files_to_send (wi_app w0) = []"
      "st_download_path (as_settings (wi_app w0)) = None"
    using first_start by blast
  have "(program_step full_env)\<^sup>*\<^sup>* w0 (press full_env (ChooseVisibility Invisible) w0)"
    using choose(1) [OF w0(2,3)] by blast
  from started_window [OF w0(1) this] choose(2) [OF w0(2,3), of Invisible] w0(1) show ?thesis by auto
qed


lemma choices_survive_restart_witness:
  "\<exists>w0 w1. app_main full_env (\<lambda>_. None) ''host'' good_start = Done w0
    \<and> app_main full_env (as_config (wi_app (press full_env (ChooseVisibility Invisible) w0))) ''host'' good_start = Done w1
    \<and> settings_visibility (as_settings (wi_app w1)) = Done Invisible"
proof -
  obtain w0 where w0: "app_main full_env (\<lambda>_. None) ''host'' good_start = Done w0" "as_files_to_send (wi_app w0) = []"
      "st_download_path (as_settings (wi_app w0)) = None"
    using first_start by blast
  let ?w = "press full_env (ChooseVisibility Invisible) w0"
  have steps: "(program_step full_env)\<^sup>*\<^sup>* w0 ?w"
    using choose(1) [OF w0(2,3)] by blast
  obtain w1 where w1: "app_main full_env (as_config (wi_app ?w)) ''host'' good_start = Done w1"
    using good_main choose(2,4) [OF w0(2,3)] by metis
  from choices_survive_restart [OF full_env_json w0(1) steps choose(3) [OF w0(2,3)] w1] choose(2) [OF w0(2,3), of Invisible]
    w0(1) w1
  show ?thesis by auto
qed

lemma expiry_goes_unnoticed_witness:
  "\<exists>w0 w r w1 r1. app_main full_env (\<lambda>_. None) ''host'' good_start = Done w0
    \<and> w = on_app (service_event TemporaryExpires) (press full_env (ChooseVisibility Temporarily) w0)
    \<and> as_rqs (wi_app w) = Some r \<and> wt_value (rqs_visibility r) = Invisible
    \<and> app_main full_env (as_config (wi_app w)) ''host'' good_start = Done w1
    \<and> as_rqs (wi_app w1) = Some r1 \<and> wt_value (rqs_visibility r1) = Temporarily"
proof -
  obtain w0 where w0: "app_main full_env (\<lambda>_. None) ''host'' good_start = Done w0" "as_files_to_send (wi_app w0) = []"
      "st_download_path (as_settings (wi_app w0)) = None" "\<exists>r. as_rqs (wi_app w0) = Some r \<and> runs MdnsServerTask r"
    using first_start by blast
  let ?w = "press full_env (ChooseVisibility Temporarily) w0"
  let ?u = "on_app (service_event TemporaryExpires) ?w"
  have steps: "(program_step full_env)\<^sup>*\<^sup>* w0 ?w"
    using choose(1) [OF w0(2,3)] by blast
  have runs: "\<exists>r. as_rqs (wi_app ?w) = Some r \<and> runs MdnsServerTask r"
    using w0(4) by (auto simp: press_def on_app_def app_change_visibility_def save_settings_def change_visibility_def runs_def)
  have "as_config (wi_app ?u) = as_config (wi_app ?w)"
    by (simp add: on_app_def service_event_def)
  then obtain w1 where w1: "app_main full_env (as_config (wi_app ?u)) ''host'' good_start = Done w1"
    using good_main choose(2,4) [OF w0(2,3)] by metis
  from expiry_goes_unnoticed [OF full_env_json w0(1) steps choose(3) [OF w0(2,3)] choose(2) [OF w0(2,3)] runs refl w1]
    w0(1) w1
  show ?thesis by auto
qed

end
