(* ===== verification/Connections.thy ===== *)
theory Connections
  imports Manager Registry
begin

text \<open>
  Several incoming connections at once: the tasks that \<open>TcpServer::run\<close> spawns share the disk and
  the download directory, and each event is served by one of them. An event is served to its end
  before the next one: between two \<open>await\<close>s of one \<open>handle\<close> no other task runs here.
\<close>

section \<open>The tasks of the server\<close>

type_synonym conn_task = "task_end \<times> inbound"

record served_disk =
  sd_disk :: "path \<Rightarrow> fs_node option"
  sd_download :: "path option option"
  sd_tasks :: "conn_task list"

text \<open>
  What happens: a client connects, bytes of the peer of a connection arrive, a task serves an event,
  the user chooses a download directory. Every task has draws and faults of its own, so it has its
  own environment.
\<close>

datatype conn_event = Connects string | Arrives nat bytes | Serves nat event | Chooses "path option"

definition serve_one :: "env \<Rightarrow> event \<Rightarrow> conn_task \<Rightarrow> served_disk \<Rightarrow> conn_task \<times> (path \<Rightarrow> fs_node option)" where
  "serve_one X ev task w =
     (case task of
        (Running, r) \<Rightarrow>
          (let (e, t) = inbound_task X (is_id (rq_st r)) [ev]
                 (r\<lparr>rq_fs := sd_disk w, rq_custom_download := sd_download w\<rparr>)
           in ((e, t), rq_fs t))
      | _ \<Rightarrow> (task, sd_disk w))"

fun server_step :: "(nat \<Rightarrow> env) \<Rightarrow> conn_event \<Rightarrow> served_disk \<Rightarrow> served_disk" where
  "server_step Xs (Connects addr) w = w\<lparr>sd_tasks := sd_tasks w @
     [(Running, new_inbound addr (sd_disk w) (sd_download w) [])]\<rparr>"
| "server_step Xs (Arrives i bs) w = w\<lparr>sd_tasks :=
     (sd_tasks w)[i := map_prod id (\<lambda>r. r\<lparr>rq_in := rq_in r @ bs\<rparr>) (sd_tasks w ! i)]\<rparr>"
| "server_step Xs (Serves i ev) w =
     (if i < length (sd_tasks w) then
        let (task, fs) = serve_one (Xs i) ev (sd_tasks w ! i) w
        in w\<lparr>sd_disk := fs, sd_tasks := (sd_tasks w)[i := task]\<rparr>
      else w)"
| "server_step Xs (Chooses p) w = w\<lparr>sd_download := Some p\<rparr>"

definition server_steps :: "(nat \<Rightarrow> env) \<Rightarrow> conn_event list \<Rightarrow> served_disk \<Rightarrow> served_disk" where
  "server_steps Xs evs w = foldl (\<lambda>w ev. server_step Xs ev w) w evs"

lemma server_steps_simps [simp]:
  "server_steps Xs [] w = w" "server_steps Xs (ev # evs) w = server_steps Xs evs (server_step Xs ev w)"
  by (simp_all add: server_steps_def)

section \<open>What a user agreed to\<close>

text \<open>The message that accepts, for this connection, and the destinations it is about.\<close>

definition consents :: "event \<Rightarrow> 'x request_scheme \<Rightarrow> bool" where
  "consents ev r \<longleftrightarrow> (case ev of OnChannel _ (RecvOk m) \<Rightarrow> cm_direction m = FrontToLib
     \<and> cm_id m = is_id (rq_st r) \<and> cm_action m = Some AcceptTransfer | _ \<Rightarrow> False)"

abbreviation registered :: "'x request_scheme \<Rightarrow> path set" where
  "registered r \<equiv> registered_at r UNIV"

definition agreed_paths :: "event \<Rightarrow> 'x request_scheme \<Rightarrow> path set" where
  "agreed_paths ev r = (if consents ev r then registered r else {})"

fun granted :: "(nat \<Rightarrow> env) \<Rightarrow> conn_event list \<Rightarrow> served_disk \<Rightarrow> path set" where
  "granted Xs [] w = {}"
| "granted Xs (ev # evs) w =
     (case ev of
        Serves i e \<Rightarrow> (if i < length (sd_tasks w) then agreed_paths e (snd (sd_tasks w ! i)) else {})
      | _ \<Rightarrow> {}) \<union> granted Xs evs (server_step Xs ev w)"

section \<open>What accepting touches\<close>

definition consent_rel :: "'x request_scheme \<Rightarrow> 'x request_scheme \<Rightarrow> bool" where
  "consent_rel r t \<longleftrightarrow> registered t \<subseteq> registered r \<and> open_paths t \<subseteq> open_paths r \<union> registered r
     \<and> (\<forall>p. p \<notin> registered r \<longrightarrow> rq_fs t p = rq_fs r p)"

interpretation consent: step_rel consent_rel
  by unfold_locales (auto simp: consent_rel_def subset_iff)

lemma consent_tables: "within (same_rel tables) m \<Longrightarrow> within (same_rel rq_fs) m \<Longrightarrow> within consent_rel m"
  by (simp add: within_def same_rel_def consent_rel_def tables_def registered_at_def open_paths_def)

lemma consent_open: "within consent_rel (open_destination X i)"
proof (rule withinI)
  fix r res t assume run: "open_destination X i r = (res, t)"
  show "consent_rel r t"
  proof (cases "hm_lookup (is_transferred_files (rq_st r)) i")
    case None
    with run show ?thesis by (simp add: open_destination_def exec consent.refl)
  next
    case (Some info)
    show ?thesis
    proof (cases "os_create_error X (ifi_file_url info) \<or> rq_fs r (ifi_file_url info) = Some DirNode")
      case True
      with run Some show ?thesis by (simp add: open_destination_def exec file_create_def bind_Fail consent.refl)
    next
      case False
      let ?f = "\<lparr>fh_path = ifi_file_url info, fh_pos = 0\<rparr>"
      have "t = upd_st (\<lambda>s. s\<lparr>is_transferred_files := hm_insert i (info\<lparr>ifi_file := Some ?f\<rparr>) (is_transferred_files s)\<rparr>)
          (r\<lparr>rq_fs := (rq_fs r)(ifi_file_url info \<mapsto> FileNode [])\<rparr>)"
        using run Some False by (simp add: open_destination_def exec file_create_def bind_Done)
      with Some show ?thesis
        by (auto simp: consent_rel_def registered_at_def open_paths_def upd_st_def split: if_splits)
    qed
  qed
qed

lemma consent_accept: "within consent_rel (accept_transfer X)"
  unfolding accept_transfer_def
  by (intro consent.within_bind consent.within_andthen consent.within_for_each consent.within_get consent_open
      consent_tables within_rules) simp_all

lemma open_paths_io [simp]:
  "open_paths (r\<lparr>rq_in := i\<rparr>) = open_paths r" "open_paths (r\<lparr>rq_fs := fs\<rparr>) = open_paths r"
  "open_paths (r\<lparr>rq_custom_download := d\<rparr>) = open_paths r" "open_paths (r\<lparr>rq_chan := c\<rparr>) = open_paths r"
  "registered_at (r\<lparr>rq_fs := fs\<rparr>) I = registered_at r I" "registered_at (r\<lparr>rq_in := i\<rparr>) I = registered_at r I"
  "registered_at (r\<lparr>rq_custom_download := d\<rparr>) I = registered_at r I"
  by (simp_all add: open_paths_def registered_at_def)

lemma agreed_paths_io [simp]:
  "agreed_paths ev (r\<lparr>rq_fs := fs\<rparr>) = agreed_paths ev r"
  "agreed_paths ev (r\<lparr>rq_custom_download := d\<rparr>) = agreed_paths ev r"
  by (auto simp: agreed_paths_def consents_def split: event.split recv_result.split)

text \<open>One event: nothing changes outside the files that are open and those just agreed to.\<close>

lemma handle_touches:
  assumes "handle X ev r = (res, t)"
  shows "open_paths t \<subseteq> open_paths r \<union> agreed_paths ev r
    \<and> (\<forall>p. p \<notin> open_paths r \<union> agreed_paths ev r \<longrightarrow> rq_fs t p = rq_fs r p)"
proof (cases "accepts ev")
  case False
  from withinD [OF quiet_handle [OF this] assms] show ?thesis by (auto simp: quiet_rel_def)
next
  case True
  then obtain k m where ev: "ev = OnChannel k (RecvOk m)" "cm_direction m = FrontToLib" "cm_action m = Some AcceptTransfer"
    by (auto simp: accepts_def split: event.splits recv_result.splits)
  let ?r = "r\<lparr>rq_in := drop (min k 3) (rq_in r)\<rparr>"
  show ?thesis
  proof (cases "cm_id m = is_id (rq_st r)")
    case True
    then have "accept_transfer X ?r = (res, t)"
      using assms by (simp add: ev handle_def drop_partial_length_def handle_action_def exec)
    from withinD [OF consent_accept this] show ?thesis
      using True by (auto simp: consent_rel_def agreed_paths_def consents_def ev)
  next
    case False
    then have "t = ?r" using assms by (auto simp: ev handle_def drop_partial_length_def exec)
    then show ?thesis by simp
  qed
qed

lemma serve_one_touches:
  assumes "serve_one X ev task w = (task', fs)"
  shows "open_paths (snd task') \<subseteq> open_paths (snd task) \<union> agreed_paths ev (snd task)
    \<and> (\<forall>p. p \<notin> open_paths (snd task) \<union> agreed_paths ev (snd task) \<longrightarrow> fs p = sd_disk w p)"
proof (cases "fst task = Running")
  case True
  then obtain r where task: "task = (Running, r)" by (cases task) auto
  let ?r = "r\<lparr>rq_fs := sd_disk w, rq_custom_download := sd_download w\<rparr>"
  obtain res t where run: "handle X ev ?r = (res, t)" by fastforce
  have "open_paths (snd task') = open_paths t" "fs = rq_fs t"
    using assms run
    by (auto simp: serve_one_def task inbound_error_def tell_def split: outcome.splits error.splits if_splits)
  with handle_touches [OF run] show ?thesis by (simp add: task)
next
  case False
  then have "serve_one X ev task w = (task, sd_disk w)"
    by (cases task; cases "fst task") (auto simp: serve_one_def)
  with assms show ?thesis by auto
qed

lemma served_within:
  assumes "\<forall>task \<in> set (sd_tasks w). open_paths (snd task) \<subseteq> G" and "granted Xs evs w \<subseteq> G" and "p \<notin> G"
  shows "sd_disk (server_steps Xs evs w) p = sd_disk w p"
  using assms(1,2)
proof (induction evs arbitrary: w)
  case (Cons ev evs)
  let ?w = "server_step Xs ev w"
  have G: "granted Xs evs ?w \<subseteq> G" using Cons.prems(2) by auto
  have "(\<forall>task \<in> set (sd_tasks ?w). open_paths (snd task) \<subseteq> G) \<and> sd_disk ?w p = sd_disk w p"
  proof (cases ev)
    case (Connects addr)
    then show ?thesis
      using Cons.prems(1) by (auto simp: open_paths_def new_inbound_def is_default_def)
  next
    case (Arrives i bs)
    let ?t = "sd_tasks w ! i"
    let ?u = "map_prod id (\<lambda>r. r\<lparr>rq_in := rq_in r @ bs\<rparr>) ?t"
    have "\<forall>task \<in> set ((sd_tasks w)[i := ?u]). open_paths (snd task) \<subseteq> G"
    proof (cases "i < length (sd_tasks w)")
      case True
      then have "open_paths (snd ?t) \<subseteq> G" using Cons.prems(1) by simp
      then have "open_paths (snd ?u) \<subseteq> G" by (simp add: snd_map_prod)
      then show ?thesis
        using Cons.prems(1) set_update_subset_insert [of "sd_tasks w" i ?u] by blast
    next
      case False
      then have "(sd_tasks w)[i := u] = sd_tasks w" for u by (simp add: list_update_beyond)
      with Cons.prems(1) show ?thesis by (simp only:)
    qed
    then show ?thesis by (simp add: Arrives)
  next
    case (Serves i e)
    show ?thesis
    proof (cases "i < length (sd_tasks w)")
      case True
      let ?t = "sd_tasks w ! i"
      obtain task fs where s: "serve_one (Xs i) e ?t w = (task, fs)" by fastforce
      have "open_paths (snd ?t) \<subseteq> G" "agreed_paths e (snd ?t) \<subseteq> G"
        using Cons.prems True Serves by auto
      then have "open_paths (snd task) \<subseteq> G" "fs p = sd_disk w p"
        using serve_one_touches [OF s] assms(3) by blast+
      then show ?thesis
        using Cons.prems(1) s True Serves set_update_subset_insert [of "sd_tasks w" i task] by auto
    qed (use Cons.prems(1) Serves in simp)
  qed (use Cons.prems(1) in simp)
  with Cons.IH [OF _ G] show ?case by simp
qed simp

text \<open>
  C5. Many connections, one disk: whoever connects, whatever the peers send, in whatever order the
  events of the connections are served and however they fail, the only paths that ever change are
  destinations that a connection had registered when the user accepted that very connection.
\<close>

theorem only_granted_paths_change:
  "{p. sd_disk (server_steps Xs evs \<lparr>sd_disk = fs, sd_download = dl, sd_tasks = []\<rparr>) p \<noteq> fs p}
    \<subseteq> granted Xs evs \<lparr>sd_disk = fs, sd_download = dl, sd_tasks = []\<rparr>"
  using served_within [of "\<lparr>sd_disk = fs, sd_download = dl, sd_tasks = []\<rparr>" _ Xs evs] by fastforce

section \<open>Two offers of one name\<close>

text \<open>One file announced: where it goes is decided by the disk and the name alone.\<close>

lemma offer_destination:
  assumes "process_introduction X v r = (Done (), t)" and "sv_introduction v = Some intro"
    and "in_files intro = [f]" and "in_texts intro = []"
  shows "\<exists>p. destination_of X r f = Some p \<and> p \<in> registered t"
proof -
  let ?r = "upd_st (\<lambda>e. e\<lparr>is_state := WaitingForUserConsent\<rparr>) r"
  have s: "set_state Inbound WaitingForUserConsent False r = (Done (), ?r)"
    by (simp add: set_state_def update_state_def exec)
  have d: "destination_of X r f \<noteq> None"
  proof
    assume "destination_of X r f = None"
    then have "introduce_files X [f] [] 0 ?r = (NoFuel, ?r)"
      by (simp add: exec destination_of_def upd_st_def)
    with assms s show False
      by (simp add: process_introduction_def exec andthen_Done bind_NoFuel)
  qed
  then obtain p where p: "destination_of X r f = Some p" by blast
  have "is_transferred_files (rq_st t) = register X r [f] (is_transferred_files (rq_st r))"
    using introduction_runs [of v intro X r] introduction_printable [of v intro X r t] assms d by auto
  then have "hm_lookup (is_transferred_files (rq_st t)) (file_payload_id f) = Some (announced X r f)"
    using register_last [of X r "[]" f] by simp
  then show ?thesis
    using p by (simp add: registered_at_def) (intro exI conjI, assumption, simp add: announced_def)
qed

text \<open>
  C38. Two senders can destroy each other's file. Two connections are offered a file of the same name
  before one of the users' answers is given: both get the same destination, because the name is looked
  up on the disk and nothing is created yet. When the first is accepted and its bytes arrive, and then
  the second is accepted, the file is emptied; the first connection stays as it is and goes on
  counting the bytes that are gone.
\<close>

theorem second_consent_empties_file:
  assumes "process_introduction X va a0 = (Done (), a1)" and "sv_introduction va = Some ia"
    and "in_files ia = [f]" and "in_texts ia = []"
    and "process_introduction Y vb b0 = (Done (), b)" and "sv_introduction vb = Some ib"
    and "in_files ib = [g]" and "in_texts ib = []"
    and "file_name_of f = file_name_of g" and "rq_fs a0 = rq_fs b0"
    and "get_download_dir X (rq_custom_download a0) = get_download_dir Y (rq_custom_download b0)"
    and "key_order_ok X" and "accept_transfer X a1 = (Done (), a)"
    and "i < length (sd_tasks w)" and "j < length (sd_tasks w)" and "i \<noteq> j"
    and "sd_tasks w ! i = (Running, a)" and "sd_tasks w ! j = (Running, b)"
    and "consents ev b" and "key_order_ok (Xs j)"
    and "w' = server_step Xs (Serves j ev) w" and "fst (sd_tasks w' ! j) = Running"
  shows "\<exists>p. p \<in> open_paths a \<and> sd_tasks w' ! i = (Running, a) \<and> sd_disk w' p = Some (FileNode [])"
proof -
  obtain p where p: "destination_of X a0 f = Some p" "p \<in> registered a1"
    using offer_destination [OF assms(1-4)] by blast
  have "destination_of Y b0 g = Some p"
    using p(1) assms(9-11) by (simp add: destination_of_def)
  then have b: "p \<in> registered b" using offer_destination [OF assms(5-8)] by auto
  have "\<forall>k. hm_lookup (is_transferred_files (rq_st a)) k
      = map_option opened_file (hm_lookup (is_transferred_files (rq_st a1)) k)"
    using accepted_files [OF assms(12,13)] by blast
  then have a: "p \<in> open_paths a"
    using p(2) by (fastforce simp: registered_at_def open_paths_def opened_file_def)
  let ?b = "b\<lparr>rq_fs := sd_disk w, rq_custom_download := sd_download w\<rparr>"
  obtain res t where run: "handle (Xs j) ev ?b = (res, t)" by fastforce
  have res: "res = Done ()" "sd_disk w' = rq_fs t"
    using assms(15,18,21,22) run by (auto simp: serve_one_def split: outcome.splits)
  obtain k m where "ev = OnChannel k (RecvOk m)" "cm_direction m = FrontToLib" "cm_id m = is_id (rq_st b)"
      "cm_action m = Some AcceptTransfer"
    using assms(19) by (auto simp: consents_def split: event.splits recv_result.splits)
  then have "accept_transfer (Xs j) (?b\<lparr>rq_in := drop (min k 3) (rq_in ?b)\<rparr>) = (Done (), t)"
    using run res(1) by (simp add: handle_def drop_partial_length_def handle_action_def exec)
  from accepted_files [OF assms(20) this] b have "rq_fs t p = Some (FileNode [])" by simp
  moreover have "sd_tasks w' ! i = (Running, a)"
    using assms(14-18,21) by (auto simp: split: prod.split)
  ultimately show ?thesis using a res(2) by auto
qed

section \<open>A name that leaves the download directory\<close>

text \<open>
  C37. The sender can choose the directory. If the announced name is an absolute path at which there
  is nothing yet, then accepting creates the file at that very path, whatever the download directory
  is: \<open>push\<close> replaces the directory by an absolute name, and nothing checks the name.
\<close>

theorem absolute_name_escapes:
  assumes "process_introduction X v r = (Done (), r1)" and "sv_introduction v = Some intro"
    and "in_files intro = [f]" and "in_texts intro = []"
    and "is_absolute (file_name_of f)" and "\<not> path_exists (rq_fs r) (file_name_of f)"
    and "key_order_ok X" and "accept_transfer X r1 = (Done (), t)"
  shows "rq_fs t (file_name_of f) = Some (FileNode [])"
proof -
  obtain p where p: "destination_of X r f = Some p" "p \<in> registered r1"
    using offer_destination [OF assms(1-4)] by blast
  then have "p = file_name_of f"
    using assms(5,6) by (simp add: destination_of_def pick_dest_def push_absolute)
  with p(2) accepted_files [OF assms(7,8)] show ?thesis by simp
qed

end
