(* ===== verification/ConnectionWitnesses.thy ===== *)
theory ConnectionWitnesses
  imports SessionWitnesses Connections SenderPanics
begin

text \<open>
  Concrete runs: a receiver's key exchange, a cancel that panics, and two connections on one disk.
\<close>

section \<open>A key exchange that ends with a PIN\<close>

lemma keys_committed_witness:
  "\<exists>socket r pin. for_each (replicate 3 OnSocket) (handle W)
      (new_inbound ''10.0.0.7:4444'' empty_disk None socket) = (Done (), r)
    \<and> is_pin_code (rq_st r) = Some pin \<and> bound_to_commitment W r pin"
proof -
  have e: "no_faults W" "codec_ok W" "rand_ok W" "kdf_ok W"
    using W_session by (simp_all add: session_env_def exchange_env_def)
  obtain gc where gc: "own_public_key W (public_of W (gen_secret W 7)) = Done gc"
      "peer_point W gc = Done (public_of W (gen_secret W 7))"
    using own_public_key_read [OF W_bigint W_point W_long] by blast
  obtain gs where gs: "own_public_key W (public_of W (gen_secret W 0)) = Done gs"
    using own_public_key_read [OF W_bigint W_point W_long] by blast
  define fin where "fin = enc_ukey2 W (client_finish_frame W gc)"
  define m1 where "m1 = enc_ukey2 W (client_init_frame W (replicate 32 1) (sha512 W fin))"
  define m2 where "m2 = enc_ukey2 W (server_init_frame W (os_rand W 1 32) gs)"
  define m0 where "m0 = enc_offline W (connection_request W [65, 66, 67, 68] 0)"
  have fits: "fits_frame m0" "fits_frame m1" "fits_frame fin"
    using W_handshake handshake_fitsD(1,2) [OF W_handshake gc(1)]
    by (simp_all add: m0_def m1_def fin_def handshake_fits_def)
  let ?socket = "concat (framed m0) @ concat (framed m1) @ concat (framed fin)"
  let ?r = "new_inbound ''10.0.0.7:4444'' empty_disk None ?socket"
  have r: "conn ?r = Initial" "rq_in ?r = ?socket" "rq_draws ?r = 0"
    by (simp_all add: new_inbound_def is_default_def conn_def)
  obtain r1 where r1: "handle W OnSocket ?r = (Done (), r1)" "conn r1 = ReceivedConnectionRequest"
      "rq_in r1 = concat (framed m1) @ concat (framed fin)" "rq_draws r1 = 0"
    using handle_plain [OF r(2) fits(1), of W] request_served [OF e(2,3) W_name] r
    by (fastforce simp: m0_def upd_st_def conn_def)
  obtain b where h2: "handle W OnSocket r1 = serve_frame W m1 (set_recv_buf b (r1\<lparr>rq_in := concat (framed fin)\<rparr>))"
    using handle_plain [OF r1(3) fits(2)] by blast
  obtain r2 where r2: "handle W OnSocket r1 = (Done (), r2)" "conn r2 = SentUkeyServerInit"
      "is_private_key (rq_st r2) = Some (gen_secret W 0)" "is_client_init_msg_data (rq_st r2) = Some m1"
      "is_server_init_data (rq_st r2) = Some m2"
      "map_option cc_commitment (is_cipher_commitment (rq_st r2)) = Some (Some (sha512 W fin))"
      "rq_in r2 = concat (framed fin) @ []"
    using server_answers [OF e(1-3), of "replicate 32 1" "set_recv_buf b (r1\<lparr>rq_in := concat (framed fin)\<rparr>)" gs "sha512 W fin"]
      h2 gs r1 unfolding m1_def m2_def by (auto simp: aside_def)
  obtain ks where ks: "derive_keys W (sha256 W (diffie_hellman W (gen_secret W 0) (public_of W (gen_secret W 7)))) (m1 @ m2)
      = Done ks" "good_keys W ks"
    using derive_keys_Done [OF e(4)] by blast
  obtain b' where h3: "handle W OnSocket r2 = serve_frame W fin (set_recv_buf b' (r2\<lparr>rq_in := []\<rparr>))"
    using handle_plain [OF r2(7) fits(3)] by blast
  obtain r3 where r3: "handle W OnSocket r2 = (Done (), r3)" "is_pin_code (rq_st r3) = Some (pin_of ks)"
    using server_finishes [OF e(2) _ gc(2) _ _ _ _ ks, of "set_recv_buf b' (r2\<lparr>rq_in := []\<rparr>)"] h3 r2
    unfolding fin_def by auto
  have "for_each (replicate 3 OnSocket) (handle W) ?r = (Done (), r3)"
    using r1(1) r2(1) r3(1) by (simp add: numeral_3_eq_3 bind_Done andthen_Done ret_exec)
  from this keys_committed [OF this r3(2)] r3(2) show ?thesis by blast
qed

section \<open>A cancel before the keys\<close>

lemma panics_known_witness:
  "\<exists>t. handle W (OnChannel 0 (RecvOk cancel_message)) (new_inbound ''10.0.0.7:4444'' empty_disk None [])
      = (Panic ''encrypt_key_aes'', t)
    \<and> before_keys (conn (new_inbound ''10.0.0.7:4444'' empty_disk None []))
    \<and> rq_encrypt_key_aes (new_inbound ''10.0.0.7:4444'' empty_disk None []) = None"
proof -
  let ?r = "new_inbound ''10.0.0.7:4444'' empty_disk None []" and ?ev = "OnChannel 0 (RecvOk cancel_message)"
  have kdf: "kdf_ok W" using W_session by (simp add: session_env_def exchange_env_def)
  have start: "for_each [] (handle W) ?r = (Done (), ?r)" by (simp add: ret_exec)
  obtain res t where run: "handle W ?ev ?r = (res, t)" by fastforce
  have "\<exists>p. res = Panic p"
    using run
    by (auto simp: handle_def cancel_message_def cm_default_def drop_partial_length_def handle_action_def finish_def
        disconnection_def send_by_encryption_def exec new_inbound_def is_default_def set_state_def update_state_def
        encrypt_and_send_def Let_def draw_def upd_st_def andthen_def bind_def unwrap_def)
  then obtain p where "handle W ?ev ?r = (Panic p, t)" using run by blast
  with panics_known [OF W_keys kdf start this] show ?thesis by auto
qed

definition cancel_sending :: channel_message where
  "cancel_sending = cm_default\<lparr>cm_id := ''out1'', cm_action := Some CancelTransfer\<rparr>"

lemma out_panics_known_witness:
  "\<exists>c t. connecting W (fresh_client [65, 66, 67, 68] ''out1'' [''/home/a.txt''] sender_device one_file) = (Done (), c)
    \<and> out_handle W 9 (OnChannel 0 (RecvOk cancel_sending)) (c\<lparr>rq_in := []\<rparr>) = (Panic ''encrypt_key_aes'', t)
    \<and> conn c = SentUkeyClientInit"
proof -
  let ?ev = "OnChannel 0 (RecvOk cancel_sending)"
  have kdf: "kdf_ok W" using W_session by (simp add: session_env_def exchange_env_def)
  obtain g where g: "own_public_key W (public_of W (gen_secret W 1)) = Done g"
    using own_public_key_read [OF W_bigint W_point W_long] by blast
  obtain c where c: "connecting W (fresh_client [65, 66, 67, 68] ''out1'' [''/home/a.txt''] sender_device one_file)
      = (Done (), c)"
    using client_begins [OF W_no_faults(1) g refl refl] by blast
  have parts: "is_encryption_done (rq_st c)" "is_id (rq_st c) = ''out1''" "rq_encrypt_key_aes c = None"
    using c
    by (auto simp: connecting_def send_connection_request_def send_ukey2_client_init_def eq_Done draw_def Let_def
        case_prod_beta lift_outcome_exec get_exec send_frame_no_faults [OF W_no_faults(1)] update_state_def
        modify_exec ret_exec upd_st_def fresh_client_def new_outbound_def is_default_def)
  have start: "for_each [] (out_handle W 9) (c\<lparr>rq_in := []\<rparr>) = (Done (), c\<lparr>rq_in := []\<rparr>)" by (simp add: ret_exec)
  obtain res t where run: "out_handle W 9 ?ev (c\<lparr>rq_in := []\<rparr>) = (res, t)" by fastforce
  have "\<exists>p. res = Panic p"
    using run parts
    by (auto simp: out_handle_def cancel_sending_def cm_default_def drop_partial_length_def out_handle_action_def
        finish_def disconnection_def send_by_encryption_def exec set_state_def update_state_def
        encrypt_and_send_def Let_def draw_def upd_st_def andthen_def bind_def unwrap_def)
  then obtain p where "out_handle W 9 ?ev (c\<lparr>rq_in := []\<rparr>) = (Panic p, t)" using run by blast
  with out_panics_known [OF kdf c start this] c show ?thesis by (auto simp: conn_def)
qed

section \<open>Two offers of the same name\<close>

definition other_receiver :: inbound where
  "other_receiver = upd_st (\<lambda>e. e\<lparr>is_id := ''10.0.0.8:5555''\<rparr>) (receiver ReceivedPairedKeyResult)"

lemma other_destination: "destination_of W other_receiver (offered 5) \<noteq> None"
  unfolding other_receiver_def destination_of_upd_st by (rule offered_destination)

lemma offer_parts: "sv_introduction (offer [f]) = Some \<lparr>in_files = [f], in_texts = [], in_wifis = []\<rparr>"
  by (simp add: offer_def)

lemma introduced_armed:
  assumes "process_introduction X v r = (res, t)" and "keyed r"
  shows "armed t"
proof -
  have "within keys_rel (process_introduction X v)"
    unfolding process_introduction_def case_prod_beta by (intro within_rules)
  with assms show ?thesis by (auto dest!: withinD simp: keys_rel_def keyed_def armed_def)
qed

lemma offer_read:
  assumes "destination_of W r f \<noteq> None" and "keyed r" and "rq_custom_download r = None"
  shows "\<exists>t. process_introduction W (offer [f]) r = (Done (), t) \<and> armed t \<and> rq_fs t = rq_fs r"
proof -
  obtain t where "process_introduction W (offer [f]) r = (Done (), t)" "rq_fs t = rq_fs r"
    using introduction_runs [OF offer_parts, of f W r] assms(1,3) download_printable by auto
  then show ?thesis using introduced_armed assms(2) by blast
qed

lemma accept_on_disk:
  fixes s :: inbound
  assumes "armed s" and "\<forall>p. rq_fs s p \<noteq> Some DirNode"
  shows "\<exists>t. accept_transfer W s = (Done (), t) \<and> (\<forall>p. rq_fs t p \<noteq> Some DirNode)"
proof -
  have "\<not> os_create_error W p" for p by (simp add: W_def)
  with server_accepts [OF W_session W_keys W_sends_acceptance assms(1)] assms(2) obtain t where
    "handle W (acceptance (is_id (rq_st s))) s = (Done (), t)"
    "rq_fs t = (\<lambda>p. if p \<in> registered_at s UNIV then Some (FileNode []) else rq_fs s p)"
    by blast
  with assms(2) show ?thesis by (simp add: handle_acceptance)
qed

lemma second_consent_empties_file_witness:
  "\<exists>a0 b0 a1 a b w w' p. process_introduction W (offer [offered 5]) a0 = (Done (), a1)
    \<and> process_introduction W (offer [offered 5]) b0 = (Done (), b) \<and> is_id (rq_st a0) \<noteq> is_id (rq_st b0)
    \<and> accept_transfer W a1 = (Done (), a) \<and> sd_tasks w = [(Running, a), (Running, b)]
    \<and> w' = server_step (\<lambda>_. W) (Serves 1 (acceptance (is_id (rq_st b)))) w
    \<and> p \<in> open_paths a \<and> sd_tasks w' ! 0 = (Running, a) \<and> sd_disk w' p = Some (FileNode [])"
proof -
  let ?a0 = "receiver ReceivedPairedKeyResult"
  have k: "keyed ?a0" "keyed other_receiver"
    by (simp_all add: keyed_def other_receiver_def upd_st_def)
  obtain a1 where a1: "process_introduction W (offer [offered 5]) ?a0 = (Done (), a1)" "armed a1" "rq_fs a1 = empty_disk"
    using offer_read [OF offered_destination k(1)] by auto
  obtain b where b: "process_introduction W (offer [offered 5]) other_receiver = (Done (), b)" "armed b"
    using offer_read [OF other_destination k(2)] by (auto simp: other_receiver_def upd_st_def)
  obtain a where a: "accept_transfer W a1 = (Done (), a)" "\<forall>p. rq_fs a p \<noteq> Some DirNode"
    using accept_on_disk [OF a1(2)] a1(3) by (auto simp: empty_disk_def)
  define w where "w = \<lparr>sd_disk = rq_fs a, sd_download = None, sd_tasks = [(Running, a), (Running, b)]\<rparr>"
  let ?ev = "acceptance (is_id (rq_st b))"
  define w' where "w' = server_step (\<lambda>_. W) (Serves 1 ?ev) w"
  let ?b = "b\<lparr>rq_fs := rq_fs a, rq_custom_download := None\<rparr>"
  have "armed ?b" using b(2) by (simp add: armed_def)
  then obtain t where "accept_transfer W ?b = (Done (), t)"
    using accept_on_disk [of ?b] a(2) by auto
  then have "handle W ?ev ?b = (Done (), t)"
    using handle_acceptance [of W ?b] by simp
  then have running: "fst (sd_tasks w' ! 1) = Running"
    by (simp add: w'_def w_def serve_one_def)
  have ids: "is_id (rq_st ?a0) \<noteq> is_id (rq_st other_receiver)"
    by (simp add: other_receiver_def upd_st_def receiver_def start_defs)
  have ev: "consents ?ev b" by (simp add: consents_def acceptance_def cm_default_def)
  have same: "rq_fs ?a0 = rq_fs other_receiver" "get_download_dir W (rq_custom_download ?a0)
      = get_download_dir W (rq_custom_download other_receiver)"
    by (simp_all add: other_receiver_def upd_st_def)
  have w: "0 < length (sd_tasks w)" "1 < length (sd_tasks w)" "(0 :: nat) \<noteq> 1"
    "sd_tasks w ! 0 = (Running, a)" "sd_tasks w ! 1 = (Running, b)"
    by (simp_all add: w_def)
  obtain p where "p \<in> open_paths a" "sd_tasks w' ! 0 = (Running, a)" "sd_disk w' p = Some (FileNode [])"
    using second_consent_empties_file [OF a1(1) offer_parts _ _ b(1) offer_parts _ _ refl same W_keys a(1)
        w ev W_keys w'_def running] by auto
  with a1(1) b(1) ids a(1) show ?thesis
    using w'_def w_def by (metis served_disk.select_convs(3))
qed

section \<open>A file outside the download directory\<close>

lemma absolute_name_escapes_witness:
  "\<exists>f r1 t. file_name_of f = ''/root/.profile'' \<and> get_download_dir W None = ''/downloads''
    \<and> process_introduction W (offer [f]) (receiver ReceivedPairedKeyResult) = (Done (), r1)
    \<and> accept_transfer W r1 = (Done (), t) \<and> rq_fs t ''/root/.profile'' = Some (FileNode [])"
proof -
  let ?f = "(offered 5)\<lparr>fm_name := Some ''/root/.profile''\<rparr>" and ?r = "receiver ReceivedPairedKeyResult"
  have name: "file_name_of ?f = ''/root/.profile''" by (simp add: file_name_of_def)
  have "destination_of W ?r ?f \<noteq> None"
    by (simp add: destination_of_def pick_dest_def path_exists_def empty_disk_def Let_def)
  moreover have "keyed ?r" by (simp add: keyed_def)
  ultimately obtain r1 where r1: "process_introduction W (offer [?f]) ?r = (Done (), r1)" "armed r1"
      "rq_fs r1 = empty_disk"
    using offer_read by fastforce
  obtain t where t: "accept_transfer W r1 = (Done (), t)"
    using accept_on_disk [OF r1(2)] r1(3) by (auto simp: empty_disk_def)
  have abs: "is_absolute (file_name_of ?f)" "\<not> path_exists (rq_fs ?r) (file_name_of ?f)"
    unfolding name by (simp_all add: is_absolute_def path_exists_def empty_disk_def)
  from absolute_name_escapes [OF r1(1) offer_parts _ _ abs W_keys t] have "rq_fs t ''/root/.profile'' = Some (FileNode [])"
    by (simp add: name)
  moreover have "get_download_dir W None = ''/downloads''" by (simp add: get_download_dir_def W_def)
  ultimately show ?thesis using name r1(1) t by blast
qed

end
