(* ===== verification/Spec2Isabelle.thy ===== *)
theory Spec2Isabelle
  imports Delivery InboundSafety Handshake FileSending OutboundStates Witnesses Manager FrontEnd
    Ble AppWitnesses SessionWitnesses ScreenWitnesses ConnectionWitnesses
begin

text \<open>
  A model of quickshare-gpui, a Quick Share (Nearby Share) client: two devices find each other
  with mDNS, open a TCP connection, agree on keys with UKEY2, and send files or texts over an
  encrypted channel after the receiving user agreed. The sources are Rust, below \<open>src/crates\<close>:
  the library \<open>core\<close>, the \<open>settings\<close>, and the window \<open>app\<close>.

  \<^bold>\<open>How the code becomes definitions.\<close> A struct is a record, an enum a datatype with the same
  constructors, an integer a word of its width, a string a list of characters and a path its
  string. A method that can fail, panic or change its object is a function from the state to an
  outcome and a state: \<open>Done\<close>, \<open>Fail\<close> for an \<open>Err\<close>, \<open>Panic\<close> for an \<open>unwrap\<close>,
  slice or allocation that aborts, \<open>NoFuel\<close> for a loop cut off by its fuel (\<open>Prelude\<close>).
  Early returns and the \<open>?\<close> operator are \<open>bind\<close>, so the state changes made before an error
  stay. A \<open>HashMap\<close> is an association list seen through the locale \<open>hash_map\<close>. A
  \<open>select!\<close> is a datatype of events, one for each branch and its result, and a task is run on a
  list of events: a theorem for all lists is a theorem for all interleavings.

  \<^bold>\<open>Tasks.\<close> A task that is modelled by its own state machine (a connection, the TCP server, the
  mDNS server, discovery, the advertisers) is a function of its events, with its ways to end: done,
  an error, a panic. \<open>Lifecycle\<close> models the service that spawns them: \<open>rqs_tasks\<close> are the tasks on
  its tracker that have not ended, \<open>rqs_connections\<close> counts the tasks of incoming connections,
  which are on no tracker and watch no token. That a task ends, told or by a failure of its own, is
  an event (\<open>happens\<close>), never a consequence of cancelling its token. A panic is the end of one task
  as in a debug build; in a release build (\<open>panic = "abort"\<close>) it ends the program.

  \<^bold>\<open>What is not under src\<close> is a field of the record \<open>env\<close> (\<open>Externals\<close>) or an argument:
  the generated protobuf codec, AES, HMAC, HKDF, SHA-512, elliptic curves, big integers, base64,
  random bytes, the order of a map's keys, failing or short reads and writes, the platform, the
  mDNS daemon, the network interfaces, JSON and Bluetooth. Randomness and faults are functions of
  the situation they occur in (the number of the draw, the path and cursor), so that a theorem for
  every environment covers every behaviour. What a theorem needs of them is a named hypothesis:
  \<open>codec_ok\<close> (what was encoded decodes to itself), \<open>aes_ok\<close>, \<open>rand_ok\<close>, \<open>base64_ok\<close>,
  \<open>key_order_ok\<close>, \<open>bigint_ok\<close>, \<open>kdf_ok\<close>, \<open>dh_ok\<close>, \<open>json_ok\<close> and \<open>no_faults\<close>.
  \<open>Instances\<close> gives an environment in which all of them hold.

  \<^bold>\<open>Theories and sources.\<close>
  \<^item> \<open>Prelude\<close>: outcomes and their sequencing, the locales \<open>step_rel\<close> and \<open>one_step\<close> that
    prove a relation between the states before and after a method from its calls, and the locale
    \<open>hash_map\<close>. \<open>Std\<close>: UTF-8, decimal numbers, byte orders. \<open>Paths\<close>: \<open>std::path\<close>.
  \<^item> \<open>Wire\<close>: the messages of the \<open>.proto\<close> files. \<open>Types\<close>: \<open>hdl/mod.rs\<close>,
    \<open>hdl/info.rs\<close>, \<open>channel.rs\<close>, \<open>errors.rs\<close>. \<open>Externals\<close>: the environment.
  \<^item> \<open>Utils\<close>, \<open>Endpoint\<close>: \<open>utils.rs\<close>, and what a device tells about itself.
  \<^item> \<open>Request\<close>: the fields and methods that \<open>hdl/inbound.rs\<close> and \<open>hdl/outbound.rs\<close>
    define with the same text (sending frames, sealing and opening secure messages, the state
    messages). \<open>SecureChannel\<close>: the channel as a queue, the locale \<open>framed_channel\<close>.
  \<^item> \<open>KeyExchange\<close>, \<open>Handshake\<close>: UKEY2 from both sides. \<open>Commitment\<close>: what the commitment of
    its first message is for.
  \<^item> \<open>Files\<close>: files on disk and the choice of a destination. \<open>Inbound\<close>: the methods of
    \<open>InboundRequest\<close> in the order of the file. \<open>Outbound\<close>: those of \<open>OutboundRequest\<close>.
  \<^item> \<open>InboundStates\<close>, \<open>InboundSafety\<close>, \<open>FileTransfer\<close>, \<open>OutboundStates\<close>,
    \<open>FileSending\<close>, \<open>Delivery\<close>: their properties. \<open>Panics\<close> and \<open>SenderPanics\<close>: every way in
    which a connection panics, with the locale \<open>kept_keys\<close>. \<open>Registry\<close>: the tables of files and buffers
    of both sides, with the locale \<open>entry_law\<close> for what an event does to an entry.
  \<^item> \<open>Session\<close>: both sides together over a network that delivers what the other side wrote, up to
    the question to the user. \<open>Transmission\<close>: the frames of a list of files from one side to the
    other. \<open>Completion\<close>: the acceptance and the rest of the session. \<open>EmptyFiles\<close>: the session in
    which a file is empty.
  \<^item> \<open>Manager\<close>: \<open>manager.rs\<close>. \<open>Connections\<close>: any number of its connection tasks on one disk.
    \<open>Lifecycle\<close>: \<open>lib.rs\<close>. \<open>MdnsServer\<close>:
    \<open>hdl/mdns.rs\<close>. \<open>Discovery\<close>: \<open>hdl/mdns_discovery.rs\<close>. \<open>Ble\<close>: \<open>hdl/ble.rs\<close>
    and \<open>hdl/blea.rs\<close>.
  \<^item> \<open>Settings\<close>: \<open>settings/src/lib.rs\<close>. \<open>AppState\<close>: \<open>state.rs\<close>,
    \<open>notification.rs\<close>. \<open>Views\<close>: the controls of \<open>views/\<close> and what they do.
    \<open>Rendering\<close>: the render functions of \<open>views/\<close>, as trees of elements. \<open>FrontEnd\<close>: library
    and window together. \<open>Startup\<close>: \<open>main.rs\<close> and the listeners of \<open>state.rs\<close>, with the
    program's steps from one start to the next.
  \<^item> \<open>Screens\<close>: what the two windows show of a session. \<open>Refusal\<close>: the session in which the
    user refuses. \<open>Interruption\<close>: the states in which a
    sender takes an event, with the locale \<open>sender_phases\<close> for what holds between two events, what the
    answer of the receiver leaves sent, and what a cancel does.
  \<^item> \<open>Serial\<close>, \<open>Instances\<close>, \<open>Witnesses\<close>, \<open>AppWitnesses\<close>, \<open>SessionWitnesses\<close>,
    \<open>ScreenWitnesses\<close>, \<open>ConnectionWitnesses\<close>: a concrete environment and a concrete case for every property with
    hypotheses.

  \<^bold>\<open>What the theorems show.\<close>
  \<^item> The whole session: two fresh connections that serve each other's bytes with their
    \<open>handle\<close> functions reach, without an error, the same PIN and the question to the
    receiving user about exactly the files of the sender. The number of frames each side serves in
    a turn is the script \<open>until_asked\<close>. When the user then accepts, both sides end in \<open>Finished\<close>
    and every announced file, if none is empty, is at its destination with the sender's bytes. When
    the user refuses, both sides end and no file has changed. A download directory that is not UTF-8
    makes the announcement fail instead (\<open>introduction_unprintable\<close>), so these theorems name that
    condition.
  \<^item> Tables: an entry of either side is filed under its own key, its open file is the one it names,
    the count of received bytes never exceeds the announced size, and no chunk panics the receiver
    once the user accepted.
  \<^item> Delivery: what \<open>encrypt_and_send\<close> seals is opened at the other end, in order and
    unchanged; sharing frames and file chunks reach the protocol; the bytes the sender reads from
    a file are the bytes the receiver stores.
  \<^item> Keys: both sides derive the same keys and PIN; a receiver has a PIN only for the public key
    its peer had committed to in the first message (\<open>keys_committed\<close>); a frame is accepted only when
    its tag, its initialization vector, its padding and its sequence number are right.
  \<^item> Consent: no file is created or written before the user accepted, and with any number of
    connections on one disk, served in any order, only destinations change that a connection had
    registered when the user accepted it (\<open>only_granted_paths_change\<close>); the user is asked with
    the names, the size and the sender of the announcement, and the answer reaches the connection
    it is meant for.
  \<^item> States: one call of \<open>handle\<close> makes at most one move of the protocol, a connection that
    ends does not end in silence, the advertising tasks follow the visibility, \<open>stop\<close> tells every
    task on the tracker and returns when these have ended, the servers end by a failure of their
    own only.
  \<^item> The window: the elements drawn offer exactly the controls of \<open>Views\<close>; the receiver is
    shown the sender's name, the PIN and the files it is asked about; from the start on the servers
    run, or have failed by themselves, with the directory and at most the visibility the user chose,
    and choices that can be written survive a restart.
  \<^item> Bounds and termination: no file grows beyond its announced size, the search for a free name
    ends, sending ends for a file that kept its length.
  \<^item> Defects, each as a theorem about the code as it is: inputs on which the receiver panics, a
    text that needs no consent, an announced name that leaves the download directory, a second
    connection whose acceptance empties the file of the first, a sending loop without end, an empty file that leaves the receiver
    waiting, a cancel that is served when everything was sent, a sender that is never shown the
    PIN, a visibility that ends unnoticed, a window without a way back, a discovery that cannot be
    stopped, incoming transfers that \<open>stop\<close> does not end, a directory that is not UTF-8. They are findings of the manifest. \<open>panics_known\<close> and \<open>out_panics_known\<close> say that
    the panics are complete: every other \<open>unwrap\<close>, index and slice of the two connections is safe.

  \<^bold>\<open>Fuel.\<close> Only the sending loop takes fuel, because it may not end: \<open>send_file_completes\<close>
  gives the fuel that is enough (one more than the bytes left), \<open>truncated_file_never_ends\<close> says
  when none is. A session needs fuel greater than the length of every file.

  \<^bold>\<open>Not modelled.\<close> Layout and colours of the window; the displayed percentage and speed
  (floating point numbers, kept as their operands); logging; the tokio runtime that \<open>main\<close> builds
  and the call of gpui that opens the window; \<open>actions.rs\<close>, a list of names that nothing handles;
  the printing of a number of bytes for the log. Cancellation in the middle of an \<open>await\<close> is modelled where
  \<open>select!\<close> drops a read of the length prefix (\<open>drop_partial_length\<close>); elsewhere an
  event is handled to its end, also when several connections share the disk (\<open>Connections\<close>).
  Arithmetic wraps as it does in the release profile. Two path strings that a real file system resolves to the same file
  are different files here.
\<close>

end
